(* ===== verification/Go_Prelude.thy ===== *)
theory Go_Prelude
  imports Main "HOL-Library.Word" "HOL-Library.Monad_Syntax" "HOL-Library.AList"
begin

text \<open>
  Shared vocabulary of the development.

  Go values. A Go \<open>byte\<close>, \<open>uint16\<close>, \<open>uint32\<close>, \<open>uint64\<close> is a word of that width; a Go
  \<open>int\<close> used as a length or an offset is a HOL \<open>int\<close> (all of them stay far below
  \<open>2^63\<close>, so the 64-bit bound never matters for offsets into a buffer). A byte slice is a list
  of bytes.

  Panics and errors. A Go expression that may panic at run time (an index or slice
  expression out of range) has an \<open>option\<close> type, and \<open>None\<close> is the panic; \<open>do\<close>-notation
  propagates it exactly as the Go run time does. A Go function that returns
  \<open>(T, error)\<close> has the result type \<open>ts_error + T\<close> inside that option, and error
  returns are written out, as in the source. Slice expressions are bounded by the
  slice's length. (Go bounds the upper index by the capacity; on every slice whose
  bounds are shown here to be in range the two agree.)

  Go maps are association lists with distinct keys; \<open>map_of\<close> is the lookup,
  \<open>AList.update\<close> the store and \<open>AList.delete\<close> the \<open>delete\<close> built-in.
\<close>

unbundle bit_operations_syntax

section \<open>Types\<close>

type_synonym u8 = "8 word"
type_synonym u16 = "16 word"
type_synonym u32 = "32 word"
type_synonym u64 = "64 word"
type_synonym bytes = "u8 list"

datatype ts_error =
    ErrInvalidSection
  | ErrUnexpectedTag u8
  | ErrInvalidPMTPID u16
  | ErrDecodeString
  | ErrDSMCCCarouselBudgetExceeded
  | ErrShortBuffer
  | ErrEOF
  | ErrRead

type_synonym 'a go = "'a option"
type_synonym 'a res = "(ts_error + 'a) option"
type_synonym ('k, 'v) gomap = "('k \<times> 'v) list"

named_theorems go_simps \<open>evaluation of index and slice expressions\<close>
named_theorems go_bounds \<open>bounds of values read from bytes\<close>

section \<open>Index and slice expressions\<close>

abbreviation blen :: "'a list \<Rightarrow> int" where
  "blen xs \<equiv> int (length xs)"

definition idx :: "'a list \<Rightarrow> int \<Rightarrow> 'a go" where
  "idx xs i = (if 0 \<le> i \<and> i < blen xs then Some (xs ! nat i) else None)"

definition slice :: "'a list \<Rightarrow> int \<Rightarrow> int \<Rightarrow> 'a list go" where
  "slice xs a b = (if 0 \<le> a \<and> a \<le> b \<and> b \<le> blen xs
     then Some (take (nat (b - a)) (drop (nat a) xs)) else None)"

lemma idx_in [simp, go_simps]: "0 \<le> i \<Longrightarrow> i < blen xs \<Longrightarrow> idx xs i = Some (xs ! nat i)"
  by (simp add: idx_def)

lemma idx_None_iff [simp]: "idx xs i = None \<longleftrightarrow> i < 0 \<or> blen xs \<le> i"
  by (auto simp: idx_def)

lemma idx_SomeD: "idx xs i = Some x \<Longrightarrow> 0 \<le> i \<and> i < blen xs \<and> x = xs ! nat i"
  by (simp add: idx_def split: if_splits)

lemma slice_in [simp, go_simps]:
  "0 \<le> a \<Longrightarrow> a \<le> b \<Longrightarrow> b \<le> blen xs \<Longrightarrow> slice xs a b = Some (take (nat (b - a)) (drop (nat a) xs))"
  by (simp add: slice_def)

lemma slice_None_iff [simp]: "slice xs a b = None \<longleftrightarrow> a < 0 \<or> b < a \<or> blen xs < b"
  by (auto simp: slice_def)

lemma slice_SomeD:
  "slice xs a b = Some ys \<Longrightarrow> 0 \<le> a \<and> a \<le> b \<and> b \<le> blen xs \<and> blen ys = b - a"
  by (auto simp: slice_def split: if_splits)

lemma slice_SomeE:
  assumes "slice xs a b = Some ys"
  obtains "0 \<le> a" "a \<le> b" "b \<le> blen xs" "ys = take (nat (b - a)) (drop (nat a) xs)"
  using assms by (auto simp: slice_def split: if_splits)

lemma slice_full [simp]: "slice xs 0 (blen xs) = Some xs"
  by (simp add: slice_def)

text \<open>Two adjacent slices make up the slice over both.\<close>

lemma take_drop_glue:
  "a \<le> b \<Longrightarrow> b \<le> c \<Longrightarrow>
   take (b - a) (drop a xs) @ take (c - b) (drop b xs) = take (c - a) (drop a xs)"
  for a b c :: nat
proof -
  assume ab: "a \<le> b" and bc: "b \<le> c"
  have "take (c - a) (drop a xs) = take ((b - a) + (c - b)) (drop a xs)"
    using ab bc by simp
  also have "\<dots> = take (b - a) (drop a xs) @ take (c - b) (drop (b - a) (drop a xs))"
    by (rule take_add)
  finally show ?thesis using ab by simp
qed

lemma take_drop_split: "n \<le> m \<Longrightarrow> take (m - n) (drop n xs) @ drop m xs = drop n xs"
  by (metis append_take_drop_id drop_drop le_add_diff_inverse2)

section \<open>Total correctness of code that may panic\<close>

text \<open>
  \<open>go_ok m P\<close>: the computation \<open>m\<close> does not panic and its result satisfies \<open>P\<close>. The
  equations in \<open>go_wp\<close> turn such a statement into its verification condition.
\<close>

definition go_ok :: "'a go \<Rightarrow> ('a \<Rightarrow> bool) \<Rightarrow> bool" where
  "go_ok m P \<longleftrightarrow> (\<exists>x. m = Some x \<and> P x)"

named_theorems go_wp \<open>verification conditions of computations that may panic\<close>

lemma go_ok_Some [simp, go_wp]: "go_ok (Some x) P \<longleftrightarrow> P x"
  by (simp add: go_ok_def)

lemma go_ok_None [simp, go_wp]: "\<not> go_ok None P"
  by (simp add: go_ok_def)

lemma go_ok_bind [go_wp]: "go_ok (m \<bind> f) P \<longleftrightarrow> go_ok m (\<lambda>x. go_ok (f x) P)"
  by (cases m) simp_all

lemma go_ok_if [go_wp]: "go_ok (if c then m else n) P \<longleftrightarrow> (if c then go_ok m P else go_ok n P)"
  by simp

lemma go_ok_idx [go_wp]: "go_ok (idx xs i) P \<longleftrightarrow> 0 \<le> i \<and> i < blen xs \<and> P (xs ! nat i)"
  by (auto simp: idx_def)

lemma go_ok_slice [go_wp]:
  "go_ok (slice xs a b) P \<longleftrightarrow> 0 \<le> a \<and> a \<le> b \<and> b \<le> blen xs \<and> P (take (nat (b - a)) (drop (nat a) xs))"
  by (auto simp: slice_def)

lemma go_ok_case_prod [go_wp]: "go_ok (case x of (a, b) \<Rightarrow> f a b) P = (case x of (a, b) \<Rightarrow> go_ok (f a b) P)"
  by (cases x) simp

lemma go_ok_mono: "go_ok m P \<Longrightarrow> (\<And>x. P x \<Longrightarrow> Q x) \<Longrightarrow> go_ok m Q"
  by (auto simp: go_ok_def)

lemma go_ok_returns: "go_ok m P \<Longrightarrow> m \<noteq> None"
  by (auto simp: go_ok_def)

lemma go_okD: "go_ok m P \<Longrightarrow> m = Some x \<Longrightarrow> P x"
  by (simp add: go_ok_def)

text \<open>
  The Go idiom \<open>x, err := f(); if err != nil { return nil, err }\<close>: an error result is returned
  as it is, a value is passed on.
\<close>

abbreviation res_ok :: "'a \<Rightarrow> 'a res" where
  "res_ok x \<equiv> Some (Inr x)"

abbreviation res_err :: "ts_error \<Rightarrow> 'a res" where
  "res_err e \<equiv> Some (Inl e)"

definition res_bind :: "'a res \<Rightarrow> ('a \<Rightarrow> 'b res) \<Rightarrow> 'b res" where
  "res_bind m f = (case m of None \<Rightarrow> None | Some (Inl e) \<Rightarrow> Some (Inl e) | Some (Inr x) \<Rightarrow> f x)"

lemma res_bind_simps [simp, go_simps]:
  "res_bind (Some (Inr x)) f = f x" "res_bind (Some (Inl e)) f = Some (Inl e)" "res_bind None f = None"
  by (simp_all add: res_bind_def)

lemma res_bind_ok_iff: "res_bind m f = Some (Inr y) \<longleftrightarrow> (\<exists>x. m = Some (Inr x) \<and> f x = Some (Inr y))"
  by (auto simp: res_bind_def split: option.splits sum.splits)

lemma res_bind_cong [fundef_cong]:
  "m = m' \<Longrightarrow> (\<And>x. m' = Some (Inr x) \<Longrightarrow> f x = g x) \<Longrightarrow> res_bind m f = res_bind m' g"
  by (auto simp: res_bind_def split: option.splits sum.splits)

lemma go_ok_res_bind [go_wp]:
  "go_ok (res_bind m f) P \<longleftrightarrow>
     go_ok m (\<lambda>r. (\<forall>e. r = Inl e \<longrightarrow> P (Inl e)) \<and> (\<forall>x. r = Inr x \<longrightarrow> go_ok (f x) P))"
  by (auto simp: res_bind_def go_ok_def split: option.splits sum.splits)

lemma case_sum_True [simp, go_wp]: "(case r of Inl e \<Rightarrow> True | Inr x \<Rightarrow> True)"
  by (cases r) simp_all

section \<open>Big-endian reads\<close>

definition be16 :: "u8 \<Rightarrow> u8 \<Rightarrow> u16" where
  "be16 hi lo = push_bit 8 (ucast hi) OR ucast lo"

definition be32 :: "u8 \<Rightarrow> u8 \<Rightarrow> u8 \<Rightarrow> u8 \<Rightarrow> u32" where
  "be32 a b c d = push_bit 24 (ucast a) OR push_bit 16 (ucast b) OR push_bit 8 (ucast c) OR ucast d"

text \<open>A 12-bit length field: \<open>int(uint16(hi&0x0f)<<8 | uint16(lo))\<close>.\<close>

definition len12 :: "u8 \<Rightarrow> u8 \<Rightarrow> int" where
  "len12 hi lo = uint (be16 (hi AND 0x0f) lo)"

text \<open>A 13-bit PID field: \<open>uint16(hi&0x1f)<<8 | uint16(lo)\<close>.\<close>

definition pid13 :: "u8 \<Rightarrow> u8 \<Rightarrow> u16" where
  "pid13 hi lo = be16 (hi AND 0x1f) lo"

definition len8 :: "u8 \<Rightarrow> int" where
  "len8 b = uint b"

lemma len8_bounds [simp, go_bounds]: "0 \<le> len8 b" "len8 b < 256" "len8 b \<le> 255"
  using uint_bounded [of b] by (simp_all add: len8_def)

lemma len8_add_nonneg [simp]: "0 \<le> c \<Longrightarrow> 0 \<le> c + len8 b" "0 \<le> c \<Longrightarrow> \<not> c + len8 b < 0"
  using len8_bounds(1) [of b] by linarith+

lemma len8_of_nat: "n < 256 \<Longrightarrow> len8 (word_of_nat n) = int n"
  by (simp add: len8_def uint_nat unsigned_of_nat take_bit_nat_eq_self)

lemma or_disjoint_add: "(a :: 'a::len word) AND b = 0 \<Longrightarrow> a OR b = a + b"
  by (simp add: disjunctive_add_eq_or)

lemma be16_add: "be16 hi lo = push_bit 8 (ucast hi) + ucast lo"
proof -
  have "(push_bit 8 (ucast hi) :: u16) AND ucast lo = 0"
    by (rule bit_word_eqI) (auto simp: bit_simps dest: bit_imp_le_length)
  then show ?thesis
    unfolding be16_def by (rule or_disjoint_add)
qed

lemma uint_be16: "uint (be16 hi lo) = 256 * uint hi + uint lo"
proof -
  have "uint lo < 256" and "uint hi < 256" and "0 \<le> uint lo" and "0 \<le> uint hi"
    using uint_bounded [of lo] uint_bounded [of hi] by simp_all
  then show ?thesis
    by (simp add: be16_add uint_word_ariths push_bit_eq_mult uint_up_ucast is_up)
qed

lemma uint_and_le: "uint (x AND m) \<le> uint m"
  for x m :: "'a::len word"
  using word_and_le1 [of x m] by (simp add: word_le_def)

lemma len12_bounds [simp, go_bounds]: "0 \<le> len12 hi lo" "len12 hi lo < 4096" "len12 hi lo \<le> 4095"
proof -
  have "uint (hi AND 0x0f) \<le> 15" and "uint lo < 256"
    using uint_and_le [of hi "0x0f"] uint_bounded [of lo] by simp_all
  then show "0 \<le> len12 hi lo" "len12 hi lo < 4096" "len12 hi lo \<le> 4095"
    by (simp_all add: len12_def uint_be16)
qed

lemma len12_add_nonneg [simp]: "0 \<le> c \<Longrightarrow> 0 \<le> c + len12 a b" "0 \<le> c \<Longrightarrow> \<not> c + len12 a b < 0"
  using len12_bounds(1) [of a b] by linarith+

lemma uint_be16_bounds [simp, go_bounds]: "uint (be16 hi lo) < 65536" "uint (be16 hi lo) \<le> 65535"
  using uint_bounded [of "be16 hi lo"] by simp_all

lemma pid13_le: "pid13 hi lo \<le> 0x1fff"
proof -
  have "uint (hi AND 0x1f) \<le> 31" and "uint lo < 256"
    using uint_and_le [of hi "0x1f"] uint_bounded [of lo] by simp_all
  then show ?thesis
    by (simp add: pid13_def word_le_def uint_be16)
qed

section \<open>Big-endian writes\<close>

definition hi8 :: "u16 \<Rightarrow> u8" where
  "hi8 w = ucast (drop_bit 8 w)"

definition lo8 :: "u16 \<Rightarrow> u8" where
  "lo8 w = ucast w"

lemma be16_hi_lo [simp]: "be16 (hi8 w) (lo8 w) = w"
  unfolding be16_def hi8_def lo8_def
  by (rule bit_word_eqI) (auto simp: bit_simps dest: bit_imp_le_length)

lemma hi8_be16 [simp]: "hi8 (be16 hi lo) = hi"
  unfolding be16_def hi8_def
  by (rule bit_word_eqI) (auto simp: bit_simps dest: bit_imp_le_length)

lemma lo8_be16 [simp]: "lo8 (be16 hi lo) = lo"
  unfolding be16_def lo8_def
  by (rule bit_word_eqI) (auto simp: bit_simps dest: bit_imp_le_length)

lemma be16_inject [simp]: "be16 a b = be16 c d \<longleftrightarrow> a = c \<and> b = d"
  by (metis hi8_be16 lo8_be16)

definition b32 :: "u32 \<Rightarrow> bytes" where
  "b32 w = [ucast (drop_bit 24 w), ucast (drop_bit 16 w), ucast (drop_bit 8 w), ucast w]"

lemma bit_u8_high: "8 \<le> n \<Longrightarrow> \<not> bit (w :: u8) n"
  by (auto dest: bit_imp_le_length)

lemma be32_b32 [simp]:
  "be32 (ucast (drop_bit 24 w)) (ucast (drop_bit 16 w)) (ucast (drop_bit 8 w)) (ucast w) = w"
proof (rule bit_word_eqI)
  fix n assume "n < LENGTH(32)"
  then consider "n < 8" | "8 \<le> n" "n < 16" | "16 \<le> n" "n < 24" | "24 \<le> n" "n < 32" by fastforce
  then show "bit (be32 (ucast (drop_bit 24 w)) (ucast (drop_bit 16 w)) (ucast (drop_bit 8 w)) (ucast w)) n = bit w n"
    by cases (auto simp: be32_def bit_simps)
qed

lemma b32_be32 [simp]: "b32 (be32 a b c d) = [a, b, c, d]"
proof -
  have "ucast (drop_bit 24 (be32 a b c d)) = a" 
    by (rule bit_word_eqI) (simp add: be32_def bit_simps bit_u8_high)
  moreover have "ucast (drop_bit 16 (be32 a b c d)) = b"
    by (rule bit_word_eqI) (simp add: be32_def bit_simps bit_u8_high)
  moreover have "ucast (drop_bit 8 (be32 a b c d)) = c" 
    by (rule bit_word_eqI) (simp add: be32_def bit_simps bit_u8_high)
  moreover have "ucast (be32 a b c d) = d"
    by (rule bit_word_eqI) (simp add: be32_def bit_simps bit_u8_high)
  ultimately show ?thesis by (simp add: b32_def)
qed

lemma be32_inject [simp]: "be32 a b c d = be32 a' b' c' d' \<longleftrightarrow> a = a' \<and> b = b' \<and> c = c' \<and> d = d'"
  by (auto dest: arg_cong [where f = b32])

lemma length_b32 [simp]: "length (b32 w) = 4"
  by (simp add: b32_def)

section \<open>Exclusive or\<close>

lemma xor_cancel_right [simp]: "x XOR z = y XOR z \<longleftrightarrow> x = y" for x y z :: "'a::len word"
  by (metis xor.assoc xor_self_eq xor.right_neutral)

lemma xor_eq_0_iff: "x XOR y = 0 \<longleftrightarrow> x = y" for x y :: "'a::len word"
  by (metis xor_cancel_right xor_self_eq)

section \<open>Go maps\<close>

text \<open>What is in a map after one or many assignments, and after a deletion.\<close>

lemma set_AList_update: "e \<in> set (AList.update k v xs) \<Longrightarrow> e = (k, v) \<or> e \<in> set xs"
  by (induction xs) (auto split: if_splits)

lemma fold_update_set: "e \<in> set (fold (\<lambda>(k, v). AList.update k v) xs ys) \<Longrightarrow> e \<in> set xs \<or> e \<in> set ys"
  by (induction xs arbitrary: ys) (auto dest!: set_AList_update)

lemma fold_update_distinct: "distinct (map fst ys) \<Longrightarrow> distinct (map fst (fold (\<lambda>(k, v). AList.update k v) xs ys))"
  by (induction xs arbitrary: ys) (auto simp: distinct_update)

lemma set_update_subset: "set (AList.update k v m) \<subseteq> insert (k, v) (set m)"
  by (induction m) auto

lemma length_delete_less: "map_of m k = Some v \<Longrightarrow> length (AList.delete k m) < length m"
  by (induction m) (auto simp: AList.delete_eq intro: le_imp_less_Suc split: if_splits)

section \<open>First elements\<close>

lemma find_prop: "find p xs = Some x \<Longrightarrow> x \<in> set xs \<and> p x"
  by (auto simp: find_Some_iff)

lemma find_append: "find p (xs @ ys) = (case find p xs of None \<Rightarrow> find p ys | Some x \<Rightarrow> Some x)"
  by (induction xs) auto

lemma find_cong_set: "(\<And>x. x \<in> set xs \<Longrightarrow> p x = q x) \<Longrightarrow> find p xs = find q xs"
  by (induction xs) auto

lemma find_row_map: "find p (map f xs) = map_option f (find (\<lambda>x. p (f x)) xs)"
  by (induction xs) auto

lemma find_row_None: "find (\<lambda>r. f r = i) rows = None \<longleftrightarrow> i \<notin> f ` set rows"
  by (auto simp: find_None_iff)

lemma find_row_Some: "distinct (map f rows) \<Longrightarrow> find (\<lambda>r. f r = i) rows = Some r \<longleftrightarrow> r \<in> set rows \<and> f r = i"
  by (induction rows) auto

lemma find_row_filter:
  assumes "distinct (map f rows)"
  shows "find (\<lambda>r. f r = i) (filter q rows) = (case find (\<lambda>r. f r = i) rows of None \<Rightarrow> None | Some r \<Rightarrow> if q r then Some r else None)"
  using assms by (induction rows) (auto split: option.splits dest!: find_prop)

end
