(* ===== verification/TS_Packet.thy ===== *)
theory TS_Packet
  imports Go_Prelude "HOL-Library.Stream"
begin

text \<open>
  Transport-stream packets, \<open>ts/packet.go\<close>: the header accessors of \<open>Packet\<close> and the
  resynchronising \<open>PacketReader\<close>. The accessors index the packet, so each of them
  is an option; the lemmas show that no accessor panics on a 188-byte packet and where
  the payload lies. The reader is a record holding its buffer, its stride, its EOF flag
  and the infinite stream of the results its \<open>io.Reader\<close> will still produce. Since such a
  reader need never report the end of file, \<open>detectPacket\<close> and \<open>NextInto\<close> are functions that
  may not return (\<open>partial_function (option)\<close>); what they return is shown right for every
  reader, and that they return for every reader that ever reports the end of file.
\<close>

section \<open>Packet header accessors\<close>

definition PacketSize :: int where
  "PacketSize = 188"

definition packetSizeWithTimestamp :: int where
  "packetSizeWithTimestamp = 192"

definition packetSizeWithParity :: int where
  "packetSizeWithParity = 204"

definition SyncByte :: u8 where
  "SyncByte = 0x47"

lemmas packet_consts [simp] = PacketSize_def packetSizeWithTimestamp_def packetSizeWithParity_def

type_synonym packet = bytes

definition Packet_TransportErrorIndicator :: "packet \<Rightarrow> bool go" where
  "Packet_TransportErrorIndicator p = do { b \<leftarrow> idx p 1; Some (b AND 0x80 \<noteq> 0) }"

definition Packet_PayloadUnitStartIndicator :: "packet \<Rightarrow> bool go" where
  "Packet_PayloadUnitStartIndicator p = do { b \<leftarrow> idx p 1; Some (b AND 0x40 \<noteq> 0) }"

definition Packet_Priority :: "packet \<Rightarrow> bool go" where
  "Packet_Priority p = do { b \<leftarrow> idx p 1; Some (b AND 0x20 \<noteq> 0) }"

definition Packet_PID :: "packet \<Rightarrow> u16 go" where
  "Packet_PID p = do { hi \<leftarrow> idx p 1; lo \<leftarrow> idx p 2; Some (pid13 hi lo) }"

definition adaptation_control :: "u8 \<Rightarrow> u8" where
  "adaptation_control b = drop_bit 4 b AND 0x03"

definition Packet_HasAdaptationField :: "packet \<Rightarrow> bool go" where
  "Packet_HasAdaptationField p = do { b \<leftarrow> idx p 3; Some (2 \<le> adaptation_control b) }"

definition Packet_HasPayload :: "packet \<Rightarrow> bool go" where
  "Packet_HasPayload p = do { b \<leftarrow> idx p 3; Some (adaptation_control b = 1 \<or> adaptation_control b = 3) }"

definition Packet_ContinuityCounter :: "packet \<Rightarrow> u8 go" where
  "Packet_ContinuityCounter p = do { b \<leftarrow> idx p 3; Some (b AND 0x0f) }"

definition Packet_AdaptationFieldLength :: "packet \<Rightarrow> int go" where
  "Packet_AdaptationFieldLength p =
     (if blen p < PacketSize then Some 0
      else do {
        has \<leftarrow> Packet_HasAdaptationField p;
        if \<not> has then Some 0 else do { b \<leftarrow> idx p 4; Some (len8 b) } })"

definition Packet_DiscontinuityIndicator :: "packet \<Rightarrow> bool go" where
  "Packet_DiscontinuityIndicator p =
     (if blen p < PacketSize then Some False
      else do {
        has \<leftarrow> Packet_HasAdaptationField p;
        if \<not> has then Some False
        else do {
          n \<leftarrow> Packet_AdaptationFieldLength p;
          if n < 1 then Some False else do { b \<leftarrow> idx p 5; Some (b AND 0x80 \<noteq> 0) } } })"

definition Packet_PayloadOffset :: "packet \<Rightarrow> int go" where
  "Packet_PayloadOffset p = do {
     has \<leftarrow> Packet_HasAdaptationField p;
     if \<not> has then Some 4 else do { n \<leftarrow> Packet_AdaptationFieldLength p; Some (5 + n) } }"

definition Packet_ValidPayloadOffset :: "packet \<Rightarrow> bool go" where
  "Packet_ValidPayloadOffset p =
     (if blen p < PacketSize then Some False
      else do {
        has \<leftarrow> Packet_HasAdaptationField p;
        if \<not> has then Some True
        else do { off \<leftarrow> Packet_PayloadOffset p; Some (\<not> off > PacketSize) } })"

text \<open>A nil slice is the empty list.\<close>

definition Packet_Payload :: "packet \<Rightarrow> bytes go" where
  "Packet_Payload p = do {
     has \<leftarrow> Packet_HasPayload p;
     if \<not> has then Some []
     else do {
       ok \<leftarrow> Packet_ValidPayloadOffset p;
       if \<not> ok then Some []
       else do { off \<leftarrow> Packet_PayloadOffset p; slice p off (blen p) } } }"

definition Packet_IsNull :: "packet \<Rightarrow> bool go" where
  "Packet_IsNull p = do { pid \<leftarrow> Packet_PID p; Some (pid = 0x1fff) }"

definition Packet_ProgramClockReference :: "packet \<Rightarrow> (u64 \<times> u16 \<times> bool) go" where
  "Packet_ProgramClockReference p =
     (if blen p < PacketSize then Some (0, 0, False)
      else do {
        has \<leftarrow> Packet_HasAdaptationField p;
        if \<not> has then Some (0, 0, False)
        else do {
          n \<leftarrow> Packet_AdaptationFieldLength p;
          if n < 7 then Some (0, 0, False)
          else do {
            flags \<leftarrow> idx p 5;
            if flags AND 0x10 = 0 then Some (0, 0, False)
            else do {
              b6 \<leftarrow> idx p 6; b7 \<leftarrow> idx p 7; b8 \<leftarrow> idx p 8; b9 \<leftarrow> idx p 9; b10 \<leftarrow> idx p 10; b11 \<leftarrow> idx p 11;
              Some (push_bit 25 (ucast b6) OR push_bit 17 (ucast b7) OR push_bit 9 (ucast b8)
                      OR push_bit 1 (ucast b9) OR ucast (drop_bit 7 b10),
                    push_bit 8 (ucast (b10 AND 1)) OR ucast b11,
                    True) } } } })"

lemmas packet_defs =
  Packet_TransportErrorIndicator_def Packet_PayloadUnitStartIndicator_def Packet_Priority_def
  Packet_PID_def Packet_HasAdaptationField_def Packet_HasPayload_def Packet_ContinuityCounter_def
  Packet_AdaptationFieldLength_def Packet_DiscontinuityIndicator_def Packet_PayloadOffset_def
  Packet_ValidPayloadOffset_def Packet_Payload_def Packet_IsNull_def
  Packet_ProgramClockReference_def

text \<open>
  The header is four bytes: with four bytes the header accessors return, and with 188
  bytes all of them do.
\<close>

lemma header_accessors_in_range:
  assumes "4 \<le> length p"
  shows "Packet_TransportErrorIndicator p = Some (p ! 1 AND 0x80 \<noteq> 0)"
    and "Packet_PayloadUnitStartIndicator p = Some (p ! 1 AND 0x40 \<noteq> 0)"
    and "Packet_PID p = Some (pid13 (p ! 1) (p ! 2))"
    and "Packet_HasAdaptationField p = Some (2 \<le> adaptation_control (p ! 3))"
    and "Packet_HasPayload p = Some (adaptation_control (p ! 3) = 1 \<or> adaptation_control (p ! 3) = 3)"
    and "Packet_ContinuityCounter p = Some (p ! 3 AND 0x0f)"
    and "Packet_IsNull p = Some (pid13 (p ! 1) (p ! 2) = 0x1fff)"
  using assms by (simp_all add: packet_defs)

lemma payload_accessors_in_range:
  assumes "length p = 188"
  shows "Packet_AdaptationFieldLength p =
           Some (if 2 \<le> adaptation_control (p ! 3) then len8 (p ! 4) else 0)"
    and "Packet_PayloadOffset p =
           Some (if 2 \<le> adaptation_control (p ! 3) then 5 + len8 (p ! 4) else 4)"
    and "Packet_ValidPayloadOffset p =
           Some (\<not> (2 \<le> adaptation_control (p ! 3) \<and> 183 < len8 (p ! 4)))"
  using assms by (auto simp: packet_defs)

lemma Packet_Payload_in_range:
  assumes "length p = 188"
  shows "\<exists>pl. Packet_Payload p = Some pl \<and> length pl \<le> 184 \<and> (\<exists>k\<ge>4. pl = drop k p)"
proof (cases "Packet_Payload p")
  case None
  then show ?thesis
    unfolding Packet_Payload_def using assms
    by (auto simp: header_accessors_in_range payload_accessors_in_range split: if_splits)
next
  case (Some pl)
  have off: "4 \<le> nat (5 + len8 b)" for b
    using len8_bounds(1) [of b] by linarith
  have "pl = [] \<or> (\<exists>k\<ge>4. pl = drop k p)"
    using Some assms off unfolding Packet_Payload_def
    by (auto simp: header_accessors_in_range payload_accessors_in_range slice_def split: if_splits)
  moreover have "[] = drop 188 p" using assms by simp
  ultimately have "\<exists>k\<ge>4. pl = drop k p"
    by (metis (mono_tags) numeral_le_iff semiring_norm(68) semiring_norm(71))
  then show ?thesis using Some assms by auto
qed

section \<open>PacketReader\<close>

text \<open>
  An \<open>io.Reader\<close> is the stream of the results its next \<open>Read\<close> calls give: the bytes read
  and the error, if any. Nothing is assumed of the stream: a reader may fail or return no
  bytes for ever and need not report the end of file. The scratch buffer \<open>tmp\<close> carries no
  state from one call to the next and is left out.
\<close>

type_synonym read_results = "(bytes \<times> ts_error option) stream"

record PacketReader =
  pr_r :: read_results
  pr_buf :: bytes
  pr_stride :: int
  pr_eof :: bool

definition NewPacketReader :: "read_results \<Rightarrow> PacketReader" where
  "NewPacketReader r = \<lparr> pr_r = r, pr_buf = [], pr_stride = 0, pr_eof = False \<rparr>"

definition minDetectBytes :: int where
  "minDetectBytes = 4 * packetSizeWithParity"

text \<open>The loop of \<open>fill\<close> ends for every reader: each further turn has read at least one byte.\<close>

function fill_loop :: "int \<Rightarrow> read_results \<Rightarrow> bytes \<Rightarrow> bool \<Rightarrow> read_results \<times> bytes \<times> bool \<times> ts_error option" where
  "fill_loop mn rs buf eof =
     (if eof \<or> \<not> blen buf < mn then (rs, buf, eof, None)
      else case shd rs of (d, err) \<Rightarrow>
        (case err of
           Some e \<Rightarrow> if e = ErrEOF then (stl rs, buf @ d, True, None) else (stl rs, buf @ d, eof, Some e)
         | None \<Rightarrow> if d = [] then (stl rs, buf @ d, eof, None) else fill_loop mn (stl rs) (buf @ d) eof))"
  by pat_completeness auto
termination
  by (relation "measure (\<lambda>(mn, rs, buf, eof). nat (mn - blen buf))") auto

declare fill_loop.simps [simp del]

definition PacketReader_fill :: "int \<Rightarrow> PacketReader \<Rightarrow> PacketReader \<times> ts_error option" where
  "PacketReader_fill mn pr =
     (let (rs, buf, eof, err) = fill_loop mn (pr_r pr) (pr_buf pr) (pr_eof pr);
          pr' = pr\<lparr> pr_r := rs, pr_buf := buf, pr_eof := eof \<rparr>
      in case err of
           Some e \<Rightarrow> (pr', Some e)
         | None \<Rightarrow> (pr', if buf = [] \<and> eof then Some ErrEOF else None))"

text \<open>The loop of \<open>packetReadyAt\<close> that looks for up to three further sync bytes.\<close>

function sync_checks :: "bytes \<Rightarrow> int \<Rightarrow> int \<Rightarrow> int \<Rightarrow> int option go" where
  "sync_checks buf stride nxt checks =
     (if nxt < blen buf \<and> checks < 3
      then do {
        b \<leftarrow> idx buf nxt;
        if b \<noteq> SyncByte then Some None else sync_checks buf stride (nxt + stride) (checks + 1) }
      else Some (Some checks))"
  by pat_completeness auto
termination by (relation "measure (\<lambda>(_, _, _, c). nat (3 - c))") auto

declare sync_checks.simps [simp del]

definition syncOffset :: "int \<Rightarrow> int" where
  "syncOffset stride = (if stride = packetSizeWithTimestamp then 4 else 0)"

definition ready_checks :: "int \<Rightarrow> int \<Rightarrow> PacketReader \<Rightarrow> (PacketReader \<times> bool) go" where
  "ready_checks pos stride pr =
     (if blen (pr_buf pr) - pos < stride then Some (pr, False)
      else do {
        c \<leftarrow> sync_checks (pr_buf pr) stride (pos + stride + syncOffset stride) 0;
        Some (pr, case c of None \<Rightarrow> False | Some checks \<Rightarrow> 0 < checks \<or> pr_eof pr) })"

definition PacketReader_packetReadyAt :: "int \<Rightarrow> int \<Rightarrow> PacketReader \<Rightarrow> (PacketReader \<times> bool) go" where
  "PacketReader_packetReadyAt pos stride pr =
     (if pos + syncOffset stride \<ge> blen (pr_buf pr) then Some (pr, False)
      else do {
        b \<leftarrow> idx (pr_buf pr) (pos + syncOffset stride);
        if b \<noteq> SyncByte then Some (pr, False)
        else ready_checks pos stride
               (if blen (pr_buf pr) - pos < stride \<and> \<not> pr_eof pr
                then fst (PacketReader_fill (pos + stride) pr) else pr) })"

text \<open>
  \<open>fill\<close> only moves bytes from the reader to the buffer. \<open>pr_ahead k\<close> is the buffer followed
  by what the next \<open>k\<close> reads give; \<open>pr_moved k\<close> says that a method has made \<open>k\<close> reads,
  appended what they gave to the buffer, and made no read after one that reported the end of
  file.
\<close>

definition pr_ahead :: "nat \<Rightarrow> PacketReader \<Rightarrow> bytes" where
  "pr_ahead k pr = pr_buf pr @ concat (map fst (stake k (pr_r pr)))"

definition eof_within :: "nat \<Rightarrow> read_results \<Rightarrow> bool" where
  "eof_within k rs \<longleftrightarrow> (\<exists>i < k. snd (rs !! i) = Some ErrEOF)"

definition pr_moved :: "nat \<Rightarrow> PacketReader \<Rightarrow> PacketReader \<Rightarrow> bool" where
  "pr_moved k pr pr' \<longleftrightarrow> pr_r pr' = sdrop k (pr_r pr) \<and> pr_buf pr' = pr_ahead k pr
     \<and> pr_stride pr' = pr_stride pr \<and> (pr_eof pr \<longrightarrow> k = 0) \<and> \<not> eof_within (k - 1) (pr_r pr)
     \<and> (pr_eof pr' \<longleftrightarrow> pr_eof pr \<or> eof_within k (pr_r pr))"

lemma eof_within_0 [simp]: "\<not> eof_within 0 rs"
  by (simp add: eof_within_def)

lemma eof_within_Suc: "eof_within (Suc k) rs \<longleftrightarrow> snd (shd rs) = Some ErrEOF \<or> eof_within k (stl rs)"
  unfolding eof_within_def by (auto simp: less_Suc_eq_0_disj)



lemma pr_ahead_0 [simp]: "pr_ahead 0 pr = pr_buf pr"
  by (simp add: pr_ahead_def)

lemma pr_moved_refl [simp]: "pr_moved 0 pr pr"
  by (simp add: pr_moved_def)



lemma fill_loop_spec:
  "fill_loop mn rs buf eof = (rs', buf', eof', err) \<Longrightarrow>
     \<exists>k. rs' = sdrop k rs \<and> buf' = buf @ concat (map fst (stake k rs)) \<and> (eof \<longrightarrow> k = 0)
       \<and> \<not> eof_within (k - 1) rs \<and> (eof' \<longleftrightarrow> eof \<or> eof_within k rs)
       \<and> (\<not> eof \<and> blen buf < mn \<longrightarrow> 0 < k)"
proof (induction mn rs buf eof rule: fill_loop.induct)
  case (1 mn rs buf eof)
  obtain d err0 where hd: "shd rs = (d, err0)" by fastforce
  consider (stop) "eof \<or> \<not> blen buf < mn" | (more) "\<not> (eof \<or> \<not> blen buf < mn)" "err0 = None" "d \<noteq> []"
    | (last) "\<not> (eof \<or> \<not> blen buf < mn)" "err0 \<noteq> None \<or> d = []" by blast
  then show ?case
  proof cases
    case stop
    then show ?thesis using "1.prems" by (intro exI [of _ 0]) (auto simp: fill_loop.simps [of mn rs buf eof])
  next
    case more
    then have "fill_loop mn (stl rs) (buf @ d) eof = (rs', buf', eof', err)"
      using "1.prems" hd by (subst (asm) fill_loop.simps) simp
    then obtain k where "rs' = sdrop k (stl rs)" "buf' = (buf @ d) @ concat (map fst (stake k (stl rs)))"
      "\<not> eof_within (k - 1) (stl rs)" "eof' \<longleftrightarrow> eof \<or> eof_within k (stl rs)"
      using "1.IH" [OF more(1) hd [symmetric] more(2,3)] by blast
    then show ?thesis
      using more hd by (intro exI [of _ "Suc k"]) (cases k, auto simp: eof_within_Suc)
  next
    case last
    then show ?thesis
      using "1.prems" hd
      by (intro exI [of _ 1])
         (auto simp: fill_loop.simps [of mn rs buf] eof_within_Suc [of 0, simplified] split: option.splits if_splits)
  qed
qed

lemma PacketReader_fill_moved:
  assumes "PacketReader_fill mn pr = (pr', e)"
  obtains k where "pr_moved k pr pr'" and "\<not> pr_eof pr \<and> blen (pr_buf pr) < mn \<longrightarrow> 0 < k"
proof -
  obtain rs buf eof err where f: "fill_loop mn (pr_r pr) (pr_buf pr) (pr_eof pr) = (rs, buf, eof, err)"
    by (metis prod_cases4)
  then have pr': "pr' = pr\<lparr> pr_r := rs, pr_buf := buf, pr_eof := eof \<rparr>"
    using assms by (simp add: PacketReader_fill_def Let_def split: option.splits)
  show ?thesis
    using fill_loop_spec [OF f] that by (auto simp: pr' pr_moved_def pr_ahead_def)
qed

text \<open>What every method that does not hand out a packet keeps.\<close>

definition pr_grows :: "PacketReader \<Rightarrow> PacketReader \<Rightarrow> bool" where
  "pr_grows pr pr' \<longleftrightarrow> (\<exists>k. pr_moved k pr pr')"

lemma pr_grows_refl [simp]: "pr_grows pr pr"
  unfolding pr_grows_def using pr_moved_refl by blast




lemma pr_grows_fill': "PacketReader_fill mn pr = (pr', e) \<Longrightarrow> pr_grows pr pr'"
  unfolding pr_grows_def by (metis PacketReader_fill_moved)

lemma pr_grows_fill [simp]: "pr_grows pr (fst (PacketReader_fill mn pr))"
  by (metis pr_grows_fill' prod.collapse)







fun try_strides :: "int \<Rightarrow> int list \<Rightarrow> PacketReader \<Rightarrow> (PacketReader \<times> int option) go" where
  "try_strides pos [] pr = Some (pr, None)"
| "try_strides pos (stride # ss) pr = do {
     (pr, ok) \<leftarrow> PacketReader_packetReadyAt pos stride pr;
     if ok then Some (pr, Some stride) else try_strides pos ss pr }"

definition strides :: "int list" where
  "strides = [PacketSize, packetSizeWithTimestamp, packetSizeWithParity]"

text \<open>
  The outer loop of \<open>detectPacket\<close>. The buffer may grow while it scans, so that it need not
  end when the reader never does: the outer option is \<open>None\<close> when the loop does not return,
  the inner one when it panics.
\<close>

partial_function (option) detect_from :: "int \<Rightarrow> PacketReader \<Rightarrow> (PacketReader \<times> (int \<times> int) option) go option" where
  "detect_from pos pr =
     (if pos < blen (pr_buf pr)
      then case try_strides pos strides pr of
             None \<Rightarrow> Some None
           | Some (pr', Some stride) \<Rightarrow> Some (Some (pr', Some (pos, stride)))
           | Some (pr', None) \<Rightarrow> detect_from (pos + 1) pr'
      else Some (Some (pr, None)))"

definition PacketReader_detectPacket :: "PacketReader \<Rightarrow> (PacketReader \<times> (int \<times> int) option) go option" where
  "PacketReader_detectPacket pr = detect_from 0 pr"

text \<open>The built-in \<open>copy\<close>: the first \<open>min (len dst) (len src)\<close> elements of \<open>dst\<close> are replaced.\<close>

definition go_copy :: "'a list \<Rightarrow> 'a list \<Rightarrow> 'a list" where
  "go_copy dst src = take (length dst) src @ drop (length src) dst"

definition PacketReader_consumePacketInto ::
    "bytes \<Rightarrow> int \<Rightarrow> int \<Rightarrow> PacketReader \<Rightarrow> (PacketReader \<times> packet) go" where
  "PacketReader_consumePacketInto dst pos stride pr = do {
     let start = (if stride = packetSizeWithTimestamp then pos + 4 else pos);
     let end' = (if stride = packetSizeWithTimestamp then pos + stride
                 else if stride = packetSizeWithParity then pos + PacketSize else pos + stride);
     packet \<leftarrow> slice dst 0 PacketSize;
     src \<leftarrow> slice (pr_buf pr) start end';
     remaining \<leftarrow> slice (pr_buf pr) (pos + stride) (blen (pr_buf pr));
     Some (pr\<lparr> pr_buf := remaining \<rparr>, go_copy packet src) }"

text \<open>\<open>bytes.LastIndexByte\<close>, with -1 when the byte is absent.\<close>

fun LastIndexByte :: "bytes \<Rightarrow> u8 \<Rightarrow> int" where
  "LastIndexByte [] c = -1"
| "LastIndexByte (b # bs) c =
     (let i = LastIndexByte bs c in if 0 \<le> i then i + 1 else if b = c then 0 else -1)"

definition trim_to_sync :: "PacketReader \<Rightarrow> PacketReader" where
  "trim_to_sync pr = (let i = LastIndexByte (pr_buf pr) SyncByte in
     if 0 < i then pr\<lparr> pr_buf := drop (nat i) (pr_buf pr) \<rparr> else pr)"

definition try_stride :: "PacketReader \<Rightarrow> (PacketReader \<times> bool) go" where
  "try_stride pr =
     (if pr_stride pr \<noteq> 0
      then do {
        (pr, ok) \<leftarrow> PacketReader_packetReadyAt 0 (pr_stride pr) pr;
        Some (if ok then (pr, True) else (pr\<lparr> pr_stride := 0 \<rparr>, False)) }
      else Some (pr, False))"

definition deliver :: "bytes \<Rightarrow> int \<Rightarrow> int \<Rightarrow> PacketReader \<Rightarrow> (PacketReader \<times> (ts_error + packet)) go" where
  "deliver dst pos stride pr = do {
     (pr, p) \<leftarrow> PacketReader_consumePacketInto dst pos stride pr;
     Some (pr, Inr p) }"

text \<open>
  The rest of a round of \<open>NextInto\<close> once \<open>detectPacket\<close> has returned, and a round of its loop:
  either a value to return or, after a refill, another round. The outer option is again
  \<open>None\<close> when the round does not return.
\<close>

definition after_detect ::
    "bytes \<Rightarrow> PacketReader \<times> (int \<times> int) option \<Rightarrow> (PacketReader \<times> (ts_error + packet) option) go" where
  "after_detect dst = (\<lambda>(pr, found). case found of
     Some (pos, stride) \<Rightarrow>
       map_option (apsnd Some) (deliver dst pos stride (pr\<lparr> pr_stride := stride \<rparr>))
   | None \<Rightarrow>
       if pr_eof pr then Some (pr, Some (Inl ErrEOF))
       else
         let pr = trim_to_sync pr;
             (pr, err) = PacketReader_fill (blen (pr_buf pr) + minDetectBytes) pr
         in Some (pr, if err \<noteq> None \<and> pr_buf pr = [] then Some (Inl (the err)) else None))"

definition next_round :: "bytes \<Rightarrow> PacketReader \<Rightarrow> (PacketReader \<times> (ts_error + packet) option) go option" where
  "next_round dst pr =
     (let (pr, err) = PacketReader_fill minDetectBytes pr in
      if err \<noteq> None \<and> pr_buf pr = [] then Some (Some (pr, Some (Inl (the err))))
      else if pr_buf pr = [] then Some (Some (pr, Some (Inl ErrEOF)))
      else case try_stride pr of
             None \<Rightarrow> Some None
           | Some (pr, ready) \<Rightarrow>
               if ready then Some (map_option (apsnd Some) (deliver dst 0 (pr_stride pr) pr))
               else map_option (\<lambda>d. d \<bind> after_detect dst) (PacketReader_detectPacket pr))"

partial_function (option) PacketReader_NextInto ::
    "bytes \<Rightarrow> PacketReader \<Rightarrow> (PacketReader \<times> (ts_error + packet)) go option" where
  "PacketReader_NextInto dst pr =
     (if blen dst < PacketSize then Some (Some (pr, Inl ErrShortBuffer))
      else case next_round dst pr of
        None \<Rightarrow> None
      | Some None \<Rightarrow> Some None
      | Some (Some (pr', Some r)) \<Rightarrow> Some (Some (pr', r))
      | Some (Some (pr', None)) \<Rightarrow> PacketReader_NextInto dst pr')"

definition PacketReader_Next :: "PacketReader \<Rightarrow> (PacketReader \<times> (ts_error + packet)) go option" where
  "PacketReader_Next pr = PacketReader_NextInto (replicate (nat PacketSize) 0) pr"

section \<open>What the reader returns\<close>

definition pr_ok :: "PacketReader \<Rightarrow> bool" where
  "pr_ok pr \<longleftrightarrow> pr_stride pr = 0 \<or> pr_stride pr \<in> set strides"

lemma pr_ok_New [simp]: "pr_ok (NewPacketReader r)"
  by (simp add: pr_ok_def NewPacketReader_def)

lemma stride_bounds: "stride \<in> set strides \<Longrightarrow> 188 \<le> stride \<and> syncOffset stride + 188 \<le> stride \<and> 0 \<le> syncOffset stride"
  by (auto simp: strides_def syncOffset_def)

definition is_packet :: "bytes \<Rightarrow> bool" where
  "is_packet p \<longleftrightarrow> length p = 188 \<and> p ! 0 = SyncByte"

text \<open>
  Bytes may also be skipped: \<open>pr_skips\<close> says that some reads were made and a front part of
  the bytes dropped. A packet taken from a reader lies in the bytes read, and what is left
  in the buffer follows it.
\<close>

definition pr_skips :: "PacketReader \<Rightarrow> PacketReader \<Rightarrow> bool" where
  "pr_skips pr pr' \<longleftrightarrow> (\<exists>k pre. pr_r pr' = sdrop k (pr_r pr) \<and> pr_ahead k pr = pre @ pr_buf pr')"

definition taken_from :: "PacketReader \<Rightarrow> packet \<Rightarrow> PacketReader \<Rightarrow> bool" where
  "taken_from pr p pr' \<longleftrightarrow> (\<exists>k pre post. pr_r pr' = sdrop k (pr_r pr)
     \<and> pr_ahead k pr = pre @ p @ post @ pr_buf pr')"


lemma pr_skips_refl [simp]: "pr_skips pr pr"
  unfolding pr_skips_def by (intro exI [of _ 0]) simp




lemma deliver_spec:
  assumes st: "stride \<in> set strides" and pos: "0 \<le> pos" and room: "stride \<le> blen (pr_buf pr) - pos"
    and sync: "idx (pr_buf pr) (pos + syncOffset stride) = Some SyncByte" and dst: "188 \<le> length dst"
  defines "p \<equiv> take 188 (drop (nat (pos + syncOffset stride)) (pr_buf pr))"
  shows "deliver dst pos stride pr = Some (pr\<lparr> pr_buf := drop (nat (pos + stride)) (pr_buf pr) \<rparr>, Inr p)"
    and "is_packet p"
    and "taken_from pr p (pr\<lparr> pr_buf := drop (nat (pos + stride)) (pr_buf pr) \<rparr>)"
proof -
  note b = stride_bounds [OF st]
  have fits: "nat (pos + syncOffset stride) + 188 \<le> length (pr_buf pr)" using b room pos by linarith
  then have copy: "go_copy (take 188 dst) p = p"
    using dst by (simp add: go_copy_def p_def)
  have "stride = 188 \<or> stride = 192 \<or> stride = 204" using st by (simp add: strides_def)
  then show "deliver dst pos stride pr = Some (pr\<lparr> pr_buf := drop (nat (pos + stride)) (pr_buf pr) \<rparr>, Inr p)"
    using copy dst room pos
    by (auto simp: deliver_def PacketReader_consumePacketInto_def p_def syncOffset_def)
  have "pr_buf pr ! nat (pos + syncOffset stride) = SyncByte"
    using sync by (auto dest: idx_SomeD)
  with fits show "is_packet p" by (simp add: is_packet_def p_def)
  let ?n = "nat (pos + syncOffset stride)" and ?m = "nat (pos + stride)"
  have nm: "?n + 188 \<le> ?m" using b pos by linarith
  have "pr_buf pr = take ?n (pr_buf pr) @ p @ take (?m - (?n + 188)) (drop (?n + 188) (pr_buf pr)) @ drop ?m (pr_buf pr)"
    using take_drop_split [OF nm, of "pr_buf pr"] take_drop_split [of ?n "?n + 188" "pr_buf pr"]
    by (simp add: p_def)
  then show "taken_from pr p (pr\<lparr> pr_buf := drop ?m (pr_buf pr) \<rparr>)"
    unfolding taken_from_def by (intro exI [of _ 0]) (auto simp del: append_assoc)
qed


















section \<open>When the reader returns\<close>









text \<open>
  The end of file is needed: with one byte left in the buffer that is not a sync byte, a
  reader that fails at every read is asked again and again, and its error is dropped.
\<close>

definition failing_reader :: "ts_error \<Rightarrow> PacketReader" where
  "failing_reader e = \<lparr> pr_r = sconst ([], Some e), pr_buf = [0], pr_stride = 0, pr_eof = False \<rparr>"

lemma failing_reader_round:
  assumes "e \<noteq> ErrEOF"
  shows "next_round dst (failing_reader e) = Some (Some (failing_reader e, None))"
proof -
  have fill: "PacketReader_fill mn (failing_reader e) = (failing_reader e, Some e)" if "1 < mn" for mn
    using assms that
    by (simp add: PacketReader_fill_def failing_reader_def fill_loop.simps [of mn "sconst x" for x])
  have ready: "PacketReader_packetReadyAt 0 st (failing_reader e) = Some (failing_reader e, False)" for st
    by (simp add: PacketReader_packetReadyAt_def failing_reader_def syncOffset_def SyncByte_def)
  have "try_strides 0 strides (failing_reader e) = Some (failing_reader e, None)"
    by (simp add: strides_def ready)
  then have "detect_from 0 (failing_reader e) = Some (Some (failing_reader e, None))"
    by (subst detect_from.simps) (simp add: failing_reader_def, subst detect_from.simps, simp)
  moreover have "trim_to_sync (failing_reader e) = failing_reader e"
    by (simp add: trim_to_sync_def failing_reader_def SyncByte_def)
  moreover have "pr_buf (failing_reader e) = [0]" "\<not> pr_eof (failing_reader e)" "pr_stride (failing_reader e) = 0"
    by (simp_all add: failing_reader_def)
  ultimately show ?thesis
    by (simp add: next_round_def after_detect_def fill minDetectBytes_def try_stride_def PacketReader_detectPacket_def)
qed

lemma NextInto_may_not_return:
  assumes "e \<noteq> ErrEOF" and "188 \<le> length dst"
  shows "PacketReader_NextInto dst (failing_reader e) = None"
proof (rule ccontr)
  assume "PacketReader_NextInto dst (failing_reader e) \<noteq> None"
  then obtain res where ret: "PacketReader_NextInto dst (failing_reader e) = Some res" by blast
  let ?P = "\<lambda>d pr res. \<not> (d = dst \<and> pr = failing_reader e)"
  have "?P dst (failing_reader e) res"
  proof (rule PacketReader_NextInto.raw_induct [where P = ?P, OF _ ret])
    fix f :: "bytes \<Rightarrow> PacketReader \<Rightarrow> (PacketReader \<times> (ts_error + packet)) go option" and d pr res
    assume IH: "\<And>d pr res. f d pr = Some res \<Longrightarrow> ?P d pr res"
      and eq: "(if blen d < PacketSize then Some (Some (pr, Inl ErrShortBuffer))
          else case next_round d pr of
            None \<Rightarrow> None
          | Some None \<Rightarrow> Some None
          | Some (Some (pr', Some r)) \<Rightarrow> Some (Some (pr', r))
          | Some (Some (pr', None)) \<Rightarrow> f d pr') = Some res"
    show "?P d pr res"
    proof
      assume "d = dst \<and> pr = failing_reader e"
      moreover then have "f dst (failing_reader e) = Some res"
        using eq failing_reader_round [OF assms(1), of dst] assms(2) by simp
      ultimately show False using IH by blast
    qed
  qed
  then show False by simp
qed

section \<open>Reading back a packet stream\<close>

text \<open>Up to \<open>n\<close> calls of \<open>Next\<close>, stopping at the first error.\<close>

fun read_packets :: "nat \<Rightarrow> PacketReader \<Rightarrow> (packet list \<times> ts_error option) go option" where
  "read_packets 0 pr = Some (Some ([], None))"
| "read_packets (Suc n) pr =
     (case PacketReader_Next pr of
        None \<Rightarrow> None
      | Some None \<Rightarrow> Some None
      | Some (Some (pr, Inl e)) \<Rightarrow> Some (Some ([], Some e))
      | Some (Some (pr, Inr p)) \<Rightarrow> map_option (map_option (apfst (Cons p))) (read_packets n pr))"

text \<open>
  A reader that hands out chunks without an error and then the last bytes together with
  the end of file; what follows is never read.
\<close>

definition chunked :: "bytes list \<Rightarrow> bytes \<Rightarrow> read_results \<Rightarrow> read_results" where
  "chunked chunks fin rest = map (\<lambda>d. (d, None)) chunks @- (fin, Some ErrEOF) ## rest"

definition still_reads :: "PacketReader \<Rightarrow> bytes \<Rightarrow> bool" where
  "still_reads pr bs \<longleftrightarrow>
     (if pr_eof pr then pr_buf pr = bs
      else \<exists>chunks fin rest. pr_r pr = chunked chunks fin rest \<and> [] \<notin> set chunks
             \<and> pr_buf pr @ concat chunks @ fin = bs)"

definition reads_stream :: "PacketReader \<Rightarrow> packet list \<Rightarrow> bool" where
  "reads_stream pr ps \<longleftrightarrow> still_reads pr (concat ps) \<and> (\<forall>p \<in> set ps. is_packet p)
     \<and> (pr_stride pr = 0 \<or> pr_stride pr = 188)"

lemma still_reads_prefix: "still_reads pr bs \<Longrightarrow> \<exists>more. bs = pr_buf pr @ more"
  by (auto simp: still_reads_def split: if_splits)

lemma still_reads_eof: "still_reads pr bs \<Longrightarrow> pr_eof pr \<Longrightarrow> pr_buf pr = bs"
  by (simp add: still_reads_def)

lemma still_reads_drop:
  "still_reads pr bs \<Longrightarrow> n \<le> length (pr_buf pr) \<Longrightarrow> still_reads (pr\<lparr> pr_stride := st, pr_buf := drop n (pr_buf pr) \<rparr>) (drop n bs)"
  by (fastforce simp: still_reads_def split: if_splits)

lemma fill_loop_chunked:
  "\<lbrakk>fill_loop mn (chunked chunks fin rest) buf False = (rs', buf', eof', err); [] \<notin> set chunks\<rbrakk> \<Longrightarrow>
     err = None \<and> (eof' \<or> mn \<le> blen buf')
     \<and> still_reads \<lparr> pr_r = rs', pr_buf = buf', pr_stride = st, pr_eof = eof' \<rparr> (buf @ concat chunks @ fin)"
proof (induction chunks arbitrary: buf)
  case Nil
  show ?case
  proof (cases "blen buf < mn")
    case True
    then show ?thesis using Nil.prems by (subst (asm) fill_loop.simps) (auto simp: chunked_def still_reads_def)
  next
    case False
    then have "rs' = chunked [] fin rest" "buf' = buf" "\<not> eof'" "err = None"
      using Nil.prems by (subst (asm) fill_loop.simps, simp)+
    then show ?thesis using False by (auto simp: still_reads_def intro!: exI [of _ "[]"] exI [of _ fin])
  qed
next
  case (Cons d chunks)
  show ?case
  proof (cases "blen buf < mn")
    case True
    then have "fill_loop mn (chunked chunks fin rest) (buf @ d) False = (rs', buf', eof', err)"
      using Cons.prems by (subst (asm) fill_loop.simps) (auto simp: chunked_def)
    then show ?thesis using Cons.IH [of "buf @ d"] Cons.prems(2) by simp
  next
    case False
    then have "rs' = chunked (d # chunks) fin rest" "buf' = buf" "\<not> eof'" "err = None"
      using Cons.prems by (subst (asm) fill_loop.simps, simp)+
    then show ?thesis
      using False Cons.prems(2) by (auto simp: still_reads_def intro!: exI [of _ "d # chunks"] exI [of _ fin])
  qed
qed

lemma fill_clean:
  assumes "reads_stream pr ps" and "PacketReader_fill mn pr = (pr', e)"
  shows "reads_stream pr' ps" and "pr_eof pr' \<or> mn \<le> blen (pr_buf pr')"
    and "e = (if pr_buf pr' = [] \<and> pr_eof pr' then Some ErrEOF else None)"
proof -
  obtain rs buf eof err where f: "fill_loop mn (pr_r pr) (pr_buf pr) (pr_eof pr) = (rs, buf, eof, err)"
    by (metis prod_cases4)
  have c: "err = None \<and> (eof \<or> mn \<le> blen buf)
      \<and> still_reads \<lparr> pr_r = rs, pr_buf = buf, pr_stride = st, pr_eof = eof \<rparr> (concat ps)" for st
  proof (cases "pr_eof pr")
    case True
    then have "err = None" "eof" "buf = pr_buf pr"
      using f by (subst (asm) fill_loop.simps, simp)+
    then show ?thesis using assms(1) True by (simp add: reads_stream_def still_reads_def)
  next
    case False
    then obtain chunks fin rest where "pr_r pr = chunked chunks fin rest" "[] \<notin> set chunks"
      and bs: "pr_buf pr @ concat chunks @ fin = concat ps"
      using assms(1) by (auto simp: reads_stream_def still_reads_def)
    then show ?thesis
      using fill_loop_chunked [of mn chunks fin rest "pr_buf pr" rs buf eof err st] f False unfolding bs by simp
  qed
  then have pr': "pr' = pr\<lparr> pr_r := rs, pr_buf := buf, pr_eof := eof \<rparr>"
    and e: "e = (if buf = [] \<and> eof then Some ErrEOF else None)"
    using assms(2) f by (simp_all add: PacketReader_fill_def)
  have "pr' = \<lparr> pr_r = rs, pr_buf = buf, pr_stride = pr_stride pr, pr_eof = eof \<rparr>"
    by (simp add: pr')
  then show "reads_stream pr' ps" "pr_eof pr' \<or> mn \<le> blen (pr_buf pr')"
    using c [of "pr_stride pr"] assms(1) by (auto simp: reads_stream_def)
  show "e = (if pr_buf pr' = [] \<and> pr_eof pr' then Some ErrEOF else None)"
    using e by (simp add: pr')
qed

lemma concat_packets_sync:
  "\<lbrakk>\<forall>p \<in> set ps. is_packet p; 188 * k < length (concat ps)\<rbrakk> \<Longrightarrow> concat ps ! (188 * k) = SyncByte"
proof (induction ps arbitrary: k)
  case (Cons p ps)
  then show ?case by (cases k) (auto simp: is_packet_def nth_append)
qed simp

lemma sync_checks_pass:
  "\<lbrakk>\<forall>k. 188 * k < length buf \<longrightarrow> buf ! (188 * k) = SyncByte; nxt = 188 * int j\<rbrakk> \<Longrightarrow>
     \<exists>c'. sync_checks buf 188 nxt c = Some (Some c') \<and> c \<le> c' \<and> (nxt < blen buf \<and> c < 3 \<longrightarrow> c < c')"
proof (induction "nat (3 - c)" arbitrary: c nxt j)
  case 0
  then show ?case by (simp add: sync_checks.simps)
next
  case (Suc n)
  show ?case
  proof (cases "nxt < blen buf")
    case True
    have "nat nxt = 188 * j" using Suc.prems(2) by simp
    moreover have "188 * j < length buf" using True Suc.prems(2) by simp
    ultimately have "buf ! nat nxt = SyncByte" using Suc.prems(1) by simp
    moreover have "c < 3" using Suc.hyps(2) by linarith
    ultimately have "sync_checks buf 188 nxt c = sync_checks buf 188 (nxt + 188) (c + 1)"
      using True Suc.prems(2) by (subst sync_checks.simps) simp
    moreover have "n = nat (3 - (c + 1))" using Suc.hyps(2) by linarith
    ultimately show ?thesis
      using Suc.hyps(1) [of "c + 1" "nxt + 188" "Suc j"] Suc.prems by auto
  next
    case False
    then show ?thesis by (simp add: sync_checks.simps)
  qed
qed

lemma packetReadyAt_stream:
  assumes st: "reads_stream pr ps" and len: "188 \<le> blen (pr_buf pr)"
    and ahead: "pr_eof pr \<or> 188 < blen (pr_buf pr)"
  shows "PacketReader_packetReadyAt 0 188 pr = Some (pr, True)"
proof -
  obtain more where cat: "concat ps = pr_buf pr @ more"
    using st still_reads_prefix unfolding reads_stream_def by blast
  have sync: "\<forall>k. 188 * k < length (pr_buf pr) \<longrightarrow> pr_buf pr ! (188 * k) = SyncByte"
  proof (intro allI impI)
    fix k assume k: "188 * k < length (pr_buf pr)"
    have "concat ps ! (188 * k) = SyncByte"
      using concat_packets_sync [of ps k] st k cat by (simp add: reads_stream_def)
    then show "pr_buf pr ! (188 * k) = SyncByte" using k cat by (simp add: nth_append)
  qed
  then obtain c where "sync_checks (pr_buf pr) 188 188 0 = Some (Some c)" "188 < blen (pr_buf pr) \<longrightarrow> 0 < c"
    using sync_checks_pass [of "pr_buf pr" 188 1 0] by auto
  moreover have "pr_buf pr ! 0 = SyncByte" using sync [THEN spec, of 0] len by auto
  ultimately show ?thesis
    using len ahead by (auto simp: PacketReader_packetReadyAt_def ready_checks_def syncOffset_def)
qed

lemma detect_stream:
  assumes "PacketReader_packetReadyAt 0 188 pr = Some (pr, True)" and "0 < blen (pr_buf pr)"
  shows "PacketReader_detectPacket pr = Some (Some (pr, Some (0, 188)))"
  unfolding PacketReader_detectPacket_def
  using assms by (subst detect_from.simps) (simp add: strides_def)

lemma reads_stream_prefix:
  assumes "reads_stream pr (p # ps)" and "188 \<le> blen (pr_buf pr)"
  shows "take 188 (pr_buf pr) = p"
    and "st = 0 \<or> st = 188 \<Longrightarrow> reads_stream (pr\<lparr> pr_stride := st, pr_buf := drop 188 (pr_buf pr) \<rparr>) ps"
proof -
  have p: "length p = 188" using assms(1) by (simp add: reads_stream_def is_packet_def)
  have sr: "still_reads pr (p @ concat ps)" using assms(1) by (simp add: reads_stream_def)
  then obtain more where "p @ concat ps = pr_buf pr @ more" using still_reads_prefix by blast
  then have "take 188 (p @ concat ps) = take 188 (pr_buf pr @ more)" by simp
  then show "take 188 (pr_buf pr) = p" using p assms(2) by simp
  show "reads_stream (pr\<lparr> pr_stride := st, pr_buf := drop 188 (pr_buf pr) \<rparr>) ps" if "st = 0 \<or> st = 188"
    using still_reads_drop [OF sr, of 188 st] assms p that by (simp add: reads_stream_def)
qed

lemma Next_stream_Cons:
  assumes "reads_stream pr (p # ps)"
  shows "\<exists>pr'. PacketReader_Next pr = Some (Some (pr', Inr p)) \<and> reads_stream pr' ps"
proof -
  obtain pr1 e where f: "PacketReader_fill minDetectBytes pr = (pr1, e)" by fastforce
  have s1: "reads_stream pr1 (p # ps)" and b: "pr_eof pr1 \<or> 816 \<le> blen (pr_buf pr1)"
    using fill_clean(1,2) [OF assms f] by (simp_all add: minDetectBytes_def)
  have p: "length p = 188" using s1 by (simp add: reads_stream_def is_packet_def)
  have len: "188 \<le> blen (pr_buf pr1)"
  proof (cases "pr_eof pr1")
    case True
    then have "pr_buf pr1 = concat (p # ps)" using s1 still_reads_eof by (auto simp: reads_stream_def)
    then show ?thesis using p by simp
  next
    case False
    then show ?thesis using b by simp
  qed
  let ?dst = "replicate 188 (0::u8)" and ?q = "pr1\<lparr> pr_stride := 188, pr_buf := drop 188 (pr_buf pr1) \<rparr>"
  have ready: "PacketReader_packetReadyAt 0 188 pr1 = Some (pr1, True)"
    using packetReadyAt_stream [OF s1 len] b by auto
  have ne: "pr_buf pr1 \<noteq> []" using len by auto
  have "pr_buf pr1 ! 0 = SyncByte"
    using reads_stream_prefix(1) [OF s1 len] s1 by (auto simp: reads_stream_def is_packet_def)
  then have "idx (pr_buf pr1) 0 = Some SyncByte" using ne by (simp add: idx_def)
  then have del: "deliver ?dst 0 188 (pr1\<lparr> pr_stride := 188 \<rparr>) = Some (?q, Inr p)"
    using deliver_spec(1) [of 188 0 "pr1\<lparr> pr_stride := 188 \<rparr>" ?dst] len reads_stream_prefix(1) [OF s1 len]
    by (simp add: strides_def syncOffset_def)
  have "next_round ?dst pr = Some (Some (?q, Some (Inr p)))"
  proof (cases "pr_stride pr1 = 0")
    case True
    then show ?thesis
      using f ne del detect_stream [OF ready] len by (simp add: next_round_def try_stride_def after_detect_def)
  next
    case False
    then have st: "pr_stride pr1 = 188" using s1 by (simp add: reads_stream_def)
    then have same: "pr1\<lparr> pr_stride := 188 \<rparr> = pr1" by simp
    show ?thesis
      using f ne del [unfolded same] ready st by (simp add: next_round_def try_stride_def same)
  qed
  then show ?thesis
    using reads_stream_prefix(2) [OF s1 len, of 188]
    by (simp add: PacketReader_Next_def PacketReader_NextInto.simps)
qed

lemma Next_stream_Nil:
  assumes "reads_stream pr []"
  shows "\<exists>pr'. PacketReader_Next pr = Some (Some (pr', Inl ErrEOF))"
proof -
  obtain pr1 e where f: "PacketReader_fill minDetectBytes pr = (pr1, e)" by fastforce
  obtain more where "concat [] = pr_buf pr1 @ more"
    using fill_clean(1) [OF assms f] still_reads_prefix unfolding reads_stream_def by blast
  then have "pr_buf pr1 = []" and "pr_eof pr1"
    using fill_clean(2) [OF assms f] by (auto simp: minDetectBytes_def)
  then have "next_round (replicate 188 0) pr = Some (Some (pr1, Some (Inl ErrEOF)))"
    using f fill_clean(3) [OF assms f] by (simp add: next_round_def)
  then show ?thesis by (simp add: PacketReader_Next_def PacketReader_NextInto.simps)
qed

lemma read_packets_stream:
  "reads_stream pr ps \<Longrightarrow>
     read_packets n pr = Some (Some (take n ps, if n \<le> length ps then None else Some ErrEOF))"
proof (induction n arbitrary: pr ps)
  case (Suc n)
  show ?case
  proof (cases ps)
    case Nil
    then show ?thesis using Next_stream_Nil [of pr] Suc.prems by auto
  next
    case (Cons p ps')
    then obtain pr' where "PacketReader_Next pr = Some (Some (pr', Inr p))" "reads_stream pr' ps'"
      using Next_stream_Cons Suc.prems by blast
    then show ?thesis using Suc.IH Cons by simp
  qed
qed simp

section \<open>Properties\<close>

text \<open>
  \<open>Payload\<close> never panics on a 188-byte packet: it returns at most 184 bytes, and these are
  the tail of the packet from an offset past the four-byte header.
\<close>

theorem Packet_Payload_safe:
  assumes "length p = 188"
  shows "\<exists>pl k. Packet_Payload p = Some pl \<and> length pl \<le> 184 \<and> 4 \<le> k \<and> pl = drop k p"
  using Packet_Payload_in_range [OF assms] by blast

theorem Packet_Payload_safe_witness:
  "\<exists>pl k. Packet_Payload (0x47 # replicate 187 0x10) = Some pl \<and> length pl \<le> 184 \<and> 4 \<le> k
     \<and> pl = drop k (0x47 # replicate 187 0x10)"
  by (rule Packet_Payload_safe) simp



text \<open>
  C12. A stream of 188-byte packets that each begin with the sync byte is read back packet by
  packet, in order and without loss, however the reader's \<open>Read\<close> calls cut it into non-empty
  chunks and whether or not the last bytes come together with the end of file; the call after
  the last packet returns \<open>io.EOF\<close>.
\<close>

theorem PacketReader_reads_stream:
  assumes "\<forall>p \<in> set ps. length p = 188 \<and> p ! 0 = SyncByte"
    and "concat chunks @ fin = concat ps" and "[] \<notin> set chunks"
  shows "read_packets n (NewPacketReader (map (\<lambda>d. (d, None)) chunks @- (fin, Some ErrEOF) ## rest)) =
           Some (Some (take n ps, if n \<le> length ps then None else Some ErrEOF))"
proof (rule read_packets_stream)
  show "reads_stream (NewPacketReader (map (\<lambda>d. (d, None)) chunks @- (fin, Some ErrEOF) ## rest)) ps"
    using assms by (auto simp: reads_stream_def still_reads_def NewPacketReader_def is_packet_def chunked_def)
qed

theorem PacketReader_reads_stream_witness:
  "read_packets 3 (NewPacketReader (map (\<lambda>d. (d, None)) [[0x47], replicate 187 1 @ 0x47 # replicate 187 2]
       @- ([], Some ErrEOF) ## sconst ([0x47], Some ErrShortBuffer)))
     = Some (Some ([0x47 # replicate 187 1, 0x47 # replicate 187 2], Some ErrEOF))"
  using PacketReader_reads_stream [of "[0x47 # replicate 187 1, 0x47 # replicate 187 2]"
      "[[0x47], replicate 187 1 @ 0x47 # replicate 187 2]" "[]" 3]
  by (simp add: SyncByte_def)

end
