(* ===== verification/TS_Section.thy ===== *)
theory TS_Section
  imports TS_Packet
begin

text \<open>
  Sections, \<open>ts/section.go\<close>: the accessors of \<open>Section\<close>, the table-driven CRC-32/MPEG-2 and
  the \<open>SectionAssembler\<close> that rebuilds sections from the packets of one PID. The CRC is shown
  equal to the bit-serial shift register of ISO/IEC 13818-1 Annex A, to vanish on a section
  that carries its own CRC, and to catch every error burst of up to 32 bits within four
  bytes.
\<close>

section \<open>CRC-32/MPEG-2\<close>

definition crc_shift :: "u32 \<Rightarrow> u32" where
  "crc_shift crc = (if crc AND 0x80000000 \<noteq> 0 then push_bit 1 crc XOR 0x04c11db7 else push_bit 1 crc)"

definition makeCRC32MPEG2Table :: "u32 list" where
  "makeCRC32MPEG2Table = map (\<lambda>i. (crc_shift ^^ 8) (push_bit 24 (word_of_nat i))) [0..<256]"

definition crc32MPEG2Table :: "u32 list" where
  "crc32MPEG2Table = makeCRC32MPEG2Table"

definition crc_update :: "u32 \<Rightarrow> u8 \<Rightarrow> u32" where
  "crc_update crc b = push_bit 8 crc XOR crc32MPEG2Table ! unat (ucast (drop_bit 24 crc) XOR b)"

definition crc32MPEG2 :: "bytes \<Rightarrow> u32" where
  "crc32MPEG2 data = foldl crc_update 0xffffffff data"

text \<open>The shift step is linear over exclusive or, and injective.\<close>

lemma top_bit_iff: "crc AND 0x80000000 \<noteq> 0 \<longleftrightarrow> bit crc 31" for crc :: u32
proof -
  have "(0x80000000 :: u32) = push_bit 31 1" by simp
  then show ?thesis by (simp only: bit_iff_and_push_bit_not_eq_0)
qed

lemma crc_shift_alt: "crc_shift crc = push_bit 1 crc XOR (if bit crc 31 then 0x04c11db7 else 0)"
  by (simp add: crc_shift_def top_bit_iff)

lemma crc_shift_xor: "crc_shift (x XOR y) = crc_shift x XOR crc_shift y"
  by (rule bit_word_eqI) (auto simp: crc_shift_alt bit_simps)

lemma crc_shift_pow_xor: "(crc_shift ^^ n) (x XOR y) = (crc_shift ^^ n) x XOR (crc_shift ^^ n) y"
  by (induction n) (simp_all add: crc_shift_xor)

lemma crc_shift_low: "\<not> bit x 31 \<Longrightarrow> crc_shift x = push_bit 1 x"
  by (simp add: crc_shift_alt)

lemma crc_shift_inj: "crc_shift x = crc_shift y \<Longrightarrow> x = y"
proof -
  assume eq: "crc_shift x = crc_shift y"
  have "bit (crc_shift z) 0 = bit z 31" for z
    by (simp add: crc_shift_alt bit_0 even_xor_iff)
  then have top: "bit x 31 = bit y 31" using eq by metis
  then have sh: "push_bit 1 x = push_bit 1 y"
    using eq by (simp add: crc_shift_alt split: if_splits)
  show "x = y"
  proof (rule bit_word_eqI)
    fix n assume n: "n < LENGTH(32)"
    show "bit x n = bit y n"
    proof (cases "n = 31")
      case False
      then show ?thesis
        using arg_cong [OF sh, of "\<lambda>w. bit w (Suc n)"] n unfolding bit_push_bit_iff by simp
    qed (simp add: top)
  qed
qed

lemma crc_shift_pow_inj: "(crc_shift ^^ n) x = (crc_shift ^^ n) y \<longleftrightarrow> x = y"
  by (induction n) (auto dest: crc_shift_inj)

lemma crc_shift_pow_low: "n + k \<le> 32 \<Longrightarrow> (crc_shift ^^ n) (take_bit k x) = push_bit n (take_bit k x)"
proof (induction n)
  case (Suc n)
  have "\<not> bit (push_bit n (take_bit k x)) 31"
    using Suc.prems by (auto simp: bit_simps)
  then show ?case using Suc by (simp add: crc_shift_low)
qed simp

lemma table_nth: "i < 256 \<Longrightarrow> crc32MPEG2Table ! i = (crc_shift ^^ 8) (push_bit 24 (word_of_nat i))"
  by (simp add: crc32MPEG2Table_def makeCRC32MPEG2Table_def)

text \<open>One table step is eight shift steps of the register with the byte added on top.\<close>

lemma crc_update_shift: "crc_update crc b = (crc_shift ^^ 8) (crc XOR push_bit 24 (ucast b))"
proof -
  let ?t = "ucast (drop_bit 24 crc) XOR b :: u8"
  have lt: "unat ?t < 256" using unsigned_less [of ?t] by simp
  have tab: "crc32MPEG2Table ! unat ?t = (crc_shift ^^ 8) (push_bit 24 (ucast ?t))"
    using table_nth [OF lt] by simp
  have split: "crc XOR push_bit 24 (ucast b) = push_bit 24 (ucast ?t) XOR take_bit 24 crc"
    by (rule bit_word_eqI) (auto simp: bit_simps)
  have low: "(crc_shift ^^ 8) (take_bit 24 crc) = push_bit 8 crc"
    by (subst crc_shift_pow_low, simp, rule bit_word_eqI) (auto simp: bit_simps)
  show ?thesis
    unfolding split crc_shift_pow_xor low crc_update_def tab by (rule xor.commute)
qed

lemma crc_update_inj: "crc_update x b = crc_update y b \<longleftrightarrow> x = y"
  by (simp add: crc_update_shift crc_shift_pow_inj)

lemma foldl_crc_inj: "foldl crc_update x bs = foldl crc_update y bs \<longleftrightarrow> x = y"
  by (induction bs arbitrary: x y) (auto simp: crc_update_inj)

lemma crc_shift_pow_push: "n + k \<le> 24 \<Longrightarrow> (crc_shift ^^ n) (push_bit k (ucast b)) = push_bit (n + k) (ucast b)"
  for b :: u8
proof -
  assume le: "n + k \<le> 24"
  let ?w = "push_bit k (ucast b) :: u32"
  have w: "take_bit (k + 8) ?w = ?w"
    using le by (intro bit_word_eqI) (auto simp: bit_simps dest: bit_imp_le_length)
  have "(crc_shift ^^ n) ?w = push_bit n ?w"
    using crc_shift_pow_low [of n "k + 8" ?w] le by (simp only: w)
  then show ?thesis by simp
qed

text \<open>Four bytes fed into the register: 32 shift steps of the register with the word added.\<close>

lemma crc_four: "foldl crc_update crc [a, b, c, d] = (crc_shift ^^ 32) (crc XOR be32 a b c d)"
proof -
  have *: "crc_update ((crc_shift ^^ n) x) e = (crc_shift ^^ (8 + n)) (x XOR push_bit (24 - n) (ucast e))"
    if "n \<le> 24" for n x e
  proof -
    have "(crc_shift ^^ n) (push_bit (24 - n) (ucast e)) = push_bit 24 (ucast e)"
      using crc_shift_pow_push [of n "24 - n" e] that by simp
    then show ?thesis
      by (simp only: crc_update_shift funpow_add comp_apply crc_shift_pow_xor)
  qed
  have "foldl crc_update crc [a, b, c, d] =
      (crc_shift ^^ 32) (((crc XOR push_bit 24 (ucast a)) XOR push_bit 16 (ucast b)) XOR push_bit 8 (ucast c) XOR push_bit 0 (ucast d))"
    using * [of 0 crc a] * [of 8 "crc XOR push_bit 24 (ucast a)" b]
      * [of 16 "(crc XOR push_bit 24 (ucast a)) XOR push_bit 16 (ucast b)" c]
      * [of 24 "((crc XOR push_bit 24 (ucast a)) XOR push_bit 16 (ucast b)) XOR push_bit 8 (ucast c)" d]
    by (simp add: xor.assoc)
  moreover have "be32 a b c d = push_bit 24 (ucast a) XOR push_bit 16 (ucast b) XOR push_bit 8 (ucast c) XOR ucast d"
    unfolding be32_def by (rule bit_word_eqI) (auto simp: bit_simps dest: bit_imp_le_length)
  ultimately show ?thesis by (simp add: xor.assoc)
qed

lemma crc_shift_pow_0 [simp]: "(crc_shift ^^ n) 0 = 0"
  by (induction n) (simp_all add: crc_shift_def)

lemma crc_residue: "crc32MPEG2 (data @ [a, b, c, d]) = 0 \<longleftrightarrow> be32 a b c d = crc32MPEG2 data"
proof -
  have "crc32MPEG2 (data @ [a, b, c, d]) = (crc_shift ^^ 32) (crc32MPEG2 data XOR be32 a b c d)"
    using crc_four [of "crc32MPEG2 data"] by (simp add: crc32MPEG2_def)
  also have "\<dots> = 0 \<longleftrightarrow> crc32MPEG2 data XOR be32 a b c d = 0"
    using crc_shift_pow_inj [of 32 _ 0] by simp
  finally show ?thesis by (auto simp: xor_eq_0_iff)
qed

lemma crc_append_crc [simp]: "crc32MPEG2 (data @ b32 (crc32MPEG2 data)) = 0"
  by (simp add: b32_def crc_residue)

subsection \<open>The bit-serial register\<close>

text \<open>
  The decoder of ISO/IEC 13818-1 Annex A: a 32-bit register shifted by one bit per message
  bit, most significant bit of each byte first, with the polynomial
  \<open>x^32+x^26+x^23+x^22+x^16+x^12+x^11+x^10+x^8+x^7+x^5+x^4+x^2+x+1\<close> fed back when the bit that
  leaves the register differs from the message bit.
\<close>

definition serial_step :: "u32 \<Rightarrow> bool \<Rightarrow> u32" where
  "serial_step reg m = push_bit 1 reg XOR
     (if bit reg 31 \<noteq> m
      then \<Sum>i \<leftarrow> [26, 23, 22, 16, 12, 11, 10, 8, 7, 5, 4, 2, 1, 0]. 2 ^ i else 0)"

definition byte_bits :: "u8 \<Rightarrow> bool list" where
  "byte_bits b = map (bit b) [7, 6, 5, 4, 3, 2, 1, 0]"

definition serial_crc :: "bytes \<Rightarrow> u32" where
  "serial_crc data = foldl serial_step (- 1) (concat (map byte_bits data))"

lemma serial_step_shift: "serial_step reg m = crc_shift (reg XOR (if m then push_bit 31 1 else 0))"
proof -
  have "push_bit 1 (reg XOR push_bit 31 1) = push_bit 1 reg XOR push_bit 32 1"
    by (simp only: push_bit_xor push_bit_push_bit) simp
  moreover have "push_bit 32 (1 :: u32) = 0" by (simp only: push_bit_of_1 exp_eq_zero_iff) simp
  ultimately have "push_bit 1 (reg XOR push_bit 31 1) = push_bit 1 reg" by (simp only: xor.right_neutral)
  moreover have "bit (reg XOR push_bit 31 1) 31 \<longleftrightarrow> \<not> bit reg 31"
    by (simp add: bit_xor_iff bit_push_bit_iff)
  ultimately show ?thesis
    by (cases m) (simp_all only: serial_step_def crc_shift_alt if_True if_False xor.right_neutral, simp_all)
qed

lemma byte_bits_snoc: "n < 8 \<Longrightarrow> take (Suc n) (byte_bits b) = take n (byte_bits b) @ [bit b (7 - n)]"
proof -
  assume n: "n < 8"
  then have "n \<in> {0, 1, 2, 3, 4, 5, 6, 7}" by auto
  then have "byte_bits b ! n = bit b (7 - n)" by (auto simp: byte_bits_def)
  moreover have "n < length (byte_bits b)" using n by (simp add: byte_bits_def)
  ultimately show ?thesis by (simp only: take_Suc_conv_app_nth)
qed

lemma serial_bits:
  "n \<le> 8 \<Longrightarrow> foldl serial_step reg (take n (byte_bits b))
            = (crc_shift ^^ n) (reg XOR push_bit (32 - n) (ucast (drop_bit (8 - n) b)))"
proof (induction n)
  case 0
  then show ?case by simp
next
  case (Suc n)
  let ?p = "push_bit (32 - n) (ucast (drop_bit (8 - n) b)) :: u32"
  let ?q = "push_bit (31 - n) (ucast (drop_bit (7 - n) b)) :: u32"
  let ?m = "if bit b (7 - n) then push_bit (31 - n) 1 else 0 :: u32"
  have m: "take_bit (32 - n) ?m = ?m"
    using Suc.prems by (intro bit_word_eqI) (auto simp: bit_simps)
  have "(crc_shift ^^ n) ?m = push_bit n ?m"
    using crc_shift_pow_low [of n "32 - n" ?m] Suc.prems by (simp only: m)
  also have "\<dots> = (if bit b (7 - n) then push_bit 31 1 else 0)"
    using Suc.prems by (simp add: push_bit_push_bit del: push_bit_of_1)
  finally have up: "(crc_shift ^^ n) ?m = (if bit b (7 - n) then push_bit 31 1 else 0)" .
  have "?p XOR ?m = ?q"
  proof (rule bit_word_eqI)
    fix i assume "i < LENGTH(32)"
    then show "bit (?p XOR ?m) i = bit ?q i"
      using Suc.prems by (cases "i = 31 - n") (auto simp: bit_simps Suc_diff_le)
  qed
  then have pq: "(reg XOR ?p) XOR ?m = reg XOR ?q" by (simp only: xor.assoc)
  have "foldl serial_step reg (take (Suc n) (byte_bits b)) = serial_step ((crc_shift ^^ n) (reg XOR ?p)) (bit b (7 - n))"
    using Suc byte_bits_snoc [of n b] by simp
  also have "\<dots> = crc_shift ((crc_shift ^^ n) ((reg XOR ?p) XOR ?m))"
    by (simp only: serial_step_shift crc_shift_pow_xor up)
  finally show ?case by (simp only: pq) simp
qed

lemma serial_byte: "foldl serial_step reg (byte_bits b) = crc_update reg b"
  using serial_bits [of 8 reg b] by (simp add: crc_update_shift byte_bits_def)

lemma serial_crc_eq: "crc32MPEG2 data = serial_crc data"
proof -
  have "foldl serial_step reg (concat (map byte_bits data)) = foldl crc_update reg data" for reg
    by (induction data arbitrary: reg) (simp_all add: serial_byte)
  moreover have "(0xffffffff :: u32) = - 1" by simp
  ultimately show ?thesis by (simp only: crc32MPEG2_def serial_crc_def)
qed

text \<open>Two messages that differ only within four consecutive bytes have different CRCs.\<close>

lemma crc_window:
  assumes len: "length a = length b" "length a \<le> 4"
    and eq: "crc32MPEG2 (pre @ a @ post) = crc32MPEG2 (pre @ b @ post)"
  shows "a = b"
proof -
  let ?z = "replicate (4 - length a) (0 :: u8)"
  have four: "\<exists>p q r s. xs = [p, q, r, s]" if "length xs = 4" for xs :: bytes
    using that by (auto simp: numeral_eq_Suc length_Suc_conv)
  have "foldl crc_update (crc32MPEG2 pre) a = foldl crc_update (crc32MPEG2 pre) b"
    using eq by (simp add: crc32MPEG2_def foldl_crc_inj)
  then have "foldl crc_update (crc32MPEG2 pre) (a @ ?z) = foldl crc_update (crc32MPEG2 pre) (b @ ?z)"
    by simp
  moreover obtain p q r s where a: "a @ ?z = [p, q, r, s]" using four [of "a @ ?z"] len by auto
  moreover obtain p' q' r' s' where b: "b @ ?z = [p', q', r', s']" using four [of "b @ ?z"] len by auto
  ultimately have "crc32MPEG2 pre XOR be32 p q r s = crc32MPEG2 pre XOR be32 p' q' r' s'"
    by (simp only: crc_four crc_shift_pow_inj)
  then have "be32 p q r s = be32 p' q' r' s'"
    using xor_cancel_right [of "be32 p q r s" "crc32MPEG2 pre" "be32 p' q' r' s'"] by (simp add: xor.commute)
  then have "a @ ?z = b @ ?z" using a b by simp
  then show ?thesis using len by simp
qed

section \<open>Section accessors\<close>

type_synonym Section = bytes

definition Section_TableID :: "Section \<Rightarrow> u8 go" where
  "Section_TableID s = idx s 0"

definition Section_SectionSyntaxIndicator :: "Section \<Rightarrow> bool go" where
  "Section_SectionSyntaxIndicator s = do { b \<leftarrow> idx s 1; Some (b AND 0x80 \<noteq> 0) }"

definition Section_SectionLength :: "Section \<Rightarrow> int go" where
  "Section_SectionLength s = do { hi \<leftarrow> idx s 1; lo \<leftarrow> idx s 2; Some (len12 hi lo) }"

definition Section_TotalLength :: "Section \<Rightarrow> int go" where
  "Section_TotalLength s = do { n \<leftarrow> Section_SectionLength s; Some (3 + n) }"

definition Section_ValidateCRC :: "Section \<Rightarrow> bool go" where
  "Section_ValidateCRC s =
     (if blen s < 4 then Some False
      else do {
        total \<leftarrow> Section_TotalLength s;
        if total > blen s then Some False
        else do { d \<leftarrow> slice s 0 total; Some (crc32MPEG2 d = 0) } })"

text \<open>The accessors on a section of at least three bytes, without the panics.\<close>

definition total_length :: "bytes \<Rightarrow> int" where
  "total_length s = 3 + len12 (s ! 1) (s ! 2)"

definition crc_valid :: "bytes \<Rightarrow> bool" where
  "crc_valid s \<longleftrightarrow> 4 \<le> length s \<and> total_length s \<le> blen s \<and> crc32MPEG2 (take (nat (total_length s)) s) = 0"

lemma total_length_bounds [simp]:
  "3 \<le> total_length s" "0 \<le> total_length s" "total_length s \<le> 4098" "\<not> total_length s < 3" "0 < total_length s"
  using len12_bounds [of "s ! 1" "s ! 2"] unfolding total_length_def by linarith+

lemma drop_total_length: "total_length s \<le> blen s \<Longrightarrow> length s - nat (total_length s) < length s"
  using total_length_bounds(1) [of s] by linarith

lemma section_accessors_in_range [simp]:
  "s \<noteq> [] \<Longrightarrow> Section_TableID s = Some (s ! 0)"
  "2 \<le> length s \<Longrightarrow> Section_SectionSyntaxIndicator s = Some (s ! 1 AND 0x80 \<noteq> 0)"
  "3 \<le> length s \<Longrightarrow> Section_SectionLength s = Some (len12 (s ! 1) (s ! 2))"
  "3 \<le> length s \<Longrightarrow> Section_TotalLength s = Some (total_length s)"
  by (simp_all add: Section_TableID_def Section_SectionSyntaxIndicator_def Section_SectionLength_def
      Section_TotalLength_def total_length_def)

lemma ValidateCRC_iff [simp]: "Section_ValidateCRC s = Some (crc_valid s)"
  by (auto simp: Section_ValidateCRC_def crc_valid_def)

lemma total_length_append [simp]: "3 \<le> length s \<Longrightarrow> total_length (s @ t) = total_length s"
  by (simp add: total_length_def nth_append)

lemma total_length_take [simp]: "3 \<le> n \<Longrightarrow> total_length (take n s) = total_length s"
  by (simp add: total_length_def)

text \<open>A section exactly as long as its header says, with a matching CRC.\<close>

definition good_section :: "bytes \<Rightarrow> bool" where
  "good_section s \<longleftrightarrow> blen s = total_length s \<and> crc_valid s"

lemma good_section_length: "good_section s \<Longrightarrow> 4 \<le> length s \<and> length s \<le> 4098"
  using total_length_bounds(3) [of s] unfolding good_section_def crc_valid_def by linarith

lemma good_section_iff: "good_section s \<longleftrightarrow> 4 \<le> length s \<and> blen s = total_length s \<and> crc32MPEG2 s = 0"
  by (auto simp: good_section_def crc_valid_def)

lemma good_section_take:
  assumes "total_length bs \<le> blen bs" and "crc_valid (take (nat (total_length bs)) bs)"
  shows "good_section (take (nat (total_length bs)) bs)"
proof -
  have "3 \<le> nat (total_length bs)" "nat (total_length bs) \<le> length bs"
    using assms(1) total_length_bounds(1) [of bs] by linarith+
  then show ?thesis
    using assms(2) by (simp add: good_section_def min_absorb2)
qed

section \<open>SectionAssembler\<close>

record SectionAssembler =
  sa_pid :: u16
  sa_buffer :: bytes
  sa_lastCounter :: u8
  sa_expecting :: bool
  sa_pending :: "Section list"

definition NewSectionAssembler :: "u16 \<Rightarrow> SectionAssembler" where
  "NewSectionAssembler pid =
     \<lparr> sa_pid = pid, sa_buffer = [], sa_lastCounter = 0, sa_expecting = False, sa_pending = [] \<rparr>"

text \<open>
  The loops of \<open>consumePayload\<close> and \<open>completeSections\<close> with the sections found so far as an
  accumulator. The guard \<open>total < 3\<close> of the source is kept although it never holds.
\<close>

function consumePayload_loop :: "bytes \<Rightarrow> Section list \<Rightarrow> SectionAssembler \<Rightarrow> (SectionAssembler \<times> Section list) go" where
  "consumePayload_loop payload sections sa =
     (if blen payload \<ge> 3 \<and> payload ! 0 \<noteq> 0xff
      then do {
        total \<leftarrow> Section_TotalLength payload;
        if total < 3 then Some (sa, sections)
        else if blen payload < total
        then Some (sa\<lparr> sa_buffer := payload, sa_expecting := True \<rparr>, sections)
        else do {
          section \<leftarrow> slice payload 0 total;
          valid \<leftarrow> Section_ValidateCRC section;
          rest \<leftarrow> slice payload total (blen payload);
          consumePayload_loop rest (if valid then sections @ [section] else sections) sa } }
      else Some (sa, sections))"
  by pat_completeness auto
termination
  by (relation "measure (\<lambda>(payload, _, _). length payload)")
     (auto simp: slice_def not_less drop_total_length split: if_splits)

definition SectionAssembler_consumePayload :: "bytes \<Rightarrow> SectionAssembler \<Rightarrow> (SectionAssembler \<times> Section list) go" where
  "SectionAssembler_consumePayload payload sa = consumePayload_loop payload [] sa"

function completeSections_loop :: "bool \<Rightarrow> Section list \<Rightarrow> SectionAssembler \<Rightarrow> (SectionAssembler \<times> Section list) go" where
  "completeSections_loop keepRemainder sections sa =
     (if blen (sa_buffer sa) \<ge> 3
      then do {
        total \<leftarrow> Section_TotalLength (sa_buffer sa);
        if blen (sa_buffer sa) < total then Some (sa\<lparr> sa_expecting := True \<rparr>, sections)
        else do {
          section \<leftarrow> slice (sa_buffer sa) 0 total;
          valid \<leftarrow> Section_ValidateCRC section;
          rest \<leftarrow> slice (sa_buffer sa) total (blen (sa_buffer sa));
          let sections = (if valid then sections @ [section] else sections);
          if \<not> keepRemainder \<and> rest = []
          then Some (sa\<lparr> sa_buffer := rest, sa_expecting := False \<rparr>, sections)
          else completeSections_loop keepRemainder sections (sa\<lparr> sa_buffer := rest \<rparr>) } }
      else Some (if sa_buffer sa = [] then sa\<lparr> sa_expecting := False \<rparr> else sa, sections))"
  by pat_completeness auto
termination
  by (relation "measure (\<lambda>(_, _, sa). length (sa_buffer sa))")
     (auto simp: slice_def not_less drop_total_length split: if_splits)

definition SectionAssembler_completeSections :: "bool \<Rightarrow> SectionAssembler \<Rightarrow> (SectionAssembler \<times> Section list) go" where
  "SectionAssembler_completeSections keepRemainder sa = completeSections_loop keepRemainder [] sa"

declare consumePayload_loop.simps [simp del] completeSections_loop.simps [simp del]

text \<open>
  \<open>FeedAll\<close>; its error result is always nil and is left out. The branch for a packet that starts
  a payload unit is \<open>feed_start\<close>: it completes the section being collected with the bytes before the
  pointer, then begins afresh. A pointer that runs past the packet drops what was collected.
\<close>

definition feed_start :: "bytes \<Rightarrow> SectionAssembler \<Rightarrow> (SectionAssembler \<times> Section list) go" where
  "feed_start payload sa = do {
     b0 \<leftarrow> idx payload 0;
     let pointer = len8 b0;
     payload \<leftarrow> slice payload 1 (blen payload);
     if pointer > blen payload
     then Some (sa\<lparr> sa_buffer := [], sa_expecting := False \<rparr>, [])
     else do {
       (sa, sections) \<leftarrow>
         (if sa_buffer sa \<noteq> [] \<and> pointer > 0
          then do {
            h \<leftarrow> slice payload 0 pointer;
            SectionAssembler_completeSections False (sa\<lparr> sa_buffer := sa_buffer sa @ h \<rparr>) }
          else Some (sa, []));
       let sa = sa\<lparr> sa_buffer := [], sa_expecting := False \<rparr>;
       rest \<leftarrow> slice payload pointer (blen payload);
       (sa, others) \<leftarrow> SectionAssembler_consumePayload rest sa;
       Some (sa, sections @ others) } }"

definition check_counter :: "u8 \<Rightarrow> SectionAssembler \<Rightarrow> SectionAssembler" where
  "check_counter counter sa =
     (if sa_expecting sa \<and> counter \<noteq> (sa_lastCounter sa + 1) AND 0x0f
      then sa\<lparr> sa_buffer := [], sa_expecting := False \<rparr> else sa)\<lparr> sa_lastCounter := counter \<rparr>"

definition SectionAssembler_FeedAll :: "packet \<Rightarrow> SectionAssembler \<Rightarrow> (SectionAssembler \<times> Section list) go" where
  "SectionAssembler_FeedAll p sa = do {
     pid \<leftarrow> Packet_PID p;
     tei \<leftarrow> Packet_TransportErrorIndicator p;
     has \<leftarrow> Packet_HasPayload p;
     if pid \<noteq> sa_pid sa \<or> tei \<or> \<not> has then Some (sa, [])
     else do {
       payload \<leftarrow> Packet_Payload p;
       if payload = [] then Some (sa, [])
       else do {
         counter \<leftarrow> Packet_ContinuityCounter p;
         let sa = check_counter counter sa;
         start \<leftarrow> Packet_PayloadUnitStartIndicator p;
         if start then feed_start payload sa
         else if \<not> sa_expecting sa then Some (sa, [])
         else SectionAssembler_completeSections False (sa\<lparr> sa_buffer := sa_buffer sa @ payload \<rparr>) } } }"

definition SectionAssembler_Feed :: "packet \<Rightarrow> SectionAssembler \<Rightarrow> (SectionAssembler \<times> Section option) go" where
  "SectionAssembler_Feed p sa =
     (case sa_pending sa of
        section # rest \<Rightarrow> Some (sa\<lparr> sa_pending := rest \<rparr>, Some section)
      | [] \<Rightarrow> do {
          (sa, sections) \<leftarrow> SectionAssembler_FeedAll p sa;
          Some (case sections of
            [] \<Rightarrow> (sa, None)
          | section # others \<Rightarrow>
              (if others \<noteq> [] then sa\<lparr> sa_pending := sa_pending sa @ others \<rparr> else sa, Some section)) })"

subsection \<open>What the loops find\<close>

text \<open>
  A run of sections laid end to end: the bytes are cut at the lengths their headers give,
  and the pieces with a valid CRC are kept.
\<close>

function cut_sections :: "bytes \<Rightarrow> Section list \<times> bytes" where
  "cut_sections bs =
     (if 3 \<le> length bs \<and> total_length bs \<le> blen bs
      then let n = nat (total_length bs); (ss, rest) = cut_sections (drop n bs)
           in (if crc_valid (take n bs) then take n bs # ss else ss, rest)
      else ([], bs))"
  by pat_completeness auto
termination
  by (relation "measure length") (auto simp: drop_total_length)

declare cut_sections.simps [simp del]

lemma cut_sections_good: "s \<in> set (fst (cut_sections bs)) \<Longrightarrow> good_section s"
proof (induction bs rule: cut_sections.induct)
  case (1 bs)
  let ?n = "nat (total_length bs)"
  show ?case
  proof (cases "3 \<le> length bs \<and> total_length bs \<le> blen bs")
    case True
    then have "good_section (take ?n bs)" if "crc_valid (take ?n bs)"
      using that by (simp add: good_section_take)
    then show ?thesis
      using "1.prems" "1.IH" [OF True refl] True
      by (auto simp: cut_sections.simps [of bs] Let_def split: prod.splits if_splits)
  next
    case False
    then show ?thesis using "1.prems" by (subst (asm) cut_sections.simps) auto
  qed
qed

lemma cut_sections_short: "length bs < 3 \<Longrightarrow> cut_sections bs = ([], bs)"
  by (simp add: cut_sections.simps)

lemma completeSections_cut:
  "\<exists>e. completeSections_loop False acc sa =
     Some (sa\<lparr> sa_buffer := snd (cut_sections (sa_buffer sa)), sa_expecting := e \<rparr>, acc @ fst (cut_sections (sa_buffer sa)))
     \<and> (e \<longrightarrow> sa_expecting sa \<or> 3 \<le> length (snd (cut_sections (sa_buffer sa))))
     \<and> (3 \<le> length (snd (cut_sections (sa_buffer sa))) \<longrightarrow> e)"
proof (induction "length (sa_buffer sa)" arbitrary: acc sa rule: less_induct)
  case less
  let ?b = "sa_buffer sa" and ?n = "nat (total_length (sa_buffer sa))"
  consider "length ?b < 3" | "3 \<le> length ?b" "blen ?b < total_length ?b" | "3 \<le> length ?b" "total_length ?b \<le> blen ?b"
    by linarith
  then show ?case
  proof cases
    case 1
    then show ?thesis
      by (cases "?b = []")
        (auto simp: completeSections_loop.simps [of False acc sa] cut_sections_short
          intro: exI [of _ False] exI [of _ "sa_expecting sa"])
  next
    case 2
    then show ?thesis
      by (auto simp: completeSections_loop.simps [of False acc sa] cut_sections.simps [of ?b])
  next
    case 3
    have cut: "cut_sections ?b = (let (ss, rest) = cut_sections (drop ?n ?b)
           in (if crc_valid (take ?n ?b) then take ?n ?b # ss else ss, rest))"
      using 3 by (subst cut_sections.simps) (simp add: Let_def)
    show ?thesis
    proof (cases "drop ?n ?b = []")
      case True
      then show ?thesis using 3
        by (auto simp: completeSections_loop.simps [of False acc sa] cut cut_sections_short
            intro: exI [of _ False])
    next
      case False
      have "length (drop ?n ?b) < length ?b" using 3 drop_total_length [of ?b] by simp
      then show ?thesis
        using 3 False less.hyps [of "sa\<lparr> sa_buffer := drop ?n ?b \<rparr>"
            "if crc_valid (take ?n ?b) then acc @ [take ?n ?b] else acc"]
        by (auto simp: completeSections_loop.simps [of False acc sa] cut split: prod.splits)
    qed
  qed
qed

lemma consumePayload_loop_spec:
  "\<exists>sa' ss. consumePayload_loop payload acc sa = Some (sa', acc @ ss) \<and> (\<forall>s \<in> set ss. good_section s)
     \<and> sa_pid sa' = sa_pid sa \<and> sa_pending sa' = sa_pending sa \<and> sa_lastCounter sa' = sa_lastCounter sa"
proof (induction "length payload" arbitrary: payload acc rule: less_induct)
  case less
  let ?n = "nat (total_length payload)"
  consider "length payload < 3 \<or> payload ! 0 = 0xff" | "3 \<le> length payload" "payload ! 0 \<noteq> 0xff" "blen payload < total_length payload"
    | "3 \<le> length payload" "payload ! 0 \<noteq> 0xff" "total_length payload \<le> blen payload"
    by linarith
  then show ?case
  proof cases
    case 1
    then show ?thesis by (auto simp: consumePayload_loop.simps [of payload acc sa])
  next
    case 2
    then show ?thesis by (simp add: consumePayload_loop.simps [of payload acc sa])
  next
    case 3
    have good: "crc_valid (take ?n payload) \<Longrightarrow> good_section (take ?n payload)"
      using 3 by (simp add: good_section_take)
    let ?k = "if crc_valid (take ?n payload) then [take ?n payload] else []"
    have "consumePayload_loop payload acc sa = consumePayload_loop (drop ?n payload) (acc @ ?k) sa"
      using 3 by (subst consumePayload_loop.simps) simp
    moreover have "length (drop ?n payload) < length payload" using 3 drop_total_length [of payload] by simp
    ultimately obtain sa' ss where
        "consumePayload_loop payload acc sa = Some (sa', acc @ (?k @ ss)) \<and> (\<forall>s \<in> set (?k @ ss). good_section s)
         \<and> sa_pid sa' = sa_pid sa \<and> sa_pending sa' = sa_pending sa \<and> sa_lastCounter sa' = sa_lastCounter sa"
      using good less.hyps [of "drop ?n payload" "acc @ ?k"] by auto
    then show ?thesis by blast
  qed
qed

text \<open>What \<open>FeedAll\<close> guarantees of its result, on every packet with a four-byte header.\<close>

definition feed_post :: "SectionAssembler \<Rightarrow> SectionAssembler \<Rightarrow> Section list \<Rightarrow> bool" where
  "feed_post sa sa' ss \<longleftrightarrow> (\<forall>s \<in> set ss. good_section s) \<and> sa_pid sa' = sa_pid sa \<and> sa_pending sa' = sa_pending sa"

lemma feed_post_refl [simp]: "feed_post sa sa []"
  by (simp add: feed_post_def)

lemma feed_post_update [simp]:
  "feed_post (sa\<lparr> sa_buffer := b \<rparr>) sa' ss = feed_post sa sa' ss"
  "feed_post (sa\<lparr> sa_expecting := e \<rparr>) sa' ss = feed_post sa sa' ss"
  "feed_post sa (sa'\<lparr> sa_buffer := b \<rparr>) ss = feed_post sa sa' ss"
  "feed_post sa (sa'\<lparr> sa_expecting := e \<rparr>) ss = feed_post sa sa' ss"
  by (simp_all add: feed_post_def)

lemma feed_post_trans: "feed_post a b ss \<Longrightarrow> feed_post b c ss' \<Longrightarrow> feed_post a c (ss @ ss')"
  by (auto simp: feed_post_def)

lemma completeSections_post:
  "go_ok (SectionAssembler_completeSections False sa) (\<lambda>(sa', ss). feed_post sa sa' ss)"
  using completeSections_cut [of "[]" sa] cut_sections_good
  by (auto simp: SectionAssembler_completeSections_def feed_post_def)

lemma consumePayload_post:
  "go_ok (SectionAssembler_consumePayload payload sa) (\<lambda>(sa', ss). feed_post sa sa' ss)"
  using consumePayload_loop_spec [of payload "[]" sa]
  by (auto simp: SectionAssembler_consumePayload_def feed_post_def)

lemma Packet_Payload_returns:
  assumes "4 \<le> length p"
  shows "go_ok (Packet_Payload p) (\<lambda>_. True)"
  using assms len8_bounds [of "p ! 4"]
  by (auto simp: packet_defs go_wp)

lemma feed_start_post:
  assumes "payload \<noteq> []"
  shows "go_ok (feed_start payload sa) (\<lambda>(sa', ss). feed_post sa sa' ss)"
proof -
  have second: "go_ok (SectionAssembler_consumePayload pl (sa'\<lparr> sa_buffer := [], sa_expecting := False \<rparr>))
      (\<lambda>(sa'', others). feed_post sa sa'' (ss @ others))" if "feed_post sa sa' ss" for pl sa' ss
    using consumePayload_post [of pl "sa'\<lparr> sa_buffer := [], sa_expecting := False \<rparr>"]
    by (rule go_ok_mono) (auto intro: feed_post_trans [OF that])
  have first: "go_ok (SectionAssembler_completeSections False (sa\<lparr> sa_buffer := b \<rparr>))
      (\<lambda>(sa', ss). go_ok (SectionAssembler_consumePayload pl (sa'\<lparr> sa_buffer := [], sa_expecting := False \<rparr>))
        (\<lambda>(sa'', others). feed_post sa sa'' (ss @ others)))" for b pl
    using completeSections_post [of "sa\<lparr> sa_buffer := b \<rparr>"]
    by (rule go_ok_mono) (auto intro: second)
  show ?thesis
    using assms second [of sa "[]"] first
    by (auto simp: feed_start_def go_wp Let_def Suc_le_eq)
qed

lemma FeedAll_post:
  assumes "4 \<le> length p"
  shows "go_ok (SectionAssembler_FeedAll p sa) (\<lambda>(sa', ss). feed_post sa sa' ss)"
proof -
  have cc: "feed_post (check_counter c sa) sa' ss = feed_post sa sa' ss"
    "feed_post sa (check_counter c sa) []" for c sa' ss
    by (simp_all add: check_counter_def feed_post_def)
  have "go_ok (feed_start pl (check_counter c sa)) (\<lambda>(sa', ss). feed_post sa sa' ss)" if "pl \<noteq> []" for pl c
    using feed_start_post [OF that, of "check_counter c sa"] by (simp add: cc)
  moreover have "go_ok (SectionAssembler_completeSections False ((check_counter c sa)\<lparr> sa_buffer := b \<rparr>))
      (\<lambda>(sa', ss). feed_post sa sa' ss)" for b c
    using completeSections_post [of "(check_counter c sa)\<lparr> sa_buffer := b \<rparr>"] by (simp add: cc)
  moreover have "\<exists>pl. Packet_Payload p = Some pl"
    using Packet_Payload_returns [OF assms] by (simp add: go_ok_def)
  ultimately show ?thesis
    using assms cc
    by (auto simp: SectionAssembler_FeedAll_def header_accessors_in_range Let_def)
qed

section \<open>The interface of a section source\<close>

text \<open>
  What whoever reads sections relies on: under the source's invariant, feeding an accepted
  packet never panics, keeps the invariant, and everything that comes out is good. The client
  lemmas are about feeding a list of packets. The assembler provides it here, and the
  demultiplexer in \<open>TS_Demux\<close>.
\<close>

fun feed_many :: "(packet \<Rightarrow> 's \<Rightarrow> ('s \<times> 'o list) go) \<Rightarrow> packet list \<Rightarrow> 's \<Rightarrow> ('s \<times> 'o list) go" where
  "feed_many feed [] st = Some (st, [])"
| "feed_many feed (p # ps) st = do {
     (st, ss) \<leftarrow> feed p st;
     (st, ss') \<leftarrow> feed_many feed ps st;
     Some (st, ss @ ss') }"

locale section_source =
  fixes feed :: "packet \<Rightarrow> 's \<Rightarrow> ('s \<times> 'o list) go"
    and inv :: "'s \<Rightarrow> bool"
    and accept :: "packet \<Rightarrow> bool"
    and good :: "'o \<Rightarrow> bool"
  assumes feed_ok: "accept p \<Longrightarrow> inv st \<Longrightarrow> go_ok (feed p st) (\<lambda>(st', ss). inv st' \<and> (\<forall>s \<in> set ss. good s))"
begin

lemma feed_many_ok:
  "\<forall>p \<in> set ps. accept p \<Longrightarrow> inv st \<Longrightarrow>
     go_ok (feed_many feed ps st) (\<lambda>(st', ss). inv st' \<and> (\<forall>s \<in> set ss. good s))"
proof (induction ps arbitrary: st)
  case (Cons p ps)
  obtain st1 ss where 1: "feed p st = Some (st1, ss)" "inv st1" "\<forall>s \<in> set ss. good s"
    using feed_ok [of p st] Cons.prems by (auto simp: go_ok_def)
  obtain st2 ss2 where 2: "feed_many feed ps st1 = Some (st2, ss2)" "inv st2" "\<forall>s \<in> set ss2. good s"
    using Cons.IH [of st1] Cons.prems 1(2) by (auto simp: go_ok_def)
  show ?case using 1 2 by auto
qed simp

lemma feed_good: "accept p \<Longrightarrow> inv st \<Longrightarrow> feed p st = Some (st', ss) \<Longrightarrow> s \<in> set ss \<Longrightarrow> good s"
  using feed_ok [of p st] by (simp add: go_ok_def)

end

interpretation assembler: section_source SectionAssembler_FeedAll "\<lambda>sa. sa_pid sa = pid" "\<lambda>p. 4 \<le> length p" good_section
  for pid
  by unfold_locales (auto simp: feed_post_def intro: go_ok_mono [OF FeedAll_post])

section \<open>Properties\<close>

text \<open>
  C37. The table-driven \<open>crc32MPEG2\<close> computes the bit-serial CRC-32/MPEG-2 register of the
  standard, on every byte string.
\<close>

theorem crc32MPEG2_is_serial: "crc32MPEG2 data = serial_crc data"
  by (rule serial_crc_eq)

text \<open>
  The CRC of a message followed by four bytes is zero exactly when the four bytes are the
  message's CRC, most significant byte first: the check \<open>crc32MPEG2(s) == 0\<close> of \<open>ValidateCRC\<close>
  accepts the CRC that \<open>BuildPATSection\<close> appends and no other.
\<close>

theorem crc32MPEG2_zero_iff: "crc32MPEG2 (data @ [a, b, c, d]) = 0 \<longleftrightarrow> [a, b, c, d] = b32 (crc32MPEG2 data)"
proof -
  have "[a, b, c, d] = b32 w \<longleftrightarrow> be32 a b c d = w" for w
    using b32_be32 [of a b c d] by (auto simp: b32_def simp del: b32_be32)
  then show ?thesis using crc_residue [of data a b c d] by simp
qed

text \<open>
  Burst errors: when a valid section is changed only within four consecutive bytes, the
  changed section no longer passes the CRC check.
\<close>

theorem crc32MPEG2_detects_burst:
  assumes "crc32MPEG2 (pre @ a @ post) = 0" and "length b = length a" and "length a \<le> 4" and "b \<noteq> a"
  shows "crc32MPEG2 (pre @ b @ post) \<noteq> 0"
  using crc_window [of a b pre post] assms by auto

theorem crc32MPEG2_detects_burst_witness:
  "crc32MPEG2 ([0, 0xb0] @ [0x0e] @ b32 (crc32MPEG2 [0, 0xb0, 0x0d])) \<noteq> 0"
  by (rule crc32MPEG2_detects_burst [of _ "[0x0d]"])
     (use crc_append_crc [of "[0, 0xb0, 0x0d]"] in simp_all)

text \<open>
  C32. However packets are fed to a \<open>SectionAssembler\<close> (any bytes, any order, any start state),
  \<open>FeedAll\<close> never panics, and every section it returns is exactly as long as its header says
  and passes \<open>ValidateCRC\<close>.
\<close>

theorem SectionAssembler_emits_valid:
  assumes "\<forall>p \<in> set ps. 4 \<le> length p"
  shows "\<exists>sa' ss. feed_many SectionAssembler_FeedAll ps sa = Some (sa', ss) \<and>
     (\<forall>s. s \<in> set ss \<longrightarrow> Section_ValidateCRC s = Some True \<and> Section_TotalLength s = Some (blen s))"
proof -
  have *: "good_section s \<Longrightarrow> Section_ValidateCRC s = Some True \<and> Section_TotalLength s = Some (blen s)" for s
    using good_section_length [of s] by (auto simp: good_section_def)
  show ?thesis
    using assembler.feed_many_ok [where ps = ps and st = sa and pid = "sa_pid sa"] assms * by (fastforce simp: go_ok_def)
qed

theorem SectionAssembler_emits_valid_witness:
  "\<exists>sa' ss. feed_many SectionAssembler_FeedAll [replicate 188 0x47, [0x47, 0, 0, 0x10]] (NewSectionAssembler 0) = Some (sa', ss)"
  using SectionAssembler_emits_valid [of "[replicate 188 0x47, [0x47, 0, 0, 0x10]]" "NewSectionAssembler 0"]
  by auto

end
