(* ===== verification/TS_Descriptors.thy ===== *)
theory TS_Descriptors
  imports TS_Section
begin

text \<open>
  Descriptors: \<open>ts/descriptors.go\<close>, the strict loop of \<open>ts/nit.go\<close>, the service descriptor of
  \<open>ts/sdt.go\<close> and the broadcaster descriptors of \<open>ts/bit.go\<close>. A descriptor is a byte string
  whose second byte is the length of what follows. The parsers that decode text take the
  string decoder (\<open>DecodeARIBString\<close>) as their first argument.
\<close>

section \<open>Descriptor loops\<close>

type_synonym Descriptor = bytes

definition Descriptor_Tag :: "Descriptor \<Rightarrow> u8 go" where
  "Descriptor_Tag d = idx d 0"

definition Descriptor_Length :: "Descriptor \<Rightarrow> int go" where
  "Descriptor_Length d = do { b \<leftarrow> idx d 1; Some (len8 b) }"

definition Descriptor_Data :: "Descriptor \<Rightarrow> bytes go" where
  "Descriptor_Data d = do { n \<leftarrow> Descriptor_Length d; slice d 2 (2 + n) }"

text \<open>
  \<open>ParseDescriptors\<close> stops at the first descriptor that does not fit; \<open>parseDescriptorsStrict\<close>
  fails there. The head of the loop is matched on the first two bytes.
\<close>

function ParseDescriptors :: "bytes \<Rightarrow> Descriptor list" where
  "ParseDescriptors (t # l # b) =
     (if blen b < len8 l then []
      else (t # l # take (nat (len8 l)) b) # ParseDescriptors (drop (nat (len8 l)) b))"
| "ParseDescriptors [] = []"
| "ParseDescriptors [t] = []"
  by pat_completeness auto
termination by (relation "measure length") auto

function parseDescriptorsStrict :: "bytes \<Rightarrow> ts_error + Descriptor list" where
  "parseDescriptorsStrict (t # l # b) =
     (if blen b < len8 l then Inl ErrInvalidSection
      else case parseDescriptorsStrict (drop (nat (len8 l)) b) of
             Inl e \<Rightarrow> Inl e
           | Inr ds \<Rightarrow> Inr ((t # l # take (nat (len8 l)) b) # ds))"
| "parseDescriptorsStrict [] = Inr []"
| "parseDescriptorsStrict [t] = Inl ErrInvalidSection"
  by pat_completeness auto
termination by (relation "measure length") auto

definition descriptorsLength :: "Descriptor list \<Rightarrow> int" where
  "descriptorsLength ds = foldl (\<lambda>n d. n + blen d) 0 ds"

text \<open>A well-formed descriptor: its length byte counts the bytes after it.\<close>

definition descr_ok :: "Descriptor \<Rightarrow> bool" where
  "descr_ok d \<longleftrightarrow> 2 \<le> length d \<and> blen d = 2 + len8 (d ! 1)"

lemma descr_ok_Cons: "descr_ok d \<longleftrightarrow> (\<exists>t l b. d = t # l # b \<and> blen b = len8 l)"
proof -
  have "2 \<le> length d \<longleftrightarrow> (\<exists>t l b. d = t # l # b)"
    by (cases d rule: ParseDescriptors.cases) simp_all
  then show ?thesis by (auto simp: descr_ok_def)
qed

lemma descriptorsLength_concat: "descriptorsLength ds = blen (concat ds)"
proof -
  have "foldl (\<lambda>n d. n + blen d) k ds = k + blen (concat ds)" for k
    by (induction ds arbitrary: k) simp_all
  then show ?thesis by (simp add: descriptorsLength_def)
qed

lemma ParseDescriptors_ok: "d \<in> set (ParseDescriptors b) \<Longrightarrow> descr_ok d"
proof (induction b rule: ParseDescriptors.induct)
  case (1 t l b)
  have "blen (take (nat (len8 l)) b) = len8 l" if "len8 l \<le> blen b"
    using that by (simp add: min_absorb2)
  then show ?case using 1 by (auto simp: descr_ok_Cons split: if_splits)
qed simp_all

lemma ParseDescriptors_prefix: "\<exists>rest. b = concat (ParseDescriptors b) @ rest"
proof (induction b rule: ParseDescriptors.induct)
  case (1 t l b)
  show ?case
  proof (cases "blen b < len8 l")
    case False
    then obtain rest where "drop (nat (len8 l)) b = concat (ParseDescriptors (drop (nat (len8 l)) b)) @ rest"
      using 1 by blast
    then have "b = take (nat (len8 l)) b @ concat (ParseDescriptors (drop (nat (len8 l)) b)) @ rest"
      by (metis append_take_drop_id)
    then show ?thesis using False by (simp, blast)
  qed simp
qed simp_all

lemma take_len8: "blen b = len8 l \<Longrightarrow> take (nat (len8 l)) (b @ c) = b \<and> drop (nat (len8 l)) (b @ c) = c"
  by (metis append_eq_conv_conj nat_int)

lemma ParseDescriptors_concat: "\<forall>d \<in> set ds. descr_ok d \<Longrightarrow> ParseDescriptors (concat ds) = ds"
  by (induction ds) (auto simp: descr_ok_Cons take_len8 simp del: take_append drop_append)

lemma parseDescriptorsStrict_sound:
  "parseDescriptorsStrict b = Inr ds \<Longrightarrow> concat ds = b \<and> (\<forall>d \<in> set ds. descr_ok d)"
proof (induction b arbitrary: ds rule: parseDescriptorsStrict.induct)
  case (1 t l b)
  then have "len8 l \<le> blen b" by (auto split: if_splits)
  moreover from this have "blen (take (nat (len8 l)) b) = len8 l" by (simp add: min_absorb2)
  ultimately show ?case
    using 1 by (auto simp: descr_ok_Cons split: if_splits sum.splits)
qed simp_all

lemma parseDescriptorsStrict_complete:
  "\<forall>d \<in> set ds. descr_ok d \<Longrightarrow> parseDescriptorsStrict (concat ds) = Inr ds"
  by (induction ds) (auto simp: descr_ok_Cons take_len8 simp del: take_append drop_append)

lemma parseDescriptorsStrict_iff:
  "parseDescriptorsStrict b = Inr ds \<longleftrightarrow> concat ds = b \<and> (\<forall>d \<in> set ds. descr_ok d)"
  using parseDescriptorsStrict_sound parseDescriptorsStrict_complete by blast

lemma descriptor_accessors [simp]:
  assumes "descr_ok d"
  shows "Descriptor_Tag d = Some (d ! 0)" and "Descriptor_Length d = Some (len8 (d ! 1))"
    and "Descriptor_Data d = Some (drop 2 d)"
  using assms by (auto simp: descr_ok_Cons Descriptor_Tag_def Descriptor_Length_def Descriptor_Data_def)

section \<open>Data component descriptors\<close>

definition descriptor_fits :: "Descriptor \<Rightarrow> bool go" where
  "descriptor_fits d =
     (if blen d < 2 then Some False else do { n \<leftarrow> Descriptor_Length d; Some (\<not> blen d < 2 + n) })"

record DataComponentDescriptor =
  dcd_DataComponentID :: u16
  dcd_AdditionalDataComponentInfo :: bytes

definition ParseDataComponentDescriptor :: "Descriptor \<Rightarrow> DataComponentDescriptor res" where
  "ParseDataComponentDescriptor d = do {
     fits \<leftarrow> descriptor_fits d;
     if \<not> fits then res_err ErrInvalidSection
     else do {
       tag \<leftarrow> Descriptor_Tag d;
       data \<leftarrow> Descriptor_Data d;
       if tag \<noteq> 0xFD \<or> blen data < 2 then res_err ErrInvalidSection
       else do {
         b0 \<leftarrow> idx data 0; b1 \<leftarrow> idx data 1;
         rest \<leftarrow> slice data 2 (blen data);
         res_ok \<lparr> dcd_DataComponentID = be16 b0 b1, dcd_AdditionalDataComponentInfo = rest \<rparr> } } }"

record AdditionalAribBXMLEntryPointInfo =
  ep_AutoStartFlag :: bool
  ep_DocumentResolution :: u8
  ep_UseXML :: bool
  ep_DefaultVersionFlag :: bool
  ep_IndependentFlag :: bool
  ep_StyleForTVFlag :: bool
  ep_BMLMajorVersion :: u16
  ep_BMLMinorVersion :: u16
  ep_BXMLMajorVersion :: "u16 option"
  ep_BXMLMinorVersion :: "u16 option"

record AdditionalAribCarouselInfo =
  ci_DataEventID :: u8
  ci_EventSectionFlag :: bool
  ci_OnDemandRetrievalFlag :: bool
  ci_FileStorableFlag :: bool
  ci_StartPriority :: u8

record AdditionalAribBXMLInfo =
  bx_TransmissionFormat :: u8
  bx_EntryPointFlag :: bool
  bx_EntryPointInfo :: "AdditionalAribBXMLEntryPointInfo option"
  bx_AdditionalAribCarouselInfo :: "AdditionalAribCarouselInfo option"

definition read_u16 :: "bytes \<Rightarrow> int \<Rightarrow> u16 go" where
  "read_u16 data off = do { a \<leftarrow> idx data off; b \<leftarrow> idx data (off + 1); Some (be16 a b) }"

text \<open>The version fields: absent with the default-version flag, and BXML versions only with \<open>UseXML\<close>.\<close>

definition bxml_entry :: "bytes \<Rightarrow> (int \<times> AdditionalAribBXMLEntryPointInfo) res" where
  "bxml_entry data = (
     let off = 1 in
     if blen data < off + 1 then res_err ErrInvalidSection
     else do {
       d0 \<leftarrow> idx data 0; d1 \<leftarrow> idx data off;
       let entry = \<lparr> ep_AutoStartFlag = d0 AND 0x10 \<noteq> 0, ep_DocumentResolution = d0 AND 0x0f,
              ep_UseXML = d1 AND 0x80 \<noteq> 0, ep_DefaultVersionFlag = d1 AND 0x40 \<noteq> 0,
              ep_IndependentFlag = d1 AND 0x20 \<noteq> 0, ep_StyleForTVFlag = d1 AND 0x10 \<noteq> 0,
              ep_BMLMajorVersion = 1, ep_BMLMinorVersion = 0,
              ep_BXMLMajorVersion = None, ep_BXMLMinorVersion = None \<rparr>;
       let off = off + 1;
       if ep_DefaultVersionFlag entry then res_ok (off, entry)
       else if blen data < off + 4 then res_err ErrInvalidSection
       else do {
         major \<leftarrow> read_u16 data off; minor \<leftarrow> read_u16 data (off + 2);
         let entry = entry\<lparr> ep_BMLMajorVersion := major, ep_BMLMinorVersion := minor \<rparr>;
         let off = off + 4;
         if \<not> ep_UseXML entry then res_ok (off, entry)
         else if blen data < off + 4 then res_err ErrInvalidSection
         else do {
           major \<leftarrow> read_u16 data off; minor \<leftarrow> read_u16 data (off + 2);
           res_ok (off + 4, entry\<lparr> ep_BXMLMajorVersion := Some major, ep_BXMLMinorVersion := Some minor \<rparr>) } } })"

definition ParseAdditionalAribBXMLInfo :: "bytes \<Rightarrow> AdditionalAribBXMLInfo res" where
  "ParseAdditionalAribBXMLInfo data =
     (if blen data < 3 then res_err ErrInvalidSection
      else do {
        d0 \<leftarrow> idx data 0;
        let info = \<lparr> bx_TransmissionFormat = drop_bit 6 d0 AND 0x03, bx_EntryPointFlag = d0 AND 0x20 \<noteq> 0,
               bx_EntryPointInfo = None, bx_AdditionalAribCarouselInfo = None \<rparr>;
        res_bind
          (if bx_EntryPointFlag info
           then res_bind (bxml_entry data) (\<lambda>(off, entry). res_ok (off, info\<lparr> bx_EntryPointInfo := Some entry \<rparr>))
           else res_ok (1, info))
          (\<lambda>(off, info).
             if bx_TransmissionFormat info = 0
             then if blen data < off + 2 then res_err ErrInvalidSection
                  else do {
                    a \<leftarrow> idx data off; b \<leftarrow> idx data (off + 1);
                    res_ok (info\<lparr> bx_AdditionalAribCarouselInfo := Some
                      \<lparr> ci_DataEventID = drop_bit 4 a, ci_EventSectionFlag = a AND 0x08 \<noteq> 0,
                        ci_OnDemandRetrievalFlag = b AND 0x80 \<noteq> 0, ci_FileStorableFlag = b AND 0x40 \<noteq> 0,
                        ci_StartPriority = drop_bit 5 b AND 0x01 \<rparr> \<rparr>) }
             else res_ok info) })"

section \<open>Network and service descriptors\<close>

type_synonym gostring = "int list"
type_synonym decoder = "bytes \<Rightarrow> ts_error + gostring"

record TSInformationTransmissionType =
  tt_TransmissionTypeInfo :: u8
  tt_ServiceIDs :: "u16 list"

record TSInformationDescriptor =
  tsi_RemoteControlKeyID :: u8
  tsi_TSName :: gostring
  tsi_TransmissionTypes :: "TSInformationTransmissionType list"

fun read_ids :: "bytes \<Rightarrow> int \<Rightarrow> nat \<Rightarrow> u16 list go" where
  "read_ids data off 0 = Some []"
| "read_ids data off (Suc n) = do {
     x \<leftarrow> read_u16 data off;
     xs \<leftarrow> read_ids data (off + 2) n;
     Some (x # xs) }"

fun transmission_types :: "bytes \<Rightarrow> int \<Rightarrow> nat \<Rightarrow> TSInformationTransmissionType list res" where
  "transmission_types data off 0 = res_ok []"
| "transmission_types data off (Suc n) =
     (if off + 2 > blen data then res_err ErrInvalidSection
      else do {
        info \<leftarrow> idx data off;
        c \<leftarrow> idx data (off + 1);
        let numServices = len8 c;
        let off = off + 2;
        if off + numServices * 2 > blen data then res_err ErrInvalidSection
        else do {
          ids \<leftarrow> read_ids data off (nat numServices);
          res_bind (transmission_types data (off + numServices * 2) n)
            (\<lambda>ts. res_ok (\<lparr> tt_TransmissionTypeInfo = info, tt_ServiceIDs = ids \<rparr> # ts)) } })"

definition ParseTSInformationDescriptor :: "decoder \<Rightarrow> Descriptor \<Rightarrow> TSInformationDescriptor res" where
  "ParseTSInformationDescriptor dec d = do {
     fits \<leftarrow> descriptor_fits d;
     if \<not> fits then res_err ErrInvalidSection
     else do {
       tag \<leftarrow> Descriptor_Tag d;
       if tag \<noteq> 0xCD then res_err (ErrUnexpectedTag tag)
       else do {
         data \<leftarrow> Descriptor_Data d;
         if blen data < 2 then res_err ErrInvalidSection
         else do {
           d0 \<leftarrow> idx data 0;
           d1 \<leftarrow> idx data 1;
           let nameLen = uint (drop_bit 2 d1);
           let transmissionTypeCount = uint (d1 AND 0x03);
           let nameEnd = 2 + nameLen;
           if nameEnd > blen data then res_err ErrInvalidSection
           else do {
             raw \<leftarrow> slice data 2 nameEnd;
             (case dec raw of
                Inl e \<Rightarrow> res_err e
              | Inr name \<Rightarrow>
                  res_bind (transmission_types data nameEnd (nat transmissionTypeCount)) (\<lambda>ts.
                    res_ok \<lparr> tsi_RemoteControlKeyID = d0, tsi_TSName = name, tsi_TransmissionTypes = ts \<rparr>)) } } } } }"

record ServiceListEntry =
  sle_ServiceID :: u16
  sle_ServiceType :: u8

function service_list_entries :: "bytes \<Rightarrow> int \<Rightarrow> ServiceListEntry list go" where
  "service_list_entries data off =
     (if off < blen data
      then do {
        sid \<leftarrow> read_u16 data off;
        ty \<leftarrow> idx data (off + 2);
        es \<leftarrow> service_list_entries data (off + 3);
        Some (\<lparr> sle_ServiceID = sid, sle_ServiceType = ty \<rparr> # es) }
      else Some [])"
  by pat_completeness auto
termination by (relation "measure (\<lambda>(data, off). nat (blen data - off))") auto

declare service_list_entries.simps [simp del]

definition ParseServiceListDescriptor :: "Descriptor \<Rightarrow> ServiceListEntry list res" where
  "ParseServiceListDescriptor d = do {
     fits \<leftarrow> descriptor_fits d;
     if \<not> fits then res_err ErrInvalidSection
     else do {
       tag \<leftarrow> Descriptor_Tag d;
       if tag \<noteq> 0x41 then res_err (ErrUnexpectedTag tag)
       else do {
         data \<leftarrow> Descriptor_Data d;
         if blen data mod 3 \<noteq> 0 then res_err ErrInvalidSection
         else do { es \<leftarrow> service_list_entries data 0; res_ok es } } } }"

record TerrestrialDeliverySystemDescriptor =
  td_AreaCode :: u16
  td_GuardInterval :: u8
  td_TransmissionMode :: u8
  td_Frequencies :: "u16 list"

function frequencies :: "bytes \<Rightarrow> int \<Rightarrow> u16 list go" where
  "frequencies data off =
     (if off < blen data
      then do { f \<leftarrow> read_u16 data off; fs \<leftarrow> frequencies data (off + 2); Some (f # fs) }
      else Some [])"
  by pat_completeness auto
termination by (relation "measure (\<lambda>(data, off). nat (blen data - off))") auto

declare frequencies.simps [simp del]

definition ParseTerrestrialDeliverySystemDescriptor :: "Descriptor \<Rightarrow> TerrestrialDeliverySystemDescriptor res" where
  "ParseTerrestrialDeliverySystemDescriptor d = do {
     fits \<leftarrow> descriptor_fits d;
     if \<not> fits then res_err ErrInvalidSection
     else do {
       tag \<leftarrow> Descriptor_Tag d;
       if tag \<noteq> 0xFA then res_err (ErrUnexpectedTag tag)
       else do {
         data \<leftarrow> Descriptor_Data d;
         if blen data < 2 then res_err ErrInvalidSection
         else do {
           rest \<leftarrow> slice data 2 (blen data);
           if blen rest mod 2 \<noteq> 0 then res_err ErrInvalidSection
           else do {
             d0 \<leftarrow> idx data 0; d1 \<leftarrow> idx data 1;
             fs \<leftarrow> frequencies data 2;
             res_ok \<lparr> td_AreaCode = push_bit 4 (ucast d0) OR ucast (drop_bit 4 d1),
                      td_GuardInterval = drop_bit 2 d1 AND 0x03, td_TransmissionMode = d1 AND 0x03,
                      td_Frequencies = fs \<rparr> } } } } }"

record ServiceDescriptor =
  sd_ServiceType :: u8
  sd_ServiceProviderName :: gostring
  sd_ServiceName :: gostring

text \<open>\<open>ParseServiceDescriptor\<close> reads the tag before any length check: it wants a whole descriptor.\<close>

definition ParseServiceDescriptor :: "decoder \<Rightarrow> Descriptor \<Rightarrow> ServiceDescriptor res" where
  "ParseServiceDescriptor dec d = do {
     tag \<leftarrow> Descriptor_Tag d;
     if tag \<noteq> 0x48 then res_err (ErrUnexpectedTag tag)
     else do {
       data \<leftarrow> Descriptor_Data d;
       if blen data < 3 then res_err ErrInvalidSection
       else do {
         d1 \<leftarrow> idx data 1;
         let providerEnd = 2 + len8 d1;
         if providerEnd \<ge> blen data then res_err ErrInvalidSection
         else do {
           n \<leftarrow> idx data providerEnd;
           let nameStart = providerEnd + 1;
           let nameEnd = nameStart + len8 n;
           if nameEnd > blen data then res_err ErrInvalidSection
           else do {
             rawProvider \<leftarrow> slice data 2 providerEnd;
             (case dec rawProvider of
                Inl e \<Rightarrow> res_err e
              | Inr provider \<Rightarrow> do {
                  rawName \<leftarrow> slice data nameStart nameEnd;
                  (case dec rawName of
                     Inl e \<Rightarrow> res_err e
                   | Inr name \<Rightarrow> do {
                       d0 \<leftarrow> idx data 0;
                       res_ok \<lparr> sd_ServiceType = d0, sd_ServiceProviderName = provider,
                                sd_ServiceName = name \<rparr> }) }) } } } } }"

section \<open>Broadcaster descriptors\<close>

record AffiliatedBroadcaster =
  ab_OriginalNetworkID :: u16
  ab_BroadcasterID :: u8

record ExtendedBroadcasterDescriptor =
  eb_BroadcasterType :: u8
  eb_TerrestrialBroadcasterID :: u16
  eb_AffiliationIDs :: bytes
  eb_Broadcasters :: "AffiliatedBroadcaster list"
  eb_PrivateData :: bytes

fun affiliated :: "bytes \<Rightarrow> int \<Rightarrow> nat \<Rightarrow> AffiliatedBroadcaster list go" where
  "affiliated data off 0 = Some []"
| "affiliated data off (Suc n) = do {
     net \<leftarrow> read_u16 data off;
     b \<leftarrow> idx data (off + 2);
     bs \<leftarrow> affiliated data (off + 3) n;
     Some (\<lparr> ab_OriginalNetworkID = net, ab_BroadcasterID = b \<rparr> # bs) }"

definition ParseExtendedBroadcasterDescriptor :: "Descriptor \<Rightarrow> ExtendedBroadcasterDescriptor res" where
  "ParseExtendedBroadcasterDescriptor d = do {
     fits \<leftarrow> descriptor_fits d;
     if \<not> fits then res_err ErrInvalidSection
     else do {
       tag \<leftarrow> Descriptor_Tag d;
       if tag \<noteq> 0xCE then res_err ErrInvalidSection
       else do {
         data \<leftarrow> Descriptor_Data d;
         if blen data < 1 then res_err ErrInvalidSection
         else do {
           d0 \<leftarrow> idx data 0;
           let out = \<lparr> eb_BroadcasterType = drop_bit 4 d0, eb_TerrestrialBroadcasterID = 0,
                       eb_AffiliationIDs = [], eb_Broadcasters = [], eb_PrivateData = [] \<rparr>;
           if eb_BroadcasterType out \<noteq> 1 \<and> eb_BroadcasterType out \<noteq> 2
           then do { priv \<leftarrow> slice data 1 (blen data); res_ok (out\<lparr> eb_PrivateData := priv \<rparr>) }
           else if blen data < 4 then res_err ErrInvalidSection
           else do {
             tid \<leftarrow> read_u16 data 1;
             d3 \<leftarrow> idx data 3;
             let affiliationCount = uint (drop_bit 4 d3);
             let broadcasterCount = uint (d3 AND 0x0f);
             let off = 4;
             if off + affiliationCount + broadcasterCount * 3 > blen data then res_err ErrInvalidSection
             else do {
               aff \<leftarrow> slice data off (off + affiliationCount);
               let off = off + affiliationCount;
               bs \<leftarrow> affiliated data off (nat broadcasterCount);
               priv \<leftarrow> slice data (off + broadcasterCount * 3) (blen data);
               res_ok (out\<lparr> eb_TerrestrialBroadcasterID := tid, eb_AffiliationIDs := aff,
                            eb_Broadcasters := bs, eb_PrivateData := priv \<rparr>) } } } } } }"

definition ParseBroadcasterNameDescriptor :: "decoder \<Rightarrow> Descriptor \<Rightarrow> gostring res" where
  "ParseBroadcasterNameDescriptor dec d = do {
     fits \<leftarrow> descriptor_fits d;
     if \<not> fits then res_err ErrInvalidSection
     else do {
       tag \<leftarrow> Descriptor_Tag d;
       if tag \<noteq> 0xD8 then res_err ErrInvalidSection
       else do {
         data \<leftarrow> Descriptor_Data d;
         (case dec data of Inl e \<Rightarrow> res_err e | Inr s \<Rightarrow> res_ok s) } } }"

section \<open>The descriptor parsers do not panic\<close>

lemma read_u16_wp [go_wp]:
  "go_ok (read_u16 data off) P \<longleftrightarrow> 0 \<le> off \<and> off + 1 < blen data \<and> P (be16 (data ! nat off) (data ! nat (off + 1)))"
  by (auto simp: read_u16_def go_wp)

lemma read_u16_in [simp]:
  "0 \<le> off \<Longrightarrow> off + 1 < blen data \<Longrightarrow> read_u16 data off = Some (be16 (data ! nat off) (data ! nat (off + 1)))"
  by (simp add: read_u16_def)

lemma descriptor_fits_wp [go_wp]:
  "go_ok (descriptor_fits d) P \<longleftrightarrow> P (2 \<le> length d \<and> 2 + len8 (d ! 1) \<le> blen d)"
  by (auto simp: descriptor_fits_def Descriptor_Length_def go_wp not_less)

lemma Descriptor_Tag_wp [go_wp]: "go_ok (Descriptor_Tag d) P \<longleftrightarrow> d \<noteq> [] \<and> P (d ! 0)"
  by (auto simp: Descriptor_Tag_def go_wp)

lemma Descriptor_Data_wp [go_wp]:
  "go_ok (Descriptor_Data d) P \<longleftrightarrow> 2 \<le> length d \<and> 2 + len8 (d ! 1) \<le> blen d \<and> P (take (nat (len8 (d ! 1))) (drop 2 d))"
  by (auto simp: Descriptor_Data_def Descriptor_Length_def go_wp)

lemma read_ids_ok: "0 \<le> off \<Longrightarrow> off + 2 * int n \<le> blen data \<Longrightarrow> go_ok (read_ids data off n) (\<lambda>_. True)"
  by (induction n arbitrary: off) (auto simp: go_wp)

lemma transmission_types_ok: "0 \<le> off \<Longrightarrow> go_ok (transmission_types data off n) (\<lambda>_. True)"
proof (induction n arbitrary: off)
  case (Suc n)
  have "go_ok (read_ids data (off + 2) (nat (len8 c))) (\<lambda>_. True)" if "off + 2 + len8 c * 2 \<le> blen data" for c
    using read_ids_ok [of "off + 2" "nat (len8 c)" data] Suc.prems that by simp
  moreover have "go_ok (transmission_types data (off + 2 + len8 c * 2) n) (\<lambda>_. True)" for c
    using Suc by simp
  ultimately show ?case
    using Suc.prems by (simp add: go_wp Let_def)
qed simp

lemma service_list_entries_ok:
  "0 \<le> off \<Longrightarrow> (blen data - off) mod 3 = 0 \<Longrightarrow> go_ok (service_list_entries data off) (\<lambda>_. True)"
proof (induction data off rule: service_list_entries.induct)
  case (1 data off)
  show ?case
  proof (cases "off < blen data")
    case True
    moreover from this have "off + 2 < blen data" using "1.prems" by presburger
    moreover have "(blen data - (off + 3)) mod 3 = 0" using "1.prems" by presburger
    ultimately show ?thesis
      using "1.IH" "1.prems" by (auto simp: go_wp service_list_entries.simps [of data off])
  next
    case False
    then show ?thesis by (simp add: service_list_entries.simps [of data off])
  qed
qed

lemma frequencies_ok:
  "0 \<le> off \<Longrightarrow> (blen data - off) mod 2 = 0 \<Longrightarrow> go_ok (frequencies data off) (\<lambda>_. True)"
proof (induction data off rule: frequencies.induct)
  case (1 data off)
  show ?case
  proof (cases "off < blen data")
    case True
    moreover from this have "off + 1 < blen data" using "1.prems" by presburger
    moreover have "(blen data - (off + 2)) mod 2 = 0" using "1.prems" by presburger
    ultimately show ?thesis
      using "1.IH" "1.prems" by (auto simp: go_wp frequencies.simps [of data off])
  next
    case False
    then show ?thesis by (simp add: frequencies.simps [of data off])
  qed
qed

lemma affiliated_ok: "0 \<le> off \<Longrightarrow> off + 3 * int n \<le> blen data \<Longrightarrow> go_ok (affiliated data off n) (\<lambda>_. True)"
  by (induction n arbitrary: off) (auto simp: go_wp)

lemma ParseDataComponentDescriptor_ok: "go_ok (ParseDataComponentDescriptor d) (\<lambda>_. True)"
  by (auto simp: ParseDataComponentDescriptor_def go_wp)

lemma bxml_entry_ok:
  "go_ok (bxml_entry data) (\<lambda>r. case r of Inl e \<Rightarrow> True | Inr (off, entry) \<Rightarrow> 2 \<le> off)"
  by (auto simp: bxml_entry_def go_wp Let_def)

lemma ParseAdditionalAribBXMLInfo_ok: "go_ok (ParseAdditionalAribBXMLInfo data) (\<lambda>_. True)"
proof -
  obtain r where r: "bxml_entry data = Some r" "case r of Inl e \<Rightarrow> True | Inr (off, entry) \<Rightarrow> 2 \<le> off"
    using bxml_entry_ok [of data] by (auto simp: go_ok_def)
  then show ?thesis
    by (cases r) (auto simp: ParseAdditionalAribBXMLInfo_def go_wp Let_def)
qed

lemma ParseTSInformationDescriptor_ok: "go_ok (ParseTSInformationDescriptor dec d) (\<lambda>_. True)"
proof -
  have "0 \<le> 2 + uint (drop_bit 2 x)" for x :: u8 by simp
  then show ?thesis
    by (auto simp: ParseTSInformationDescriptor_def go_wp Let_def transmission_types_ok split: sum.splits)
qed

lemma ParseServiceListDescriptor_ok: "go_ok (ParseServiceListDescriptor d) (\<lambda>_. True)"
  by (auto simp: ParseServiceListDescriptor_def go_wp service_list_entries_ok)

lemma ParseTerrestrialDeliverySystemDescriptor_ok:
  "go_ok (ParseTerrestrialDeliverySystemDescriptor d) (\<lambda>_. True)"
proof -
  have "go_ok (frequencies xs 2) (\<lambda>_. True)" if "2 \<le> length xs" "blen (drop 2 xs) mod 2 = 0" for xs
    using that frequencies_ok [of 2 xs] by (simp add: of_nat_diff)
  then show ?thesis
    by (auto simp: ParseTerrestrialDeliverySystemDescriptor_def go_wp)
qed

lemma ParseServiceDescriptor_ok: "descr_ok d \<Longrightarrow> go_ok (ParseServiceDescriptor dec d) (\<lambda>_. True)"
  by (auto simp: ParseServiceDescriptor_def go_wp Let_def split: sum.splits)

lemma ParseExtendedBroadcasterDescriptor_ok: "go_ok (ParseExtendedBroadcasterDescriptor d) (\<lambda>_. True)"
proof -
  have 1: "go_ok (affiliated xs (4 + uint a) (unat b)) (\<lambda>_. True)" if "4 + uint a + uint b * 3 \<le> blen xs"
    for xs and a b :: u8
    using affiliated_ok [of "4 + uint a" "unat b" xs] that by simp
  have 2: "4 + uint a \<le> n" if "4 + uint a + uint b * 3 \<le> n" for a b :: u8 and n
    using that uint_ge_0 [of b] by linarith
  show ?thesis
    by (auto simp: ParseExtendedBroadcasterDescriptor_def go_wp Let_def not_less intro: 1 2)
qed

lemma ParseBroadcasterNameDescriptor_ok: "go_ok (ParseBroadcasterNameDescriptor dec d) (\<lambda>_. True)"
  by (auto simp: ParseBroadcasterNameDescriptor_def go_wp split: sum.splits)

section \<open>Encoding a service list\<close>

definition service_list_bytes :: "ServiceListEntry list \<Rightarrow> bytes" where
  "service_list_bytes es = concat (map (\<lambda>e. [hi8 (sle_ServiceID e), lo8 (sle_ServiceID e), sle_ServiceType e]) es)"

lemma length_service_list_bytes [simp]: "length (service_list_bytes es) = 3 * length es"
  by (induction es) (simp_all add: service_list_bytes_def)

lemma service_list_entries_encode:
  "service_list_entries (pre @ service_list_bytes es) (blen pre) = Some es"
proof (induction es arbitrary: pre)
  case Nil
  show ?case by (subst service_list_entries.simps) (simp add: service_list_bytes_def)
next
  case (Cons e es)
  let ?data = "pre @ service_list_bytes (e # es)"
  have split: "?data = (pre @ [hi8 (sle_ServiceID e), lo8 (sle_ServiceID e), sle_ServiceType e]) @ service_list_bytes es"
    by (simp add: service_list_bytes_def)
  have rest: "service_list_entries ?data (blen pre + 3) = Some es"
    unfolding split using Cons.IH [of "pre @ [hi8 (sle_ServiceID e), lo8 (sle_ServiceID e), sle_ServiceType e]"]
    by (simp add: add.commute)
  have at: "?data ! length pre = hi8 (sle_ServiceID e)" "?data ! nat (blen pre + 1) = lo8 (sle_ServiceID e)"
    "?data ! nat (blen pre + 2) = sle_ServiceType e"
    by (simp_all add: service_list_bytes_def nat_add_distrib nth_append)
  show ?case
    by (subst service_list_entries.simps) (simp add: rest at)
qed

section \<open>Properties\<close>

text \<open>
  \<open>parseDescriptorsStrict\<close> accepts exactly the concatenations of well-formed descriptors and
  returns them: a result means the input was their concatenation, and every such concatenation
  is parsed back to the list it came from.
\<close>

theorem parseDescriptorsStrict_exact:
  "parseDescriptorsStrict b = Inr ds \<longleftrightarrow> concat ds = b \<and> list_all descr_ok ds"
  unfolding list_all_iff by (rule parseDescriptorsStrict_iff)

text \<open>
  \<open>ParseDescriptors\<close> returns the longest prefix of well-formed descriptors: what it returns are
  well-formed descriptors that make up a prefix of the input, and when the whole input is
  well-formed it agrees with \<open>parseDescriptorsStrict\<close>; the check
  \<open>descriptorsLength(ParseDescriptors(b)) != len(b)\<close> of \<open>ParseBIT\<close> is therefore exactly the strict
  check.
\<close>

theorem ParseDescriptors_lenient:
  "list_all descr_ok (ParseDescriptors b)
   \<and> (\<exists>rest. b = concat (ParseDescriptors b) @ rest)
   \<and> (descriptorsLength (ParseDescriptors b) = blen b \<longleftrightarrow> parseDescriptorsStrict b = Inr (ParseDescriptors b))"
proof (intro conjI)
  show ok: "list_all descr_ok (ParseDescriptors b)"
    by (simp add: list_all_iff ParseDescriptors_ok)
  show pre: "\<exists>rest. b = concat (ParseDescriptors b) @ rest"
    by (rule ParseDescriptors_prefix)
  have "blen (concat (ParseDescriptors b)) = blen b \<longleftrightarrow> concat (ParseDescriptors b) = b"
    using pre by (metis append_Nil2 append_eq_append_conv nat_int)
  then show "descriptorsLength (ParseDescriptors b) = blen b \<longleftrightarrow> parseDescriptorsStrict b = Inr (ParseDescriptors b)"
    using ok by (simp add: descriptorsLength_concat parseDescriptorsStrict_iff list_all_iff)
qed

text \<open>
  No descriptor parser panics: the guarded ones on any byte string, and
  \<open>ParseServiceDescriptor\<close>, which reads the tag before any length check, on every descriptor
  that \<open>ParseDescriptors\<close> returns.
\<close>

theorem descriptor_parsers_never_panic:
  "ParseDataComponentDescriptor d \<noteq> None \<and> ParseAdditionalAribBXMLInfo d \<noteq> None
   \<and> ParseTSInformationDescriptor dec d \<noteq> None \<and> ParseServiceListDescriptor d \<noteq> None
   \<and> ParseTerrestrialDeliverySystemDescriptor d \<noteq> None \<and> ParseExtendedBroadcasterDescriptor d \<noteq> None
   \<and> ParseBroadcasterNameDescriptor dec d \<noteq> None
   \<and> list_all (\<lambda>e. ParseServiceDescriptor dec e \<noteq> None) (ParseDescriptors d)"
  using ParseDataComponentDescriptor_ok [THEN go_ok_returns]
    ParseAdditionalAribBXMLInfo_ok [THEN go_ok_returns] ParseTSInformationDescriptor_ok [THEN go_ok_returns]
    ParseServiceListDescriptor_ok [THEN go_ok_returns]
    ParseTerrestrialDeliverySystemDescriptor_ok [THEN go_ok_returns]
    ParseExtendedBroadcasterDescriptor_ok [THEN go_ok_returns]
    ParseBroadcasterNameDescriptor_ok [THEN go_ok_returns]
    ParseServiceDescriptor_ok [THEN go_ok_returns] ParseDescriptors_ok
  by (simp add: list_all_iff)

text \<open>
  A service list descriptor of up to 85 services is parsed back to the list it encodes, in
  order.
\<close>

theorem ParseServiceListDescriptor_roundtrip:
  assumes "length es \<le> 85"
  shows "ParseServiceListDescriptor (0x41 # word_of_nat (3 * length es) # service_list_bytes es) = Some (Inr es)"
proof -
  define l where "l = (word_of_nat (3 * length es) :: u8)"
  have "len8 l = int (3 * length es)"
    unfolding l_def using assms by (intro len8_of_nat) simp
  then show ?thesis
    unfolding l_def [symmetric] using service_list_entries_encode [of "[]" es]
    by (simp add: ParseServiceListDescriptor_def descriptor_fits_def Descriptor_Length_def Descriptor_Tag_def
        Descriptor_Data_def nat_mult_distrib)
qed

theorem ParseServiceListDescriptor_roundtrip_witness:
  "ParseServiceListDescriptor [0x41, 3, 0x00, 0x05, 0x01]
     = Some (Inr [\<lparr> sle_ServiceID = 5, sle_ServiceType = 1 \<rparr>])"
  using ParseServiceListDescriptor_roundtrip [of "[\<lparr> sle_ServiceID = 5, sle_ServiceType = 1 \<rparr>]"]
  by (simp add: service_list_bytes_def hi8_def lo8_def)

end
