(* ===== verification/TS_Time.thy ===== *)
theory TS_Time
  imports Go_Prelude
begin

text \<open>
  Broadcast times, the second half of \<open>ts/eit.go\<close>: modified Julian dates with BCD hours,
  minutes and seconds, and BCD durations.

  A \<open>time.Time\<close> is its Unix time in seconds; the zero \<open>time.Time\<close> is 1 January of year 1. A
  \<open>time.Duration\<close> is its number of nanoseconds. \<open>time.Date\<close> is the proleptic Gregorian
  calendar with the month normalised, as the package documents it. The floating-point
  formula of \<open>parseMJDTime\<close> is written over exact fractions: its operands are 16-bit dates, and
  none of its quotients comes closer than 1/306001 to an integer without being one, which
  is far above the rounding error of a \<open>float64\<close>, so truncating the exact quotient gives the
  same integer. (\<open>float64(yp)*365.25\<close> is exact.)
\<close>

type_synonym gotime = int
type_synonym duration = int

definition zeroTime :: gotime where
  "zeroTime = -62135596800"

definition Time_IsZero :: "gotime \<Rightarrow> bool" where
  "Time_IsZero t \<longleftrightarrow> t = zeroTime"

section \<open>BCD\<close>

definition decodeBCDByte :: "u8 \<Rightarrow> int \<times> bool" where
  "decodeBCDByte b =
     (let high = uint (drop_bit 4 b); low = uint (b AND 0x0f)
      in if high > 9 \<or> low > 9 then (0, False) else (high * 10 + low, True))"

definition allBytes :: "bytes \<Rightarrow> u8 \<Rightarrow> bool" where
  "allBytes b want \<longleftrightarrow> list_all (\<lambda>v. v = want) b"

definition bcd :: "int \<Rightarrow> u8" where
  "bcd n = word_of_int (16 * (n div 10) + n mod 10)"

lemma bcd_high_low: "0 \<le> n \<Longrightarrow> n \<le> 99 \<Longrightarrow> uint (bcd n) = 16 * (n div 10) + n mod 10"
proof -
  assume n: "0 \<le> n" "n \<le> 99"
  then have "0 \<le> 16 * (n div 10) + n mod 10" "16 * (n div 10) + n mod 10 < 256" by presburger+
  then show ?thesis unfolding bcd_def by (subst uint_word_of_int_eq, intro take_bit_int_eq_self) simp_all
qed

lemma decodeBCDByte_bcd [simp]: "0 \<le> n \<Longrightarrow> n \<le> 99 \<Longrightarrow> decodeBCDByte (bcd n) = (n, True)"
proof -
  assume n: "0 \<le> n" "n \<le> 99"
  have "uint (drop_bit 4 (bcd n)) = n div 10"
  proof -
    have "uint (drop_bit 4 (bcd n)) = take_bit 8 (uint (bcd n)) div 16"
      by (simp only: unsigned_drop_bit_eq) (simp add: drop_bit_eq_div)
    also have "take_bit 8 (uint (bcd n)) = uint (bcd n)"
      using uint_bounded [of "bcd n"] by (intro take_bit_int_eq_self) simp_all
    finally show ?thesis using bcd_high_low [OF n] by simp
  qed
  moreover have "uint (bcd n AND 0x0f) = n mod 10"
  proof -
    have "(0x0f :: u8) = mask 4" by (simp add: mask_eq_decr_exp)
    then have "uint (bcd n AND 0x0f) = uint (bcd n) mod 16"
      by (simp only: unsigned_take_bit_eq flip: take_bit_eq_mask) (simp add: take_bit_eq_mod)
    then show ?thesis using bcd_high_low [OF n] by (simp add: mod_mult_self4)
  qed
  moreover have "n div 10 \<le> 9" "n mod 10 \<le> 9" using n by linarith+
  ultimately show ?thesis by (simp add: decodeBCDByte_def)
qed

section \<open>The calendar\<close>

definition is_leap :: "int \<Rightarrow> bool" where
  "is_leap y \<longleftrightarrow> 4 dvd y \<and> (\<not> 100 dvd y \<or> 400 dvd y)"

text \<open>Days from 1 January of year 1 to 1 January of year \<open>y\<close>, and to the first of a month.\<close>

definition days_before_year :: "int \<Rightarrow> int" where
  "days_before_year y = 365 * (y - 1) + (y - 1) div 4 - (y - 1) div 100 + (y - 1) div 400"

definition days_before_month :: "int \<Rightarrow> int \<Rightarrow> int" where
  "days_before_month y m =
     [0, 31, 59, 90, 120, 151, 181, 212, 243, 273, 304, 334] ! nat (m - 1) + (if m > 2 \<and> is_leap y then 1 else 0)"

definition go_Date :: "int \<Rightarrow> int \<Rightarrow> int \<Rightarrow> int \<Rightarrow> int \<Rightarrow> int \<Rightarrow> int \<Rightarrow> gotime" where
  "go_Date year month day hour minute sec offset =
     (let y = year + (month - 1) div 12; m = (month - 1) mod 12 + 1
      in (days_before_year y + days_before_month y m + day - 1 - 719162) * 86400
         + hour * 3600 + minute * 60 + sec - offset)"

definition jst :: int where
  "jst = 9 * 60 * 60"

text \<open>Conversion of a float to \<open>int\<close> truncates toward zero.\<close>

definition trunc_div :: "int \<Rightarrow> int \<Rightarrow> int" where
  "trunc_div a b = (if 0 \<le> a then a div b else - ((- a) div b))"

definition mjd_year :: "int \<Rightarrow> int" where
  "mjd_year mjd = trunc_div (100 * mjd - 1507820) 36525"

definition year_days :: "int \<Rightarrow> int" where
  "year_days yp = trunc_div (yp * 1461) 4"

definition mjd_month :: "int \<Rightarrow> int \<Rightarrow> int" where
  "mjd_month mjd yp = trunc_div (10000 * mjd - 149561000 - 10000 * year_days yp) 306001"

definition mjd_date :: "int \<Rightarrow> int \<Rightarrow> int \<Rightarrow> int \<Rightarrow> gotime" where
  "mjd_date mjd hour minute second =
     (let yp = mjd_year mjd;
          mp = mjd_month mjd yp;
          day = mjd - 14956 - year_days yp - trunc_div (mp * 306001) 10000;
          k = (if mp = 14 \<or> mp = 15 then 1 else 0)
      in go_Date (yp + k + 1900) (mp - 1 - k * 12) day hour minute second jst)"

definition parseMJDTime :: "bytes \<Rightarrow> gotime res" where
  "parseMJDTime b =
     (if blen b \<noteq> 5 then res_err ErrInvalidSection
      else if allBytes b 0xff then res_ok zeroTime
      else do {
        b0 \<leftarrow> idx b 0; b1 \<leftarrow> idx b 1; b2 \<leftarrow> idx b 2; b3 \<leftarrow> idx b 3; b4 \<leftarrow> idx b 4;
        let mjd = uint (be16 b0 b1);
        let (hour, okh) = decodeBCDByte b2;
        if \<not> okh \<or> hour > 23 then res_err ErrInvalidSection
        else let (minute, okm) = decodeBCDByte b3 in
        if \<not> okm \<or> minute > 59 then res_err ErrInvalidSection
        else let (second, oks) = decodeBCDByte b4 in
        if \<not> oks \<or> second > 59 then res_err ErrInvalidSection
        else res_ok (mjd_date mjd hour minute second) })"

definition parseBCDDuration :: "bytes \<Rightarrow> duration res" where
  "parseBCDDuration b =
     (if blen b \<noteq> 3 then res_err ErrInvalidSection
      else if allBytes b 0xff then res_ok 0
      else do {
        b0 \<leftarrow> idx b 0; b1 \<leftarrow> idx b 1; b2 \<leftarrow> idx b 2;
        let (hour, okh) = decodeBCDByte b0;
        if \<not> okh then res_err ErrInvalidSection
        else let (minute, okm) = decodeBCDByte b1 in
        if \<not> okm \<or> minute > 59 then res_err ErrInvalidSection
        else let (second, oks) = decodeBCDByte b2 in
        if \<not> oks \<or> second > 59 then res_err ErrInvalidSection
        else res_ok (hour * 3600000000000 + minute * 60000000000 + second * 1000000000) })"

lemma parseMJDTime_ok: "go_ok (parseMJDTime b) (\<lambda>_. True)"
  by (auto simp: parseMJDTime_def go_wp Let_def split: prod.splits)

lemma parseBCDDuration_ok: "go_ok (parseBCDDuration b) (\<lambda>_. True)"
  by (auto simp: parseBCDDuration_def go_wp Let_def split: prod.splits)

section \<open>The date formula\<close>

text \<open>The formula cuts the days since 1 March 1900 into four-year cycles, years and months.\<close>

lemma trunc_div_bounds:
  assumes "0 \<le> a" and "0 < b"
  shows "0 \<le> trunc_div a b" "b * trunc_div a b \<le> a" "a < b * trunc_div a b + b"
proof -
  have t: "trunc_div a b = a div b" using assms by (simp add: trunc_div_def)
  have "b * (a div b) + a mod b = a" "0 \<le> a mod b" "a mod b < b" "0 \<le> a div b"
    using assms by (simp_all add: pos_imp_zdiv_nonneg_iff)
  then show "0 \<le> trunc_div a b" "b * trunc_div a b \<le> a" "a < b * trunc_div a b + b"
    unfolding t by linarith+
qed

lemma div_bounds: "0 < b \<Longrightarrow> b * (a div b) \<le> a \<and> a < b * (a div b) + b" for a b :: int
  using mult_div_mod_eq [of b a] pos_mod_sign [of b a] pos_mod_bound [of b a] by linarith

lemma mjd_year_bounds:
  assumes "15079 \<le> mjd" and "mjd \<le> 65535"
  shows "0 \<le> mjd_year mjd" "mjd_year mjd \<le> 138"
    "36525 * mjd_year mjd \<le> 100 * mjd - 1507820" "100 * mjd - 1507820 < 36525 * mjd_year mjd + 36525"
  using trunc_div_bounds [of "100 * mjd - 1507820" 36525] assms unfolding mjd_year_def by linarith+

text \<open>The day counted from 1 March lies within a year.\<close>

lemma march_day:
  assumes mjd: "15079 \<le> mjd" "mjd \<le> 65535" and yp: "yp = mjd_year mjd"
  shows "1 \<le> mjd - 15078 - year_days yp" "mjd - 15078 - year_days yp \<le> 366" "year_days yp = 1461 * yp div 4"
proof -
  have yd: "year_days yp = 1461 * yp div 4"
    using mjd_year_bounds(1) [OF mjd] yp by (simp add: year_days_def trunc_div_def mult.commute)
  show "1 \<le> mjd - 15078 - year_days yp" "mjd - 15078 - year_days yp \<le> 366" "year_days yp = 1461 * yp div 4"
    using mjd_year_bounds [OF mjd] div_bounds [of 4 "1461 * yp"] unfolding yd yp [symmetric] by linarith+
qed

text \<open>For each month number, the day of the month.\<close>

lemma march_month:
  assumes d: "1 \<le> d" "d \<le> 366" and mp: "mp = trunc_div (10000 * d + 1219000) 306001"
  shows "mp \<in> {4, 5, 6, 7, 8, 9, 10, 11, 12, 13, 14, 15}"
proof -
  have "4 \<le> mp" "mp \<le> 15"
    using trunc_div_bounds [of "10000 * d + 1219000" 306001] d mp by linarith+
  then have "mp = 4 \<or> mp = 5 \<or> mp = 6 \<or> mp = 7 \<or> mp = 8 \<or> mp = 9 \<or> mp = 10 \<or> mp = 11 \<or> mp = 12
      \<or> mp = 13 \<or> mp = 14 \<or> mp = 15" by presburger
  then show ?thesis by simp
qed

lemma days_before_year_1900:
  assumes "1900 \<le> y" and "y \<le> 2039"
  shows "days_before_year y = 365 * (y - 1) + (y - 1) div 4 - (if y = 1900 then 14 else 15)"
proof -
  consider "y = 1900" | "1901 \<le> y" "y \<le> 2000" | "2001 \<le> y" "y \<le> 2039" using assms by linarith
  then show ?thesis
  proof cases
    case 2
    then have "(y - 1) div 100 = 19" "(y - 1) div 400 = 4"
      by (simp_all add: int_div_pos_eq [of _ 100 19 "y - 1901"] int_div_pos_eq [of _ 400 4 "y - 1601"])
    then show ?thesis using 2 by (simp add: days_before_year_def)
  next
    case 3
    then have "(y - 1) div 100 = 20" "(y - 1) div 400 = 5"
      by (simp_all add: int_div_pos_eq [of _ 100 20 "y - 2001"] int_div_pos_eq [of _ 400 5 "y - 2001"])
    then show ?thesis using 3 by (simp add: days_before_year_def)
  qed (simp add: days_before_year_def)
qed

lemma is_leap_1900:
  assumes "1900 \<le> y" and "y \<le> 2039"
  shows "is_leap y \<longleftrightarrow> 4 dvd y \<and> y \<noteq> 1900"
proof -
  have "y = 1900 \<or> y = 2000" if d: "100 dvd y"
  proof -
    obtain k where k: "y = 100 * k" using d by (rule dvdE)
    then have "k = 19 \<or> k = 20" using assms by linarith
    then show ?thesis using k by auto
  qed
  then show ?thesis unfolding is_leap_def by (cases "y = 1900"; cases "y = 2000") auto
qed

lemma days_march_onwards:
  assumes "0 \<le> yp" and "yp \<le> 138"
  shows "days_before_year (yp + 1900) + (if is_leap (yp + 1900) then 1 else 0) = 693595 + 1461 * yp div 4"
proof -
  have "1461 * yp div 4 = 365 * yp + yp div 4"
    using div_mult_self4 [of 4 "365 * yp" yp] by simp
  moreover have "(yp + 1900 - 1) div 4 + (if 4 dvd (yp + 1900) then 1 else 0) = 475 + yp div 4"
    by presburger
  moreover have "yp div 4 = 0" if "yp = 0" using that by simp
  ultimately show ?thesis
    using assms by (auto simp: days_before_year_1900 is_leap_1900 split: if_splits)
qed

lemma days_next_january:
  assumes "0 \<le> yp" and "yp \<le> 138"
  shows "days_before_year (yp + 1901) = 693960 + 1461 * yp div 4"
proof -
  have "1461 * yp div 4 = 365 * yp + yp div 4"
    using div_mult_self4 [of 4 "365 * yp" yp] by simp
  moreover have "(yp + 1901 - 1) div 4 = 475 + yp div 4"
    by presburger
  ultimately show ?thesis
    using assms by (auto simp: days_before_year_1900)
qed

lemma mjd_date_correct:
  assumes "15079 \<le> mjd" and "mjd \<le> 65535"
  shows "mjd_date mjd hour minute second = (mjd - 40587) * 86400 + hour * 3600 + minute * 60 + second - 32400"
proof -
  define yp where "yp = mjd_year mjd"
  define d where "d = mjd - 15078 - year_days yp"
  have d: "1 \<le> d" "d \<le> 366" and yd: "year_days yp = 1461 * yp div 4"
    using march_day [OF assms yp_def] by (simp_all add: d_def)
  have yp: "0 \<le> yp" "yp \<le> 138" using mjd_year_bounds [OF assms] by (simp_all add: yp_def)
  define mp where "mp = mjd_month mjd yp"
  have "mp = trunc_div (10000 * d + 1219000) 306001"
    by (simp add: mp_def mjd_month_def d_def algebra_simps)
  then have cases: "mp \<in> {4, 5, 6, 7, 8, 9, 10, 11, 12, 13, 14, 15}"
    using march_month [OF d] by blast
  have mjd: "mjd = d + 15078 + 1461 * yp div 4" using yd by (simp add: d_def)
  have date: "mjd_date mjd hour minute second =
      go_Date (yp + (if mp = 14 \<or> mp = 15 then 1 else 0) + 1900) (mp - 1 - (if mp = 14 \<or> mp = 15 then 1 else 0) * 12)
        (d + 122 - trunc_div (mp * 306001) 10000) hour minute second jst"
  proof -
    have day: "mjd - 14956 - year_days yp - x = d + 122 - x" for x by (simp add: d_def)
    show ?thesis by (simp only: mjd_date_def Let_def day flip: yp_def mp_def)
  qed
  show ?thesis
    using cases days_march_onwards [OF yp] days_next_january [OF yp]
    unfolding date
    by (auto simp: go_Date_def trunc_div_def days_before_month_def jst_def mjd add.commute split: if_splits)
qed

section \<open>Properties\<close>

lemma bcd_not_ff: "0 \<le> n \<Longrightarrow> n \<le> 99 \<Longrightarrow> bcd n \<noteq> 0xff"
proof
  assume n: "0 \<le> n" "n \<le> 99" and "bcd n = 0xff"
  then have "16 * (n div 10) + n mod 10 = 255" using bcd_high_low [OF n] by simp
  then show False using n by presburger
qed

text \<open>
  \<open>parseMJDTime\<close> is right on the whole range of the standard's formula, 1 March 1900 to the
  last 16-bit date (22 April 2038): a date of \<open>mjd\<close> with BCD time \<open>h:m:s\<close> is read as the instant
  that many days after the Unix epoch (MJD 40587), at that time in the zone nine hours
  ahead of UTC. The year and month arithmetic of the source thus inverts the Gregorian
  calendar, leap days included.
\<close>

theorem parseMJDTime_correct:
  assumes "15079 \<le> uint mjd" and "h \<in> {0..23}" and "m \<in> {0..59}" and "s \<in> {0..59}"
  shows "parseMJDTime [hi8 mjd, lo8 mjd, bcd h, bcd m, bcd s]
           = Some (Inr ((uint mjd - 40587) * 86400 + h * 3600 + m * 60 + s - 9 * 3600))"
proof -
  have "uint mjd \<le> 65535" using uint_bounded [of mjd] by simp
  then show ?thesis
    using assms bcd_not_ff [of h] mjd_date_correct [of "uint mjd" h m s]
    by (simp add: parseMJDTime_def allBytes_def)
qed

theorem parseMJDTime_correct_witness:
  "parseMJDTime [0xe1, 0xaa, 0x12, 0x45, 0x00] = Some (Inr 1484624700)"
proof -
  have "hi8 0xe1aa = 0xe1" "lo8 0xe1aa = 0xaa" "bcd 12 = 0x12" "bcd 45 = 0x45" "bcd 0 = 0x00"
    by (simp_all add: hi8_def lo8_def bcd_def drop_bit_eq_div)
  then show ?thesis using parseMJDTime_correct [of "0xe1aa" 12 45 0] by simp
qed

text \<open>
  \<open>parseBCDDuration\<close> inverts the BCD encoding of a duration: hours, minutes and seconds in two
  decimal digits each come back as that many nanoseconds.
\<close>

theorem parseBCDDuration_correct:
  assumes "h \<in> {0..99}" and "m \<in> {0..59}" and "s \<in> {0..59}"
  shows "parseBCDDuration [bcd h, bcd m, bcd s] = Some (Inr (((h * 60 + m) * 60 + s) * 1000000000))"
  using assms bcd_not_ff [of h] by (simp add: parseBCDDuration_def allBytes_def)

theorem parseBCDDuration_correct_witness:
  "parseBCDDuration [bcd 1, bcd 30, bcd 5] = Some (Inr 5405000000000)"
  using parseBCDDuration_correct [of 1 30 5] by simp

end
