(* ===== verification/TS_Tables.thy ===== *)
theory TS_Tables
  imports TS_Descriptors TS_Time
begin

text \<open>
  PSI/SI tables: the common header of \<open>ts/psi.go\<close> and the parsers of \<open>ts/pat.go\<close>, \<open>ts/pmt.go\<close>,
  \<open>ts/nit.go\<close>, \<open>ts/sdt.go\<close>, \<open>ts/bit.go\<close>, \<open>ts/tot.go\<close> and \<open>ts/eit.go\<close>, with the PAT writer. Each parser
  is proved total on arbitrary bytes and to accept only CRC-valid sections of its own table
  ids; the locale \<open>table_parser\<close> states that contract and what follows from it.
\<close>

section \<open>Table ids and the section header\<close>

definition IsEITPF :: "u8 \<Rightarrow> bool" where
  "IsEITPF tableID \<longleftrightarrow> tableID = 0x4E \<or> tableID = 0x4F"

definition IsEITS :: "u8 \<Rightarrow> bool" where
  "IsEITS tableID \<longleftrightarrow> (tableID \<ge> 0x50 \<and> tableID \<le> 0x5F) \<or> (tableID \<ge> 0x60 \<and> tableID \<le> 0x6F)"

record SectionHeader =
  sh_TableID :: u8
  sh_SectionSyntaxIndicator :: bool
  sh_SectionLength :: int
  sh_TransportStreamID :: u16
  sh_OriginalNetworkID :: u16
  sh_ServiceID :: u16
  sh_VersionNumber :: u8
  sh_CurrentNextIndicator :: bool
  sh_SectionNumber :: u8
  sh_LastSectionNumber :: u8

definition ParseSectionHeader :: "Section \<Rightarrow> SectionHeader res" where
  "ParseSectionHeader s =
     (if blen s < 8 then res_err ErrInvalidSection
      else do {
        total \<leftarrow> Section_TotalLength s;
        if total > blen s then res_err ErrInvalidSection
        else do {
          tid \<leftarrow> Section_TableID s; syn \<leftarrow> Section_SectionSyntaxIndicator s; len \<leftarrow> Section_SectionLength s;
          ext \<leftarrow> read_u16 s 3; b5 \<leftarrow> idx s 5; b6 \<leftarrow> idx s 6; b7 \<leftarrow> idx s 7;
          res_ok \<lparr> sh_TableID = tid, sh_SectionSyntaxIndicator = syn, sh_SectionLength = len,
            sh_TransportStreamID = ext, sh_OriginalNetworkID = ext, sh_ServiceID = ext,
            sh_VersionNumber = drop_bit 1 b5 AND 0x1f, sh_CurrentNextIndicator = b5 AND 0x01 \<noteq> 0,
            sh_SectionNumber = b6, sh_LastSectionNumber = b7 \<rparr> } })"

text \<open>The header of a section of at least eight bytes that is long enough.\<close>

definition header_of :: "Section \<Rightarrow> SectionHeader" where
  "header_of s = \<lparr> sh_TableID = s ! 0, sh_SectionSyntaxIndicator = s ! 1 AND 0x80 \<noteq> 0,
     sh_SectionLength = len12 (s ! 1) (s ! 2), sh_TransportStreamID = be16 (s ! 3) (s ! 4),
     sh_OriginalNetworkID = be16 (s ! 3) (s ! 4), sh_ServiceID = be16 (s ! 3) (s ! 4),
     sh_VersionNumber = drop_bit 1 (s ! 5) AND 0x1f, sh_CurrentNextIndicator = s ! 5 AND 0x01 \<noteq> 0,
     sh_SectionNumber = s ! 6, sh_LastSectionNumber = s ! 7 \<rparr>"

text \<open>
  The guard that opens every table parser: a minimal length, the table id, the section
  length within the buffer, and the CRC, in that order. The parsers of the long-syntax
  tables BIT and of the short-syntax TOT test the syntax indicator after the id.
\<close>

definition table_guard :: "int \<Rightarrow> (u8 \<Rightarrow> bool) \<Rightarrow> bool option \<Rightarrow> Section \<Rightarrow> bool go" where
  "table_guard mn isid syntax s =
     (if blen s < mn then Some False
      else do {
        tid \<leftarrow> Section_TableID s;
        if \<not> isid tid then Some False
        else do {
          syn \<leftarrow> Section_SectionSyntaxIndicator s;
          if syntax \<noteq> None \<and> syntax \<noteq> Some syn then Some False
          else do {
            total \<leftarrow> Section_TotalLength s;
            if total > blen s then Some False else Section_ValidateCRC s } } })"

definition guard_holds :: "int \<Rightarrow> (u8 \<Rightarrow> bool) \<Rightarrow> bool option \<Rightarrow> Section \<Rightarrow> bool" where
  "guard_holds mn isid syntax s \<longleftrightarrow> mn \<le> blen s \<and> isid (s ! 0)
     \<and> (syntax = None \<or> syntax = Some (s ! 1 AND 0x80 \<noteq> 0)) \<and> crc_valid s"

lemma table_guard_eq [simp]: "4 \<le> mn \<Longrightarrow> table_guard mn isid syntax s = Some (guard_holds mn isid syntax s)"
proof (cases "blen s < mn")
  case False
  assume "4 \<le> mn"
  with False have "4 \<le> length s" by linarith
  then have "s \<noteq> []" "2 \<le> length s" "3 \<le> length s" by auto
  then show ?thesis using False by (auto simp: table_guard_def guard_holds_def crc_valid_def)
qed (simp add: table_guard_def guard_holds_def)

lemma ParseSectionHeader_eq [simp]:
  "8 \<le> length s \<Longrightarrow> total_length s \<le> blen s \<Longrightarrow> ParseSectionHeader s = Some (Inr (header_of s))"
proof -
  assume s: "8 \<le> length s" "total_length s \<le> blen s"
  then have "s \<noteq> []" by auto
  then show ?thesis using s by (simp add: ParseSectionHeader_def header_of_def)
qed

lemma guard_holdsD:
  assumes "guard_holds mn isid syntax s"
  shows "mn \<le> blen s" "isid (s ! 0)" "total_length s \<le> blen s" "crc_valid s"
  using assms by (simp_all add: guard_holds_def crc_valid_def)

section \<open>PAT\<close>

record PAT =
  pat_TransportStreamID :: u16
  pat_VersionNumber :: u8
  pat_NetworkPID :: u16
  pat_Programs :: "(u16, u16) gomap"

function pat_loop :: "Section \<Rightarrow> int \<Rightarrow> int \<Rightarrow> PAT \<Rightarrow> PAT go" where
  "pat_loop s off end' pat =
     (if off + 4 \<le> end'
      then do {
        program \<leftarrow> read_u16 s off;
        hi \<leftarrow> idx s (off + 2); lo \<leftarrow> idx s (off + 3);
        let pid = pid13 hi lo;
        pat_loop s (off + 4) end'
          (if program = 0 then pat\<lparr> pat_NetworkPID := pid \<rparr>
           else pat\<lparr> pat_Programs := AList.update program pid (pat_Programs pat) \<rparr>) }
      else Some pat)"
  by pat_completeness auto
termination by (relation "measure (\<lambda>(s, off, end', pat). nat (end' - off))") auto

declare pat_loop.simps [simp del]

definition ParsePAT :: "Section \<Rightarrow> PAT res" where
  "ParsePAT s = do {
     valid \<leftarrow> table_guard 12 (\<lambda>t. t = 0x00) None s;
     if \<not> valid then res_err ErrInvalidSection
     else res_bind (ParseSectionHeader s) (\<lambda>header. do {
       total \<leftarrow> Section_TotalLength s;
       pat \<leftarrow> pat_loop s 8 (total - 4)
         \<lparr> pat_TransportStreamID = sh_TransportStreamID header, pat_VersionNumber = sh_VersionNumber header,
           pat_NetworkPID = 0, pat_Programs = [] \<rparr>;
       res_ok pat }) }"

text \<open>
  \<open>BuildPATSection\<close> writes a one-program PAT. Writing \<open>s[i] = ...\<close> byte by byte into a fresh
  buffer of \<open>3 + 13\<close> bytes is the list of those bytes.
\<close>

definition BuildPATSection :: "u16 \<Rightarrow> u16 \<Rightarrow> u16 \<Rightarrow> u8 \<Rightarrow> ts_error + Section" where
  "BuildPATSection transportStreamID serviceID pmtPID version =
     (if pmtPID > 0x1fff then Inl (ErrInvalidPMTPID pmtPID)
      else
        let sectionLength = 5 + 4 + 4;
            body = [0x00, 0xb0 OR word_of_int (sectionLength div 256), word_of_int sectionLength,
                    hi8 transportStreamID, lo8 transportStreamID,
                    0xc1 OR push_bit 1 (version AND 0x1f), 0, 0,
                    hi8 serviceID, lo8 serviceID, 0xe0 OR hi8 pmtPID, lo8 pmtPID]
        in Inr (body @ b32 (crc32MPEG2 body)))"

lemma pat_loop_ok:
  "0 \<le> off \<Longrightarrow> end' \<le> blen s \<Longrightarrow> go_ok (pat_loop s off end' pat) (\<lambda>_. True)"
proof (induction s off end' pat rule: pat_loop.induct)
  case (1 s off end' pat)
  show ?case
  proof (cases "off + 4 \<le> end'")
    case True
    then show ?thesis
      using "1.IH" "1.prems" by (simp add: pat_loop.simps [of s off] Let_def)
  next
    case False
    then show ?thesis by (simp add: pat_loop.simps [of s off])
  qed
qed

section \<open>PMT\<close>

record PMTElement =
  pe_StreamType :: u8
  pe_ElementaryPID :: u16
  pe_ESInfo :: bytes
  pe_Descriptors :: "Descriptor list"

record PMT =
  pmt_ProgramNumber :: u16
  pmt_VersionNumber :: u8
  pmt_PCRPID :: u16
  pmt_ProgramInfo :: bytes
  pmt_Descriptors :: "Descriptor list"
  pmt_Elements :: "PMTElement list"

definition read_len12 :: "bytes \<Rightarrow> int \<Rightarrow> int go" where
  "read_len12 data off = do { a \<leftarrow> idx data off; b \<leftarrow> idx data (off + 1); Some (len12 a b) }"

lemma read_len12_wp [go_wp]:
  "go_ok (read_len12 data off) P \<longleftrightarrow> 0 \<le> off \<and> off + 1 < blen data \<and> P (len12 (data ! nat off) (data ! nat (off + 1)))"
  by (auto simp: read_len12_def go_wp)

lemma read_len12_Some: "read_len12 s off = Some n \<Longrightarrow> 0 \<le> n"
  by (auto simp: read_len12_def split: bind_splits)

text \<open>
  The loops over variable-length entries advance by at least the entry header, since a
  12-bit length is not negative; the elements found are accumulated in order.
\<close>

function pmt_loop :: "Section \<Rightarrow> int \<Rightarrow> int \<Rightarrow> PMTElement list \<Rightarrow> PMTElement list res" where
  "pmt_loop s off sectionEnd elems =
     (if off + 5 \<le> sectionEnd
      then do {
        esInfoLen \<leftarrow> read_len12 s (off + 3);
        let esInfoStart = off + 5;
        let esInfoEnd = esInfoStart + esInfoLen;
        if esInfoEnd > sectionEnd then res_err ErrInvalidSection
        else do {
          esInfo \<leftarrow> slice s esInfoStart esInfoEnd;
          st \<leftarrow> idx s off; hi \<leftarrow> idx s (off + 1); lo \<leftarrow> idx s (off + 2);
          pmt_loop s esInfoEnd sectionEnd
            (elems @ [\<lparr> pe_StreamType = st, pe_ElementaryPID = pid13 hi lo, pe_ESInfo = esInfo,
                        pe_Descriptors = ParseDescriptors esInfo \<rparr>]) } }
      else res_ok elems)"
  by pat_completeness auto
termination
  by (relation "measure (\<lambda>(s, off, e, _). nat (e - off))") (auto dest: read_len12_Some)

definition ParsePMT :: "Section \<Rightarrow> PMT res" where
  "ParsePMT s = do {
     valid \<leftarrow> table_guard 16 (\<lambda>t. t = 0x02) None s;
     if \<not> valid then res_err ErrInvalidSection
     else res_bind (ParseSectionHeader s) (\<lambda>header. do {
       programInfoLen \<leftarrow> read_len12 s 10;
       total \<leftarrow> Section_TotalLength s;
       let infoEnd = 12 + programInfoLen;
       let sectionEnd = total - 4;
       if infoEnd > sectionEnd then res_err ErrInvalidSection
       else do {
         hi \<leftarrow> idx s 8; lo \<leftarrow> idx s 9;
         info \<leftarrow> slice s 12 infoEnd;
         res_bind (pmt_loop s infoEnd sectionEnd []) (\<lambda>elems.
           res_ok \<lparr> pmt_ProgramNumber = sh_ServiceID header, pmt_VersionNumber = sh_VersionNumber header,
             pmt_PCRPID = pid13 hi lo, pmt_ProgramInfo = info, pmt_Descriptors = ParseDescriptors info,
             pmt_Elements = elems \<rparr>) } }) }"

section \<open>NIT\<close>

record NITTransportStream =
  nts_TransportStreamID :: u16
  nts_OriginalNetworkID :: u16
  nts_Descriptors :: "Descriptor list"

record NIT =
  nit_NetworkID :: u16
  nit_TableID :: u8
  nit_VersionNumber :: u8
  nit_SectionNumber :: u8
  nit_LastSectionNumber :: u8
  nit_NetworkDescriptors :: "Descriptor list"
  nit_TransportStreams :: "NITTransportStream list"

function nit_loop :: "Section \<Rightarrow> int \<Rightarrow> int \<Rightarrow> NITTransportStream list \<Rightarrow> NITTransportStream list res" where
  "nit_loop s off loopEnd acc =
     (if off + 6 \<le> loopEnd
      then do {
        descriptorsLen \<leftarrow> read_len12 s (off + 4);
        let descStart = off + 6;
        let descEnd = descStart + descriptorsLen;
        if descEnd > loopEnd then res_err ErrInvalidSection
        else do {
          raw \<leftarrow> slice s descStart descEnd;
          (case parseDescriptorsStrict raw of
             Inl e \<Rightarrow> res_err e
           | Inr descriptors \<Rightarrow> do {
               tsid \<leftarrow> read_u16 s off; onid \<leftarrow> read_u16 s (off + 2);
               nit_loop s descEnd loopEnd
                 (acc @ [\<lparr> nts_TransportStreamID = tsid, nts_OriginalNetworkID = onid,
                               nts_Descriptors = descriptors \<rparr>]) }) } }
      else if off \<noteq> loopEnd then res_err ErrInvalidSection
      else res_ok acc)"
  by pat_completeness auto
termination
  by (relation "measure (\<lambda>(s, off, e, _). nat (e - off))") (auto dest: read_len12_Some)

definition ParseNIT :: "Section \<Rightarrow> NIT res" where
  "ParseNIT s = do {
     valid \<leftarrow> table_guard 16 (\<lambda>t. t = 0x40 \<or> t = 0x41) None s;
     if \<not> valid then res_err ErrInvalidSection
     else res_bind (ParseSectionHeader s) (\<lambda>header. do {
       total \<leftarrow> Section_TotalLength s;
       networkDescriptorsLen \<leftarrow> read_len12 s 8;
       let sectionEnd = total - 4;
       let descEnd = 10 + networkDescriptorsLen;
       if descEnd + 2 > sectionEnd then res_err ErrInvalidSection
       else do {
         raw \<leftarrow> slice s 10 descEnd;
         (case parseDescriptorsStrict raw of
            Inl e \<Rightarrow> res_err e
          | Inr networkDescriptors \<Rightarrow> do {
              loopLen \<leftarrow> read_len12 s descEnd;
              let off = descEnd + 2;
              let loopEnd = off + loopLen;
              if loopEnd \<noteq> sectionEnd then res_err ErrInvalidSection
              else do {
                nid \<leftarrow> read_u16 s 3;
                res_bind (nit_loop s off loopEnd []) (\<lambda>tss.
                  res_ok \<lparr> nit_NetworkID = nid, nit_TableID = sh_TableID header,
                    nit_VersionNumber = sh_VersionNumber header, nit_SectionNumber = sh_SectionNumber header,
                    nit_LastSectionNumber = sh_LastSectionNumber header,
                    nit_NetworkDescriptors = networkDescriptors, nit_TransportStreams = tss \<rparr>) } }) } }) }"

declare pmt_loop.simps [simp del] nit_loop.simps [simp del]

section \<open>SDT\<close>

record SDTService =
  ss_ServiceID :: u16
  ss_EITScheduleFlag :: bool
  ss_EITPresentFollowing :: bool
  ss_RunningStatus :: u8
  ss_FreeCAMode :: bool
  ss_Descriptors :: "Descriptor list"

record SDT =
  sdt_TransportStreamID :: u16
  sdt_OriginalNetworkID :: u16
  sdt_VersionNumber :: u8
  sdt_Services :: "SDTService list"

function sdt_loop :: "Section \<Rightarrow> int \<Rightarrow> int \<Rightarrow> SDTService list \<Rightarrow> SDTService list res" where
  "sdt_loop s off sectionEnd services =
     (if off + 5 \<le> sectionEnd
      then do {
        descriptorsLoopLen \<leftarrow> read_len12 s (off + 3);
        let descStart = off + 5;
        let descEnd = descStart + descriptorsLoopLen;
        if descEnd > sectionEnd then res_err ErrInvalidSection
        else do {
          descriptors \<leftarrow> slice s descStart descEnd;
          sid \<leftarrow> read_u16 s off; b2 \<leftarrow> idx s (off + 2); b3 \<leftarrow> idx s (off + 3);
          sdt_loop s descEnd sectionEnd
            (services @ [\<lparr> ss_ServiceID = sid, ss_EITScheduleFlag = b2 AND 0x02 \<noteq> 0,
                           ss_EITPresentFollowing = b2 AND 0x01 \<noteq> 0,
                           ss_RunningStatus = drop_bit 5 b3 AND 0x07, ss_FreeCAMode = b3 AND 0x10 \<noteq> 0,
                           ss_Descriptors = ParseDescriptors descriptors \<rparr>]) } }
      else res_ok services)"
  by pat_completeness auto
termination
  by (relation "measure (\<lambda>(s, off, e, _). nat (e - off))") (auto dest: read_len12_Some)

definition ParseSDT :: "Section \<Rightarrow> SDT res" where
  "ParseSDT s = do {
     valid \<leftarrow> table_guard 15 (\<lambda>t. t = 0x42 \<or> t = 0x46) None s;
     if \<not> valid then res_err ErrInvalidSection
     else res_bind (ParseSectionHeader s) (\<lambda>header. do {
       total \<leftarrow> Section_TotalLength s;
       onid \<leftarrow> read_u16 s 8;
       res_bind (sdt_loop s 11 (total - 4) []) (\<lambda>services.
         res_ok \<lparr> sdt_TransportStreamID = sh_TransportStreamID header, sdt_OriginalNetworkID = onid,
                  sdt_VersionNumber = sh_VersionNumber header, sdt_Services = services \<rparr>) }) }"

section \<open>BIT\<close>

record BITBroadcaster =
  bb_BroadcasterID :: u8
  bb_Descriptors :: "Descriptor list"

record BIT =
  bit_OriginalNetworkID :: u16
  bit_VersionNumber :: u8
  bit_CurrentNext :: bool
  bit_SectionNumber :: u8
  bit_LastSectionNumber :: u8
  bit_BroadcastViewPropriety :: bool
  bit_FirstDescriptors :: "Descriptor list"
  bit_Broadcasters :: "BITBroadcaster list"

function bit_loop :: "Section \<Rightarrow> int \<Rightarrow> int \<Rightarrow> BITBroadcaster list \<Rightarrow> BITBroadcaster list res" where
  "bit_loop s off end' bs =
     (if off < end'
      then if off + 3 > end' then res_err ErrInvalidSection
           else do {
             len \<leftarrow> read_len12 s (off + 1);
             let descEnd = off + 3 + len;
             if descEnd > end' then res_err ErrInvalidSection
             else do {
               raw \<leftarrow> slice s (off + 3) descEnd;
               let descriptors = ParseDescriptors raw;
               if descriptorsLength descriptors \<noteq> len then res_err ErrInvalidSection
               else do {
                 b \<leftarrow> idx s off;
                 bit_loop s descEnd end' (bs @ [\<lparr> bb_BroadcasterID = b, bb_Descriptors = descriptors \<rparr>]) } } }
      else res_ok bs)"
  by pat_completeness auto
termination
  by (relation "measure (\<lambda>(s, off, e, _). nat (e - off))") (auto dest: read_len12_Some)

definition ParseBIT :: "Section \<Rightarrow> BIT res" where
  "ParseBIT s = do {
     valid \<leftarrow> table_guard 14 (\<lambda>t. t = 0xC4) (Some True) s;
     if \<not> valid then res_err ErrInvalidSection
     else do {
       total \<leftarrow> Section_TotalLength s;
       firstLen \<leftarrow> read_len12 s 8;
       let end' = total - 4;
       let firstEnd = 10 + firstLen;
       if firstEnd > end' then res_err ErrInvalidSection
       else do {
         onid \<leftarrow> read_u16 s 3; b5 \<leftarrow> idx s 5; b6 \<leftarrow> idx s 6; b7 \<leftarrow> idx s 7; b8 \<leftarrow> idx s 8;
         raw \<leftarrow> slice s 10 firstEnd;
         let first = ParseDescriptors raw;
         if descriptorsLength first \<noteq> firstLen then res_err ErrInvalidSection
         else res_bind (bit_loop s firstEnd end' []) (\<lambda>bs.
           res_ok \<lparr> bit_OriginalNetworkID = onid, bit_VersionNumber = drop_bit 1 b5 AND 0x1f,
             bit_CurrentNext = b5 AND 1 \<noteq> 0, bit_SectionNumber = b6, bit_LastSectionNumber = b7,
             bit_BroadcastViewPropriety = b8 AND 0x10 \<noteq> 0, bit_FirstDescriptors = first,
             bit_Broadcasters = bs \<rparr>) } } }"

section \<open>TOT\<close>

record TOT =
  tot_JSTTime :: gotime
  tot_Descriptors :: "Descriptor list"

definition ParseTOT :: "Section \<Rightarrow> TOT res" where
  "ParseTOT s = do {
     valid \<leftarrow> table_guard 14 (\<lambda>t. t = 0x73) (Some False) s;
     if \<not> valid then res_err ErrInvalidSection
     else do {
       total \<leftarrow> Section_TotalLength s;
       let sectionEnd = total - 4;
       raw \<leftarrow> slice s 3 8;
       jst \<leftarrow> parseMJDTime raw;
       (case jst of
          Inl e \<Rightarrow> res_err ErrInvalidSection
        | Inr t \<Rightarrow>
            if Time_IsZero t then res_err ErrInvalidSection
            else do {
              loopLen \<leftarrow> read_len12 s 8;
              let descEnd = 10 + loopLen;
              if descEnd \<noteq> sectionEnd then res_err ErrInvalidSection
              else do {
                descriptors \<leftarrow> slice s 10 descEnd;
                res_ok \<lparr> tot_JSTTime = t, tot_Descriptors = ParseDescriptors descriptors \<rparr> } }) } }"

section \<open>EIT\<close>

record EITEvent =
  ev_EventID :: u16
  ev_StartTime :: gotime
  ev_Duration :: duration
  ev_RunningStatus :: u8
  ev_FreeCAMode :: bool
  ev_Descriptors :: "Descriptor list"

record EIT =
  eit_ServiceID :: u16
  eit_TransportStreamID :: u16
  eit_OriginalNetworkID :: u16
  eit_TableID :: u8
  eit_VersionNumber :: u8
  eit_SectionNumber :: u8
  eit_LastSectionNumber :: u8
  eit_SegmentLastSectionNumber :: u8
  eit_LastTableID :: u8
  eit_Events :: "EITEvent list"

function eit_loop :: "Section \<Rightarrow> int \<Rightarrow> int \<Rightarrow> EITEvent list \<Rightarrow> EITEvent list res" where
  "eit_loop s off sectionEnd events =
     (if off + 12 \<le> sectionEnd
      then do {
        rawStart \<leftarrow> slice s (off + 2) (off + 7);
        rawDuration \<leftarrow> slice s (off + 7) (off + 10);
        res_bind (parseMJDTime rawStart) (\<lambda>start.
          res_bind (parseBCDDuration rawDuration) (\<lambda>dur. do {
            descriptorsLoopLen \<leftarrow> read_len12 s (off + 10);
            let descStart = off + 12;
            let descEnd = descStart + descriptorsLoopLen;
            if descEnd > sectionEnd then res_err ErrInvalidSection
            else do {
              descriptors \<leftarrow> slice s descStart descEnd;
              eid \<leftarrow> read_u16 s off; b10 \<leftarrow> idx s (off + 10);
              eit_loop s descEnd sectionEnd
                (events @ [\<lparr> ev_EventID = eid, ev_StartTime = start, ev_Duration = dur,
                             ev_RunningStatus = drop_bit 5 b10 AND 0x07, ev_FreeCAMode = b10 AND 0x10 \<noteq> 0,
                             ev_Descriptors = ParseDescriptors descriptors \<rparr>]) } })) }
      else if off \<noteq> sectionEnd then res_err ErrInvalidSection
      else res_ok events)"
  by pat_completeness auto
termination
  by (relation "measure (\<lambda>(s, off, e, _). nat (e - off))") (auto dest: read_len12_Some)

definition ParseEIT :: "Section \<Rightarrow> EIT res" where
  "ParseEIT s = do {
     valid \<leftarrow> table_guard 18 (\<lambda>t. IsEITPF t \<or> IsEITS t) None s;
     if \<not> valid then res_err ErrInvalidSection
     else res_bind (ParseSectionHeader s) (\<lambda>header. do {
       total \<leftarrow> Section_TotalLength s;
       tsid \<leftarrow> read_u16 s 8; onid \<leftarrow> read_u16 s 10;
       b12 \<leftarrow> idx s 12; b13 \<leftarrow> idx s 13;
       res_bind (eit_loop s 14 (total - 4) []) (\<lambda>events.
         res_ok \<lparr> eit_ServiceID = sh_ServiceID header, eit_TransportStreamID = tsid,
           eit_OriginalNetworkID = onid, eit_TableID = sh_TableID header,
           eit_VersionNumber = sh_VersionNumber header, eit_SectionNumber = sh_SectionNumber header,
           eit_LastSectionNumber = sh_LastSectionNumber header, eit_SegmentLastSectionNumber = b12,
           eit_LastTableID = b13, eit_Events = events \<rparr>) }) }"

declare sdt_loop.simps [simp del] bit_loop.simps [simp del] eit_loop.simps [simp del]

section \<open>Totality\<close>

text \<open>
  Each loop stays inside the section: offsets start non-negative, and every read is below
  the end of the section data, which lies in the buffer.
\<close>

lemma pmt_loop_ok:
  "0 \<le> off \<Longrightarrow> e \<le> blen s \<Longrightarrow> go_ok (pmt_loop s off e acc) (\<lambda>_. True)"
proof (induction s off e acc rule: pmt_loop.induct)
  case (1 s off e acc)
  then show ?case
    by (subst pmt_loop.simps) (auto simp: go_wp read_len12_def Let_def)
qed

lemma nit_loop_ok:
  "0 \<le> off \<Longrightarrow> e \<le> blen s \<Longrightarrow> go_ok (nit_loop s off e acc) (\<lambda>_. True)"
proof (induction s off e acc rule: nit_loop.induct)
  case (1 s off e acc)
  then show ?case
    by (subst nit_loop.simps) (auto simp: go_wp read_len12_def Let_def split: sum.splits)
qed

lemma sdt_loop_ok:
  "0 \<le> off \<Longrightarrow> e \<le> blen s \<Longrightarrow> go_ok (sdt_loop s off e acc) (\<lambda>_. True)"
proof (induction s off e acc rule: sdt_loop.induct)
  case (1 s off e acc)
  then show ?case
    by (subst sdt_loop.simps) (auto simp: go_wp read_len12_def Let_def)
qed

lemma bit_loop_ok:
  "0 \<le> off \<Longrightarrow> e \<le> blen s \<Longrightarrow> go_ok (bit_loop s off e acc) (\<lambda>_. True)"
proof (induction s off e acc rule: bit_loop.induct)
  case (1 s off e acc)
  then show ?case
    by (subst bit_loop.simps) (auto simp: go_wp read_len12_def Let_def)
qed

lemma parseMJDTime_True [simp, go_wp]: "go_ok (parseMJDTime b) (\<lambda>_. True)"
  by (rule parseMJDTime_ok)

lemma parseBCDDuration_True [simp, go_wp]: "go_ok (parseBCDDuration b) (\<lambda>_. True)"
  by (rule parseBCDDuration_ok)

lemma eit_loop_ok:
  "0 \<le> off \<Longrightarrow> e \<le> blen s \<Longrightarrow> go_ok (eit_loop s off e acc) (\<lambda>_. True)"
proof (induction s off e acc rule: eit_loop.induct)
  case (1 s off e acc)
  show ?case
  proof (cases "off + 12 \<le> e")
    case True
    let ?t = "parseMJDTime (take (nat (off + 7 - (off + 2))) (drop (nat (off + 2)) s))"
    let ?d = "parseBCDDuration (take (nat (off + 10 - (off + 7))) (drop (nat (off + 7)) s))"
    obtain t d where td: "?t = Some t" "?d = Some d"
      using parseMJDTime_ok parseBCDDuration_ok unfolding go_ok_def by blast
    show ?thesis
      using "1.IH" [OF True] "1.prems" True td
      by (cases t; cases d; subst eit_loop.simps) (auto simp: go_wp read_len12_def Let_def)
  next
    case False
    then show ?thesis by (subst eit_loop.simps) simp
  qed
qed

text \<open>With the guard, the fixed part of every table lies in the buffer.\<close>

lemma ParsePAT_guarded:
  "ParsePAT s = (if guard_holds 12 (\<lambda>t. t = 0x00) None s
     then map_option Inr (pat_loop s 8 (total_length s - 4)
       \<lparr> pat_TransportStreamID = sh_TransportStreamID (header_of s),
         pat_VersionNumber = sh_VersionNumber (header_of s), pat_NetworkPID = 0, pat_Programs = [] \<rparr>)
     else Some (Inl ErrInvalidSection))"
  by (auto simp: ParsePAT_def guard_holds_def crc_valid_def map_option_case split: option.split)

lemma ParsePAT_total: "go_ok (ParsePAT s) (\<lambda>_. True)"
proof (cases "guard_holds 12 (\<lambda>t. t = 0x00) None s")
  case True
  have "go_ok (pat_loop s 8 (total_length s - 4) pat) (\<lambda>_. True)" for pat
    using guard_holdsD(3) [OF True] by (intro pat_loop_ok) simp_all
  then show ?thesis using True by (auto simp: ParsePAT_guarded go_ok_def)
qed (simp add: ParsePAT_guarded)

lemma ParsePMT_total: "go_ok (ParsePMT s) (\<lambda>_. True)"
proof (cases "guard_holds 16 (\<lambda>t. t = 0x02) None s")
  case True
  note g = guard_holdsD [OF True]
  show ?thesis
    using True g by (auto simp: ParsePMT_def go_wp Let_def pmt_loop_ok)
qed (simp add: ParsePMT_def)

lemma ParseNIT_total: "go_ok (ParseNIT s) (\<lambda>_. True)"
proof (cases "guard_holds 16 (\<lambda>t. t = 0x40 \<or> t = 0x41) None s")
  case True
  note g = guard_holdsD [OF True]
  show ?thesis
    using True g by (auto simp: ParseNIT_def go_wp Let_def nit_loop_ok split: sum.splits)
qed (simp add: ParseNIT_def)

lemma ParseSDT_total: "go_ok (ParseSDT s) (\<lambda>_. True)"
proof (cases "guard_holds 15 (\<lambda>t. t = 0x42 \<or> t = 0x46) None s")
  case True
  note g = guard_holdsD [OF True]
  show ?thesis
    using True g by (auto simp: ParseSDT_def go_wp Let_def sdt_loop_ok)
qed (simp add: ParseSDT_def)

lemma ParseBIT_total: "go_ok (ParseBIT s) (\<lambda>_. True)"
proof (cases "guard_holds 14 (\<lambda>t. t = 0xC4) (Some True) s")
  case True
  note g = guard_holdsD [OF True]
  show ?thesis
    using True g by (auto simp: ParseBIT_def go_wp Let_def bit_loop_ok)
qed (simp add: ParseBIT_def)

lemma ParseTOT_total: "go_ok (ParseTOT s) (\<lambda>_. True)"
proof (cases "guard_holds 14 (\<lambda>t. t = 0x73) (Some False) s")
  case True
  note g = guard_holdsD [OF True]
  obtain t where "parseMJDTime (take 5 (drop 3 s)) = Some t"
    using parseMJDTime_ok unfolding go_ok_def by blast
  then show ?thesis
    using True g by (auto simp: ParseTOT_def go_wp Let_def split: sum.splits)
qed (simp add: ParseTOT_def)

lemma ParseEIT_total: "go_ok (ParseEIT s) (\<lambda>_. True)"
proof (cases "guard_holds 18 (\<lambda>t. IsEITPF t \<or> IsEITS t) None s")
  case True
  note g = guard_holdsD [OF True]
  show ?thesis
    using True g by (auto simp: ParseEIT_def go_wp Let_def eit_loop_ok)
qed (simp add: ParseEIT_def)

section \<open>The contract of a table parser\<close>

text \<open>
  A table parser returns on every byte string, and what it accepts carries one of its table
  ids and a valid CRC. A section damaged within four bytes is then rejected, as long as the
  damage spares the length.
\<close>

locale table_parser =
  fixes parse :: "Section \<Rightarrow> 'a res"
    and isid :: "u8 \<Rightarrow> bool"
  assumes total: "go_ok (parse s) (\<lambda>_. True)"
    and accepts: "parse s = Some (Inr t) \<Longrightarrow> isid (s ! 0) \<and> crc_valid s"
begin

lemma rejects: "\<not> crc_valid s \<or> \<not> isid (s ! 0) \<Longrightarrow> \<exists>e. parse s = Some (Inl e)"
  using total [of s] accepts [of s] by (auto simp: go_ok_def) (metis sum.exhaust)+

lemma rejects_burst:
  assumes "good_section (pre @ a @ post)" and "length b = length a" "length a \<le> 4" "b \<noteq> a"
    and "total_length (pre @ b @ post) = total_length (pre @ a @ post)"
  shows "\<exists>e. parse (pre @ b @ post) = Some (Inl e)"
proof -
  have len: "blen (pre @ b @ post) = total_length (pre @ b @ post)"
    using assms(1,2,5) by (simp add: good_section_def)
  then have "take (nat (total_length (pre @ b @ post))) (pre @ b @ post) = pre @ b @ post"
    by (metis nat_int take_all_iff order_refl)
  moreover have "crc32MPEG2 (pre @ b @ post) \<noteq> 0"
    using crc_window [of a b pre post] assms by (auto simp: good_section_iff)
  ultimately have "\<not> crc_valid (pre @ b @ post)" by (simp add: crc_valid_def)
  then show ?thesis using rejects by blast
qed

end

lemma table_guard_accepts:
  assumes "do { valid \<leftarrow> table_guard mn isid syntax s; if \<not> valid then res_err e else f } = Some (Inr t)" and "4 \<le> mn"
  shows "isid (s ! 0) \<and> crc_valid s"
  using assms by (auto simp: guard_holds_def split: if_splits)

interpretation pat: table_parser ParsePAT "\<lambda>t. t = 0x00"
  by unfold_locales (rule ParsePAT_total, unfold ParsePAT_def, erule table_guard_accepts, simp)

interpretation pmt: table_parser ParsePMT "\<lambda>t. t = 0x02"
  by unfold_locales (rule ParsePMT_total, unfold ParsePMT_def, erule table_guard_accepts, simp)

interpretation nit: table_parser ParseNIT "\<lambda>t. t = 0x40 \<or> t = 0x41"
  by unfold_locales (rule ParseNIT_total, unfold ParseNIT_def, erule table_guard_accepts, simp)

interpretation sdt: table_parser ParseSDT "\<lambda>t. t = 0x42 \<or> t = 0x46"
  by unfold_locales (rule ParseSDT_total, unfold ParseSDT_def, erule table_guard_accepts, simp)

interpretation bit: table_parser ParseBIT "\<lambda>t. t = 0xC4"
  by unfold_locales (rule ParseBIT_total, unfold ParseBIT_def, erule table_guard_accepts, simp)

interpretation tot: table_parser ParseTOT "\<lambda>t. t = 0x73"
  by unfold_locales (rule ParseTOT_total, unfold ParseTOT_def, erule table_guard_accepts, simp)

interpretation eit: table_parser ParseEIT "\<lambda>t. IsEITPF t \<or> IsEITS t"
  by unfold_locales (rule ParseEIT_total, unfold ParseEIT_def, erule table_guard_accepts, simp)

section \<open>The PAT writer\<close>

lemma hi8_pid_le: "pid \<le> 0x1fff \<Longrightarrow> hi8 pid \<le> 0x1f"
proof -
  assume "pid \<le> 0x1fff"
  then have "256 * uint (hi8 pid) + uint (lo8 pid) \<le> 0x1fff"
    using uint_be16 [of "hi8 pid" "lo8 pid"] by (simp add: word_le_def)
  then have "uint (hi8 pid) \<le> 0x1f" using uint_ge_0 [of "lo8 pid"] by linarith
  then show ?thesis by (simp add: word_le_def)
qed

lemma low5: "(h :: u8) \<le> 0x1f \<Longrightarrow> h AND 0x1f = h"
proof -
  assume "h \<le> 0x1f"
  then have "uint h < 2 ^ 5" by (simp add: word_le_def)
  then have "take_bit 5 h = h"
    by (simp add: word_uint_eq_iff unsigned_take_bit_eq take_bit_int_eq_self)
  moreover have "(0x1f :: u8) = mask 5" by (simp add: mask_eq_decr_exp)
  ultimately show ?thesis by (simp only: flip: take_bit_eq_mask)
qed

lemma pid13_marked: "pid \<le> 0x1fff \<Longrightarrow> pid13 (0xe0 OR hi8 pid) (lo8 pid) = pid"
proof -
  assume "pid \<le> 0x1fff"
  then have "hi8 pid AND 0x1f = hi8 pid" by (intro low5 hi8_pid_le)
  then have "(0xe0 OR hi8 pid) AND 0x1f = hi8 pid"
    by (simp add: bit.conj_disj_distrib2)
  then show ?thesis by (simp add: pid13_def)
qed

definition version_byte :: "u8 \<Rightarrow> u8" where
  "version_byte v = 0xc1 OR push_bit 1 (v AND 0x1f)"

lemma version_byte_read: "drop_bit 1 (version_byte v) AND 0x1f = v AND 0x1f"
proof -
  have m: "(0x1f :: u8) = mask 5" by (simp add: mask_eq_decr_exp)
  have dp: "drop_bit k (push_bit k x) = take_bit (8 - k) x" for k and x :: u8
    by (rule bit_word_eqI) (auto simp: bit_simps)
  have "drop_bit 1 (push_bit 1 (v AND 0x1f)) = v AND 0x1f"
    unfolding dp m by (simp flip: take_bit_eq_mask)
  moreover have "drop_bit 1 (0xc1 :: u8) = 0x60" by simp
  ultimately have "drop_bit 1 (version_byte v) = 0x60 OR (v AND 0x1f)"
    by (simp only: version_byte_def drop_bit_or)
  moreover have "(0x60 OR (v AND 0x1f)) AND 0x1f = v AND 0x1f"
    by (simp add: bit.conj_disj_distrib2 and.assoc)
  ultimately show ?thesis by simp
qed

definition pat_body :: "u16 \<Rightarrow> u16 \<Rightarrow> u16 \<Rightarrow> u8 \<Rightarrow> bytes" where
  "pat_body tsid sid pid version = [0x00, 0xb0, 0x0d, hi8 tsid, lo8 tsid, version_byte version, 0, 0,
     hi8 sid, lo8 sid, 0xe0 OR hi8 pid, lo8 pid]"

lemma length_pat_body [simp]: "length (pat_body tsid sid pid version) = 12"
  by (simp add: pat_body_def)

lemma BuildPATSection_eq:
  "BuildPATSection tsid sid pid version =
     (if pid > 0x1fff then Inl (ErrInvalidPMTPID pid)
      else Inr (pat_body tsid sid pid version @ b32 (crc32MPEG2 (pat_body tsid sid pid version))))"
  by (simp add: BuildPATSection_def pat_body_def version_byte_def Let_def)

lemma pat_section_good: "good_section (pat_body tsid sid pid version @ b32 (crc32MPEG2 (pat_body tsid sid pid version)))"
proof -
  have "len12 0xb0 0x0d = 13" by (simp add: len12_def be16_def)
  then have "total_length (pat_body tsid sid pid version @ xs) = 16" for xs
    by (simp add: total_length_def pat_body_def)
  then show ?thesis by (simp add: good_section_iff)
qed

lemma ParsePAT_Build:
  assumes pid: "pid \<le> 0x1fff" and sid: "sid \<noteq> 0"
  shows "ParsePAT (pat_body tsid sid pid version @ b32 (crc32MPEG2 (pat_body tsid sid pid version)))
     = Some (Inr \<lparr> pat_TransportStreamID = tsid, pat_VersionNumber = version AND 0x1f, pat_NetworkPID = 0,
                     pat_Programs = [(sid, pid)] \<rparr>)"
proof -
  let ?s = "pat_body tsid sid pid version @ b32 (crc32MPEG2 (pat_body tsid sid pid version))"
  have good: "good_section ?s" by (rule pat_section_good)
  have len: "length ?s = 16" by simp
  then have total: "total_length ?s = 16" using good by (simp add: good_section_def)
  have nth: "?s ! i = pat_body tsid sid pid version ! i" if "i < 12" for i
    using that by (simp add: nth_append)
  have guard: "guard_holds 12 (\<lambda>t. t = 0x00) None ?s"
    using good len nth [of 0] by (simp add: guard_holds_def good_section_def) (simp add: pat_body_def)
  have hdr: "sh_TransportStreamID (header_of ?s) = tsid" "sh_VersionNumber (header_of ?s) = version AND 0x1f"
    using version_byte_read [of version] nth [of 3] nth [of 4] nth [of 5]
    by (simp_all add: header_of_def) (simp_all add: pat_body_def)
  have "pat_loop ?s 8 12 pat = Some (pat\<lparr> pat_Programs := AList.update sid pid (pat_Programs pat) \<rparr>)" for pat
    using len pid13_marked [OF pid] sid nth [of 8] nth [of 9] nth [of 10] nth [of 11]
    by (subst pat_loop.simps, subst pat_loop.simps) (simp, simp add: pat_body_def)
  then show ?thesis
    by (simp add: ParsePAT_guarded guard total hdr)
qed

section \<open>Reading back an encoded PMT\<close>

definition len_bytes :: "nat \<Rightarrow> bytes" where
  "len_bytes n = [0xf0 OR hi8 (word_of_nat n), lo8 (word_of_nat n)]"

lemma len12_marked:
  assumes n: "n < 4096" and m: "m AND 0x0f = 0"
  shows "len12 (m OR hi8 (word_of_nat n)) (lo8 (word_of_nat n)) = int n"
proof -
  let ?w = "word_of_nat n :: u16"
  have w: "uint ?w = int n" using n by (simp add: uint_nat unsigned_of_nat take_bit_nat_eq_self)
  then have "256 * uint (hi8 ?w) + uint (lo8 ?w) = int n" by (metis uint_be16 be16_hi_lo)
  then have "uint (hi8 ?w) < 16" using n uint_ge_0 [of "lo8 ?w"] by linarith
  then have "take_bit 4 (hi8 ?w) = hi8 ?w"
    by (simp add: word_uint_eq_iff unsigned_take_bit_eq take_bit_int_eq_self)
  moreover have "(0x0f :: u8) = mask 4" by (simp add: mask_eq_decr_exp)
  ultimately have "hi8 ?w AND 0x0f = hi8 ?w" by (simp only: flip: take_bit_eq_mask)
  then have "(m OR hi8 ?w) AND 0x0f = hi8 ?w" using m by (simp add: bit.conj_disj_distrib2)
  then show ?thesis by (simp add: len12_def w)
qed

lemma len12_len_bytes: "n < 4096 \<Longrightarrow> len12 (0xf0 OR hi8 (word_of_nat n)) (lo8 (word_of_nat n)) = int n"
  by (rule len12_marked) simp_all

definition pmt_element_bytes :: "PMTElement \<Rightarrow> bytes" where
  "pmt_element_bytes e = [pe_StreamType e, 0xe0 OR hi8 (pe_ElementaryPID e), lo8 (pe_ElementaryPID e)]
     @ len_bytes (length (pe_ESInfo e)) @ pe_ESInfo e"

definition pmt_element_ok :: "PMTElement \<Rightarrow> bool" where
  "pmt_element_ok e \<longleftrightarrow> pe_ElementaryPID e \<le> 0x1fff \<and> length (pe_ESInfo e) < 4096
     \<and> pe_Descriptors e = ParseDescriptors (pe_ESInfo e)"

lemma length_len_bytes [simp]: "length (len_bytes n) = 2"
  by (simp add: len_bytes_def)

lemma length_pmt_element_bytes [simp]: "length (pmt_element_bytes e) = 5 + length (pe_ESInfo e)"
  by (simp add: pmt_element_bytes_def)

lemma pmt_loop_encode:
  "list_all pmt_element_ok es \<Longrightarrow>
     pmt_loop (pre @ concat (map pmt_element_bytes es) @ post) (blen pre)
       (blen pre + blen (concat (map pmt_element_bytes es))) acc = Some (Inr (acc @ es))"
proof (induction es arbitrary: pre acc)
  case Nil
  then show ?case by (subst pmt_loop.simps) simp
next
  case (Cons e es)
  let ?es = "concat (map pmt_element_bytes es)" and ?n = "length (pe_ESInfo e)"
  let ?s = "pre @ concat (map pmt_element_bytes (e # es)) @ post"
  define hdr where "hdr = [pe_StreamType e, 0xe0 OR hi8 (pe_ElementaryPID e), lo8 (pe_ElementaryPID e)] @ len_bytes ?n"
  have hdr: "length hdr = 5" "hdr ! 0 = pe_StreamType e" "hdr ! 1 = 0xe0 OR hi8 (pe_ElementaryPID e)"
    "hdr ! 2 = lo8 (pe_ElementaryPID e)" "hdr ! 3 = 0xf0 OR hi8 (word_of_nat ?n)" "hdr ! 4 = lo8 (word_of_nat ?n)"
    by (simp_all add: hdr_def len_bytes_def)
  have s: "?s = pre @ hdr @ pe_ESInfo e @ ?es @ post" by (simp add: pmt_element_bytes_def hdr_def)
  have ok: "pe_ElementaryPID e \<le> 0x1fff" "?n < 4096" "pe_Descriptors e = ParseDescriptors (pe_ESInfo e)"
    using Cons.prems by (simp_all add: pmt_element_ok_def)
  have e: "\<lparr> pe_StreamType = pe_StreamType e, pe_ElementaryPID = pe_ElementaryPID e, pe_ESInfo = pe_ESInfo e,
      pe_Descriptors = ParseDescriptors (pe_ESInfo e) \<rparr> = e"
    by (cases e) (use ok(3) in simp)
  have "idx ?s (blen pre + int i) = Some (hdr ! i)" if "i < 5" for i
    unfolding s using that hdr(1) by (simp add: nat_add_distrib nth_append)
  note at = this [of 0, simplified] this [of 1, simplified] this [of 2, simplified] this [of 3, simplified] this [of 4, simplified]
  have len: "read_len12 ?s (blen pre + 3) = Some (int ?n)"
    using at(4,5) len12_len_bytes [OF ok(2)] hdr by (simp add: read_len12_def add.assoc)
  have info: "slice ?s (blen pre + 5) (blen pre + 5 + int ?n) = Some (pe_ESInfo e)"
    unfolding s using hdr(1) by (simp add: nat_add_distrib)
  have "pmt_loop ?s (blen pre) (blen pre + blen (concat (map pmt_element_bytes (e # es)))) acc
      = pmt_loop ?s (blen pre + 5 + int ?n) (blen pre + blen (concat (map pmt_element_bytes (e # es)))) (acc @ [e])"
    using at(1-3) len info pid13_marked [OF ok(1)] e hdr by (subst pmt_loop.simps) simp
  also have "\<dots> = Some (Inr ((acc @ [e]) @ es))"
    using Cons.IH [of "pre @ pmt_element_bytes e" "acc @ [e]"] Cons.prems by (simp add: algebra_simps)
  finally show ?case by simp
qed

text \<open>A PMT section: the encoding of ISO/IEC 13818-1, with its section length and CRC filled in.\<close>

definition section_bytes :: "u8 \<Rightarrow> bytes \<Rightarrow> Section" where
  "section_bytes tid body =
     (let n = length body + 4;
          s = [tid, 0xb0 OR hi8 (word_of_nat n), lo8 (word_of_nat n)] @ body
      in s @ b32 (crc32MPEG2 s))"

lemma section_bytes_good:
  assumes "length body + 4 < 4096"
  shows "good_section (section_bytes tid body)" and "length (section_bytes tid body) = length body + 7"
    and "total_length (section_bytes tid body) = blen body + 7"
proof -
  show len: "length (section_bytes tid body) = length body + 7"
    by (simp add: section_bytes_def Let_def)
  have "len12 (0xb0 OR hi8 (word_of_nat (length body + 4))) (lo8 (word_of_nat (length body + 4))) = int (length body + 4)"
    using assms by (rule len12_marked) simp
  then show tot: "total_length (section_bytes tid body) = blen body + 7"
    by (simp add: total_length_def section_bytes_def Let_def)
  have "crc32MPEG2 (section_bytes tid body) = 0"
    unfolding section_bytes_def Let_def by (rule crc_append_crc)
  then show "good_section (section_bytes tid body)"
    using len tot by (simp add: good_section_iff)
qed

lemma section_bytes_nth:
  "section_bytes tid body ! 0 = tid"
  "i < length body \<Longrightarrow> section_bytes tid body ! (i + 3) = body ! i"
  by (simp_all add: section_bytes_def Let_def nth_append)

definition pmt_body :: "PMT \<Rightarrow> bytes" where
  "pmt_body t = [hi8 (pmt_ProgramNumber t), lo8 (pmt_ProgramNumber t), version_byte (pmt_VersionNumber t), 0, 0,
      0xe0 OR hi8 (pmt_PCRPID t), lo8 (pmt_PCRPID t)] @ len_bytes (length (pmt_ProgramInfo t))
      @ pmt_ProgramInfo t @ concat (map pmt_element_bytes (pmt_Elements t))"

definition pmt_ok :: "PMT \<Rightarrow> bool" where
  "pmt_ok t \<longleftrightarrow> pmt_VersionNumber t \<le> 0x1f \<and> pmt_PCRPID t \<le> 0x1fff
     \<and> pmt_Descriptors t = ParseDescriptors (pmt_ProgramInfo t) \<and> list_all pmt_element_ok (pmt_Elements t)
     \<and> length (pmt_body t) + 4 < 4096"

lemma ParsePMT_encode:
  assumes "pmt_ok t"
  shows "ParsePMT (section_bytes 0x02 (pmt_body t)) = Some (Inr t)"
proof -
  let ?s = "section_bytes 0x02 (pmt_body t)" and ?n = "length (pmt_ProgramInfo t)"
  let ?es = "concat (map pmt_element_bytes (pmt_Elements t))"
  define fix' where "fix' = [hi8 (pmt_ProgramNumber t), lo8 (pmt_ProgramNumber t), version_byte (pmt_VersionNumber t), 0, 0,
      0xe0 OR hi8 (pmt_PCRPID t), lo8 (pmt_PCRPID t)] @ len_bytes ?n"
  have body: "pmt_body t = fix' @ pmt_ProgramInfo t @ ?es" by (simp add: pmt_body_def fix'_def)
  have fl: "length fix' = 9" by (simp add: fix'_def)
  have small: "length (pmt_body t) + 4 < 4096" using assms by (simp add: pmt_ok_def)
  note sec = section_bytes_good [OF small, where tid = "0x02"]
  have n: "?n < 4096" using small fl by (simp add: body)
  have at: "?s ! (i + 3) = fix' ! i" if "i < 9" for i
    using section_bytes_nth(2) [of i "pmt_body t" "0x02"] that fl by (simp add: body nth_append)
  note at = at [of 0, simplified] at [of 1, simplified] at [of 2, simplified] at [of 5, simplified] at [of 6, simplified]
    at [of 7, simplified] at [of 8, simplified]
  have f: "fix' ! 0 = hi8 (pmt_ProgramNumber t)" "fix' ! 1 = lo8 (pmt_ProgramNumber t)"
    "fix' ! 2 = version_byte (pmt_VersionNumber t)" "fix' ! 5 = 0xe0 OR hi8 (pmt_PCRPID t)" "fix' ! 6 = lo8 (pmt_PCRPID t)"
    "fix' ! 7 = 0xf0 OR hi8 (word_of_nat ?n)" "fix' ! 8 = lo8 (word_of_nat ?n)"
    by (simp_all add: fix'_def len_bytes_def nth_append)
  obtain crc pre where crc: "length crc = 4" "length pre = 3" "?s = (pre @ fix' @ pmt_ProgramInfo t) @ ?es @ crc"
    unfolding section_bytes_def Let_def body
    by (metis (no_types, lifting) append.assoc length_Cons length_b32 list.size(3) numeral_3_eq_3)
  have ln: "length ?s = 16 + ?n + length ?es" using crc fl by simp
  have guard: "guard_holds 16 (\<lambda>t. t = 0x02) None ?s"
    using sec(1) ln section_bytes_nth(1) [of "0x02" "pmt_body t"]
    by (simp add: guard_holds_def good_section_def)
  have loop: "pmt_loop ?s (12 + int ?n) (12 + int ?n + blen ?es) [] = Some (Inr (pmt_Elements t))"
    using pmt_loop_encode [of "pmt_Elements t" "pre @ fix' @ pmt_ProgramInfo t" crc "[]"] assms crc fl
    by (simp add: pmt_ok_def)
  have info: "slice ?s 12 (12 + int ?n) = Some (pmt_ProgramInfo t)"
    unfolding crc(3) using crc(1,2) fl by (simp add: nat_add_distrib)
  have tot: "total_length ?s = 16 + int ?n + blen ?es" using sec(3) fl by (simp add: body)
  have ver: "pmt_VersionNumber t AND 0x1f = pmt_VersionNumber t"
    using assms by (intro low5) (simp add: pmt_ok_def)
  have rec: "\<lparr> pmt_ProgramNumber = pmt_ProgramNumber t, pmt_VersionNumber = pmt_VersionNumber t, pmt_PCRPID = pmt_PCRPID t,
      pmt_ProgramInfo = pmt_ProgramInfo t, pmt_Descriptors = ParseDescriptors (pmt_ProgramInfo t),
      pmt_Elements = pmt_Elements t \<rparr> = t"
    by (cases t) (use assms in \<open>simp add: pmt_ok_def\<close>)
  have hdr: "sh_ServiceID (header_of ?s) = pmt_ProgramNumber t" "sh_VersionNumber (header_of ?s) = pmt_VersionNumber t"
    using at f version_byte_read [of "pmt_VersionNumber t"] ver by (simp_all add: header_of_def)
  have pcr: "pid13 (?s ! 8) (?s ! 9) = pmt_PCRPID t"
    using at f pid13_marked [of "pmt_PCRPID t"] assms by (simp add: pmt_ok_def)
  have il: "read_len12 ?s 10 = Some (int ?n)"
    using at f ln len12_len_bytes [OF n] by (simp add: read_len12_def)
  show ?thesis
    using guard ln loop info tot rec hdr pcr il by (simp add: ParsePMT_def add.commute add.left_commute)
qed

section \<open>Properties\<close>

text \<open>
  C39. No table parser panics, whatever bytes it is given: every length field is checked before
  the bytes it delimits are read.
\<close>

theorem table_parsers_never_panic:
  "ParsePAT s \<noteq> None \<and> ParsePMT s \<noteq> None \<and> ParseNIT s \<noteq> None \<and> ParseSDT s \<noteq> None
   \<and> ParseBIT s \<noteq> None \<and> ParseTOT s \<noteq> None \<and> ParseEIT s \<noteq> None"
  by (intro conjI; rule go_ok_returns; rule pat.total pmt.total nit.total sdt.total bit.total tot.total eit.total)

text \<open>
  C38. A section that was intact and is then damaged within four consecutive bytes, its length
  field excepted, is rejected by every table parser.
\<close>

theorem table_parsers_reject_bursts:
  assumes "good_section (pre @ a @ post)" and "length b = length a" and "length a \<le> 4" and "b \<noteq> a"
    and "total_length (pre @ b @ post) = total_length (pre @ a @ post)"
  shows "(\<exists>e. ParsePAT (pre @ b @ post) = Some (Inl e)) \<and> (\<exists>e. ParsePMT (pre @ b @ post) = Some (Inl e))
    \<and> (\<exists>e. ParseNIT (pre @ b @ post) = Some (Inl e)) \<and> (\<exists>e. ParseSDT (pre @ b @ post) = Some (Inl e))
    \<and> (\<exists>e. ParseBIT (pre @ b @ post) = Some (Inl e)) \<and> (\<exists>e. ParseTOT (pre @ b @ post) = Some (Inl e))
    \<and> (\<exists>e. ParseEIT (pre @ b @ post) = Some (Inl e))"
  using pat.rejects_burst [OF assms] pmt.rejects_burst [OF assms] nit.rejects_burst [OF assms]
    sdt.rejects_burst [OF assms] bit.rejects_burst [OF assms] tot.rejects_burst [OF assms]
    eit.rejects_burst [OF assms] by blast

theorem table_parsers_reject_bursts_witness:
  "\<exists>e. ParsePAT ([0x00, 0xb0, 0x0d, 0x7f, 0xe1, version_byte 0, 0, 0] @ [9] @ [0, 0xe0 OR hi8 0x101, lo8 0x101]
          @ b32 (crc32MPEG2 (pat_body 0x7fe1 0x400 0x101 0))) = Some (Inl e)"
proof -
  have "hi8 0x7fe1 = 0x7f" "lo8 0x7fe1 = 0xe1" "hi8 0x400 = 4" "lo8 0x400 = 0"
    by (simp_all add: hi8_def lo8_def drop_bit_eq_div)
  then have "pat_body 0x7fe1 0x400 0x101 0 =
      [0x00, 0xb0, 0x0d, 0x7f, 0xe1, version_byte 0, 0, 0] @ [4] @ [0, 0xe0 OR hi8 0x101, lo8 0x101]"
    by (simp add: pat_body_def)
  then show ?thesis
    using table_parsers_reject_bursts [of "[0x00, 0xb0, 0x0d, 0x7f, 0xe1, version_byte 0, 0, 0]" "[4]"
        "[0, 0xe0 OR hi8 0x101, lo8 0x101] @ b32 (crc32MPEG2 (pat_body 0x7fe1 0x400 0x101 0))" "[9]"]
      pat_section_good [of "0x7fe1" "0x400" "0x101" 0]
    by (simp add: total_length_def)
qed

text \<open>
  \<open>BuildPATSection\<close> and \<open>ParsePAT\<close> are inverse: for a 13-bit PMT PID and a service id other than
  the reserved 0, the section that is built parses to a PAT with that transport stream,
  version (modulo 32) and that one program, and no network PID.
\<close>

theorem BuildPATSection_roundtrip:
  assumes "pid \<le> 0x1fff" and "sid \<noteq> 0"
  shows "\<exists>s. BuildPATSection tsid sid pid version = Inr s \<and> ParsePAT s = Some (Inr
     \<lparr> pat_TransportStreamID = tsid, pat_VersionNumber = version AND 0x1f, pat_NetworkPID = 0,
       pat_Programs = [(sid, pid)] \<rparr>)"
  using ParsePAT_Build [OF assms, of tsid version] assms(1) by (simp add: BuildPATSection_eq not_less)

theorem BuildPATSection_roundtrip_witness:
  "\<exists>s. BuildPATSection 0x7fe1 0x400 0x101 33 = Inr s \<and> ParsePAT s = Some (Inr
     \<lparr> pat_TransportStreamID = 0x7fe1, pat_VersionNumber = 1, pat_NetworkPID = 0,
       pat_Programs = [(0x400, 0x101)] \<rparr>)"
  using BuildPATSection_roundtrip [of "0x101" "0x400" "0x7fe1" 33] by simp

text \<open>
  C40. \<open>ParsePMT\<close> reads back every encodable PMT: a PMT with a 5-bit version, 13-bit PIDs and data
  that fits the 12-bit section length, encoded with its lengths and CRC, parses to itself,
  elementary streams in order.
\<close>

theorem ParsePMT_roundtrip:
  assumes "pmt_ok t"
  shows "ParsePMT (section_bytes 0x02 (pmt_body t)) = Some (Inr t)"
  by (rule ParsePMT_encode [OF assms])

theorem ParsePMT_roundtrip_witness:
  "ParsePMT (section_bytes 0x02 (pmt_body \<lparr> pmt_ProgramNumber = 0x400, pmt_VersionNumber = 3, pmt_PCRPID = 0x100,
       pmt_ProgramInfo = [9, 4, 0, 5, 0xe1, 0x20], pmt_Descriptors = [[9, 4, 0, 5, 0xe1, 0x20]],
       pmt_Elements = [\<lparr> pe_StreamType = 2, pe_ElementaryPID = 0x100, pe_ESInfo = [], pe_Descriptors = [] \<rparr>] \<rparr>))
   = Some (Inr \<lparr> pmt_ProgramNumber = 0x400, pmt_VersionNumber = 3, pmt_PCRPID = 0x100,
       pmt_ProgramInfo = [9, 4, 0, 5, 0xe1, 0x20], pmt_Descriptors = [[9, 4, 0, 5, 0xe1, 0x20]],
       pmt_Elements = [\<lparr> pe_StreamType = 2, pe_ElementaryPID = 0x100, pe_ESInfo = [], pe_Descriptors = [] \<rparr>] \<rparr>)"
  by (rule ParsePMT_roundtrip)
     (simp add: pmt_ok_def pmt_element_ok_def pmt_body_def len8_def)

end
