(* ===== verification/TS_SectionSet.thy ===== *)
theory TS_SectionSet
  imports TS_Tables
begin

text \<open>
  \<open>tableSectionSet\<close> of \<open>ts/scanner.go\<close>: the sections of one version of a table. Adding a section
  with another extension, version or last section number starts over; the set is ready when
  every section number up to the last has arrived. Shared by the demultiplexer and the
  service scanner.
\<close>

record tableSectionSet =
  tss_initialized :: bool
  tss_extension :: u16
  tss_version :: u8
  tss_last :: u8
  tss_sections :: "(u8, Section) gomap"

definition empty_tss :: tableSectionSet where
  "empty_tss = \<lparr> tss_initialized = False, tss_extension = 0, tss_version = 0, tss_last = 0, tss_sections = [] \<rparr>"

definition section_numbers :: "u8 \<Rightarrow> u8 list" where
  "section_numbers lst = map word_of_nat [0..<unat lst + 1]"

definition tss_restart :: "SectionHeader \<Rightarrow> tableSectionSet \<Rightarrow> tableSectionSet \<times> bool" where
  "tss_restart h s =
     (if \<not> tss_initialized s \<or> tss_extension s \<noteq> sh_TransportStreamID h
         \<or> tss_version s \<noteq> sh_VersionNumber h \<or> tss_last s \<noteq> sh_LastSectionNumber h
      then (\<lparr> tss_initialized = True, tss_extension = sh_TransportStreamID h,
             tss_version = sh_VersionNumber h, tss_last = sh_LastSectionNumber h, tss_sections = [] \<rparr>, True)
      else (s, False))"

text \<open>\<open>add\<close> returns whether it started over and whether the table is complete.\<close>

definition tableSectionSet_add :: "Section \<Rightarrow> tableSectionSet \<Rightarrow> (tableSectionSet \<times> bool \<times> bool) go" where
  "tableSectionSet_add section s = do {
     r \<leftarrow> ParseSectionHeader section;
     Some (case r of
       Inl e \<Rightarrow> (s, False, False)
     | Inr h \<Rightarrow>
         if \<not> sh_CurrentNextIndicator h \<or> sh_SectionNumber h > sh_LastSectionNumber h then (s, False, False)
         else
           let (s, reset) = tss_restart h s;
               s = s\<lparr> tss_sections := AList.update (sh_SectionNumber h) section (tss_sections s) \<rparr>
           in if blen (tss_sections s) \<noteq> uint (tss_last s) + 1 then (s, reset, False)
              else (s, reset, list_all (\<lambda>n. map_of (tss_sections s) n \<noteq> None) (section_numbers (tss_last s)))) }"

definition tableSectionSet_ordered :: "tableSectionSet \<Rightarrow> Section list" where
  "tableSectionSet_ordered s =
     map (\<lambda>n. case map_of (tss_sections s) n of Some x \<Rightarrow> x | None \<Rightarrow> []) (section_numbers (tss_last s))"

section \<open>Invariant\<close>

text \<open>A section that belongs to the table with a given extension, version and last number.\<close>

definition member_of :: "tableSectionSet \<Rightarrow> u8 \<Rightarrow> Section \<Rightarrow> bool" where
  "member_of s n x \<longleftrightarrow> 8 \<le> length x \<and> total_length x \<le> blen x
     \<and> sh_TransportStreamID (header_of x) = tss_extension s \<and> sh_VersionNumber (header_of x) = tss_version s
     \<and> sh_LastSectionNumber (header_of x) = tss_last s \<and> sh_SectionNumber (header_of x) = n
     \<and> sh_CurrentNextIndicator (header_of x)"

definition tss_ok :: "tableSectionSet \<Rightarrow> bool" where
  "tss_ok s \<longleftrightarrow> distinct (map fst (tss_sections s))
     \<and> (\<forall>n x. map_of (tss_sections s) n = Some x \<longrightarrow> n \<le> tss_last s \<and> member_of s n x)"

lemma tss_ok_empty [simp]: "tss_ok empty_tss"
  by (simp add: tss_ok_def empty_tss_def)

lemma unat_u8_of_nat: "k \<le> unat lst \<Longrightarrow> unat (word_of_nat k :: u8) = k" for lst :: u8
proof -
  assume "k \<le> unat lst"
  moreover have "unat lst < 2 ^ LENGTH(8)" by (rule unsigned_less)
  ultimately show ?thesis by (simp add: unsigned_of_nat take_bit_nat_eq_self)
qed

lemma set_section_numbers: "set (section_numbers lst) = {n. n \<le> lst}"
proof (intro set_eqI iffI)
  fix n assume "n \<in> set (section_numbers lst)"
  then obtain k where "n = word_of_nat k" "k \<le> unat lst"
    by (auto simp: section_numbers_def less_Suc_eq_le simp del: upt_Suc)
  then show "n \<in> {n. n \<le> lst}" by (simp add: word_le_nat_alt unat_u8_of_nat)
next
  fix n assume "n \<in> {n. n \<le> lst}"
  then have "unat n \<le> unat lst" "n = word_of_nat (unat n)" by (simp_all add: word_le_nat_alt)
  then show "n \<in> set (section_numbers lst)"
    by (metis (no_types, lifting) section_numbers_def image_eqI image_set atLeastLessThan_iff set_upt le0 less_Suc_eq_le Suc_eq_plus1)
qed

lemma length_section_numbers [simp]: "length (section_numbers lst) = unat lst + 1"
  by (simp add: section_numbers_def)

lemma section_numbers_nth: "i \<le> unat lst \<Longrightarrow> section_numbers lst ! i = word_of_nat i"
  by (simp add: section_numbers_def del: upt_Suc)

lemma distinct_section_numbers: "distinct (section_numbers lst)"
proof -
  have "inj_on (word_of_nat :: nat \<Rightarrow> u8) {0..<unat lst + 1}"
  proof (rule inj_onI)
    fix a b assume ab: "a \<in> {0..<unat lst + 1}" "b \<in> {0..<unat lst + 1}" "(word_of_nat a :: u8) = word_of_nat b"
    then have "a \<le> unat lst" "b \<le> unat lst" by simp_all
    then show "a = b" using arg_cong [OF ab(3), of unat] by (simp add: unat_u8_of_nat)
  qed
  then show ?thesis by (simp add: section_numbers_def distinct_map del: upt_Suc)
qed

text \<open>With the invariant, the length test of the source already decides readiness.\<close>

lemma tss_full:
  assumes "tss_ok s" and "blen (tss_sections s) = uint (tss_last s) + 1"
  shows "list_all (\<lambda>n. map_of (tss_sections s) n \<noteq> None) (section_numbers (tss_last s))"
proof -
  have sub: "fst ` set (tss_sections s) \<subseteq> set (section_numbers (tss_last s))"
  proof
    fix n assume "n \<in> fst ` set (tss_sections s)"
    then obtain x where "map_of (tss_sections s) n = Some x" by (metis map_of_eq_None_iff not_None_eq)
    then show "n \<in> set (section_numbers (tss_last s))"
      using assms(1) by (simp add: tss_ok_def set_section_numbers)
  qed
  have "card (fst ` set (tss_sections s)) = length (tss_sections s)"
    using assms(1) distinct_card [of "map fst (tss_sections s)"] by (simp add: tss_ok_def)
  moreover have "length (tss_sections s) = unat (tss_last s) + 1"
    using assms(2) by (metis (mono_tags) of_nat_eq_iff of_nat_Suc add.commute plus_1_eq_Suc of_nat_unat)
  moreover have "card (set (section_numbers (tss_last s))) = unat (tss_last s) + 1"
    using distinct_card [OF distinct_section_numbers] by simp
  ultimately have "fst ` set (tss_sections s) = set (section_numbers (tss_last s))"
    using sub by (intro card_subset_eq) simp_all
  then show ?thesis by (auto simp: list_all_iff map_of_eq_None_iff)
qed

lemma ParseSectionHeader_cases:
  "ParseSectionHeader x = Some (if 8 \<le> length x \<and> total_length x \<le> blen x then Inr (header_of x) else Inl ErrInvalidSection)"
proof (cases "8 \<le> length x")
  case True
  then show ?thesis
    by (cases "total_length x \<le> blen x") (simp, simp add: ParseSectionHeader_def)
qed (simp add: ParseSectionHeader_def)

text \<open>What an accepted section is, and the set after it.\<close>

definition acceptable :: "Section \<Rightarrow> bool" where
  "acceptable x \<longleftrightarrow> 8 \<le> length x \<and> total_length x \<le> blen x \<and> sh_CurrentNextIndicator (header_of x)
     \<and> sh_SectionNumber (header_of x) \<le> sh_LastSectionNumber (header_of x)"

definition tss_after :: "Section \<Rightarrow> tableSectionSet \<Rightarrow> tableSectionSet" where
  "tss_after x s = (let s = fst (tss_restart (header_of x) s)
     in s\<lparr> tss_sections := AList.update (sh_SectionNumber (header_of x)) x (tss_sections s) \<rparr>)"

lemma tss_after_ok:
  assumes "tss_ok s" and "acceptable x"
  shows "tss_ok (tss_after x s)" and "member_of (tss_after x s) (sh_SectionNumber (header_of x)) x"
proof -
  let ?r = "fst (tss_restart (header_of x) s)" and ?n = "sh_SectionNumber (header_of x)"
  have r: "tss_ok ?r" "tss_extension ?r = sh_TransportStreamID (header_of x)"
    "tss_version ?r = sh_VersionNumber (header_of x)" "tss_last ?r = sh_LastSectionNumber (header_of x)"
    using assms(1) by (auto simp: tss_restart_def tss_ok_def)
  have m: "member_of (tss_after x s) n y = member_of ?r n y" for n y
    by (simp add: member_of_def tss_after_def Let_def)
  show mx: "member_of (tss_after x s) ?n x"
    using assms(2) r by (simp add: m) (simp add: member_of_def acceptable_def)
  have "n \<le> tss_last ?r \<and> member_of ?r n y"
    if "map_of (AList.update ?n x (tss_sections ?r)) n = Some y" for n y
    using that r mx assms(2) unfolding m
    by (cases "n = ?n") (auto simp: update_conv' tss_ok_def acceptable_def)
  then show "tss_ok (tss_after x s)"
    using r(1) m by (auto simp: tss_ok_def tss_after_def Let_def distinct_update)
qed

lemma tableSectionSet_add_eq:
  assumes "tss_ok s"
  shows "tableSectionSet_add x s =
    Some (if acceptable x
      then (tss_after x s, snd (tss_restart (header_of x) s),
            blen (tss_sections (tss_after x s)) = uint (tss_last (tss_after x s)) + 1)
      else (s, False, False))"
proof (cases "acceptable x")
  case True
  then have "tss_ok (tss_after x s)" using tss_after_ok assms by blast
  note full = tss_full [OF this]
  then show ?thesis
    using True
    by (auto simp: tableSectionSet_add_def ParseSectionHeader_cases acceptable_def tss_after_def Let_def
        split: prod.splits)
next
  case False
  then show ?thesis
    by (auto simp: tableSectionSet_add_def ParseSectionHeader_cases acceptable_def not_le)
qed

text \<open>A ready set lists the sections 0, 1, ... last of one table version.\<close>

lemma ordered_complete:
  assumes "tss_ok s" and "blen (tss_sections s) = uint (tss_last s) + 1" and "i \<le> unat (tss_last s)"
  shows "member_of s (word_of_nat i) (tableSectionSet_ordered s ! i)"
    and "\<exists>n. map_of (tss_sections s) n = Some (tableSectionSet_ordered s ! i)"
proof -
  have "(word_of_nat i :: u8) \<in> set (section_numbers (tss_last s))"
    using assms(3) section_numbers_nth [of i "tss_last s"] by (metis length_section_numbers less_add_one nth_mem le_imp_less_Suc Suc_eq_plus1)
  then obtain x where x: "map_of (tss_sections s) (word_of_nat i) = Some x"
    using tss_full [OF assms(1,2)] by (auto simp: list_all_iff)
  then have "tableSectionSet_ordered s ! i = x"
    using assms(3) by (simp add: tableSectionSet_ordered_def section_numbers_nth)
  then show "member_of s (word_of_nat i) (tableSectionSet_ordered s ! i)"
    "\<exists>n. map_of (tss_sections s) n = Some (tableSectionSet_ordered s ! i)"
    using x assms(1) by (auto simp: tss_ok_def)
qed

text \<open>The contract of \<open>add\<close> for its clients.\<close>

lemma tableSectionSet_add_ok:
  assumes "tss_ok s"
  shows "go_ok (tableSectionSet_add x s) (\<lambda>(s', reset, ready). tss_ok s'
    \<and> (\<forall>n y. map_of (tss_sections s') n = Some y \<longrightarrow> y = x \<or> map_of (tss_sections s) n = Some y)
    \<and> (ready \<longrightarrow> blen (tss_sections s') = uint (tss_last s') + 1))"
  using tss_after_ok(1) [OF assms, of x] assms
  by (auto simp: tableSectionSet_add_eq tss_after_def tss_restart_def update_conv' Let_def split: if_splits)

section \<open>Sequences of sections\<close>

fun tss_add_all :: "Section list \<Rightarrow> tableSectionSet \<Rightarrow> (tableSectionSet \<times> bool) go" where
  "tss_add_all [] s = Some (s, False)"
| "tss_add_all (x # xs) s = do {
     (s, reset, ready) \<leftarrow> tableSectionSet_add x s;
     if xs = [] then Some (s, ready) else tss_add_all xs s }"

lemma tss_add_all_ok:
  "tss_ok s \<Longrightarrow> \<exists>s' ready. tss_add_all xs s = Some (s', ready) \<and> tss_ok s'
     \<and> (ready \<longrightarrow> blen (tss_sections s') = uint (tss_last s') + 1)
     \<and> (\<forall>n x. map_of (tss_sections s') n = Some x \<longrightarrow> x \<in> set xs \<or> map_of (tss_sections s) n = Some x)"
proof (induction xs arbitrary: s)
  case (Cons x xs)
  obtain s1 reset ready1 where a: "tableSectionSet_add x s = Some (s1, reset, ready1)" by (metis Cons.prems tableSectionSet_add_eq prod_cases3)
  have 1: "tss_ok s1" "ready1 \<longrightarrow> blen (tss_sections s1) = uint (tss_last s1) + 1"
    using a tss_after_ok(1) [OF Cons.prems] Cons.prems
    by (auto simp: tableSectionSet_add_eq [OF Cons.prems] split: if_splits)
  have 2: "map_of (tss_sections s1) n = Some y \<Longrightarrow> y = x \<or> map_of (tss_sections s) n = Some y" for n y
    using a by (auto simp: tableSectionSet_add_eq [OF Cons.prems] tss_after_def tss_restart_def update_conv' Let_def
        split: if_splits)
  show ?case
  proof (cases "xs = []")
    case True
    then show ?thesis using a 1 2 by auto
  next
    case False
    obtain s' ready where r: "tss_add_all xs s1 = Some (s', ready)" "tss_ok s'"
        "ready \<longrightarrow> blen (tss_sections s') = uint (tss_last s') + 1"
        "\<forall>n y. map_of (tss_sections s') n = Some y \<longrightarrow> y \<in> set xs \<or> map_of (tss_sections s1) n = Some y"
      using Cons.IH [OF 1(1)] by blast
    have "\<forall>n y. map_of (tss_sections s') n = Some y \<longrightarrow> y \<in> set (x # xs) \<or> map_of (tss_sections s) n = Some y"
      using r(4) 2 by (metis list.set_intros(1) list.set_intros(2))
    then show ?thesis using a False r(1-3) by simp
  qed
qed auto

text \<open>All sections of one table version make the set ready, in any order and with repeats.\<close>

definition tss_key :: "tableSectionSet \<Rightarrow> u16 \<times> u8 \<times> u8" where
  "tss_key s = (tss_extension s, tss_version s, tss_last s)"

definition header_key :: "Section \<Rightarrow> u16 \<times> u8 \<times> u8" where
  "header_key x = (sh_TransportStreamID (header_of x), sh_VersionNumber (header_of x), sh_LastSectionNumber (header_of x))"

definition section_no :: "Section \<Rightarrow> u8" where
  "section_no x = sh_SectionNumber (header_of x)"

lemma tss_after_key:
  "tss_initialized (tss_after x s)" "tss_key (tss_after x s) = header_key x"
  "section_no x \<in> dom (map_of (tss_sections (tss_after x s)))"
  "tss_initialized s \<Longrightarrow> tss_key s = header_key x \<Longrightarrow>
     dom (map_of (tss_sections s)) \<subseteq> dom (map_of (tss_sections (tss_after x s)))"
  by (auto simp: tss_after_def tss_restart_def tss_key_def header_key_def section_no_def Let_def update_conv')

lemma tss_add_all_covers:
  "\<lbrakk>tss_ok s; xs \<noteq> []; \<forall>x \<in> set xs. acceptable x \<and> header_key x = k\<rbrakk> \<Longrightarrow>
     \<exists>s'. tss_add_all xs s = Some (s', blen (tss_sections s') = uint (tss_last s') + 1) \<and> tss_ok s' \<and> tss_key s' = k
       \<and> section_no ` set xs \<subseteq> dom (map_of (tss_sections s'))
       \<and> (tss_initialized s \<and> tss_key s = k \<longrightarrow> dom (map_of (tss_sections s)) \<subseteq> dom (map_of (tss_sections s')))"
proof (induction xs arbitrary: s)
  case (Cons x xs)
  let ?s1 = "tss_after x s"
  have x: "acceptable x" "header_key x = k" using Cons.prems(3) by simp_all
  have a: "tableSectionSet_add x s = Some (?s1, snd (tss_restart (header_of x) s),
      blen (tss_sections ?s1) = uint (tss_last ?s1) + 1)"
    using x by (simp add: tableSectionSet_add_eq [OF Cons.prems(1)])
  have ok: "tss_ok ?s1" using tss_after_ok(1) Cons.prems(1) x(1) by blast
  note key = tss_after_key [where x = x and s = s]
  show ?case
  proof (cases "xs = []")
    case True
    then show ?thesis using a ok key x by auto
  next
    case False
    then obtain s' where r: "tss_add_all xs ?s1 = Some (s', blen (tss_sections s') = uint (tss_last s') + 1)" "tss_ok s'"
        "tss_key s' = k" "section_no ` set xs \<subseteq> dom (map_of (tss_sections s'))"
        "dom (map_of (tss_sections ?s1)) \<subseteq> dom (map_of (tss_sections s'))"
      using Cons.IH [OF ok False] Cons.prems(3) key x by auto
    have "section_no ` set (x # xs) \<subseteq> dom (map_of (tss_sections s'))"
      using r(4,5) key(3) by auto
    moreover have "tss_initialized s \<and> tss_key s = k \<longrightarrow> dom (map_of (tss_sections s)) \<subseteq> dom (map_of (tss_sections s'))"
      using key(4) x(2) order.trans [OF _ r(5)] by simp
    ultimately show ?thesis using a False r by simp
  qed
qed simp

lemma tss_covered_full:
  assumes "tss_ok s" and "{n. n \<le> tss_last s} \<subseteq> dom (map_of (tss_sections s))"
  shows "blen (tss_sections s) = uint (tss_last s) + 1"
proof -
  have "dom (map_of (tss_sections s)) \<subseteq> {n. n \<le> tss_last s}"
    using assms(1) by (auto simp: tss_ok_def)
  then have "set (map fst (tss_sections s)) = set (section_numbers (tss_last s))"
    using assms(2) by (simp add: set_section_numbers dom_map_of_conv_image_fst)
  then have "length (tss_sections s) = unat (tss_last s) + 1"
    using assms(1) distinct_card [OF distinct_section_numbers, of "tss_last s"]
      distinct_card [of "map fst (tss_sections s)"]
    by (simp add: tss_ok_def)
  then show ?thesis by simp
qed

section \<open>Properties\<close>

text \<open>
  C36. When a sequence of sections fed to a fresh \<open>tableSectionSet\<close> makes it ready, \<open>ordered()\<close> is
  the complete table: last+1 sections, the i-th with section number i, all current and of one
  extension, version and last section number, each of them one of the sections fed.
\<close>

theorem tableSectionSet_ready_complete:
  assumes "tss_add_all xs empty_tss = Some (s, True)"
  shows "length (tableSectionSet_ordered s) = unat (tss_last s) + 1 \<and>
    (\<forall>i \<le> unat (tss_last s).
       member_of s (word_of_nat i) (tableSectionSet_ordered s ! i) \<and> tableSectionSet_ordered s ! i \<in> set xs)"
proof -
  have ok: "tss_ok s" "blen (tss_sections s) = uint (tss_last s) + 1"
    and src: "map_of (tss_sections s) n = Some x \<Longrightarrow> x \<in> set xs" for n x
    using tss_add_all_ok [OF tss_ok_empty, of xs] assms by (auto simp: empty_tss_def)
  show ?thesis
    using ordered_complete [OF ok] src by (auto simp: tableSectionSet_ordered_def)
qed

lemma example_sections:
  "acceptable [0, 0x80, 5, 0, 1, 0xc1, 0, 1]" "header_key [0, 0x80, 5, 0, 1, 0xc1, 0, 1] = (1, 0, 1)"
  "section_no [0, 0x80, 5, 0, 1, 0xc1, 0, 1] = 0"
  "acceptable [0, 0x80, 5, 0, 1, 0xc1, 1, 1]" "header_key [0, 0x80, 5, 0, 1, 0xc1, 1, 1] = (1, 0, 1)"
  "section_no [0, 0x80, 5, 0, 1, 0xc1, 1, 1] = 1"
  by (simp_all add: acceptable_def header_key_def section_no_def header_of_def total_length_def len12_def be16_def)

theorem tableSectionSet_ready_complete_witness:
  "\<exists>s. tss_add_all [[0, 0x80, 5, 0, 1, 0xc1, 1, 1], [0, 0x80, 5, 0, 1, 0xc1, 0, 1]] empty_tss = Some (s, True)
     \<and> length (tableSectionSet_ordered s) = unat (tss_last s) + 1"
proof -
  let ?xs = "[[0, 0x80, 5, 0, 1, 0xc1, 1, 1], [0, 0x80, 5, 0, 1, 0xc1, 0, 1]] :: Section list"
  obtain s' where r: "tss_add_all ?xs empty_tss = Some (s', blen (tss_sections s') = uint (tss_last s') + 1)" "tss_ok s'"
      "tss_key s' = (1, 0, 1)" "section_no ` set ?xs \<subseteq> dom (map_of (tss_sections s'))"
    using tss_add_all_covers [of empty_tss ?xs "(1, 0, 1)"] example_sections by auto
  have "{n. n \<le> tss_last s'} \<subseteq> dom (map_of (tss_sections s'))"
  proof
    fix n assume "n \<in> {n. n \<le> tss_last s'}"
    then have "n \<le> 1" using r(3) by (simp add: tss_key_def)
    then have "n = 0 \<or> n = 1" by (simp add: word_le_nat_alt word_unat_eq_iff le_Suc_eq)
    then show "n \<in> dom (map_of (tss_sections s'))" using r(4) example_sections by auto
  qed
  then have "tss_add_all ?xs empty_tss = Some (s', True)" using r tss_covered_full [OF r(2)] by simp
  then show ?thesis using tableSectionSet_ready_complete by blast
qed

text \<open>
  Conversely a set never waits in vain: feeding all sections of one table version, in any
  order and with any repetitions, to a set in any state it can be in, leaves it ready.
\<close>

theorem tableSectionSet_becomes_ready:
  assumes "tss_ok s" and "xs \<noteq> []" and "\<forall>x \<in> set xs. acceptable x \<and> header_key x = (ext, version, lst)"
    and "\<forall>n \<le> lst. n \<in> section_no ` set xs"
  shows "\<exists>s'. tss_add_all xs s = Some (s', True) \<and> tss_key s' = (ext, version, lst)"
proof -
  obtain s' where r: "tss_add_all xs s = Some (s', blen (tss_sections s') = uint (tss_last s') + 1)" "tss_ok s'"
      "tss_key s' = (ext, version, lst)" "section_no ` set xs \<subseteq> dom (map_of (tss_sections s'))"
    using tss_add_all_covers [OF assms(1,2,3)] by blast
  have "{n. n \<le> tss_last s'} \<subseteq> dom (map_of (tss_sections s'))"
    using r(3,4) assms(4) by (auto simp: tss_key_def) blast
  then show ?thesis using r tss_covered_full [OF r(2)] by simp
qed

theorem tableSectionSet_becomes_ready_witness:
  "\<exists>s'. tss_add_all [[0, 0x80, 5, 0, 1, 0xc1, 1, 1], [0, 0x80, 5, 0, 1, 0xc1, 0, 1]] empty_tss = Some (s', True)"
proof -
  have "n = 0 \<or> n = 1" if "n \<le> 1" for n :: u8
    using that by (simp add: word_le_nat_alt word_unat_eq_iff le_Suc_eq)
  then show ?thesis
    using tableSectionSet_becomes_ready [of empty_tss
        "[[0, 0x80, 5, 0, 1, 0xc1, 1, 1], [0, 0x80, 5, 0, 1, 0xc1, 0, 1]]" 1 0 1] example_sections
    by fastforce
qed

end
