(* ===== verification/TS_Packetize.thy ===== *)
theory TS_Packetize
  imports TS_Tables
begin

text \<open>
  \<open>packetizeSection\<close> of \<open>ts/demux.go\<close>: a section cut into transport packets, the first one starting
  a payload unit with pointer 0, the last one stuffed with \<open>0xff\<close>. Feeding the packets to a
  \<open>SectionAssembler\<close>, whatever its state, gives back exactly that section.
\<close>

section \<open>The packetizer\<close>

text \<open>One packet: the header, the pointer field on the first packet, and what fits of the data.\<close>

definition packetize_one :: "u16 \<Rightarrow> bool \<Rightarrow> u8 \<Rightarrow> bytes \<Rightarrow> packet \<times> bytes" where
  "packetize_one pid first counter remaining =
     (let header = [SyncByte, if first then hi8 pid OR 0x40 else hi8 pid, lo8 pid, 0x10 OR (counter AND 0x0f)]
                   @ (if first then [0] else []);
          n = min (nat PacketSize - length header) (length remaining)
      in (header @ take n remaining @ replicate (nat PacketSize - length header - n) 0xff, drop n remaining))"

function packetize_loop :: "u16 \<Rightarrow> bool \<Rightarrow> u8 \<Rightarrow> bytes \<Rightarrow> packet list \<times> u8" where
  "packetize_loop pid first counter remaining =
     (if first \<or> remaining \<noteq> []
      then let (p, rest) = packetize_one pid first counter remaining;
               (ps, c) = packetize_loop pid False ((counter + 1) AND 0x0f) rest
           in (p # ps, c)
      else ([], counter))"
  by pat_completeness auto
termination
  by (relation "measure (\<lambda>(_, first, _, remaining). length remaining + (if first then 1 else 0))")
     (auto simp: packetize_one_def Let_def)

declare packetize_loop.simps [simp del]

definition packetizeSection :: "u16 \<Rightarrow> Section \<Rightarrow> u8 \<Rightarrow> packet list \<times> u8" where
  "packetizeSection pid section counter = packetize_loop pid True counter section"

section \<open>The packets read back\<close>

lemma low_bits_4: "(c :: u8) AND 0x0f AND 0x0f = c AND 0x0f"
  by (simp add: and.assoc)

lemma counter_marked: "(0x10 OR (c AND 0x0f)) AND 0x0f = c AND 0x0f" for c :: u8
  by (simp add: bit.conj_disj_distrib2 and.assoc)

lemma adaptation_marked: "adaptation_control (0x10 OR (c AND 0x0f)) = 1"
proof -
  have "drop_bit 4 (c AND 0x0f) = (0 :: u8)"
  proof -
    have "(0x0f :: u8) = mask 4" by (simp add: mask_eq_decr_exp)
    moreover have "drop_bit k (c AND mask k) = 0" for k
      by (rule bit_word_eqI) (simp add: bit_simps)
    ultimately show ?thesis by simp
  qed
  moreover have "drop_bit 4 (0x10 :: u8) = 1" by simp
  ultimately show ?thesis by (simp add: adaptation_control_def drop_bit_or)
qed

lemma hi8_marks:
  assumes "pid \<le> 0x1fff"
  shows "hi8 pid AND 0x80 = 0" "hi8 pid AND 0x40 = 0" "(hi8 pid OR 0x40) AND 0x80 = 0" "(hi8 pid OR 0x40) AND 0x40 \<noteq> 0"
    "pid13 (hi8 pid) (lo8 pid) = pid" "pid13 (hi8 pid OR 0x40) (lo8 pid) = pid"
proof -
  have low: "hi8 pid AND 0x1f = hi8 pid" by (intro low5 hi8_pid_le assms)
  have "hi8 pid AND m = hi8 pid AND (0x1f AND m)" for m
    using low by (metis and.assoc)
  from this [of "0x80"] this [of "0x40"] show "hi8 pid AND 0x80 = 0" "hi8 pid AND 0x40 = 0" by simp_all
  then show "(hi8 pid OR 0x40) AND 0x80 = 0" "(hi8 pid OR 0x40) AND 0x40 \<noteq> 0"
    by (simp_all add: bit.conj_disj_distrib2)
  have "(hi8 pid OR 0x40) AND 0x1f = hi8 pid" using low by (simp add: bit.conj_disj_distrib2)
  then show "pid13 (hi8 pid) (lo8 pid) = pid" "pid13 (hi8 pid OR 0x40) (lo8 pid) = pid"
    using low by (simp_all add: pid13_def)
qed

lemma not_2_le_1: "\<not> (2 :: u8) \<le> 1"
  by (simp add: word_le_nat_alt)

text \<open>A packet with a payload and no adaptation field, as \<open>FeedAll\<close> sees it.\<close>

definition plain_packet :: "u16 \<Rightarrow> bool \<Rightarrow> u8 \<Rightarrow> bytes \<Rightarrow> packet" where
  "plain_packet pid start c pl =
     [SyncByte, if start then hi8 pid OR 0x40 else hi8 pid, lo8 pid, 0x10 OR (c AND 0x0f)] @ pl"

lemma plain_packet_accessors:
  assumes "pid \<le> 0x1fff" and "length pl = 184"
  shows "Packet_PID (plain_packet pid start c pl) = Some pid"
    and "Packet_TransportErrorIndicator (plain_packet pid start c pl) = Some False"
    and "Packet_PayloadUnitStartIndicator (plain_packet pid start c pl) = Some start"
    and "Packet_HasPayload (plain_packet pid start c pl) = Some True"
    and "Packet_ContinuityCounter (plain_packet pid start c pl) = Some (c AND 0x0f)"
    and "Packet_Payload (plain_packet pid start c pl) = Some pl"
  using assms hi8_marks [OF assms(1)] not_2_le_1
  by (simp_all add: plain_packet_def packet_defs adaptation_marked counter_marked)

lemma FeedAll_plain:
  assumes "pid \<le> 0x1fff" and "length pl = 184" and "sa_pid sa = pid"
  shows "SectionAssembler_FeedAll (plain_packet pid start c pl) sa =
    (let sa = check_counter (c AND 0x0f) sa in
     if start then feed_start pl sa
     else if \<not> sa_expecting sa then Some (sa, [])
     else SectionAssembler_completeSections False (sa\<lparr> sa_buffer := sa_buffer sa @ pl \<rparr>))"
proof -
  have "pl \<noteq> []" using assms(2) by auto
  then show ?thesis
    using assms(3) by (simp add: SectionAssembler_FeedAll_def plain_packet_accessors [OF assms(1,2)])
qed

text \<open>\<open>packetize_one\<close> makes plain packets: stuffing pads the payload.\<close>

definition stuffed :: "nat \<Rightarrow> bytes \<Rightarrow> bytes" where
  "stuffed n b = take n b @ replicate (n - length b) 0xff"

lemma length_stuffed [simp]: "length (stuffed n b) = n"
  by (simp add: stuffed_def)

lemma packetize_one_plain:
  "packetize_one pid True c b = (plain_packet pid True c (0 # stuffed 183 b), drop 183 b)"
  "packetize_one pid False c b = (plain_packet pid False c (stuffed 184 b), drop 184 b)"
  by (auto simp: packetize_one_def plain_packet_def stuffed_def Let_def min_def)

lemma next_counter: "(c AND 0x0f) + 1 AND 0x0f = (c + 1) AND 0x0f" for c :: u8
proof -
  have "(0x0f :: u8) = mask 4" by (simp add: mask_eq_decr_exp)
  moreover have "take_bit 4 (take_bit 4 c + 1) = take_bit 4 (c + 1)"
    by (simp add: word_unat_eq_iff unsigned_take_bit_eq unat_word_ariths take_bit_eq_mod mod_mod_cancel mod_simps)
  ultimately show ?thesis by (simp only: flip: take_bit_eq_mask)
qed

subsection \<open>Stuffing\<close>

lemma len12_ff: "len12 0xff 0xff = 4095"
  by (simp add: len12_def be16_def)

lemma cut_stuffing: "k \<le> 184 \<Longrightarrow> cut_sections (replicate k 0xff) = ([], replicate k 0xff)"
  by (subst cut_sections.simps) (auto simp: total_length_def len12_ff)

lemma cut_one:
  assumes "good_section s" and "k \<le> 184"
  shows "cut_sections (s @ replicate k 0xff) = ([s], replicate k 0xff)"
proof -
  have len: "nat (total_length s) = length s" "4 \<le> length s"
    using assms(1) good_section_length by (auto simp: good_section_def dest: arg_cong [of _ _ nat])
  have "cut_sections (s @ replicate k 0xff) =
     (let (ss, rest) = cut_sections (replicate k 0xff) in (if crc_valid s then s # ss else ss, rest))"
    using len assms(1) by (subst cut_sections.simps) (simp add: Let_def good_section_def)
  then show ?thesis using assms by (simp add: cut_stuffing good_section_def)
qed

lemma cut_incomplete: "blen b < total_length b \<Longrightarrow> cut_sections b = ([], b)"
  by (subst cut_sections.simps) simp

lemma consume_stuffing: "consumePayload_loop (replicate k 0xff) acc sa = Some (sa, acc)"
  by (subst consumePayload_loop.simps) (auto simp: nth_replicate)

lemma consume_one:
  assumes "good_section s" and "s ! 0 \<noteq> 0xff"
  shows "SectionAssembler_consumePayload (s @ replicate k 0xff) sa = Some (sa, [s])"
proof -
  have len: "nat (total_length s) = length s" "4 \<le> length s"
    using assms(1) good_section_length by (auto simp: good_section_def dest: arg_cong [of _ _ nat])
  then have "(s @ replicate k 0xff) ! 0 = s ! 0" by (auto simp: nth_append)
  then have "SectionAssembler_consumePayload (s @ replicate k 0xff) sa =
      consumePayload_loop (replicate k 0xff) [s] sa"
    unfolding SectionAssembler_consumePayload_def
    using len assms by (subst consumePayload_loop.simps) (simp add: good_section_def)
  then show ?thesis by (simp add: consume_stuffing)
qed

lemma consume_incomplete:
  assumes "3 \<le> length b" and "b ! 0 \<noteq> 0xff" and "blen b < total_length b"
  shows "SectionAssembler_consumePayload b sa = Some (sa\<lparr> sa_buffer := b, sa_expecting := True \<rparr>, [])"
  unfolding SectionAssembler_consumePayload_def
  using assms by (subst consumePayload_loop.simps) simp

lemma completeSections_one:
  assumes "good_section s" and "k \<le> 184"
  shows "\<exists>sa'. SectionAssembler_completeSections False (sa\<lparr> sa_buffer := s @ replicate k 0xff \<rparr>) = Some (sa', [s])
     \<and> sa_pid sa' = sa_pid sa"
  using completeSections_cut [of "[]" "sa\<lparr> sa_buffer := s @ replicate k 0xff \<rparr>"] cut_one [OF assms]
  by (auto simp: SectionAssembler_completeSections_def)

lemma completeSections_incomplete:
  assumes "3 \<le> length b" and "blen b < total_length b"
  shows "SectionAssembler_completeSections False (sa\<lparr> sa_buffer := b \<rparr>) =
     Some (sa\<lparr> sa_buffer := b, sa_expecting := True \<rparr>, [])"
  using completeSections_cut [of "[]" "sa\<lparr> sa_buffer := b \<rparr>"] cut_incomplete [OF assms(2)] assms(1)
  by (auto simp: SectionAssembler_completeSections_def)

subsection \<open>The round trip\<close>

lemma good_prefix:
  assumes "good_section (b @ r)" and "3 \<le> length b" and "r \<noteq> []"
  shows "blen b < total_length b"
proof -
  have "blen b + blen r = total_length b"
    using assms(1,2) total_length_append [of b r] by (simp add: good_section_def)
  moreover have "0 < length r" using assms(3) by simp
  ultimately show ?thesis by linarith
qed

lemma feed_continuation:
  assumes pid: "pid \<le> 0x1fff"
  shows "\<lbrakk>good_section (b @ r); 3 \<le> length b; r \<noteq> []; sa_pid sa = pid; sa_buffer sa = b; sa_expecting sa;
      (sa_lastCounter sa + 1) AND 0x0f = c AND 0x0f\<rbrakk> \<Longrightarrow>
    \<exists>sa'. feed_many SectionAssembler_FeedAll (fst (packetize_loop pid False c r)) sa = Some (sa', [b @ r]) \<and> sa_pid sa' = pid"
proof (induction "length r" arbitrary: b r sa c rule: less_induct)
  case less
  let ?sa = "sa\<lparr> sa_lastCounter := c AND 0x0f \<rparr>"
  have chk: "check_counter (c AND 0x0f) sa = ?sa"
    using less.prems(7) by (simp add: check_counter_def)
  have step: "SectionAssembler_FeedAll (plain_packet pid False c (stuffed 184 r)) sa =
      SectionAssembler_completeSections False (?sa\<lparr> sa_buffer := b @ stuffed 184 r \<rparr>)"
    using FeedAll_plain [OF pid, of "stuffed 184 r" sa False c] less.prems(4-6) chk by (simp add: Let_def)
  have loop: "fst (packetize_loop pid False c r) =
      plain_packet pid False c (stuffed 184 r) # fst (packetize_loop pid False ((c + 1) AND 0x0f) (drop 184 r))"
    using less.prems(3) by (subst packetize_loop.simps) (simp add: packetize_one_plain split: prod.splits)
  show ?case
  proof (cases "length r \<le> 184")
    case True
    then have "b @ stuffed 184 r = (b @ r) @ replicate (184 - length r) 0xff" by (simp add: stuffed_def)
    then obtain sa' where "SectionAssembler_completeSections False (?sa\<lparr> sa_buffer := b @ stuffed 184 r \<rparr>) = Some (sa', [b @ r])"
        "sa_pid sa' = pid"
      using completeSections_one [OF less.prems(1), of "184 - length r" ?sa] less.prems(4) by auto
    moreover have "fst (packetize_loop pid False ((c + 1) AND 0x0f) (drop 184 r)) = []"
      using True by (subst packetize_loop.simps) simp
    ultimately show ?thesis using loop step by simp
  next
    case False
    let ?b = "b @ take 184 r" and ?r = "drop 184 r"
    have b: "b @ stuffed 184 r = ?b" "?b @ ?r = b @ r" using False by (simp_all add: stuffed_def)
    have r: "?r \<noteq> []" "length ?r < length r" using False by simp_all
    have good: "good_section (?b @ ?r)" using less.prems(1) b(2) by simp
    have "blen ?b < total_length ?b" using good_prefix [OF good _ r(1)] less.prems(2) by simp
    then have one: "SectionAssembler_FeedAll (plain_packet pid False c (stuffed 184 r)) sa =
        Some (?sa\<lparr> sa_buffer := ?b, sa_expecting := True \<rparr>, [])"
      using step completeSections_incomplete [of ?b ?sa] less.prems(2) b(1) by simp
    have "\<exists>sa'. feed_many SectionAssembler_FeedAll (fst (packetize_loop pid False ((c + 1) AND 0x0f) ?r))
        (?sa\<lparr> sa_buffer := ?b, sa_expecting := True \<rparr>) = Some (sa', [?b @ ?r]) \<and> sa_pid sa' = pid"
      using less.hyps [OF r(2) good, of "?sa\<lparr> sa_buffer := ?b, sa_expecting := True \<rparr>" "(c + 1) AND 0x0f"]
        less.prems(2,4) r(1) by (simp add: next_counter low_bits_4)
    then show ?thesis using loop one b(2) by auto
  qed
qed

lemma feed_start_pointer_0:
  "feed_start (0 # b) sa = SectionAssembler_consumePayload b (sa\<lparr> sa_buffer := [], sa_expecting := False \<rparr>)"
proof -
  have "map_option (\<lambda>x. x) m = m" for m :: "(SectionAssembler \<times> Section list) go" by (cases m) simp_all
  then show ?thesis
    by (simp add: feed_start_def len8_def Let_def split_def)
qed

lemma packetize_feed:
  assumes pid: "pid \<le> 0x1fff" and s: "good_section s" "s ! 0 \<noteq> 0xff" and sa: "sa_pid sa = pid"
  shows "\<exists>sa'. feed_many SectionAssembler_FeedAll (fst (packetizeSection pid s c)) sa = Some (sa', [s]) \<and> sa_pid sa' = pid"
proof -
  let ?p = "plain_packet pid True c (0 # stuffed 183 s)"
  let ?sa = "(check_counter (c AND 0x0f) sa)\<lparr> sa_buffer := [], sa_expecting := False \<rparr>"
  have loop: "fst (packetizeSection pid s c) = ?p # fst (packetize_loop pid False ((c + 1) AND 0x0f) (drop 183 s))"
    unfolding packetizeSection_def
    by (subst packetize_loop.simps) (simp add: packetize_one_plain split: prod.splits)
  have step: "SectionAssembler_FeedAll ?p sa = SectionAssembler_consumePayload (stuffed 183 s) ?sa"
    using FeedAll_plain [OF pid, of "0 # stuffed 183 s" sa True c] sa by (simp add: Let_def feed_start_pointer_0)
  have pid': "sa_pid ?sa = pid" using sa by (simp add: check_counter_def)
  show ?thesis
  proof (cases "length s \<le> 183")
    case True
    then have "stuffed 183 s = s @ replicate (183 - length s) 0xff" by (simp add: stuffed_def)
    then have "SectionAssembler_FeedAll ?p sa = Some (?sa, [s])"
      using step consume_one [OF s] by simp
    moreover have "fst (packetize_loop pid False ((c + 1) AND 0x0f) (drop 183 s)) = []"
      using True by (subst packetize_loop.simps) simp
    ultimately show ?thesis using loop pid' by simp
  next
    case False
    let ?b = "take 183 s" and ?r = "drop 183 s"
    have b: "stuffed 183 s = ?b" "?b @ ?r = s" "3 \<le> length ?b" "?r \<noteq> []" "?b ! 0 = s ! 0"
      using False by (simp_all add: stuffed_def)
    have good: "good_section (?b @ ?r)" using s(1) b(2) by simp
    have "SectionAssembler_FeedAll ?p sa = Some (?sa\<lparr> sa_buffer := ?b, sa_expecting := True \<rparr>, [])"
      using step consume_incomplete [OF b(3) _ good_prefix [OF good b(3,4)]] b(1,5) s(2) by simp
    moreover have "\<exists>sa'. feed_many SectionAssembler_FeedAll (fst (packetize_loop pid False ((c + 1) AND 0x0f) ?r))
        (?sa\<lparr> sa_buffer := ?b, sa_expecting := True \<rparr>) = Some (sa', [?b @ ?r]) \<and> sa_pid sa' = pid"
      using feed_continuation [OF pid good b(3,4), of "?sa\<lparr> sa_buffer := ?b, sa_expecting := True \<rparr>" "(c + 1) AND 0x0f"]
        pid' by (simp add: check_counter_def next_counter low_bits_4)
    ultimately show ?thesis using loop b(2) by auto
  qed
qed

lemma packetize_packets:
  "p \<in> set (fst (packetize_loop pid first c b)) \<Longrightarrow> length p = 188 \<and> p ! 0 = SyncByte"
proof (induction pid first c b rule: packetize_loop.induct)
  case (1 pid first c b)
  show ?case
  proof (cases "first \<or> b \<noteq> []")
    case True
    obtain q rest where q: "packetize_one pid first c b = (q, rest)" by fastforce
    obtain ps k where ps: "packetize_loop pid False ((c + 1) AND 0x0f) rest = (ps, k)" by fastforce
    have "length q = 188 \<and> q ! 0 = SyncByte"
      using q packetize_one_plain [of pid c b] by (cases first) (auto simp: plain_packet_def)
    moreover have "p = q \<or> p \<in> set ps"
      using "1.prems" True q ps by (simp add: packetize_loop.simps [of pid first c b])
    ultimately show ?thesis
      using "1.IH" [OF True q [symmetric] refl] ps by auto
  next
    case False
    then show ?thesis using "1.prems" packetize_loop.simps [of pid False c "[]"] by simp
  qed
qed

section \<open>Properties\<close>

text \<open>
  C11. \<open>packetizeSection\<close> and the assembler are inverse: the packets are 188 bytes long and begin with
  the sync byte, and fed to a \<open>SectionAssembler\<close> of that PID in any state, whatever it was
  collecting before, they make it return exactly the packetized section and nothing else.
  The section has to be valid and its table id must not be the stuffing byte \<open>0xff\<close>.
\<close>

theorem packetizeSection_roundtrip:
  assumes "pid \<le> 0x1fff" and "Section_ValidateCRC s = Some True" and "blen s = total_length s" and "s ! 0 \<noteq> 0xff"
    and "sa_pid sa = pid"
  shows "(\<exists>sa'. feed_many SectionAssembler_FeedAll (fst (packetizeSection pid s c)) sa = Some (sa', [s]))
    \<and> (\<forall>p. p \<in> set (fst (packetizeSection pid s c)) \<longrightarrow> length p = 188 \<and> p ! 0 = SyncByte)"
  using packetize_feed [of pid s sa c] packetize_packets [of _ pid True c s] assms
  by (auto simp: good_section_def packetizeSection_def)

theorem packetizeSection_roundtrip_witness:
  "\<exists>sa'. feed_many SectionAssembler_FeedAll
       (fst (packetizeSection 0x12 (section_bytes 0x4e (replicate 400 7)) 15)) (NewSectionAssembler 0x12)
     = Some (sa', [section_bytes 0x4e (replicate 400 7)])"
  using packetizeSection_roundtrip [of "0x12" "section_bytes 0x4e (replicate 400 7)" "NewSectionAssembler 0x12" 15]
    section_bytes_good [of "replicate 400 7" "0x4e"] section_bytes_nth(1) [of "0x4e" "replicate 400 7"]
  by (auto simp: good_section_def NewSectionAssembler_def)

end
