(* ===== verification/TS_Demux.thy ===== *)
theory TS_Demux
  imports TS_SectionSet TS_Packetize
begin

text \<open>
  The demultiplexer of \<open>ts/demux.go\<close>: section assembly per PID, the PAT, CAT and PMT observers
  that keep the program table, and the per-service packet filter with its own one-program
  PAT. Maps are association lists; a \<open>map[uint16]bool\<close> that only ever holds \<open>true\<close> is the list of
  its keys. \<open>range\<close> over a map follows the order of the association list (Go leaves it open; the
  lemma \<open>newByPID_order_free\<close> says when it matters). Programs and outputs that the source
  reaches through pointers are written back to their maps. \<open>panic\<close> in \<open>rebuildPATOutput\<close> is \<open>None\<close>.
  The record \<open>tables\<close> says, from the reported sections alone, what the last PAT, PMTs and CAT
  announce; \<open>follows\<close> relates the demultiplexer's program table and PID sets to it.
\<close>

section \<open>State\<close>

record demuxProgram =
  dp_pmtPID :: u16
  dp_pids :: "u16 list"
  dp_sectionPIDs :: "u16 list"

record demuxServiceOutput =
  so_generation :: u64
  so_patCounter :: u8
  so_patIndex :: int
  so_patPackets :: "packet list"

record Demuxer =
  dm_assemblers :: "(u16, SectionAssembler) gomap"
  dm_catEMM :: "u16 list"
  dm_catSections :: tableSectionSet
  dm_pat :: "PAT option"
  dm_patGeneration :: u64
  dm_patSections :: tableSectionSet
  dm_pmtByPID :: "(u16, u16) gomap"
  dm_sectionPIDs :: "u16 list"
  dm_programs :: "(u16, demuxProgram) gomap"
  dm_services :: "(u16, demuxServiceOutput) gomap"

record ServiceDemux =
  sv_output :: demuxServiceOutput
  sv_serviceID :: u16

definition NewDemuxer :: Demuxer where
  "NewDemuxer = \<lparr> dm_assemblers = [], dm_catEMM = [], dm_catSections = empty_tss, dm_pat = None,
     dm_patGeneration = 0, dm_patSections = empty_tss, dm_pmtByPID = [], dm_sectionPIDs = [],
     dm_programs = [], dm_services = [] \<rparr>"

definition newOutput :: demuxServiceOutput where
  "newOutput = \<lparr> so_generation = 0, so_patCounter = 0, so_patIndex = 0, so_patPackets = [] \<rparr>"

definition Demuxer_Service :: "u16 \<Rightarrow> ServiceDemux" where
  "Demuxer_Service serviceID = \<lparr> sv_output = newOutput, sv_serviceID = serviceID \<rparr>"

section \<open>PAT output\<close>

definition rebuildPATOutput :: "u16 \<Rightarrow> Demuxer \<Rightarrow> demuxServiceOutput \<Rightarrow> demuxServiceOutput go" where
  "rebuildPATOutput serviceID d output =
     (case dm_pat d of
        None \<Rightarrow> Some output
      | Some pat \<Rightarrow>
          (case map_of (pat_Programs pat) serviceID of
             None \<Rightarrow> Some output
           | Some pmtPID \<Rightarrow>
               (case BuildPATSection (pat_TransportStreamID pat) serviceID pmtPID (pat_VersionNumber pat) of
                  Inl e \<Rightarrow> None
                | Inr section \<Rightarrow>
                    Some (output\<lparr> so_patPackets := fst (packetizeSection 0x0000 section 0),
                                  so_patIndex := 0, so_generation := dm_patGeneration d \<rparr>))))"

definition rebuildPAT :: "u16 \<Rightarrow> Demuxer \<Rightarrow> Demuxer go" where
  "rebuildPAT serviceID d =
     (case dm_pat d of
        None \<Rightarrow> Some d
      | Some pat \<Rightarrow>
          if map_of (pat_Programs pat) serviceID = None then Some d
          else do {
            output \<leftarrow> rebuildPATOutput serviceID d
              (case map_of (dm_services d) serviceID of Some o' \<Rightarrow> o' | None \<Rightarrow> newOutput);
            Some (d\<lparr> dm_services := AList.update serviceID output (dm_services d) \<rparr>) })"

definition serviceOutput :: "u16 \<Rightarrow> Demuxer \<Rightarrow> Demuxer go" where
  "serviceOutput serviceID d =
     (case map_of (dm_services d) serviceID of
        Some o' \<Rightarrow> Some d
      | None \<Rightarrow> rebuildPAT serviceID (d\<lparr> dm_services := AList.update serviceID newOutput (dm_services d) \<rparr>))"

section \<open>Observers\<close>

text \<open>\<open>samePAT\<close>; a lookup of a missing program gives the zero PID, as a Go map does.\<close>

definition samePAT :: "PAT option \<Rightarrow> PAT \<Rightarrow> bool" where
  "samePAT a' b = (case a' of
     None \<Rightarrow> False
   | Some a \<Rightarrow> pat_TransportStreamID a = pat_TransportStreamID b \<and> pat_VersionNumber a = pat_VersionNumber b
       \<and> pat_NetworkPID a = pat_NetworkPID b \<and> length (pat_Programs a) = length (pat_Programs b)
       \<and> list_all (\<lambda>(serviceID, pmtPID). (case map_of (pat_Programs b) serviceID of Some q \<Rightarrow> q | None \<Rightarrow> 0) = pmtPID)
           (pat_Programs a))"

text \<open>The loop that merges the sections of a PAT; an error abandons the update.\<close>

fun combinePAT :: "Section list \<Rightarrow> PAT \<Rightarrow> PAT res" where
  "combinePAT [] combined = res_ok combined"
| "combinePAT (current # rest) combined =
     res_bind (ParsePAT current) (\<lambda>pat.
       combinePAT rest \<lparr> pat_TransportStreamID = pat_TransportStreamID pat,
         pat_VersionNumber = pat_VersionNumber pat, pat_NetworkPID = pat_NetworkPID pat,
         pat_Programs = fold (\<lambda>(k, v). AList.update k v) (pat_Programs pat) (pat_Programs combined) \<rparr>)"

text \<open>The loop over the programs of the new PAT: the PID index, the program entries, the PAT outputs.\<close>

fun observe_programs :: "bool \<Rightarrow> (u16 \<times> u16) list \<Rightarrow> (u16, u16) gomap \<Rightarrow> Demuxer \<Rightarrow> (Demuxer \<times> (u16, u16) gomap) go" where
  "observe_programs unchanged [] newByPID d = Some (d, newByPID)"
| "observe_programs unchanged ((serviceID, pmtPID) # ps) newByPID d = do {
     let newByPID = AList.update pmtPID serviceID newByPID;
     let d = (case map_of (dm_programs d) serviceID of
                Some program \<Rightarrow> if dp_pmtPID program \<noteq> pmtPID
                  then d\<lparr> dm_programs := AList.update serviceID \<lparr> dp_pmtPID = pmtPID, dp_pids = [], dp_sectionPIDs = [] \<rparr> (dm_programs d) \<rparr>
                  else d
              | None \<Rightarrow> d\<lparr> dm_programs := AList.update serviceID \<lparr> dp_pmtPID = pmtPID, dp_pids = [], dp_sectionPIDs = [] \<rparr> (dm_programs d) \<rparr>);
     d \<leftarrow> (if unchanged then Some d else rebuildPAT serviceID d);
     observe_programs unchanged ps newByPID d }"

text \<open>Deleting the entries whose key fails a test, as the loops \<open>for k := range m { if ... delete(m, k) }\<close> do.\<close>

definition delete_unless :: "('k \<Rightarrow> bool) \<Rightarrow> ('k, 'v) gomap \<Rightarrow> ('k, 'v) gomap" where
  "delete_unless keep m = filter (\<lambda>(k, v). keep k) m"

text \<open>\<open>observePAT\<close> from the comparison with the current PAT on: installing a merged PAT.\<close>

definition observe_combined :: "PAT \<Rightarrow> Demuxer \<Rightarrow> Demuxer go" where
  "observe_combined combined d = do {
     let unchanged = samePAT (dm_pat d) combined;
     let d = d\<lparr> dm_pat := Some combined \<rparr>;
     let d = (if unchanged then d else d\<lparr> dm_patGeneration := dm_patGeneration d + 1 \<rparr>);
     (d, newByPID) \<leftarrow> observe_programs unchanged (pat_Programs combined) [] d;
     let gone = (\<lambda>sid. map_of (dm_programs d) sid \<noteq> None \<and> map_of (pat_Programs combined) sid = None);
     let d = d\<lparr> dm_services := delete_unless (\<lambda>sid. \<not> gone sid) (dm_services d),
                dm_programs := delete_unless (\<lambda>sid. \<not> gone sid) (dm_programs d) \<rparr>;
     let stale = (\<lambda>pid. map_of (dm_pmtByPID d) pid \<noteq> None \<and> map_of newByPID pid = None);
     Some (d\<lparr> dm_assemblers := delete_unless (\<lambda>pid. \<not> stale pid) (dm_assemblers d),
              dm_pmtByPID := newByPID \<rparr>) }"

definition Demuxer_observePAT :: "Section \<Rightarrow> Demuxer \<Rightarrow> Demuxer go" where
  "Demuxer_observePAT section d = do {
     (ps, reset, ready) \<leftarrow> tableSectionSet_add section (dm_patSections d);
     let d = d\<lparr> dm_patSections := ps \<rparr>;
     let d = (if reset then d\<lparr> dm_pat := None \<rparr> else d);
     if \<not> ready then Some d
     else do {
       r \<leftarrow> combinePAT (tableSectionSet_ordered (dm_patSections d))
             \<lparr> pat_TransportStreamID = 0, pat_VersionNumber = 0, pat_NetworkPID = 0, pat_Programs = [] \<rparr>;
       (case r of
          Inl e \<Rightarrow> Some d
        | Inr combined \<Rightarrow> observe_combined combined d) } }"

definition caPID :: "Descriptor \<Rightarrow> u16 option go" where
  "caPID desc = do {
     data \<leftarrow> Descriptor_Data desc;
     if blen data < 4 then Some None
     else do { a \<leftarrow> idx data 2; b \<leftarrow> idx data 3; Some (Some (pid13 a b)) } }"

text \<open>The conditional-access PIDs of a descriptor list, inserted into a set of PIDs.\<close>

fun insert_ca_pids :: "Descriptor list \<Rightarrow> u16 list \<Rightarrow> u16 list go" where
  "insert_ca_pids [] pids = Some pids"
| "insert_ca_pids (desc # ds) pids = do {
     tag \<leftarrow> Descriptor_Tag desc;
     if tag = 0x09
     then do {
       r \<leftarrow> caPID desc;
       insert_ca_pids ds (case r of Some pid \<Rightarrow> List.insert pid pids | None \<Rightarrow> pids) }
     else insert_ca_pids ds pids }"

fun cat_emm_pids :: "Section list \<Rightarrow> u16 list \<Rightarrow> u16 list go" where
  "cat_emm_pids [] emm = Some emm"
| "cat_emm_pids (current # rest) emm = do {
     total \<leftarrow> Section_TotalLength current;
     raw \<leftarrow> slice current 8 (total - 4);
     emm \<leftarrow> insert_ca_pids (ParseDescriptors raw) emm;
     cat_emm_pids rest emm }"

definition Demuxer_observeCAT :: "Section \<Rightarrow> Demuxer \<Rightarrow> Demuxer go" where
  "Demuxer_observeCAT section d =
     (if blen section < 12 then Some d
      else do {
        total \<leftarrow> Section_TotalLength section;
        if total > blen section then Some d
        else do {
          valid \<leftarrow> Section_ValidateCRC section;
          if \<not> valid then Some d
          else do {
            (cs, reset, ready) \<leftarrow> tableSectionSet_add section (dm_catSections d);
            let d = d\<lparr> dm_catSections := cs \<rparr>;
            if \<not> ready then Some d
            else do {
              emm \<leftarrow> cat_emm_pids (tableSectionSet_ordered (dm_catSections d)) [];
              Some (d\<lparr> dm_catEMM := emm \<rparr>) } } } })"

definition rebuildSectionPIDs :: "Demuxer \<Rightarrow> Demuxer" where
  "rebuildSectionPIDs d =
     (let sectionPIDs = fold (\<lambda>(sid, program) acc. fold List.insert (dp_sectionPIDs program) acc) (dm_programs d) [];
          stale = (\<lambda>pid. pid \<in> set (dm_sectionPIDs d) \<and> pid \<notin> set sectionPIDs)
      in d\<lparr> dm_assemblers := delete_unless (\<lambda>pid. \<not> stale pid) (dm_assemblers d), dm_sectionPIDs := sectionPIDs \<rparr>)"

fun pmt_pids :: "PMTElement list \<Rightarrow> u16 list \<Rightarrow> u16 list \<Rightarrow> (u16 list \<times> u16 list) go" where
  "pmt_pids [] pids sectionPIDs = Some (pids, sectionPIDs)"
| "pmt_pids (elem # es) pids sectionPIDs = do {
     let pids = List.insert (pe_ElementaryPID elem) pids;
     let sectionPIDs = (if pe_StreamType elem \<in> {0x0b, 0x0d, 0x0c} then List.insert (pe_ElementaryPID elem) sectionPIDs
                        else sectionPIDs);
     pids \<leftarrow> insert_ca_pids (pe_Descriptors elem) pids;
     pmt_pids es pids sectionPIDs }"

definition Demuxer_observePMT :: "u16 \<Rightarrow> Section \<Rightarrow> Demuxer \<Rightarrow> Demuxer go" where
  "Demuxer_observePMT serviceID section d = do {
     r \<leftarrow> ParsePMT section;
     (case r of
        Inl e \<Rightarrow> Some d
      | Inr pmt \<Rightarrow>
          if pmt_ProgramNumber pmt \<noteq> serviceID then Some d
          else (case map_of (dm_programs d) serviceID of
             None \<Rightarrow> Some d
           | Some program \<Rightarrow> do {
               let pids = (if pmt_PCRPID pmt \<noteq> 0x1fff then [pmt_PCRPID pmt] else []);
               pids \<leftarrow> insert_ca_pids (pmt_Descriptors pmt) pids;
               (pids, sectionPIDs) \<leftarrow> pmt_pids (pmt_Elements pmt) pids [];
               let program = program\<lparr> dp_pids := pids, dp_sectionPIDs := sectionPIDs \<rparr>;
               Some (rebuildSectionPIDs (d\<lparr> dm_programs := AList.update serviceID program (dm_programs d) \<rparr>)) })) }"

section \<open>Feeding packets\<close>

definition shouldAssemble :: "u16 \<Rightarrow> Demuxer \<Rightarrow> bool" where
  "shouldAssemble pid d \<longleftrightarrow>
     pid \<in> {0x0000, 0x0001, 0x0010, 0x0011, 0x0012, 0x0014, 0x0023, 0x0024, 0x0029}
     \<or> map_of (dm_pmtByPID d) pid \<noteq> None \<or> pid \<in> set (dm_sectionPIDs d)"

text \<open>The test that opens \<open>FeedWithPID\<close> and \<open>servicePacket\<close>: the packets they ignore.\<close>

definition ignored :: "packet \<Rightarrow> bool go" where
  "ignored p =
     (if blen p \<noteq> PacketSize then Some True
      else do {
        tei \<leftarrow> Packet_TransportErrorIndicator p;
        null \<leftarrow> Packet_IsNull p;
        valid \<leftarrow> Packet_ValidPayloadOffset p;
        Some (tei \<or> null \<or> \<not> valid) })"

fun dispatch_sections :: "u16 \<Rightarrow> Section list \<Rightarrow> Demuxer \<Rightarrow> Demuxer go" where
  "dispatch_sections pid [] d = Some d"
| "dispatch_sections pid (section # rest) d = do {
     tid \<leftarrow> Section_TableID section;
     d \<leftarrow> (if tid = 0x00 then (if pid = 0x0000 then Demuxer_observePAT section d else Some d)
           else if tid = 0x01 then (if pid = 0x0001 then Demuxer_observeCAT section d else Some d)
           else if tid = 0x02 then (case map_of (dm_pmtByPID d) pid of
               Some serviceID \<Rightarrow> Demuxer_observePMT serviceID section d
             | None \<Rightarrow> Some d)
           else Some d);
     dispatch_sections pid rest d }"

definition Demuxer_FeedWithPID :: "packet \<Rightarrow> Demuxer \<Rightarrow> (Demuxer \<times> (u16 \<times> Section) list) go" where
  "Demuxer_FeedWithPID packet d = do {
     skip \<leftarrow> ignored packet;
     if skip then Some (d, [])
     else do {
       pid \<leftarrow> Packet_PID packet;
       if \<not> shouldAssemble pid d then Some (d, [])
       else do {
         let assembler = (case map_of (dm_assemblers d) pid of Some a \<Rightarrow> a | None \<Rightarrow> NewSectionAssembler pid);
         (assembler, sections) \<leftarrow> SectionAssembler_FeedAll packet assembler;
         let d = d\<lparr> dm_assemblers := AList.update pid assembler (dm_assemblers d) \<rparr>;
         d \<leftarrow> dispatch_sections pid sections d;
         Some (d, map (\<lambda>section. (pid, section)) sections) } } }"

definition Demuxer_Feed :: "packet \<Rightarrow> Demuxer \<Rightarrow> (Demuxer \<times> Section list) go" where
  "Demuxer_Feed packet d = do {
     (d, pidSections) \<leftarrow> Demuxer_FeedWithPID packet d;
     Some (d, map snd pidSections) }"

section \<open>Service output\<close>

definition commonServicePID :: "u16 \<Rightarrow> bool" where
  "commonServicePID pid \<longleftrightarrow> pid \<in> {0x0001, 0x0010, 0x0011, 0x0012, 0x0013, 0x0014, 0x001e, 0x001f, 0x0023, 0x0024, 0x0029}"

definition servicePacket :: "u16 \<Rightarrow> Demuxer \<Rightarrow> demuxServiceOutput \<Rightarrow> packet \<Rightarrow> (demuxServiceOutput \<times> packet option) go" where
  "servicePacket serviceID d output packet = do {
     skip \<leftarrow> ignored packet;
     if skip then Some (output, None)
     else (case map_of (dm_programs d) serviceID of
         None \<Rightarrow> Some (output, None)
       | Some program \<Rightarrow> do {
           output \<leftarrow> (if so_generation output \<noteq> dm_patGeneration d then rebuildPATOutput serviceID d output else Some output);
           pid \<leftarrow> Packet_PID packet;
           if pid = 0x0000
           then if so_patPackets output = [] then Some (output, None)
                else do {
                  src \<leftarrow> idx (so_patPackets output) (so_patIndex output);
                  let output = output\<lparr> so_patIndex := (so_patIndex output + 1) mod blen (so_patPackets output) \<rparr>;
                  b3 \<leftarrow> idx src 3;
                  let result = src[3 := (b3 AND 0xf0) OR (so_patCounter output AND 0x0f)];
                  Some (output\<lparr> so_patCounter := (so_patCounter output + 1) AND 0x0f \<rparr>, Some result) }
           else if commonServicePID pid \<or> pid = dp_pmtPID program \<or> pid \<in> set (dp_pids program)
                   \<or> pid \<in> set (dm_catEMM d)
           then Some (output, Some packet)
           else Some (output, None) }) }"

definition ServiceDemux_Packet :: "Demuxer \<Rightarrow> packet \<Rightarrow> ServiceDemux \<Rightarrow> (ServiceDemux \<times> packet option) go" where
  "ServiceDemux_Packet d packet sv = do {
     (output, r) \<leftarrow> servicePacket (sv_serviceID sv) d (sv_output sv) packet;
     Some (sv\<lparr> sv_output := output \<rparr>, r) }"

definition Demuxer_ServicePacket :: "u16 \<Rightarrow> packet \<Rightarrow> Demuxer \<Rightarrow> (Demuxer \<times> packet option) go" where
  "Demuxer_ServicePacket serviceID packet d = do {
     d \<leftarrow> serviceOutput serviceID d;
     (case map_of (dm_services d) serviceID of
        None \<Rightarrow> None
      | Some output \<Rightarrow> do {
          (output, r) \<leftarrow> servicePacket serviceID d output packet;
          Some (d\<lparr> dm_services := AList.update serviceID output (dm_services d) \<rparr>, r) }) }"

definition Demuxer_HasService :: "u16 \<Rightarrow> Demuxer \<Rightarrow> bool" where
  "Demuxer_HasService serviceID d \<longleftrightarrow> map_of (dm_programs d) serviceID \<noteq> None"

definition Demuxer_PATReady :: "Demuxer \<Rightarrow> bool" where
  "Demuxer_PATReady d \<longleftrightarrow> dm_pat d \<noteq> None"

section \<open>Invariant\<close>

text \<open>
  PMT PIDs have 13 bits, so that building a PAT cannot fail; the CAT sections collected are
  good and long enough; a service output points at one of its packets.
\<close>

definition pat_ok :: "PAT \<Rightarrow> bool" where
  "pat_ok pat \<longleftrightarrow> distinct (map fst (pat_Programs pat))
     \<and> (\<forall>e \<in> set (pat_Programs pat). fst e \<noteq> 0 \<and> snd e \<le> 0x1fff)"

lemma pat_ok_lookup: "pat_ok pat \<Longrightarrow> map_of (pat_Programs pat) sid = Some pid \<Longrightarrow> sid \<noteq> 0 \<and> pid \<le> 0x1fff"
proof -
  assume ok: "pat_ok pat" and "map_of (pat_Programs pat) sid = Some pid"
  then have "(sid, pid) \<in> set (pat_Programs pat)" by (intro map_of_SomeD)
  then have "fst (sid, pid) \<noteq> 0 \<and> snd (sid, pid) \<le> 0x1fff" using ok unfolding pat_ok_def by blast
  then show ?thesis by simp
qed

definition output_ok :: "demuxServiceOutput \<Rightarrow> bool" where
  "output_ok output \<longleftrightarrow> (\<forall>p \<in> set (so_patPackets output). length p = 188)
     \<and> 0 \<le> so_patIndex output \<and> (so_patPackets output \<noteq> [] \<longrightarrow> so_patIndex output < blen (so_patPackets output))"

definition cat_ok :: "tableSectionSet \<Rightarrow> bool" where
  "cat_ok s \<longleftrightarrow> tss_ok s \<and> (\<forall>n x. map_of (tss_sections s) n = Some x \<longrightarrow> 12 \<le> length x \<and> good_section x)"

definition dm_ok :: "Demuxer \<Rightarrow> bool" where
  "dm_ok d \<longleftrightarrow> (case dm_pat d of None \<Rightarrow> True | Some pat \<Rightarrow> pat_ok pat)
     \<and> tss_ok (dm_patSections d) \<and> cat_ok (dm_catSections d)
     \<and> (\<forall>sid output. map_of (dm_services d) sid = Some output \<longrightarrow> output_ok output)
     \<and> (\<forall>pid a. map_of (dm_assemblers d) pid = Some a \<longrightarrow> sa_pid a = pid)"

lemma output_ok_new [simp]: "output_ok newOutput"
  by (simp add: output_ok_def newOutput_def)

lemma dm_ok_New [simp]: "dm_ok NewDemuxer"
  by (simp add: dm_ok_def NewDemuxer_def cat_ok_def) (simp add: empty_tss_def)

lemma map_of_delete_unless: "map_of (delete_unless keep m) k = (if keep k then map_of m k else None)"
  by (induction m) (auto simp: delete_unless_def)

lemma dm_ok_weaken:
  "dm_ok d \<Longrightarrow> dm_ok (d\<lparr> dm_patGeneration := g \<rparr>)"
  "dm_ok d \<Longrightarrow> dm_ok (d\<lparr> dm_pat := None \<rparr>)"
  "dm_ok d \<Longrightarrow> pat_ok pat \<Longrightarrow> dm_ok (d\<lparr> dm_pat := Some pat \<rparr>)"
  "dm_ok d \<Longrightarrow> dm_ok (d\<lparr> dm_programs := ps \<rparr>)"
  "dm_ok d \<Longrightarrow> dm_ok (d\<lparr> dm_catEMM := emm \<rparr>)"
  "dm_ok d \<Longrightarrow> dm_ok (d\<lparr> dm_pmtByPID := q \<rparr>)"
  "dm_ok d \<Longrightarrow> dm_ok (d\<lparr> dm_sectionPIDs := sp \<rparr>)"
  "dm_ok d \<Longrightarrow> dm_ok (d\<lparr> dm_services := delete_unless keep1 (dm_services d) \<rparr>)"
  "dm_ok d \<Longrightarrow> dm_ok (d\<lparr> dm_assemblers := delete_unless keep2 (dm_assemblers d) \<rparr>)"
  "dm_ok d \<Longrightarrow> tss_ok t \<Longrightarrow> dm_ok (d\<lparr> dm_patSections := t \<rparr>)"
  "dm_ok d \<Longrightarrow> cat_ok t \<Longrightarrow> dm_ok (d\<lparr> dm_catSections := t \<rparr>)"
  "dm_ok d \<Longrightarrow> output_ok out \<Longrightarrow> dm_ok (d\<lparr> dm_services := AList.update sid out (dm_services d) \<rparr>)"
  "dm_ok d \<Longrightarrow> sa_pid a = pid \<Longrightarrow> dm_ok (d\<lparr> dm_assemblers := AList.update pid a (dm_assemblers d) \<rparr>)"
  by (auto simp: dm_ok_def map_of_delete_unless update_conv' split: if_splits)

section \<open>The observers keep the invariant and never panic\<close>

lemma pat_loop_pat_ok:
  "\<lbrakk>pat_ok pat; pat_loop s off e pat = Some pat'\<rbrakk> \<Longrightarrow> pat_ok pat'"
proof (induction s off e pat rule: pat_loop.induct)
  case (1 s off e pat)
  show ?case
  proof (cases "off + 4 \<le> e")
    case False
    then show ?thesis using "1.prems" by (simp add: pat_loop.simps [of s off])
  next
    case True
    then obtain program hi lo where r: "read_u16 s off = Some program" "idx s (off + 2) = Some hi" "idx s (off + 3) = Some lo"
      using "1.prems"(2) by (auto simp: pat_loop.simps [of s off] split: bind_splits)
    let ?pat = "if program = 0 then pat\<lparr> pat_NetworkPID := pid13 hi lo \<rparr>
           else pat\<lparr> pat_Programs := AList.update program (pid13 hi lo) (pat_Programs pat) \<rparr>"
    have "pat_ok ?pat"
      using "1.prems"(1) by (auto simp: pat_ok_def distinct_update pid13_le dest!: set_AList_update)
    moreover have "pat_loop s (off + 4) e ?pat = Some pat'"
      using "1.prems"(2) True r by (simp add: pat_loop.simps [of s off] Let_def)
    ultimately show ?thesis using "1.IH" [OF True r(1-3) refl] by blast
  qed
qed

lemma ParsePAT_pat_ok: "ParsePAT s = Some (Inr pat) \<Longrightarrow> pat_ok pat"
  by (auto simp: ParsePAT_guarded split: if_splits elim!: pat_loop_pat_ok [rotated]) (simp add: pat_ok_def)

lemma combinePAT_ok: "pat_ok c \<Longrightarrow> go_ok (combinePAT xs c) (\<lambda>r. \<forall>p. r = Inr p \<longrightarrow> pat_ok p)"
proof (induction xs arbitrary: c)
  case (Cons x xs)
  obtain r where r: "ParsePAT x = Some r" using ParsePAT_total [of x] by (auto simp: go_ok_def)
  show ?case
  proof (cases r)
    case (Inr pat)
    have p: "pat_ok pat" using ParsePAT_pat_ok r Inr by blast
    let ?c = "\<lparr> pat_TransportStreamID = pat_TransportStreamID pat,
         pat_VersionNumber = pat_VersionNumber pat, pat_NetworkPID = pat_NetworkPID pat,
         pat_Programs = fold (\<lambda>(k, v). AList.update k v) (pat_Programs pat) (pat_Programs c) \<rparr>"
    have "pat_ok ?c"
      using p Cons.prems fold_update_distinct by (auto simp: pat_ok_def dest!: fold_update_set)
    then show ?thesis using Cons.IH [of ?c] r Inr by simp
  qed (simp add: r)
qed simp

lemma packetize_nonempty: "fst (packetizeSection pid s c) \<noteq> []"
  unfolding packetizeSection_def by (subst packetize_loop.simps) (simp split: prod.splits)

lemma rebuildPATOutput_ok:
  assumes "\<forall>pat. dm_pat d = Some pat \<longrightarrow> pat_ok pat" and "output_ok output"
  shows "go_ok (rebuildPATOutput sid d output) output_ok"
proof -
  have fresh: "output_ok (output\<lparr> so_patPackets := fst (packetizeSection 0 x 0), so_patIndex := 0, so_generation := g \<rparr>)"
    for x g
    using packetize_packets [of _ 0 True 0 x] packetize_nonempty [of 0 x 0]
    by (auto simp: output_ok_def packetizeSection_def)
  show ?thesis
  proof (cases "\<exists>pat pid. dm_pat d = Some pat \<and> map_of (pat_Programs pat) sid = Some pid")
    case True
    then obtain pat pid where pat: "dm_pat d = Some pat" "map_of (pat_Programs pat) sid = Some pid" by blast
    then have "pid \<le> 0x1fff" using assms(1) pat_ok_lookup by blast
    then show ?thesis using pat fresh by (simp add: rebuildPATOutput_def BuildPATSection_eq not_less)
  next
    case False
    then show ?thesis using assms(2) by (auto simp: rebuildPATOutput_def split: option.splits)
  qed
qed

lemma dm_ok_pat: "dm_ok d \<Longrightarrow> \<forall>pat. dm_pat d = Some pat \<longrightarrow> pat_ok pat"
  by (auto simp: dm_ok_def)

lemma dm_ok_output: "dm_ok d \<Longrightarrow> output_ok (case map_of (dm_services d) sid of Some o' \<Rightarrow> o' | None \<Rightarrow> newOutput)"
  by (auto simp: dm_ok_def split: option.splits)

lemma rebuildPAT_ok: "dm_ok d \<Longrightarrow> go_ok (rebuildPAT sid d) dm_ok"
proof -
  assume d: "dm_ok d"
  obtain out where "rebuildPATOutput sid d (case map_of (dm_services d) sid of Some o' \<Rightarrow> o' | None \<Rightarrow> newOutput) = Some out"
      "output_ok out"
    using rebuildPATOutput_ok [OF dm_ok_pat [OF d] dm_ok_output [OF d]] unfolding go_ok_def by blast
  then show ?thesis using d by (auto simp: rebuildPAT_def dm_ok_weaken split: option.splits)
qed

lemma observe_programs_ok: "dm_ok d \<Longrightarrow> go_ok (observe_programs unchanged ps m d) (\<lambda>(d', m'). dm_ok d')"
proof (induction ps arbitrary: m d)
  case (Cons p ps)
  obtain sid pid where p: "p = (sid, pid)" by fastforce
  define d1 where "d1 = (case map_of (dm_programs d) sid of
                Some program \<Rightarrow> if dp_pmtPID program \<noteq> pid
                  then d\<lparr> dm_programs := AList.update sid \<lparr> dp_pmtPID = pid, dp_pids = [], dp_sectionPIDs = [] \<rparr> (dm_programs d) \<rparr>
                  else d
              | None \<Rightarrow> d\<lparr> dm_programs := AList.update sid \<lparr> dp_pmtPID = pid, dp_pids = [], dp_sectionPIDs = [] \<rparr> (dm_programs d) \<rparr>)"
  have "dm_ok d1" using Cons.prems by (auto simp: d1_def dm_ok_weaken split: option.split)
  then obtain d2 where "(if unchanged then Some d1 else rebuildPAT sid d1) = Some d2" "dm_ok d2"
    using rebuildPAT_ok [of d1 sid] by (cases unchanged) (auto simp: go_ok_def)
  then show ?case using Cons.IH [of d2] by (simp add: p flip: d1_def)
qed simp

lemma observe_combined_ok:
  assumes "dm_ok d" and "pat_ok combined"
  shows "go_ok (observe_combined combined d) dm_ok"
proof -
  define d2 where "d2 = (if samePAT (dm_pat d) combined then d\<lparr> dm_pat := Some combined \<rparr>
      else d\<lparr> dm_pat := Some combined, dm_patGeneration := dm_patGeneration d + 1 \<rparr>)"
  have "dm_ok d2" using assms by (simp add: d2_def dm_ok_weaken)
  then obtain d3 m where o3: "observe_programs (samePAT (dm_pat d) combined) (pat_Programs combined) [] d2 = Some (d3, m)"
      "dm_ok d3"
    using observe_programs_ok [of d2 "samePAT (dm_pat d) combined" "pat_Programs combined" "[]"]
    by (auto simp: go_ok_def)
  have "dm_ok (d3\<lparr> dm_services := delete_unless k1 (dm_services d3), dm_programs := p1,
      dm_assemblers := delete_unless k2 (dm_assemblers d3), dm_pmtByPID := m \<rparr>)" for k1 k2 p1
    using dm_ok_weaken(6) [OF dm_ok_weaken(9) [OF dm_ok_weaken(4) [OF dm_ok_weaken(8) [OF o3(2)]]]] by simp
  then show ?thesis
    using o3(1) unfolding observe_combined_def d2_def
    by (cases "samePAT (dm_pat d) combined") (simp_all add: Let_def)
qed

lemma observePAT_ok: "dm_ok d \<Longrightarrow> go_ok (Demuxer_observePAT x d) dm_ok"
proof -
  assume d: "dm_ok d"
  then have "tss_ok (dm_patSections d)" by (simp add: dm_ok_def)
  then obtain ps reset ready where a: "tableSectionSet_add x (dm_patSections d) = Some (ps, reset, ready)" "tss_ok ps"
    using tableSectionSet_add_ok [of "dm_patSections d" x] by (auto simp: go_ok_def)
  define d1 where "d1 = (if reset then d\<lparr> dm_patSections := ps, dm_pat := None \<rparr> else d\<lparr> dm_patSections := ps \<rparr>)"
  have d1: "dm_ok d1" using d a(2) by (simp add: d1_def dm_ok_weaken)
  let ?c = "\<lparr> pat_TransportStreamID = 0, pat_VersionNumber = 0, pat_NetworkPID = 0, pat_Programs = [] \<rparr>"
  have "pat_ok ?c" by (simp add: pat_ok_def)
  then obtain r where r: "combinePAT (tableSectionSet_ordered ps) ?c = Some r" "\<forall>p. r = Inr p \<longrightarrow> pat_ok p"
    using combinePAT_ok [of ?c] by (auto simp: go_ok_def)
  have "Demuxer_observePAT x d = (if \<not> ready then Some d1
      else case r of Inl e \<Rightarrow> Some d1 | Inr combined \<Rightarrow> observe_combined combined d1)"
    using a(1) r(1) by (cases reset; cases r) (simp_all add: Demuxer_observePAT_def d1_def Let_def)
  then show ?thesis
    using d1 r(2) observe_combined_ok [OF d1] by (auto split: sum.split)
qed

lemma descr_tag: "descr_ok d \<Longrightarrow> Descriptor_Tag d = Some (d ! 0)"
  by simp

lemma caPID_ok: "descr_ok d \<Longrightarrow> go_ok (caPID d) (\<lambda>_. True)"
  by (auto simp: caPID_def go_wp)

lemma insert_ca_pids_ok: "\<forall>d \<in> set ds. descr_ok d \<Longrightarrow> go_ok (insert_ca_pids ds pids) (\<lambda>_. True)"
proof (induction ds arbitrary: pids)
  case (Cons d ds)
  then obtain r where "caPID d = Some r" using caPID_ok [of d] by (auto simp: go_ok_def)
  then show ?case using Cons by (auto simp: descr_tag)
qed simp

lemma cat_emm_pids_ok:
  "\<forall>x \<in> set xs. 12 \<le> length x \<and> good_section x \<Longrightarrow> go_ok (cat_emm_pids xs emm) (\<lambda>_. True)"
proof (induction xs arbitrary: emm)
  case (Cons x xs)
  have x: "12 \<le> length x" "blen x = total_length x" using Cons.prems by (simp_all add: good_section_def)
  then have "12 \<le> total_length x" by linarith
  moreover obtain emm' where "insert_ca_pids (ParseDescriptors (take (nat (total_length x - 12)) (drop 8 x))) emm = Some emm'"
    using insert_ca_pids_ok ParseDescriptors_ok unfolding go_ok_def by blast
  ultimately show ?case using x Cons by simp
qed simp

lemma observeCAT_ok:
  assumes "dm_ok d" and "good_section x"
  shows "go_ok (Demuxer_observeCAT x d) dm_ok"
proof (cases "length x < 12")
  case False
  have cat: "cat_ok (dm_catSections d)" using assms(1) by (simp add: dm_ok_def)
  then obtain cs reset ready where a: "tableSectionSet_add x (dm_catSections d) = Some (cs, reset, ready)" "tss_ok cs"
      "\<forall>n y. map_of (tss_sections cs) n = Some y \<longrightarrow> y = x \<or> map_of (tss_sections (dm_catSections d)) n = Some y"
      "ready \<longrightarrow> blen (tss_sections cs) = uint (tss_last cs) + 1"
    using tableSectionSet_add_ok [of "dm_catSections d" x] by (auto simp: go_ok_def cat_ok_def)
  have cs: "cat_ok cs"
    using a(2,3) cat assms(2) False unfolding cat_ok_def by (metis not_less)
  have "go_ok (cat_emm_pids (tableSectionSet_ordered cs) []) (\<lambda>_. True)" if rd: ready
  proof (rule cat_emm_pids_ok, rule ballI)
    fix y assume "y \<in> set (tableSectionSet_ordered cs)"
    then obtain i where "i < length (tableSectionSet_ordered cs)" "y = tableSectionSet_ordered cs ! i"
      by (metis in_set_conv_nth)
    then obtain n where "map_of (tss_sections cs) n = Some y"
      using ordered_complete(2) [OF a(2), of i] a(4) rd
      by (auto simp: tableSectionSet_ordered_def simp del: nth_map)
    then show "12 \<le> length y \<and> good_section y" using cs by (auto simp: cat_ok_def)
  qed
  then obtain emm where "ready \<longrightarrow> cat_emm_pids (tableSectionSet_ordered cs) [] = Some emm"
    unfolding go_ok_def by blast
  then show ?thesis
    using a(1) cs assms False
    by (cases ready) (simp_all add: Demuxer_observeCAT_def dm_ok_weaken good_section_def Let_def)
qed (use assms in \<open>simp add: Demuxer_observeCAT_def\<close>)

lemma pmt_descriptors_ok:
  "ParsePMT x = Some (Inr pmt) \<Longrightarrow> (\<forall>d \<in> set (pmt_Descriptors pmt). descr_ok d)
     \<and> (\<forall>e \<in> set (pmt_Elements pmt). \<forall>d \<in> set (pe_Descriptors e). descr_ok d)"
proof -
  have loop: "\<lbrakk>pmt_loop s off e acc = Some (Inr es); \<forall>el \<in> set acc. \<forall>d \<in> set (pe_Descriptors el). descr_ok d\<rbrakk>
      \<Longrightarrow> \<forall>el \<in> set es. \<forall>d \<in> set (pe_Descriptors el). descr_ok d" for s off e acc es
  proof (induction s off e acc rule: pmt_loop.induct)
    case (1 s off e acc)
    show ?case
    proof (cases "off + 5 \<le> e")
      case False
      then show ?thesis using "1.prems" by (simp add: pmt_loop.simps [of s off e acc])
    next
      case True
      then obtain n where n: "read_len12 s (off + 3) = Some n" "\<not> off + 5 + n > e"
        using "1.prems"(1) by (auto simp: pmt_loop.simps [of s off e acc] Let_def split: bind_splits if_splits)
      then obtain info st hi lo where r: "slice s (off + 5) (off + 5 + n) = Some info" "idx s off = Some st"
          "idx s (off + 1) = Some hi" "idx s (off + 2) = Some lo"
        using "1.prems"(1) True by (auto simp: pmt_loop.simps [of s off e acc] Let_def split: bind_splits if_splits)
      let ?acc = "acc @ [\<lparr> pe_StreamType = st, pe_ElementaryPID = pid13 hi lo, pe_ESInfo = info,
                        pe_Descriptors = ParseDescriptors info \<rparr>]"
      have "pmt_loop s (off + 5 + n) e ?acc = Some (Inr es)"
        using "1.prems"(1) True n r by (simp add: pmt_loop.simps [of s off e acc] Let_def)
      moreover have "\<forall>el \<in> set ?acc. \<forall>d \<in> set (pe_Descriptors el). descr_ok d"
        using "1.prems"(2) ParseDescriptors_ok by auto
      ultimately show ?thesis using "1.IH" [OF True n(1) refl refl n(2) r] by blast
    qed
  qed
  have goal: "go_ok (ParsePMT x) (\<lambda>r. \<forall>pmt. r = Inr pmt \<longrightarrow> (\<forall>d \<in> set (pmt_Descriptors pmt). descr_ok d)
     \<and> (\<forall>e \<in> set (pmt_Elements pmt). \<forall>d \<in> set (pe_Descriptors e). descr_ok d))"
  proof (cases "guard_holds 16 (\<lambda>t. t = 0x02) None x")
    case True
    note g = guard_holdsD [OF True]
    have l: "go_ok (pmt_loop x off e []) (\<lambda>r. \<forall>es. r = Inr es \<longrightarrow> (\<forall>el \<in> set es. \<forall>d \<in> set (pe_Descriptors el). descr_ok d))"
      if range: "0 \<le> off" "e \<le> blen x" for off e
    proof -
      obtain r where "pmt_loop x off e [] = Some r" using pmt_loop_ok [OF range, of "[]"] by (auto simp: go_ok_def)
      then show ?thesis using loop [of x off e "[]"] by (auto simp: go_ok_def)
    qed
    show ?thesis
      using True g by (auto simp: ParsePMT_def go_wp Let_def l ParseDescriptors_ok)
  qed (simp add: ParsePMT_def)
  assume "ParsePMT x = Some (Inr pmt)"
  then show ?thesis using goal by (auto simp: go_ok_def)
qed

lemma pmt_pids_ok: "\<forall>e \<in> set es. \<forall>d \<in> set (pe_Descriptors e). descr_ok d \<Longrightarrow> go_ok (pmt_pids es pids sp) (\<lambda>_. True)"
proof (induction es arbitrary: pids sp)
  case (Cons e es)
  obtain pids' where "insert_ca_pids (pe_Descriptors e) (List.insert (pe_ElementaryPID e) pids) = Some pids'"
    using insert_ca_pids_ok [of "pe_Descriptors e" "List.insert (pe_ElementaryPID e) pids"] Cons.prems
    by (auto simp: go_ok_def)
  then show ?case using Cons by (simp add: Let_def)
qed simp

lemma observePMT_ok: "dm_ok d \<Longrightarrow> go_ok (Demuxer_observePMT sid x d) dm_ok"
proof -
  assume d: "dm_ok d"
  obtain r where r: "ParsePMT x = Some r" using ParsePMT_total [of x] by (auto simp: go_ok_def)
  show ?thesis
  proof (cases r)
    case (Inl e)
    then show ?thesis using r d by (simp add: Demuxer_observePMT_def)
  next
    case (Inr pmt)
    note ds = pmt_descriptors_ok [OF r [unfolded Inr]]
    obtain p1 where p1: "insert_ca_pids (pmt_Descriptors pmt) (if pmt_PCRPID pmt \<noteq> 0x1fff then [pmt_PCRPID pmt] else []) = Some p1"
      using insert_ca_pids_ok ds unfolding go_ok_def by blast
    obtain p2 sp where p2: "pmt_pids (pmt_Elements pmt) p1 [] = Some (p2, sp)"
      using pmt_pids_ok ds unfolding go_ok_def by fastforce
    have "dm_ok (rebuildSectionPIDs (d\<lparr> dm_programs := ps \<rparr>))" for ps
      using d unfolding rebuildSectionPIDs_def Let_def by (intro dm_ok_weaken)
    then show ?thesis
      using r Inr p1 p2 d
      by (cases "pmt_PCRPID pmt = 0x1fff") (simp_all add: Demuxer_observePMT_def Let_def split: option.split)
  qed
qed

lemma dispatch_sections_ok:
  "\<lbrakk>dm_ok d; \<forall>x \<in> set xs. good_section x\<rbrakk> \<Longrightarrow> go_ok (dispatch_sections pid xs d) dm_ok"
proof (induction xs arbitrary: d)
  case (Cons x xs)
  let ?m = "if x ! 0 = 0x00 then (if pid = 0x0000 then Demuxer_observePAT x d else Some d)
           else if x ! 0 = 0x01 then (if pid = 0x0001 then Demuxer_observeCAT x d else Some d)
           else if x ! 0 = 0x02 then (case map_of (dm_pmtByPID d) pid of
               Some serviceID \<Rightarrow> Demuxer_observePMT serviceID x d
             | None \<Rightarrow> Some d)
           else Some d"
  have x: "good_section x" using Cons.prems(2) by simp
  then have "x \<noteq> []" using good_section_length by fastforce
  have "go_ok ?m dm_ok"
    using Cons.prems(1) observePAT_ok [of d x] observeCAT_ok [OF Cons.prems(1) x] observePMT_ok [of d _ x]
    by (auto split: option.split)
  then obtain d1 where "?m = Some d1" "dm_ok d1" by (auto simp only: go_ok_def)
  then show ?case using Cons.IH [of d1] Cons.prems(2) \<open>x \<noteq> []\<close> by simp
qed simp

lemma ignored_ok: "ignored p = Some True \<or> (ignored p = Some False \<and> length p = 188)"
  by (auto simp: ignored_def header_accessors_in_range payload_accessors_in_range)

lemma FeedWithPID_ok:
  assumes "dm_ok d"
  shows "go_ok (Demuxer_FeedWithPID p d) (\<lambda>(d', out). dm_ok d'
     \<and> (\<forall>(pid, x) \<in> set out. good_section x \<and> Packet_PID p = Some pid \<and> shouldAssemble pid d))"
proof (cases "ignored p = Some True")
  case True
  then show ?thesis using assms by (simp add: Demuxer_FeedWithPID_def)
next
  case False
  then have p: "ignored p = Some False" "length p = 188" using ignored_ok by blast+
  obtain pid where pid: "Packet_PID p = Some pid" using p by (simp add: header_accessors_in_range)
  show ?thesis
  proof (cases "shouldAssemble pid d")
    case should: False
    then show ?thesis using p pid assms by (simp add: Demuxer_FeedWithPID_def)
  next
    case True
    define a where "a = (case map_of (dm_assemblers d) pid of Some a \<Rightarrow> a | None \<Rightarrow> NewSectionAssembler pid)"
    have a: "sa_pid a = pid"
      using assms by (auto simp: a_def dm_ok_def NewSectionAssembler_def split: option.split)
    obtain a' ss where f: "SectionAssembler_FeedAll p a = Some (a', ss)" "sa_pid a' = pid" "\<forall>s \<in> set ss. good_section s"
      using assembler.feed_ok [where p = p and st = a and pid = pid] p(2) a by (auto simp: go_ok_def)
    let ?d = "d\<lparr> dm_assemblers := AList.update pid a' (dm_assemblers d) \<rparr>"
    have "dm_ok ?d" using assms f(2) by (simp add: dm_ok_weaken)
    then obtain d2 where "dispatch_sections pid ss ?d = Some d2" "dm_ok d2"
      using dispatch_sections_ok f(3) unfolding go_ok_def by blast
    then show ?thesis
      using p pid True f by (auto simp: Demuxer_FeedWithPID_def simp flip: a_def)
  qed
qed

text \<open>The demultiplexer is a section source too: its invariant is \<open>dm_ok\<close>, and it accepts any bytes.\<close>

interpretation demux: section_source Demuxer_FeedWithPID dm_ok "\<lambda>_. True" "\<lambda>(pid, x). good_section x"
  by unfold_locales (use FeedWithPID_ok in \<open>fastforce simp: go_ok_def\<close>)

section \<open>The program table\<close>

lemma rebuildPAT_programs: "rebuildPAT sid d = Some d' \<Longrightarrow> dm_programs d' = dm_programs d \<and> dm_pat d' = dm_pat d"
  by (auto simp: rebuildPAT_def split: option.splits if_splits bind_splits)

definition set_program :: "u16 \<Rightarrow> u16 \<Rightarrow> Demuxer \<Rightarrow> Demuxer" where
  "set_program sid pid d = (case map_of (dm_programs d) sid of
                Some program \<Rightarrow> if dp_pmtPID program \<noteq> pid
                  then d\<lparr> dm_programs := AList.update sid \<lparr> dp_pmtPID = pid, dp_pids = [], dp_sectionPIDs = [] \<rparr> (dm_programs d) \<rparr>
                  else d
              | None \<Rightarrow> d\<lparr> dm_programs := AList.update sid \<lparr> dp_pmtPID = pid, dp_pids = [], dp_sectionPIDs = [] \<rparr> (dm_programs d) \<rparr>)"

lemma set_program_programs:
  "map_option dp_pmtPID (map_of (dm_programs (set_program sid pid d)) k)
     = (if k = sid then Some pid else map_option dp_pmtPID (map_of (dm_programs d) k))"
  "dm_pat (set_program sid pid d) = dm_pat d"
  by (auto simp: set_program_def update_conv' split: option.splits)

lemma observe_programs_result:
  "\<lbrakk>observe_programs unchanged ps m d = Some (d', m'); distinct (map fst ps)\<rbrakk> \<Longrightarrow>
     dm_pat d' = dm_pat d
     \<and> (\<forall>sid. map_option dp_pmtPID (map_of (dm_programs d') sid)
          = (case map_of ps sid of Some pid \<Rightarrow> Some pid | None \<Rightarrow> map_option dp_pmtPID (map_of (dm_programs d) sid)))
     \<and> m' = fold (\<lambda>(sid, pid). AList.update pid sid) ps m"
proof (induction ps arbitrary: m d)
  case (Cons p ps)
  obtain sid pid where p: "p = (sid, pid)" by fastforce
  obtain d1 where d1: "(if unchanged then Some (set_program sid pid d) else rebuildPAT sid (set_program sid pid d)) = Some d1"
      "observe_programs unchanged ps (AList.update pid sid m) d1 = Some (d', m')"
    using Cons.prems(1) by (auto simp: p Let_def simp flip: set_program_def split: bind_splits)
  have "dm_programs d1 = dm_programs (set_program sid pid d) \<and> dm_pat d1 = dm_pat d"
    using d1(1) rebuildPAT_programs [of sid "set_program sid pid d" d1]
    by (auto simp: set_program_programs split: if_splits)
  moreover have "map_of ps sid = None" using Cons.prems(2) by (auto simp: p map_of_eq_None_iff)
  ultimately show ?case
    using Cons.IH [OF d1(2)] Cons.prems(2) by (auto simp: p set_program_programs split: option.split)
qed simp

text \<open>The PID index maps each PMT PID back to its program when no two programs share one; then the
  order in which \<open>range\<close> visits the programs does not matter.\<close>

lemma newByPID_order_free:
  "distinct (map snd ps) \<Longrightarrow> map_of (fold (\<lambda>(sid, pid). AList.update pid sid) ps m) pid
     = (case map_of (map prod.swap ps) pid of Some sid \<Rightarrow> Some sid | None \<Rightarrow> map_of m pid)"
proof (induction ps arbitrary: m)
  case (Cons p ps)
  have "map_of (map prod.swap ps) (snd p) = None"
    using Cons.prems unfolding map_of_eq_None_iff by (simp add: image_image)
  then show ?case using Cons by (cases p) (auto simp: update_conv' split: option.splits)
qed simp

lemma observe_combined_result:
  assumes "observe_combined combined d = Some d'" and "distinct (map fst (pat_Programs combined))"
  shows "dm_pat d' = Some combined"
    and "map_option dp_pmtPID (map_of (dm_programs d') sid) = map_of (pat_Programs combined) sid"
    and "dm_pmtByPID d' = fold (\<lambda>(sid, pid). AList.update pid sid) (pat_Programs combined) []"
proof -
  obtain d2 d3 where d3: "observe_programs (samePAT (dm_pat d) combined) (pat_Programs combined) [] d2
        = Some (d3, dm_pmtByPID d')" "dm_pat d2 = Some combined" "dm_pat d' = dm_pat d3"
      "dm_programs d' = delete_unless (\<lambda>sid. map_of (dm_programs d3) sid = None \<or> map_of (pat_Programs combined) sid \<noteq> None)
         (dm_programs d3)"
    using assms(1) by (auto simp: observe_combined_def Let_def split: bind_splits if_splits prod.splits)
  note r = observe_programs_result [OF d3(1) assms(2)]
  show "dm_pat d' = Some combined" using r d3 by simp
  show "dm_pmtByPID d' = fold (\<lambda>(sid, pid). AList.update pid sid) (pat_Programs combined) []" using r by simp
  show "map_option dp_pmtPID (map_of (dm_programs d') sid) = map_of (pat_Programs combined) sid"
    using r [THEN conjunct2, THEN conjunct1, rule_format, of sid]
    by (auto simp: d3(4) map_of_delete_unless split: option.splits)
qed

lemma map_of_swap:
  assumes "distinct (map snd ps)" and "distinct (map fst ps)"
  shows "map_of (map prod.swap ps) pid = Some sid \<longleftrightarrow> map_of ps sid = Some pid"
proof -
  have "distinct (map fst (map prod.swap ps))" using assms(1) by (simp add: comp_def)
  then show ?thesis using assms(2) by (force simp: map_of_eq_Some_iff image_iff)
qed

section \<open>The tables a demultiplexer has seen\<close>

text \<open>
  What the sections reported so far say, independently of the PID sets the demultiplexer
  keeps: the programs of the last complete PAT, for each of them its last PMT (one received
  on the PMT PID that the PAT gives it, since the PAT gives it), and the sections of the last
  complete CAT. When programs share a PMT PID, it is taken to belong to the one listed last.
\<close>

record tables =
  tb_patSections :: tableSectionSet
  tb_catSections :: tableSectionSet
  tb_programs :: "(u16 \<times> u16) list"
  tb_pmt :: "u16 \<Rightarrow> PMT option"
  tb_cat :: "Section list"

definition no_tables :: tables where
  "no_tables = \<lparr> tb_patSections = empty_tss, tb_catSections = empty_tss, tb_programs = [],
     tb_pmt = (\<lambda>_. None), tb_cat = [] \<rparr>"

definition program_on :: "u16 \<Rightarrow> tables \<Rightarrow> u16 option" where
  "program_on pid t = map_of (rev (map prod.swap (tb_programs t))) pid"

definition announce :: "PAT \<Rightarrow> tables \<Rightarrow> tables" where
  "announce pat t = t\<lparr> tb_programs := pat_Programs pat,
     tb_pmt := (\<lambda>sid. if map_of (pat_Programs pat) sid = map_of (tb_programs t) sid then tb_pmt t sid else None) \<rparr>"

definition see_pat :: "Section \<Rightarrow> tables \<Rightarrow> tables" where
  "see_pat x t = (case tableSectionSet_add x (tb_patSections t) of
     None \<Rightarrow> t
   | Some (ps, reset, ready) \<Rightarrow>
       (case combinePAT (tableSectionSet_ordered ps)
               \<lparr> pat_TransportStreamID = 0, pat_VersionNumber = 0, pat_NetworkPID = 0, pat_Programs = [] \<rparr> of
          Some (Inr pat) \<Rightarrow> (if ready then announce pat else id) (t\<lparr> tb_patSections := ps \<rparr>)
        | _ \<Rightarrow> t\<lparr> tb_patSections := ps \<rparr>))"

definition see_cat :: "Section \<Rightarrow> tables \<Rightarrow> tables" where
  "see_cat x t = (case tableSectionSet_add x (tb_catSections t) of
     None \<Rightarrow> t
   | Some (cs, reset, ready) \<Rightarrow>
       t\<lparr> tb_catSections := cs, tb_cat := if ready then tableSectionSet_ordered cs else tb_cat t \<rparr>)"

definition see_pmt :: "u16 \<Rightarrow> Section \<Rightarrow> tables \<Rightarrow> tables" where
  "see_pmt pid x t = (case ParsePMT x of
     Some (Inr pmt) \<Rightarrow> if program_on pid t = Some (pmt_ProgramNumber pmt)
                      then t\<lparr> tb_pmt := (tb_pmt t)(pmt_ProgramNumber pmt \<mapsto> pmt) \<rparr> else t
   | _ \<Rightarrow> t)"

definition see :: "u16 \<times> Section \<Rightarrow> tables \<Rightarrow> tables" where
  "see = (\<lambda>(pid, x) t.
     if x ! 0 = 0x00 \<and> pid = 0x0000 then see_pat x t
     else if x ! 0 = 0x01 \<and> pid = 0x0001 \<and> 12 \<le> length x then see_cat x t
     else if x ! 0 = 0x02 then see_pmt pid x t
     else t)"

text \<open>The conditional-access PIDs of descriptors, and the PIDs a PMT and a CAT name.\<close>

definition ca_pids :: "Descriptor list \<Rightarrow> u16 set" where
  "ca_pids ds = {pid13 (d ! 4) (d ! 5) |d. d \<in> set ds \<and> d ! 0 = 0x09 \<and> 6 \<le> length d}"

definition pmt_names :: "PMT \<Rightarrow> u16 set" where
  "pmt_names pmt = (if pmt_PCRPID pmt = 0x1fff then {} else {pmt_PCRPID pmt}) \<union> ca_pids (pmt_Descriptors pmt)
     \<union> (\<Union>e \<in> set (pmt_Elements pmt). insert (pe_ElementaryPID e) (ca_pids (pe_Descriptors e)))"

definition cat_names :: "Section list \<Rightarrow> u16 set" where
  "cat_names xs = (\<Union>x \<in> set xs. ca_pids (ParseDescriptors (take (length x - 12) (drop 8 x))))"

lemma ca_pids_simps [simp]:
  "ca_pids [] = {}"
  "ca_pids (d # ds) = (if d ! 0 = 0x09 \<and> 6 \<le> length d then insert (pid13 (d ! 4) (d ! 5)) (ca_pids ds) else ca_pids ds)"
  by (auto simp: ca_pids_def)

lemma insert_ca_pids_set:
  "\<forall>d \<in> set ds. descr_ok d \<Longrightarrow> go_ok (insert_ca_pids ds pids) (\<lambda>r. set r = set pids \<union> ca_pids ds)"
proof (induction ds arbitrary: pids)
  case (Cons d ds)
  have d: "descr_ok d" using Cons.prems by simp
  then obtain t l b where b: "d = t # l # b" "blen b = len8 l" by (auto simp: descr_ok_Cons)
  then have data: "Descriptor_Data d = Some b" by (simp add: Descriptor_Data_def Descriptor_Length_def)
  then have "caPID d = Some (if 6 \<le> length d then Some (pid13 (d ! 4) (d ! 5)) else None)"
    using b by (auto simp: caPID_def)
  moreover obtain r where "insert_ca_pids ds (if 6 \<le> length d \<and> d ! 0 = 0x09 then List.insert (pid13 (d ! 4) (d ! 5)) pids else pids) = Some r"
      "set r = (if 6 \<le> length d \<and> d ! 0 = 0x09 then insert (pid13 (d ! 4) (d ! 5)) (set pids) else set pids) \<union> ca_pids ds"
    using Cons.IH [of "if 6 \<le> length d \<and> d ! 0 = 0x09 then List.insert (pid13 (d ! 4) (d ! 5)) pids else pids"] Cons.prems
    by (auto simp: go_ok_def)
  ultimately show ?case
    using descr_tag [OF d] by (auto simp: go_ok_def split: if_splits)
qed (simp add: go_ok_def)

lemma cat_emm_pids_set:
  "\<forall>x \<in> set xs. 12 \<le> length x \<and> good_section x \<Longrightarrow> go_ok (cat_emm_pids xs emm) (\<lambda>r. set r = set emm \<union> cat_names xs)"
proof (induction xs arbitrary: emm)
  case (Cons x xs)
  have x: "12 \<le> length x" "blen x = total_length x" using Cons.prems by (simp_all add: good_section_def)
  then have t: "12 \<le> total_length x" "nat (total_length x - 12) = length x - 12" by linarith+
  obtain emm' where e: "insert_ca_pids (ParseDescriptors (take (nat (total_length x - 12)) (drop 8 x))) emm = Some emm'"
      "set emm' = set emm \<union> ca_pids (ParseDescriptors (take (nat (total_length x - 12)) (drop 8 x)))"
    using insert_ca_pids_set [of "ParseDescriptors (take (nat (total_length x - 12)) (drop 8 x))" emm] ParseDescriptors_ok
    unfolding go_ok_def by blast
  obtain r where "cat_emm_pids xs emm' = Some r" "set r = set emm' \<union> cat_names xs"
    using Cons.IH [of emm'] Cons.prems by (auto simp: go_ok_def)
  then show ?case using x t e Cons.prems by (auto simp: cat_names_def go_ok_def)
qed (simp add: cat_names_def)

lemma pmt_pids_set:
  "\<forall>e \<in> set es. \<forall>d \<in> set (pe_Descriptors e). descr_ok d \<Longrightarrow>
     go_ok (pmt_pids es pids sp) (\<lambda>r. set (fst r) = set pids \<union> (\<Union>e \<in> set es. insert (pe_ElementaryPID e) (ca_pids (pe_Descriptors e))))"
proof (induction es arbitrary: pids sp)
  case (Cons e es)
  have ds: "\<forall>d \<in> set (pe_Descriptors e). descr_ok d" and es: "\<forall>e \<in> set es. \<forall>d \<in> set (pe_Descriptors e). descr_ok d"
    using Cons.prems by simp_all
  define sp' where "sp' = (if pe_StreamType e \<in> {0x0b, 0x0d, 0x0c} then List.insert (pe_ElementaryPID e) sp else sp)"
  obtain pids' where p: "insert_ca_pids (pe_Descriptors e) (List.insert (pe_ElementaryPID e) pids) = Some pids'"
      "set pids' = set (List.insert (pe_ElementaryPID e) pids) \<union> ca_pids (pe_Descriptors e)"
    using insert_ca_pids_set [OF ds] unfolding go_ok_def by blast
  obtain r where r: "pmt_pids es pids' sp' = Some r"
      "set (fst r) = set pids' \<union> (\<Union>e \<in> set es. insert (pe_ElementaryPID e) (ca_pids (pe_Descriptors e)))"
    using Cons.IH [OF es, of pids' sp'] unfolding go_ok_def by blast
  have "pmt_pids (e # es) pids sp = Some r"
    using p(1) r(1) by (simp only: pmt_pids.simps Let_def sp'_def [symmetric] Option.bind_lunit)
  moreover have "set (fst r) = set pids \<union> (\<Union>e \<in> set (e # es). insert (pe_ElementaryPID e) (ca_pids (pe_Descriptors e)))"
    unfolding r(2) p(2) by auto
  ultimately show ?case unfolding go_ok_def by blast
qed (simp add: go_ok_def)

text \<open>The demultiplexer and the tables agree.\<close>

definition follows :: "tables \<Rightarrow> Demuxer \<Rightarrow> bool" where
  "follows t d \<longleftrightarrow> dm_patSections d = tb_patSections t \<and> dm_catSections d = tb_catSections t
     \<and> (\<forall>pid. map_of (dm_pmtByPID d) pid = program_on pid t) \<and> set (dm_catEMM d) = cat_names (tb_cat t)
     \<and> distinct (map fst (tb_programs t))
     \<and> (\<forall>sid. map_option dp_pmtPID (map_of (dm_programs d) sid) = map_of (tb_programs t) sid)
     \<and> (\<forall>sid program. map_of (dm_programs d) sid = Some program \<longrightarrow>
          set (dp_pids program) = (case tb_pmt t sid of None \<Rightarrow> {} | Some pmt \<Rightarrow> pmt_names pmt))"

lemma follows_new: "follows no_tables NewDemuxer"
  by (simp add: follows_def no_tables_def NewDemuxer_def program_on_def cat_names_def)

lemma newByPID_last:
  "map_of (fold (\<lambda>(sid, pid). AList.update pid sid) ps m) pid
     = (case map_of (rev (map prod.swap ps)) pid of Some sid \<Rightarrow> Some sid | None \<Rightarrow> map_of m pid)"
  by (induction ps arbitrary: m) (auto simp: update_conv' map_add_def split: option.splits)

text \<open>What a PAT does to the entries of the program table.\<close>

lemma set_program_pids:
  "map_of (dm_programs (set_program sid pid d)) k = (if k = sid \<and> map_option dp_pmtPID (map_of (dm_programs d) sid) \<noteq> Some pid
     then Some \<lparr> dp_pmtPID = pid, dp_pids = [], dp_sectionPIDs = [] \<rparr> else map_of (dm_programs d) k)"
  by (auto simp: set_program_def update_conv' split: option.splits)

lemma observe_programs_pids:
  "\<lbrakk>observe_programs unchanged ps m d = Some (d', m'); distinct (map fst ps)\<rbrakk> \<Longrightarrow>
     map_of (dm_programs d') k = (case map_of ps k of
         Some pid \<Rightarrow> if map_option dp_pmtPID (map_of (dm_programs d) k) \<noteq> Some pid
           then Some \<lparr> dp_pmtPID = pid, dp_pids = [], dp_sectionPIDs = [] \<rparr> else map_of (dm_programs d) k
       | None \<Rightarrow> map_of (dm_programs d) k)
     \<and> dm_catEMM d' = dm_catEMM d \<and> dm_patSections d' = dm_patSections d \<and> dm_catSections d' = dm_catSections d"
proof (induction ps arbitrary: m d)
  case (Cons p ps)
  obtain sid pid where p: "p = (sid, pid)" by fastforce
  obtain d1 where d1: "(if unchanged then Some (set_program sid pid d) else rebuildPAT sid (set_program sid pid d)) = Some d1"
      "observe_programs unchanged ps (AList.update pid sid m) d1 = Some (d', m')"
    using Cons.prems(1) by (auto simp: p Let_def simp flip: set_program_def split: bind_splits)
  have "dm_programs d1 = dm_programs (set_program sid pid d) \<and> dm_catEMM d1 = dm_catEMM d
      \<and> dm_patSections d1 = dm_patSections d \<and> dm_catSections d1 = dm_catSections d"
    using d1(1) by (auto simp: rebuildPAT_def set_program_def split: option.splits if_splits bind_splits)
  moreover have "map_of ps sid = None" using Cons.prems(2) by (auto simp: p map_of_eq_None_iff)
  ultimately show ?case
    using Cons.IH [OF d1(2)] Cons.prems(2) by (auto simp: p set_program_pids split: option.split)
qed simp

lemma observe_combined_pids:
  assumes "observe_combined combined d = Some d'" and "distinct (map fst (pat_Programs combined))"
  shows "map_of (dm_programs d') sid = (case map_of (pat_Programs combined) sid of
         Some pid \<Rightarrow> if map_option dp_pmtPID (map_of (dm_programs d) sid) \<noteq> Some pid
           then Some \<lparr> dp_pmtPID = pid, dp_pids = [], dp_sectionPIDs = [] \<rparr> else map_of (dm_programs d) sid
       | None \<Rightarrow> None)
     \<and> dm_catEMM d' = dm_catEMM d \<and> dm_patSections d' = dm_patSections d \<and> dm_catSections d' = dm_catSections d"
proof -
  define d2 where "d2 = (if samePAT (dm_pat d) combined then d\<lparr> dm_pat := Some combined \<rparr>
      else d\<lparr> dm_pat := Some combined, dm_patGeneration := dm_patGeneration d + 1 \<rparr>)"
  have same: "dm_programs d2 = dm_programs d" "dm_catEMM d2 = dm_catEMM d" "dm_patSections d2 = dm_patSections d"
      "dm_catSections d2 = dm_catSections d"
    by (simp_all add: d2_def)
  obtain d3 m where d3: "observe_programs (samePAT (dm_pat d) combined) (pat_Programs combined) [] d2 = Some (d3, m)"
      "dm_programs d' = delete_unless (\<lambda>sid. map_of (dm_programs d3) sid = None \<or> map_of (pat_Programs combined) sid \<noteq> None)
         (dm_programs d3)" "dm_catEMM d' = dm_catEMM d3" "dm_patSections d' = dm_patSections d3" "dm_catSections d' = dm_catSections d3"
    using assms(1) by (auto simp: observe_combined_def Let_def d2_def split: bind_splits if_splits prod.splits)
  note r = observe_programs_pids [OF d3(1) assms(2), of sid, unfolded same]
  show ?thesis
    using r by (auto simp: d3(2-5) map_of_delete_unless split: option.splits)
qed

lemma combinePAT_distinct:
  "\<lbrakk>combinePAT xs c = Some (Inr pat); distinct (map fst (pat_Programs c))\<rbrakk> \<Longrightarrow> distinct (map fst (pat_Programs pat))"
proof (induction xs arbitrary: c)
  case (Cons x xs)
  have upd: "distinct (map fst (fold (\<lambda>(k, v). AList.update k v) ps m))" if "distinct (map fst m)" for ps and m :: "(u16 \<times> u16) list"
    using that by (induction ps arbitrary: m) (auto simp: distinct_update)
  obtain p where "ParsePAT x = Some (Inr p)"
    using Cons.prems(1) by (auto simp: res_bind_def split: option.splits sum.splits)
  then show ?case using Cons.IH Cons.prems upd by (simp add: res_bind_def)
qed simp

lemma follows_announce:
  assumes "follows t d" and "observe_combined pat d = Some d'" and "distinct (map fst (pat_Programs pat))"
  shows "follows (announce pat t) d'"
proof -
  note r = observe_combined_result [OF assms(2,3)] and p = observe_combined_pids [OF assms(2,3)]
  have "map_of (dm_pmtByPID d') pid = program_on pid (announce pat t)" for pid
    by (simp add: r(3) newByPID_last program_on_def announce_def split: option.split)
  moreover have "set (dp_pids program) = (case tb_pmt (announce pat t) sid of None \<Rightarrow> {} | Some pmt \<Rightarrow> pmt_names pmt)"
    if prog: "map_of (dm_programs d') sid = Some program" for sid program
  proof -
    have old: "map_option dp_pmtPID (map_of (dm_programs d) sid) = map_of (tb_programs t) sid"
      using assms(1) by (simp add: follows_def)
    obtain pid where pid: "map_of (pat_Programs pat) sid = Some pid"
      using prog p [of sid] by (cases "map_of (pat_Programs pat) sid") simp_all
    show ?thesis
    proof (cases "map_of (tb_programs t) sid = Some pid")
      case True
      then have "map_of (dm_programs d) sid = Some program" using prog p [of sid] pid old by simp
      then show ?thesis using assms(1) True pid by (simp add: follows_def announce_def)
    next
      case False
      then have "dp_pids program = []" using prog p [of sid] pid old by auto
      then show ?thesis using False pid by (auto simp: announce_def)
    qed
  qed
  ultimately show ?thesis
    using assms p r(2) by (simp add: follows_def announce_def)
qed

lemma follows_pat:
  assumes "follows t d" and "dm_ok d" and "Demuxer_observePAT x d = Some d'"
  shows "follows (see_pat x t) d'"
proof -
  obtain ps reset ready where a: "tableSectionSet_add x (dm_patSections d) = Some (ps, reset, ready)"
    using assms(3) by (auto simp: Demuxer_observePAT_def split: bind_splits)
  let ?d = "if reset then d\<lparr> dm_patSections := ps, dm_pat := None \<rparr> else d\<lparr> dm_patSections := ps \<rparr>"
  have f: "follows (t\<lparr> tb_patSections := ps \<rparr>) ?d"
    using assms(1) by (simp add: follows_def program_on_def)
  have t: "tableSectionSet_add x (tb_patSections t) = Some (ps, reset, ready)"
    using a assms(1) by (simp add: follows_def)
  show ?thesis
  proof (cases ready)
    case False
    then have "d' = ?d" using assms(3) a by (auto simp: Demuxer_observePAT_def)
    moreover have "see_pat x t = t\<lparr> tb_patSections := ps \<rparr>"
      using t False by (simp add: see_pat_def split: option.split sum.split)
    ultimately show ?thesis using f by (simp only:)
  next
    case True
    then obtain r where c: "combinePAT (tableSectionSet_ordered ps)
        \<lparr> pat_TransportStreamID = 0, pat_VersionNumber = 0, pat_NetworkPID = 0, pat_Programs = [] \<rparr> = Some r"
      using assms(3) a by (auto simp: Demuxer_observePAT_def Let_def split: bind_splits if_splits)
    show ?thesis
    proof (cases r)
      case (Inl e)
      then have "d' = ?d" using assms(3) a c True by (auto simp: Demuxer_observePAT_def)
      then show ?thesis using f t c Inl by (simp add: see_pat_def)
    next
      case (Inr pat)
      then have "observe_combined pat ?d = Some d'"
        using assms(3) a c True by (auto simp: Demuxer_observePAT_def split: if_splits)
      moreover have "distinct (map fst (pat_Programs pat))"
        using combinePAT_distinct [OF c [unfolded Inr]] by simp
      ultimately show ?thesis using follows_announce [OF f] t c Inr True by (simp add: see_pat_def)
    qed
  qed
qed

lemma follows_cat:
  assumes f: "follows t d" and "dm_ok d" and x: "good_section x" and o': "Demuxer_observeCAT x d = Some d'"
  shows "follows (if 12 \<le> length x then see_cat x t else t) d'"
proof (cases "12 \<le> length x")
  case True
  have cat: "cat_ok (dm_catSections d)" using assms(2) by (simp add: dm_ok_def)
  then obtain cs reset ready where a: "tableSectionSet_add x (dm_catSections d) = Some (cs, reset, ready)" "tss_ok cs"
      "\<forall>n y. map_of (tss_sections cs) n = Some y \<longrightarrow> y = x \<or> map_of (tss_sections (dm_catSections d)) n = Some y"
      "ready \<longrightarrow> blen (tss_sections cs) = uint (tss_last cs) + 1"
    using tableSectionSet_add_ok [of "dm_catSections d" x] by (auto simp: go_ok_def cat_ok_def)
  have cs: "cat_ok cs"
    using a(2,3) cat x True unfolding cat_ok_def by metis
  have t: "tableSectionSet_add x (tb_catSections t) = Some (cs, reset, ready)"
    using a(1) f by (simp add: follows_def)
  show ?thesis
  proof (cases ready)
    case False
    then have "d' = d\<lparr> dm_catSections := cs \<rparr>"
      using o' a(1) x True by (simp add: Demuxer_observeCAT_def good_section_def)
    then show ?thesis using f t False True by (simp add: follows_def see_cat_def program_on_def)
  next
    case rd: True
    have "\<forall>y \<in> set (tableSectionSet_ordered cs). 12 \<le> length y \<and> good_section y"
    proof
      fix y assume "y \<in> set (tableSectionSet_ordered cs)"
      then obtain i where "i < length (tableSectionSet_ordered cs)" "y = tableSectionSet_ordered cs ! i"
        by (metis in_set_conv_nth)
      then obtain n where "map_of (tss_sections cs) n = Some y"
        using ordered_complete(2) [OF a(2), of i] a(4) rd
        by (auto simp: tableSectionSet_ordered_def simp del: nth_map)
      then show "12 \<le> length y \<and> good_section y" using cs by (auto simp: cat_ok_def)
    qed
    then obtain emm where emm: "cat_emm_pids (tableSectionSet_ordered cs) [] = Some emm"
        "set emm = cat_names (tableSectionSet_ordered cs)"
      using cat_emm_pids_set [of "tableSectionSet_ordered cs" "[]"] by (auto simp: go_ok_def)
    then have "d' = d\<lparr> dm_catSections := cs, dm_catEMM := emm \<rparr>"
      using o' a(1) x True rd by (simp add: Demuxer_observeCAT_def good_section_def)
    then show ?thesis using f t rd emm(2) True by (simp add: follows_def see_cat_def program_on_def)
  qed
next
  case False
  then show ?thesis using assms by (simp add: Demuxer_observeCAT_def)
qed

lemma follows_pmt:
  assumes f: "follows t d" and on: "map_of (dm_pmtByPID d) pid = Some sid" and o': "Demuxer_observePMT sid x d = Some d'"
  shows "follows (see_pmt pid x t) d'"
proof -
  have sid: "program_on pid t = Some sid" using f on by (simp add: follows_def)
  obtain r where r: "ParsePMT x = Some r" using ParsePMT_total [of x] by (auto simp: go_ok_def)
  show ?thesis
  proof (cases "\<exists>pmt. r = Inr pmt \<and> pmt_ProgramNumber pmt = sid")
    case False
    then have "d' = d" using o' r by (auto simp: Demuxer_observePMT_def split: sum.splits)
    then show ?thesis using f r False sid by (auto simp: see_pmt_def split: sum.split)
  next
    case True
    then obtain pmt where pmt: "ParsePMT x = Some (Inr pmt)" "pmt_ProgramNumber pmt = sid" using r by auto
    note ds = pmt_descriptors_ok [OF pmt(1)]
    define p0 where "p0 = (if pmt_PCRPID pmt \<noteq> 0x1fff then [pmt_PCRPID pmt] else [])"
    obtain p1 where p1: "insert_ca_pids (pmt_Descriptors pmt) p0 = Some p1" "set p1 = set p0 \<union> ca_pids (pmt_Descriptors pmt)"
      using insert_ca_pids_set ds unfolding go_ok_def by blast
    obtain p2 sp where p2: "pmt_pids (pmt_Elements pmt) p1 [] = Some (p2, sp)"
        "set p2 = set p1 \<union> (\<Union>e \<in> set (pmt_Elements pmt). insert (pe_ElementaryPID e) (ca_pids (pe_Descriptors e)))"
      using pmt_pids_set [of "pmt_Elements pmt" p1 "[]"] ds by (fastforce simp: go_ok_def)
    have names: "set p2 = pmt_names pmt" by (auto simp: p2(2) p1(2) p0_def pmt_names_def)
    have "sid \<in> set (map fst (tb_programs t))"
      using sid unfolding program_on_def by (force dest: map_of_SomeD)
    then obtain program where prog: "map_of (dm_programs d) sid = Some program"
      using f unfolding follows_def by (metis map_of_eq_None_iff not_None_eq map_option_is_None set_map)
    have "d' = rebuildSectionPIDs (d\<lparr> dm_programs := AList.update sid (program\<lparr> dp_pids := p2, dp_sectionPIDs := sp \<rparr>) (dm_programs d) \<rparr>)"
      using o' pmt prog p1(1) p2(1) by (simp add: Demuxer_observePMT_def Let_def flip: p0_def)
    then have d': "dm_programs d' = AList.update sid (program\<lparr> dp_pids := p2, dp_sectionPIDs := sp \<rparr>) (dm_programs d)"
        "dm_patSections d' = dm_patSections d" "dm_catSections d' = dm_catSections d" "dm_pmtByPID d' = dm_pmtByPID d"
        "dm_catEMM d' = dm_catEMM d"
      by (simp_all add: rebuildSectionPIDs_def Let_def)
    have "see_pmt pid x t = t\<lparr> tb_pmt := (tb_pmt t)(sid \<mapsto> pmt) \<rparr>"
      using pmt sid by (simp add: see_pmt_def)
    moreover have "map_of (tb_programs t) sid = Some (dp_pmtPID program)"
      using f prog unfolding follows_def by (metis option.simps(9))
    ultimately show ?thesis
      using f prog names by (simp add: follows_def d' program_on_def update_conv')
  qed
qed

lemma follows_dispatch:
  "\<lbrakk>dispatch_sections pid xs d = Some d'; follows t d; dm_ok d; \<forall>x \<in> set xs. good_section x\<rbrakk> \<Longrightarrow>
     follows (fold see (map (Pair pid) xs) t) d'"
proof (induction xs arbitrary: d t)
  case (Cons x xs)
  let ?m = "if x ! 0 = 0x00 then (if pid = 0x0000 then Demuxer_observePAT x d else Some d)
           else if x ! 0 = 0x01 then (if pid = 0x0001 then Demuxer_observeCAT x d else Some d)
           else if x ! 0 = 0x02 then (case map_of (dm_pmtByPID d) pid of
               Some serviceID \<Rightarrow> Demuxer_observePMT serviceID x d
             | None \<Rightarrow> Some d)
           else Some d"
  have x: "good_section x" using Cons.prems(4) by simp
  then have ne: "x \<noteq> []" using good_section_length by fastforce
  then obtain d1 where d1: "?m = Some d1" "dispatch_sections pid xs d1 = Some d'"
    using Cons.prems(1) by (auto simp: Let_def split: bind_splits)
  have ok: "go_ok ?m dm_ok"
    using Cons.prems(3) observePAT_ok [of d x] observeCAT_ok [OF Cons.prems(3) x] observePMT_ok [of d _ x]
    by (auto split: option.split)
  have "dm_ok d1" using ok unfolding d1(1) by (simp add: go_ok_def)
  moreover have "follows (see (pid, x) t) d1"
  proof -
    have none: "see_pmt pid x t = t" if "map_of (dm_pmtByPID d) pid = None"
      using that Cons.prems(2) by (simp add: see_pmt_def follows_def split: option.split sum.split)
    consider "x ! 0 = 0" | "x ! 0 = 1" | "x ! 0 = 2" | "x ! 0 \<notin> {0, 1, 2}" by blast
    then show ?thesis
    proof cases
      case 1
      then show ?thesis using d1(1) follows_pat [OF Cons.prems(2,3)] Cons.prems(2) by (auto simp: see_def split: if_splits)
    next
      case 2
      then show ?thesis using d1(1) follows_cat [OF Cons.prems(2,3) x] Cons.prems(2) by (auto simp: see_def split: if_splits)
    next
      case 3
      then show ?thesis
        using d1(1) follows_pmt [OF Cons.prems(2), of pid] Cons.prems(2) none
        by (auto simp: see_def split: option.splits)
    next
      case 4
      then show ?thesis using d1(1) Cons.prems(2) by (simp add: see_def)
    qed
  qed
  ultimately show ?case using Cons.IH [OF d1(2)] Cons.prems(4) by simp
qed simp

lemma follows_feed:
  assumes f: "follows t d" and ok: "dm_ok d" and feed: "Demuxer_FeedWithPID p d = Some (d', out)"
  shows "follows (fold see out t) d'"
proof (cases "ignored p = Some True")
  case True
  then show ?thesis using f feed by (simp add: Demuxer_FeedWithPID_def)
next
  case False
  then have p: "ignored p = Some False" "length p = 188" using ignored_ok by blast+
  obtain pid where pid: "Packet_PID p = Some pid" using p by (simp add: header_accessors_in_range)
  show ?thesis
  proof (cases "shouldAssemble pid d")
    case should: False
    then show ?thesis using p pid f feed by (simp add: Demuxer_FeedWithPID_def)
  next
    case True
    define a where "a = (case map_of (dm_assemblers d) pid of Some a \<Rightarrow> a | None \<Rightarrow> NewSectionAssembler pid)"
    have a: "sa_pid a = pid"
      using ok by (auto simp: a_def dm_ok_def NewSectionAssembler_def split: option.split)
    obtain a' ss where s: "SectionAssembler_FeedAll p a = Some (a', ss)" "sa_pid a' = pid" "\<forall>s \<in> set ss. good_section s"
      using assembler.feed_ok [where p = p and st = a and pid = pid] p(2) a by (auto simp: go_ok_def)
    let ?d = "d\<lparr> dm_assemblers := AList.update pid a' (dm_assemblers d) \<rparr>"
    have "dm_ok ?d" using ok s(2) by (simp add: dm_ok_weaken)
    moreover have "follows t ?d" using f by (simp add: follows_def)
    moreover have "dispatch_sections pid ss ?d = Some d'" "out = map (Pair pid) ss"
      using feed p(1) pid True s(1) by (auto simp: Demuxer_FeedWithPID_def simp flip: a_def split: bind_splits)
    ultimately show ?thesis using follows_dispatch s(3) by blast
  qed
qed

lemma follows_run:
  "\<lbrakk>feed_many Demuxer_FeedWithPID ps d = Some (d', out); follows t d; dm_ok d\<rbrakk> \<Longrightarrow> follows (fold see out t) d'"
proof (induction ps arbitrary: d t out)
  case (Cons p ps)
  obtain d1 o1 o2 where 1: "Demuxer_FeedWithPID p d = Some (d1, o1)" "feed_many Demuxer_FeedWithPID ps d1 = Some (d', o2)"
    and out: "out = o1 @ o2"
    using Cons.prems(1) by (auto split: bind_splits)
  have "dm_ok d1" using FeedWithPID_ok [OF Cons.prems(3), of p] 1(1) by (simp add: go_ok_def)
  then show ?case
    using Cons.IH [OF 1(2) follows_feed [OF Cons.prems(2,3) 1(1)]] out by simp
qed simp

section \<open>The service PAT\<close>

lemma short_section_packets:
  assumes "length s \<le> 183" and "s \<noteq> []"
  shows "fst (packetizeSection pid s c) = [plain_packet pid True c (0 # s @ replicate (183 - length s) 0xff)]"
proof -
  have "packetize_one pid True c s = (plain_packet pid True c (0 # s @ replicate (183 - length s) 0xff), [])"
    using assms(1) by (simp add: packetize_one_def plain_packet_def Let_def)
  then show ?thesis
    by (simp add: packetizeSection_def packetize_loop.simps [of pid True] packetize_loop.simps [of pid False])
qed

lemma set_counter:
  "(plain_packet pid start 0 pl)[3 := ((0x10 OR (0 AND 0x0f)) AND 0xf0) OR (c AND 0x0f)] = plain_packet pid start c pl"
  by (simp add: plain_packet_def)

lemma servicePacket_ok:
  assumes "dm_ok d" and "output_ok output"
  shows "go_ok (servicePacket sid d output p) (\<lambda>(output', r). output_ok output'
     \<and> (ignored p = Some True \<or> \<not> Demuxer_HasService sid d \<longrightarrow> r = None)
     \<and> (\<forall>pid program. ignored p = Some False \<and> Packet_PID p = Some pid \<and> pid \<noteq> 0
           \<and> map_of (dm_programs d) sid = Some program \<longrightarrow>
          r = (if commonServicePID pid \<or> pid = dp_pmtPID program \<or> pid \<in> set (dp_pids program) \<or> pid \<in> set (dm_catEMM d)
               then Some p else None)))"
proof (cases "ignored p = Some True \<or> map_of (dm_programs d) sid = None")
  case True
  then show ?thesis
    using ignored_ok [of p] assms(2) by (auto simp: servicePacket_def Demuxer_HasService_def)
next
  case False
  then obtain program where p: "ignored p = Some False" "length p = 188" "map_of (dm_programs d) sid = Some program"
    using ignored_ok [of p] by auto
  obtain pid where pid: "Packet_PID p = Some pid" using p by (simp add: header_accessors_in_range)
  obtain o1 where o1: "(if so_generation output \<noteq> dm_patGeneration d then rebuildPATOutput sid d output else Some output) = Some o1"
      "output_ok o1"
    using rebuildPATOutput_ok [OF dm_ok_pat [OF assms(1)] assms(2), of sid] assms(2)
    by (cases "so_generation output = dm_patGeneration d") (auto simp: go_ok_def)
  show ?thesis
  proof (cases "pid = 0 \<and> so_patPackets o1 \<noteq> []")
    case True
    define src where "src = so_patPackets o1 ! nat (so_patIndex o1)"
    have i: "0 \<le> so_patIndex o1" "so_patIndex o1 < blen (so_patPackets o1)" "length src = 188"
      using o1(2) True by (auto simp: output_ok_def src_def)
    have next_ok: "output_ok (o1\<lparr> so_patIndex := (so_patIndex o1 + 1) mod blen (so_patPackets o1), so_patCounter := c \<rparr>)" for c
      using o1(2) True by (simp add: output_ok_def)
    show ?thesis
      using p pid o1(1) True i next_ok
      by (simp add: servicePacket_def Demuxer_HasService_def Let_def flip: src_def)
  next
    case False
    then show ?thesis
      using p pid o1 by (auto simp: servicePacket_def Demuxer_HasService_def)
  qed
qed

text \<open>The packets that are looked at, from the header bytes.\<close>

definition usable_packet :: "packet \<Rightarrow> bool" where
  "usable_packet p \<longleftrightarrow> length p = 188 \<and> p ! 1 AND 0x80 = 0 \<and> pid13 (p ! 1) (p ! 2) \<noteq> 0x1fff
     \<and> (p ! 3 AND 0x20 \<noteq> 0 \<longrightarrow> p ! 4 \<le> 183)"

lemma adaptation_bit: "2 \<le> adaptation_control b \<longleftrightarrow> b AND 0x20 \<noteq> 0"
proof -
  have "list_all (\<lambda>b. 2 \<le> adaptation_control b \<longleftrightarrow> b AND 0x20 \<noteq> 0) (map word_of_nat [0..<256])"
    by code_simp
  moreover have "unat b < 256" using unsigned_less [of b, where 'a = nat] by simp
  then have "b \<in> set (map word_of_nat [0..<256])"
    by (force simp: image_iff intro!: bexI [of _ "unat b"])
  ultimately show ?thesis by (simp only: list_all_iff)
qed

lemma ignored_iff: "ignored p = Some (\<not> usable_packet p)"
proof (cases "length p = 188")
  case True
  have "uint (p ! 4) \<le> 183 \<longleftrightarrow> p ! 4 \<le> 183" by (simp add: word_le_def)
  then show ?thesis
    using True by (auto simp: ignored_def usable_packet_def packet_defs Packet_IsNull_def adaptation_bit len8_def)
qed (simp add: ignored_def usable_packet_def)

section \<open>Properties\<close>

text \<open>
  C1. A demultiplexer fed any packets (any bytes, any lengths, any order) from its initial state
  never panics: neither an out-of-range access nor the explicit \<open>panic\<close> of \<open>rebuildPATOutput\<close> is
  reachable; its invariant holds throughout, and every section it reports is exactly as long
  as its header says and passes the CRC check.
\<close>

theorem Demuxer_feeds_never_panic:
  "\<exists>d' out. feed_many Demuxer_FeedWithPID ps NewDemuxer = Some (d', out) \<and> dm_ok d'
     \<and> list_all (\<lambda>(pid, x). Section_ValidateCRC x = Some True \<and> Section_TotalLength x = Some (blen x)) out"
proof -
  have "good_section x \<Longrightarrow> Section_ValidateCRC x = Some True \<and> Section_TotalLength x = Some (blen x)" for x
    using good_section_length [of x] by (auto simp: good_section_def)
  then show ?thesis
    using demux.feed_many_ok [of ps NewDemuxer] by (fastforce simp: go_ok_def list_all_iff)
qed

text \<open>
  Installing a PAT makes the program table agree with it: afterwards exactly the programs of
  the PAT are known, each with its PMT PID; and when no two programs share a PMT PID, the
  index from PMT PIDs to programs is the inverse of the PAT, so a PMT is attributed to the
  right program whatever order the programs were visited in.
\<close>

theorem observe_combined_program_table:
  assumes "dm_ok d" and "pat_ok combined" and "distinct (map snd (pat_Programs combined))"
  shows "\<exists>d'. observe_combined combined d = Some d' \<and> dm_ok d' \<and> Demuxer_PATReady d'
     \<and> (\<forall>sid. map_option dp_pmtPID (map_of (dm_programs d') sid) = map_of (pat_Programs combined) sid)
     \<and> (\<forall>sid pid. map_of (dm_pmtByPID d') pid = Some sid \<longleftrightarrow> map_of (pat_Programs combined) sid = Some pid)"
proof -
  obtain d' where d': "observe_combined combined d = Some d'" "dm_ok d'"
    using observe_combined_ok [OF assms(1,2)] by (auto simp: go_ok_def)
  have fst: "distinct (map fst (pat_Programs combined))" using assms(2) by (simp add: pat_ok_def)
  note r = observe_combined_result [OF d'(1) fst]
  have "map_of (dm_pmtByPID d') pid = Some sid \<longleftrightarrow> map_of (pat_Programs combined) sid = Some pid" for sid pid
    using newByPID_order_free [OF assms(3), of "[]" pid] map_of_swap [OF assms(3) fst, of pid sid]
    by (auto simp: r(3) split: option.splits)
  then show ?thesis using d' r(1,2) by (auto simp: Demuxer_PATReady_def)
qed

theorem observe_combined_program_table_witness:
  "\<exists>d'. observe_combined \<lparr> pat_TransportStreamID = 0x7fe1, pat_VersionNumber = 3, pat_NetworkPID = 0x10,
       pat_Programs = [(0x400, 0x101), (0x408, 0x102)] \<rparr> NewDemuxer = Some d'
     \<and> map_of (dm_pmtByPID d') 0x102 = Some 0x408 \<and> map_option dp_pmtPID (map_of (dm_programs d') 0x400) = Some 0x101"
  supply map_option_eq_Some [simp del]
  using observe_combined_program_table [of NewDemuxer "\<lparr> pat_TransportStreamID = 0x7fe1, pat_VersionNumber = 3,
      pat_NetworkPID = 0x10, pat_Programs = [(0x400, 0x101), (0x408, 0x102)] \<rparr>"]
  by (auto simp: pat_ok_def)

text \<open>
  When two programs of a PAT share a PMT PID, the program that the PMT is attributed to depends
  on the order in which the map of programs is ranged over, which Go leaves open: the two
  orders of the same two programs give different results.
\<close>

theorem shared_PMT_PID_order_dependent:
  "\<exists>d1 d2. observe_combined \<lparr> pat_TransportStreamID = 1, pat_VersionNumber = 0, pat_NetworkPID = 0,
         pat_Programs = [(0x400, 0x101), (0x408, 0x101)] \<rparr> NewDemuxer = Some d1
     \<and> observe_combined \<lparr> pat_TransportStreamID = 1, pat_VersionNumber = 0, pat_NetworkPID = 0,
         pat_Programs = [(0x408, 0x101), (0x400, 0x101)] \<rparr> NewDemuxer = Some d2
     \<and> map_of (dm_pmtByPID d1) 0x101 = Some 0x408 \<and> map_of (dm_pmtByPID d2) 0x101 = Some 0x400"
proof -
  let ?pat = "\<lambda>ps. \<lparr> pat_TransportStreamID = 1, pat_VersionNumber = 0, pat_NetworkPID = 0, pat_Programs = ps \<rparr> :: PAT"
  have ex: "\<exists>d. observe_combined (?pat ps) NewDemuxer = Some d
      \<and> dm_pmtByPID d = fold (\<lambda>(sid, pid). AList.update pid sid) ps []" if ok: "pat_ok (?pat ps)" for ps
  proof -
    obtain d where d: "observe_combined (?pat ps) NewDemuxer = Some d"
      using observe_combined_ok [OF dm_ok_New ok] by (auto simp: go_ok_def)
    then show ?thesis using observe_combined_result(3) [OF d] ok by (simp add: pat_ok_def)
  qed
  show ?thesis
    using ex [of "[(0x400, 0x101), (0x408, 0x101)]"] ex [of "[(0x408, 0x101), (0x400, 0x101)]"]
    by (auto simp: pat_ok_def)
qed

text \<open>
  C2. The PAT a service stream carries: once the demultiplexer has a PAT with the service and the
  output has not seen it yet, a packet on PID 0 is replaced by a packet with the output's own
  continuity counter (which advances modulo 16, whatever the counters of the input do), and
  an assembler for PID 0, in whatever state, reads from it exactly one section: a PAT with the
  same transport stream and version and this one program.
\<close>

theorem servicePacket_single_program_PAT:
  assumes "dm_ok d" and "output_ok output" and "dm_pat d = Some pat" and "map_of (pat_Programs pat) sid = Some pmtPID"
    and "Demuxer_HasService sid d" and "so_generation output \<noteq> dm_patGeneration d"
    and "ignored p = Some False" and "Packet_PID p = Some 0" and "sa_pid sa = 0"
  shows "\<exists>output' q sa' s. servicePacket sid d output p = Some (output', Some q)
     \<and> Packet_ContinuityCounter q = Some (so_patCounter output AND 0x0f)
     \<and> so_patCounter output' = (so_patCounter output + 1) AND 0x0f \<and> so_generation output' = dm_patGeneration d
     \<and> feed_many SectionAssembler_FeedAll [q] sa = Some (sa', [s])
     \<and> ParsePAT s = Some (Inr \<lparr> pat_TransportStreamID = pat_TransportStreamID pat,
          pat_VersionNumber = pat_VersionNumber pat AND 0x1f, pat_NetworkPID = 0, pat_Programs = [(sid, pmtPID)] \<rparr>)"
proof -
  have pat: "pat_ok pat" using assms(1,3) by (simp add: dm_ok_def)
  note ids = pat_ok_lookup [OF pat assms(4)]
  define body where "body = pat_body (pat_TransportStreamID pat) sid pmtPID (pat_VersionNumber pat)"
  define s where "s = body @ b32 (crc32MPEG2 body)"
  have s: "length s = 16" "s ! 0 = 0" "good_section s"
    using pat_section_good [of "pat_TransportStreamID pat" sid pmtPID "pat_VersionNumber pat"]
    by (simp_all add: s_def body_def pat_body_def)
  have ne: "s \<noteq> []" using s(1) by auto
  let ?pkt = "\<lambda>c. plain_packet 0 True c (0 # s @ replicate (183 - length s) 0xff)"
  let ?c = "so_patCounter output"
  have rebuilt: "rebuildPATOutput sid d output =
      Some (output\<lparr> so_patPackets := [?pkt 0], so_patIndex := 0, so_generation := dm_patGeneration d \<rparr>)"
    using assms(3,4) ids short_section_packets [of s 0 0] s(1) ne
    by (simp add: rebuildPATOutput_def BuildPATSection_eq not_less s_def body_def)
  obtain program where "map_of (dm_programs d) sid = Some program"
    using assms(5) by (auto simp: Demuxer_HasService_def)
  then have step: "servicePacket sid d output p = Some (output\<lparr> so_patPackets := [?pkt 0], so_patIndex := 0,
        so_generation := dm_patGeneration d, so_patCounter := (?c + 1) AND 0x0f \<rparr>, Some (?pkt ?c))"
    using assms(6,7,8) rebuilt set_counter [of 0 True "0 # s @ replicate (183 - length s) 0xff" ?c]
    by (simp add: servicePacket_def Let_def plain_packet_def)
  obtain sa' where feed: "feed_many SectionAssembler_FeedAll [?pkt ?c] sa = Some (sa', [s])"
    using packetize_feed [of 0 s sa ?c] short_section_packets [of s 0 ?c] s ne assms(9) by auto
  have cc: "Packet_ContinuityCounter (?pkt ?c) = Some (?c AND 0x0f)"
    using s(1) by (intro plain_packet_accessors(5)) simp_all
  show ?thesis
    using step feed cc ParsePAT_Build [of pmtPID sid "pat_TransportStreamID pat" "pat_VersionNumber pat"] ids
    by (simp add: s_def body_def del: feed_many.simps)
qed

lemma plain_not_ignored:
  assumes "length pl = 184" and "pid < 0x1fff"
  shows "ignored (plain_packet pid start c pl) = Some False"
proof -
  have "pid \<le> 0x1fff" "pid \<noteq> 0x1fff" using assms(2) by auto
  then show ?thesis
    using plain_packet_accessors [of pid pl start c] assms(1) hi8_marks [of pid] not_2_le_1
    by (simp add: ignored_def Packet_IsNull_def)
       (simp add: plain_packet_def packet_defs adaptation_marked)
qed

theorem servicePacket_single_program_PAT_witness:
  "\<exists>output' q sa' s.
     servicePacket 0x408
       (NewDemuxer\<lparr> dm_pat := Some \<lparr> pat_TransportStreamID = 0x7fe1, pat_VersionNumber = 3, pat_NetworkPID = 0x10,
            pat_Programs = [(0x400, 0x101), (0x408, 0x102)] \<rparr>, dm_patGeneration := 1,
          dm_programs := [(0x408, \<lparr> dp_pmtPID = 0x102, dp_pids = [], dp_sectionPIDs = [] \<rparr>)] \<rparr>)
       newOutput (plain_packet 0 True 9 (replicate 184 0)) = Some (output', Some q)
     \<and> feed_many SectionAssembler_FeedAll [q] (NewSectionAssembler 0) = Some (sa', [s])
     \<and> ParsePAT s = Some (Inr \<lparr> pat_TransportStreamID = 0x7fe1, pat_VersionNumber = 3, pat_NetworkPID = 0,
          pat_Programs = [(0x408, 0x102)] \<rparr>)"
proof -
  let ?pat = "\<lparr> pat_TransportStreamID = 0x7fe1, pat_VersionNumber = 3, pat_NetworkPID = 0x10,
      pat_Programs = [(0x400, 0x101), (0x408, 0x102)] \<rparr> :: PAT"
  let ?d = "NewDemuxer\<lparr> dm_pat := Some ?pat, dm_patGeneration := 1,
      dm_programs := [(0x408, \<lparr> dp_pmtPID = 0x102, dp_pids = [], dp_sectionPIDs = [] \<rparr>)] \<rparr>"
  have "pat_ok ?pat" by (simp add: pat_ok_def)
  then have "dm_ok ?d" by (intro dm_ok_weaken dm_ok_New)
  moreover have "so_generation newOutput \<noteq> dm_patGeneration ?d" by (simp add: newOutput_def)
  moreover have "ignored (plain_packet 0 True 9 (replicate 184 0)) = Some False"
    by (intro plain_not_ignored) simp_all
  moreover have "Packet_PID (plain_packet 0 True 9 (replicate 184 0)) = Some 0"
    by (intro plain_packet_accessors) simp_all
  moreover have "sa_pid (NewSectionAssembler 0) = 0" by (simp add: NewSectionAssembler_def)
  ultimately show ?thesis
    using servicePacket_single_program_PAT [of ?d newOutput ?pat "0x408" "0x102"
        "plain_packet 0 True 9 (replicate 184 0)" "NewSectionAssembler 0"]
    by (simp add: Demuxer_HasService_def del: feed_many.simps) blast
qed


text \<open>
  C35. What a service stream carries besides its PAT, for a demultiplexer that has been fed any
  packets: asking for a service packet never panics; nothing is passed for a packet that is
  not usable (its length, error indicator, null PID or adaptation field) or when the last
  complete PAT does not have the service; any other packet is passed unchanged exactly when
  its PID is that of the CAT, NIT, SDT, EIT, RST, TOT, DIT, SIT, SDTT, BIT or CDT, is the PMT PID
  of the service, is named by the last PMT of the service (its PCR, elementary and
  conditional-access PIDs), or is a conditional-access PID of the last complete CAT.
\<close>

theorem servicePacket_filters:
  assumes "feed_many Demuxer_FeedWithPID ps NewDemuxer = Some (d, out)" and "output_ok output"
    and "t = fold see out no_tables"
  shows "\<exists>output' r. servicePacket sid d output p = Some (output', r) \<and> output_ok output'
     \<and> (\<not> usable_packet p \<or> map_of (tb_programs t) sid = None \<longrightarrow> r = None)
     \<and> (\<forall>pid pmtPID. usable_packet p \<and> Packet_PID p = Some pid \<and> pid \<noteq> 0 \<and> map_of (tb_programs t) sid = Some pmtPID \<longrightarrow>
          r = (if pid \<in> {0x01, 0x10, 0x11, 0x12, 0x13, 0x14, 0x1e, 0x1f, 0x23, 0x24, 0x29} \<or> pid = pmtPID
                  \<or> (\<exists>pmt. tb_pmt t sid = Some pmt \<and> pid \<in> pmt_names pmt) \<or> pid \<in> cat_names (tb_cat t)
               then Some p else None))"
proof -
  have ok: "dm_ok d" using demux.feed_many_ok [of ps NewDemuxer] assms(1) by (simp add: go_ok_def)
  have f: "follows t d" using follows_run [OF assms(1) follows_new dm_ok_New] assms(3) by simp
  then have prog: "map_option dp_pmtPID (map_of (dm_programs d) sid) = map_of (tb_programs t) sid"
    and emm: "set (dm_catEMM d) = cat_names (tb_cat t)"
    and pids: "\<And>program. map_of (dm_programs d) sid = Some program \<Longrightarrow>
          set (dp_pids program) = (case tb_pmt t sid of None \<Rightarrow> {} | Some pmt \<Rightarrow> pmt_names pmt)"
    unfolding follows_def by blast+
  obtain output' r where r: "servicePacket sid d output p = Some (output', r)" "output_ok output'"
      "ignored p = Some True \<or> \<not> Demuxer_HasService sid d \<longrightarrow> r = None"
      "\<forall>pid program. ignored p = Some False \<and> Packet_PID p = Some pid \<and> pid \<noteq> 0
           \<and> map_of (dm_programs d) sid = Some program \<longrightarrow>
          r = (if commonServicePID pid \<or> pid = dp_pmtPID program \<or> pid \<in> set (dp_pids program) \<or> pid \<in> set (dm_catEMM d)
               then Some p else None)"
    using servicePacket_ok [OF ok assms(2), of sid p] unfolding go_ok_def by auto
  show ?thesis
  proof (intro exI conjI allI impI)
    show "r = None" if "\<not> usable_packet p \<or> map_of (tb_programs t) sid = None"
      using that r(3) prog by (auto simp: ignored_iff Demuxer_HasService_def)
  next
    fix pid pmtPID
    assume a: "usable_packet p \<and> Packet_PID p = Some pid \<and> pid \<noteq> 0 \<and> map_of (tb_programs t) sid = Some pmtPID"
    then obtain program where program: "map_of (dm_programs d) sid = Some program" "dp_pmtPID program = pmtPID"
      using prog by auto
    have "pid \<in> set (dp_pids program) \<longleftrightarrow> (\<exists>pmt. tb_pmt t sid = Some pmt \<and> pid \<in> pmt_names pmt)"
      using pids [OF program(1)] by (auto split: option.splits)
    then show "r = (if pid \<in> {0x01, 0x10, 0x11, 0x12, 0x13, 0x14, 0x1e, 0x1f, 0x23, 0x24, 0x29} \<or> pid = pmtPID
                  \<or> (\<exists>pmt. tb_pmt t sid = Some pmt \<and> pid \<in> pmt_names pmt) \<or> pid \<in> cat_names (tb_cat t)
               then Some p else None)"
      using r(4) a program emm by (simp add: ignored_iff commonServicePID_def)
  qed (use r in simp_all)
qed

text \<open>A demultiplexer that has seen a PAT with one program and the PMT of this program.\<close>

definition sample_pat :: Section where
  "sample_pat = pat_body 0x7fe1 0x408 0x102 3 @ b32 (crc32MPEG2 (pat_body 0x7fe1 0x408 0x102 3))"

definition sample_pmt :: PMT where
  "sample_pmt = \<lparr> pmt_ProgramNumber = 0x408, pmt_VersionNumber = 3, pmt_PCRPID = 0x110,
     pmt_ProgramInfo = [9, 4, 0, 5, 0xe9, 0x01], pmt_Descriptors = [[9, 4, 0, 5, 0xe9, 0x01]],
     pmt_Elements = [\<lparr> pe_StreamType = 2, pe_ElementaryPID = 0x111, pe_ESInfo = [], pe_Descriptors = [] \<rparr>] \<rparr>"

definition section_packet :: "u16 \<Rightarrow> Section \<Rightarrow> packet" where
  "section_packet pid s = plain_packet pid True 0 (0 # s @ replicate (183 - length s) 0xff)"

lemma feed_section_packet:
  assumes d: "dm_ok d" and s: "good_section s" "s ! 0 \<noteq> 0xff" "length s \<le> 183" and pid: "pid < 0x1fff" "shouldAssemble pid d"
  shows "\<exists>d'. Demuxer_FeedWithPID (section_packet pid s) d = Some (d', [(pid, s)])"
proof -
  define a where "a = (case map_of (dm_assemblers d) pid of Some a \<Rightarrow> a | None \<Rightarrow> NewSectionAssembler pid)"
  have a: "sa_pid a = pid"
    using d by (auto simp: a_def dm_ok_def NewSectionAssembler_def split: option.split)
  have ne: "s \<noteq> []" using s(1) good_section_length by fastforce
  have le: "pid \<le> 0x1fff" using pid(1) by simp
  have "\<exists>sa'. feed_many SectionAssembler_FeedAll [section_packet pid s] a = Some (sa', [s]) \<and> sa_pid sa' = pid"
    using packetize_feed [OF le s(1,2) a, of 0] short_section_packets [OF s(3) ne, of pid 0]
    by (simp add: section_packet_def del: feed_many.simps)
  then obtain a' where f: "SectionAssembler_FeedAll (section_packet pid s) a = Some (a', [s])" "sa_pid a' = pid"
    by (auto split: bind_splits)
  let ?d = "d\<lparr> dm_assemblers := AList.update pid a' (dm_assemblers d) \<rparr>"
  have "dm_ok ?d" using d f(2) by (simp add: dm_ok_weaken)
  then obtain d2 where "dispatch_sections pid [s] ?d = Some d2"
    using dispatch_sections_ok [of ?d "[s]" pid] s(1) unfolding go_ok_def by auto
  moreover have "ignored (section_packet pid s) = Some False" "Packet_PID (section_packet pid s) = Some pid"
    using s(3) pid(1) le unfolding section_packet_def by (auto intro!: plain_not_ignored plain_packet_accessors)
  ultimately show ?thesis
    using f(1) pid(2) by (simp add: Demuxer_FeedWithPID_def del: dispatch_sections.simps flip: a_def)
qed

lemma sample_pat_seen:
  "tb_programs (see (0, sample_pat) no_tables) = [(0x408, 0x102)]"
  "tb_pmt (see (0, sample_pat) no_tables) 0x408 = None"
proof -
  obtain h where h: "ParseSectionHeader sample_pat = Some (Inr h)" "sh_CurrentNextIndicator h"
      "sh_SectionNumber h = 0" "sh_LastSectionNumber h = 0"
    by (simp add: ParseSectionHeader_def sample_pat_def pat_body_def version_byte_def total_length_def len12_def be16_def
        packet_defs Section_TableID_def Section_SectionSyntaxIndicator_def Section_SectionLength_def)
  define ps where "ps = \<lparr> tss_initialized = True, tss_extension = sh_TransportStreamID h,
             tss_version = sh_VersionNumber h, tss_last = 0, tss_sections = [(0, sample_pat)] \<rparr>"
  have add: "tableSectionSet_add sample_pat empty_tss = Some (ps, True, True)"
    by (simp add: tableSectionSet_add_def h tss_restart_def empty_tss_def ps_def section_numbers_def)
  have ord: "tableSectionSet_ordered ps = [sample_pat]"
    by (simp add: tableSectionSet_ordered_def ps_def section_numbers_def)
  have "ParsePAT sample_pat = Some (Inr \<lparr> pat_TransportStreamID = 0x7fe1, pat_VersionNumber = 3, pat_NetworkPID = 0,
      pat_Programs = [(0x408, 0x102)] \<rparr>)"
    using ParsePAT_Build [of "0x102" "0x408" "0x7fe1" 3] by (simp add: sample_pat_def)
  then have "combinePAT (tableSectionSet_ordered ps)
       \<lparr> pat_TransportStreamID = 0, pat_VersionNumber = 0, pat_NetworkPID = 0, pat_Programs = [] \<rparr>
     = Some (Inr \<lparr> pat_TransportStreamID = 0x7fe1, pat_VersionNumber = 3, pat_NetworkPID = 0, pat_Programs = [(0x408, 0x102)] \<rparr>)"
    by (simp add: ord)
  moreover have "sample_pat ! 0 = 0" by (simp add: sample_pat_def pat_body_def)
  ultimately show "tb_programs (see (0, sample_pat) no_tables) = [(0x408, 0x102)]"
      "tb_pmt (see (0, sample_pat) no_tables) 0x408 = None"
    using add by (simp_all add: see_def see_pat_def no_tables_def announce_def)
qed

lemma sample_run:
  defines "x \<equiv> section_bytes 0x02 (pmt_body sample_pmt)"
  obtains d out where "feed_many Demuxer_FeedWithPID [section_packet 0 sample_pat, section_packet 0x102 x] NewDemuxer = Some (d, out)"
    and "map_of (tb_programs (fold see out no_tables)) 0x408 = Some 0x102"
    and "tb_pmt (fold see out no_tables) 0x408 = Some sample_pmt"
proof -
  have s: "length sample_pat = 16" "sample_pat ! 0 = 0" "good_section sample_pat"
    using pat_section_good [of "0x7fe1" "0x408" "0x102" 3] by (simp_all add: sample_pat_def pat_body_def)
  have body: "length (pmt_body sample_pmt) = 20" by (simp add: pmt_body_def sample_pmt_def pmt_element_bytes_def)
  then have x: "good_section x" "length x = 27" "x ! 0 = 2"
    by (simp_all add: x_def section_bytes_good section_bytes_nth(1))
  have "pmt_ok sample_pmt" by (simp add: pmt_ok_def pmt_element_ok_def pmt_body_def len8_def sample_pmt_def pmt_element_bytes_def)
  then have parse: "ParsePMT x = Some (Inr sample_pmt)" unfolding x_def by (rule ParsePMT_encode)
  obtain d1 where d1: "Demuxer_FeedWithPID (section_packet 0 sample_pat) NewDemuxer = Some (d1, [(0, sample_pat)])"
    using feed_section_packet [OF dm_ok_New s(3), where pid = 0] s by (auto simp: shouldAssemble_def)
  have ok: "dm_ok d1" using FeedWithPID_ok [OF dm_ok_New, where p = "section_packet 0 sample_pat"] d1 by (simp add: go_ok_def)
  have f: "follows (see (0, sample_pat) no_tables) d1"
    using follows_feed [OF follows_new dm_ok_New d1] by simp
  have on: "program_on 0x102 (see (0, sample_pat) no_tables) = Some 0x408"
    by (simp add: program_on_def sample_pat_seen)
  then have "shouldAssemble 0x102 d1" using f by (simp add: shouldAssemble_def follows_def)
  then obtain d2 where "Demuxer_FeedWithPID (section_packet 0x102 x) d1 = Some (d2, [(0x102, x)])"
    using feed_section_packet [OF ok x(1), where pid = "0x102"] x by auto
  then have "feed_many Demuxer_FeedWithPID [section_packet 0 sample_pat, section_packet 0x102 x] NewDemuxer
      = Some (d2, [(0, sample_pat), (0x102, x)])"
    using d1 by simp
  moreover have "see (0x102, x) (see (0, sample_pat) no_tables) = (see (0, sample_pat) no_tables)\<lparr> tb_pmt :=
      (tb_pmt (see (0, sample_pat) no_tables))(0x408 \<mapsto> sample_pmt) \<rparr>"
    using on parse x(3) by (simp add: see_def see_pmt_def) (simp add: sample_pmt_def)
  ultimately show ?thesis using that sample_pat_seen by simp
qed

theorem servicePacket_filters_witness:
  "\<exists>d out. feed_many Demuxer_FeedWithPID
        [section_packet 0 sample_pat, section_packet 0x102 (section_bytes 0x02 (pmt_body sample_pmt))] NewDemuxer = Some (d, out)
     \<and> (\<exists>output'. servicePacket 0x408 d newOutput (plain_packet 0x901 True 9 (replicate 184 0))
                  = Some (output', Some (plain_packet 0x901 True 9 (replicate 184 0))))"
proof -
  obtain d out where r: "feed_many Demuxer_FeedWithPID
        [section_packet 0 sample_pat, section_packet 0x102 (section_bytes 0x02 (pmt_body sample_pmt))] NewDemuxer = Some (d, out)"
      "map_of (tb_programs (fold see out no_tables)) 0x408 = Some 0x102" "tb_pmt (fold see out no_tables) 0x408 = Some sample_pmt"
    by (rule sample_run)
  let ?p = "plain_packet 0x901 True 9 (replicate 184 0)"
  have p: "usable_packet ?p" "Packet_PID ?p = Some 0x901"
    using plain_not_ignored [of "replicate 184 0" "0x901" True 9] plain_packet_accessors(1) [of "0x901" "replicate 184 0" True 9]
    by (simp_all add: ignored_iff)
  have "0x901 \<in> pmt_names sample_pmt" by (simp add: pmt_names_def sample_pmt_def pid13_def be16_def)
  then show ?thesis
    using servicePacket_filters [OF r(1) output_ok_new refl, of "0x408" ?p] r p by auto
qed

end
