(* ===== verification/Step_Systems.thy ===== *)
theory Step_Systems
  imports Go_Prelude
begin

text \<open>
  Systems whose operations run one at a time under a lock: a predicate for the initial states,
  one that says when an operation can happen, and the operations, which may panic (\<open>None\<close>). The
  locale \<open>op_system\<close> is the contract of such a system with an invariant; the components that
  guard their state with a mutex are instances of it.
\<close>

inductive reach :: "('s \<Rightarrow> bool) \<Rightarrow> ('op \<Rightarrow> 's \<Rightarrow> bool) \<Rightarrow> ('op \<Rightarrow> 's \<Rightarrow> 's go) \<Rightarrow> 's \<Rightarrow> bool"
  for init :: "'s \<Rightarrow> bool" and enabled :: "'op \<Rightarrow> 's \<Rightarrow> bool" and exec :: "'op \<Rightarrow> 's \<Rightarrow> 's go" where
  start: "init s \<Longrightarrow> reach init enabled exec s"
| step: "reach init enabled exec s \<Longrightarrow> enabled op s \<Longrightarrow> exec op s = Some s' \<Longrightarrow> reach init enabled exec s'"

text \<open>Running a list of operations: \<open>None\<close> when one of them panics.\<close>

fun run_ops :: "('op \<Rightarrow> 's \<Rightarrow> 's go) \<Rightarrow> 'op list \<Rightarrow> 's \<Rightarrow> 's go" where
  "run_ops exec [] s = Some s"
| "run_ops exec (op # ops) s = do { s \<leftarrow> exec op s; run_ops exec ops s }"

fun all_enabled :: "('op \<Rightarrow> 's \<Rightarrow> bool) \<Rightarrow> ('op \<Rightarrow> 's \<Rightarrow> 's go) \<Rightarrow> 'op list \<Rightarrow> 's \<Rightarrow> bool" where
  "all_enabled enabled exec [] s \<longleftrightarrow> True"
| "all_enabled enabled exec (op # ops) s \<longleftrightarrow>
     enabled op s \<and> (case exec op s of Some s' \<Rightarrow> all_enabled enabled exec ops s' | None \<Rightarrow> True)"

lemma run_ops_reach:
  "\<lbrakk>reach init enabled exec s; all_enabled enabled exec ops s; run_ops exec ops s = Some s'\<rbrakk> \<Longrightarrow> reach init enabled exec s'"
proof (induction ops arbitrary: s)
  case (Cons op ops)
  then obtain s1 where "exec op s = Some s1" "run_ops exec ops s1 = Some s'" by (auto split: bind_splits)
  then show ?case using Cons.prems Cons.IH [of s1] reach.step [of init enabled exec s op s1] by simp
qed simp

locale op_system =
  fixes init :: "'s \<Rightarrow> bool"
    and enabled :: "'op \<Rightarrow> 's \<Rightarrow> bool"
    and exec :: "'op \<Rightarrow> 's \<Rightarrow> 's go"
    and inv :: "'s \<Rightarrow> bool"
  assumes init_inv: "init s \<Longrightarrow> inv s"
    and step_inv: "inv s \<Longrightarrow> enabled op s \<Longrightarrow> go_ok (exec op s) inv"
begin

lemma reach_inv: "reach init enabled exec s \<Longrightarrow> inv s"
proof (induction rule: reach.induct)
  case (step s op s')
  then show ?case using step_inv [of s op] by (simp add: go_ok_def)
qed (rule init_inv)

lemma reach_total: "reach init enabled exec s \<Longrightarrow> enabled op s \<Longrightarrow> \<exists>s'. exec op s = Some s' \<and> inv s'"
  using step_inv [OF reach_inv] by (simp add: go_ok_def)

lemma run_total: "inv s \<Longrightarrow> all_enabled enabled exec ops s \<Longrightarrow> go_ok (run_ops exec ops s) inv"
proof (induction ops arbitrary: s)
  case (Cons op ops)
  then obtain s1 where "exec op s = Some s1" "inv s1" using step_inv [of s op] by (auto simp: go_ok_def)
  then show ?case using Cons by simp
qed simp

end

end
