(* ===== verification/Job_Manager.thy ===== *)
theory Job_Manager
  imports Step_Systems
begin

text \<open>
  The job manager of \<open>internal/job/manager.go\<close> and the job data of \<open>internal/job/job.go\<close>. Each
  operation is one critical section of \<open>m.mu\<close>; the goroutines the manager starts appear as the
  operations they run when they take the lock: \<open>run_complete\<close> is the end of \<open>run\<close>, after the
  handler returned, and \<open>retry_timer\<close> is what a retry timer does when it fires.

  Jobs are shared through pointers (the history, the queue, the goroutines), so they live in a
  store \<open>jm_jobs\<close>, addressed by the job's ID, which \<open>uuid.New()\<close> makes unique and which the
  operations take as an argument, as they take the time. The clock is read once per operation.
  A \<open>map[string]bool\<close> that only holds \<open>true\<close> is the list of its keys. The channel \<open>done\<close> is the flag
  that it has been closed; closing it again is a panic (\<open>None\<close>). The channel \<open>changed\<close> is the
  number of times it has been replaced. Logging, metrics and spans are left out; of the
  \<open>gocron\<close> scheduler only what it returns is used, as an argument.
\<close>

section \<open>Jobs\<close>

datatype JobStatus = StatusQueued | StatusStandby | StatusRunning | StatusFinished

fun status_string :: "JobStatus \<Rightarrow> string" where
  "status_string StatusQueued = ''queued''"
| "status_string StatusStandby = ''standby''"
| "status_string StatusRunning = ''running''"
| "status_string StatusFinished = ''finished''"

text \<open>An \<open>error\<close> as the manager uses it: its text, and whether \<open>errors.Is(err, context.Canceled)\<close>.\<close>

datatype goerror = GoError (err_text: string) (err_canceled: bool)

definition context_Canceled :: goerror where
  "context_Canceled = GoError ''context canceled'' True"

datatype job_error = ErrDefinitionNotFound | ErrInvalidDefinition | ErrManagerShutdown | ErrJobNotFound
  | ErrJobNotRunning | ErrJobNotRerunnable | ErrJobAlreadyRunning | ErrScheduler goerror

type_synonym jobid = string

text \<open>\<open>jd_Handler\<close> says that the handler is not nil; what it returns is an argument of \<open>run_complete\<close>.\<close>

record JobDefinition =
  jd_Key :: string
  jd_Name :: string
  jd_Handler :: bool
  jd_DependsOn :: "string list"
  jd_ExclusiveKeys :: "string list"
  jd_IsRerunnable :: bool
  jd_RetryDelays :: "int list"
  jd_RetryIf :: "(goerror \<Rightarrow> bool) option"

record run_Result =
  rr_Kind :: string
  rr_Summary :: string
  rr_Counts :: "(string, int) gomap"
  rr_Warnings :: "string list"

text \<open>
  The exported fields of a job, and the job as the manager holds it. The copies that \<open>GetJobs\<close> and
  \<open>Wait\<close> hand out, with \<open>definition\<close> and \<open>done\<close> set to nil, are the exported part. \<open>Clone\<close> of a
  result, a deep copy, is the value itself. Times and durations are nanoseconds.
\<close>

record Job =
  j_ID :: jobid
  j_Key :: string
  j_Name :: string
  j_Status :: JobStatus
  j_RetryCount :: int
  j_IsAborting :: bool
  j_HasAborted :: bool
  j_HasSkipped :: bool
  j_HasFailed :: bool
  j_Error :: string
  j_Result :: "run_Result option"
  j_CreatedAt :: int
  j_UpdatedAt :: int
  j_StartedAt :: "int option"
  j_FinishedAt :: "int option"
  j_NextRunAt :: "int option"

record Job_item = Job +
  j_definition :: JobDefinition
  j_done :: bool

definition Job_copy :: "Job_item \<Rightarrow> Job" where
  "Job_copy item = Job.truncate item"

datatype job_value = JStr string | JInt int | JBool bool | JResult run_Result

definition UnixMilli :: "int \<Rightarrow> int" where
  "UnixMilli t = t div 1000000"

definition Milliseconds :: "int \<Rightarrow> int" where
  "Milliseconds d = (if d < 0 then - (- d div 1000000) else d div 1000000)"

definition Job_EventData :: "Job_item \<Rightarrow> (string, job_value) gomap" where
  "Job_EventData j =
     [(''key'', JStr (j_Key j)), (''name'', JStr (j_Name j)), (''id'', JStr (j_ID j)),
      (''status'', JStr (status_string (j_Status j))), (''retryCount'', JInt (j_RetryCount j)),
      (''isAborting'', JBool (j_IsAborting j)), (''hasAborted'', JBool (j_HasAborted j)),
      (''hasSkipped'', JBool (j_HasSkipped j)), (''hasFailed'', JBool (j_HasFailed j)),
      (''createdAt'', JInt (UnixMilli (j_CreatedAt j))), (''updatedAt'', JInt (UnixMilli (j_UpdatedAt j))),
      (''isRerunnable'', JBool (jd_IsRerunnable (j_definition j))), (''retryOnAbort'', JBool False)]
     @ (case jd_RetryDelays (j_definition j) of
          [] \<Rightarrow> []
        | d # ds \<Rightarrow> [(''retryOnFail'', JBool True), (''retryMax'', JInt (blen (d # ds))), (''retryDelay'', JInt (Milliseconds d))])
     @ (if j_Error j \<noteq> [] then [(''error'', JStr (j_Error j))] else [])
     @ (case j_Result j of Some r \<Rightarrow> [(''result'', JResult r)] | None \<Rightarrow> [])
     @ (case j_StartedAt j of Some t \<Rightarrow> [(''startedAt'', JInt (UnixMilli t))] | None \<Rightarrow> [])
     @ (case j_FinishedAt j of
          Some t \<Rightarrow> (''finishedAt'', JInt (UnixMilli t))
            # (case j_StartedAt j of Some s \<Rightarrow> [(''duration'', JInt (Milliseconds (t - s)))] | None \<Rightarrow> [])
        | None \<Rightarrow> [])
     @ (case j_NextRunAt j of Some t \<Rightarrow> [(''nextRunAt'', JInt (UnixMilli t))] | None \<Rightarrow> [])"

record ScheduleInfo =
  si_Key :: string
  si_Schedule :: string
  si_JobKey :: string
  si_JobName :: string

section \<open>The manager\<close>

datatype job_event = JobEvent string "(string, job_value) gomap" | JobScheduleEvent string ScheduleInfo

record JobManager =
  jm_definitions :: "(string, JobDefinition) gomap"
  jm_gocronIDs :: "(string, string) gomap"
  jm_jobs :: "jobid \<Rightarrow> Job_item"
  jm_history :: "jobid list"
  jm_queue :: "jobid list"
  jm_active :: "jobid list"
  jm_cancelled :: "jobid list"
  jm_activeKeys :: "string list"
  jm_activeExclusiveKeys :: "string list"
  jm_running :: int
  jm_maxConcurrent :: int
  jm_maxHistory :: int
  jm_shutdown :: bool
  jm_changed :: nat
  jm_publisher :: bool
  jm_events :: "job_event list"

text \<open>An address of the store that no job has been put at: no operation reaches it.\<close>

definition no_job :: Job_item where
  "no_job = \<lparr> j_ID = [], j_Key = [], j_Name = [], j_Status = StatusFinished, j_RetryCount = 0, j_IsAborting = False,
     j_HasAborted = False, j_HasSkipped = False, j_HasFailed = False, j_Error = [], j_Result = None,
     j_CreatedAt = 0, j_UpdatedAt = 0, j_StartedAt = None, j_FinishedAt = None, j_NextRunAt = None,
     j_definition = \<lparr> jd_Key = [], jd_Name = [], jd_Handler = False, jd_DependsOn = [], jd_ExclusiveKeys = [],
        jd_IsRerunnable = False, jd_RetryDelays = [], jd_RetryIf = None \<rparr>, j_done = True \<rparr>"

definition NewManager :: "int \<Rightarrow> int \<Rightarrow> bool \<Rightarrow> JobManager" where
  "NewManager maxHistory maxConcurrentJobs hasPublisher =
     \<lparr> jm_definitions = [], jm_gocronIDs = [], jm_jobs = (\<lambda>_. no_job), jm_history = [], jm_queue = [],
       jm_active = [], jm_cancelled = [], jm_activeKeys = [], jm_activeExclusiveKeys = [], jm_running = 0,
       jm_maxConcurrent = (if maxConcurrentJobs \<le> 0 then 1 else maxConcurrentJobs),
       jm_maxHistory = (if maxHistory \<le> 0 then 100 else maxHistory),
       jm_shutdown = False, jm_changed = 0, jm_publisher = hasPublisher, jm_events = [] \<rparr>"

definition put_job :: "jobid \<Rightarrow> Job_item \<Rightarrow> JobManager \<Rightarrow> JobManager" where
  "put_job jid item m = m\<lparr> jm_jobs := (jm_jobs m)(jid := item) \<rparr>"

definition publishJobChangeLocked :: "string \<Rightarrow> jobid \<Rightarrow> JobManager \<Rightarrow> JobManager" where
  "publishJobChangeLocked typ jid m =
     m\<lparr> jm_changed := Suc (jm_changed m),
        jm_events := (if jm_publisher m then jm_events m @ [JobEvent typ (Job_EventData (jm_jobs m jid))] else jm_events m) \<rparr>"

definition findJob :: "jobid \<Rightarrow> JobManager \<Rightarrow> jobid option" where
  "findJob jid m = find (\<lambda>x. j_ID (jm_jobs m x) = jid) (jm_history m)"

section \<open>History\<close>

fun remove_first :: "('a \<Rightarrow> bool) \<Rightarrow> 'a list \<Rightarrow> 'a list option" where
  "remove_first P [] = None"
| "remove_first P (x # xs) = (if P x then Some xs else map_option ((#) x) (remove_first P xs))"

lemma remove_first_length: "remove_first P xs = Some ys \<Longrightarrow> length ys < length xs"
  by (induction xs arbitrary: ys) (auto split: if_splits)

function trim :: "('a \<Rightarrow> bool) \<Rightarrow> int \<Rightarrow> 'a list \<Rightarrow> 'a list" where
  "trim finished mx history =
     (if blen history > mx
      then (case remove_first finished history of Some h \<Rightarrow> trim finished mx h | None \<Rightarrow> history)
      else history)"
  by pat_completeness auto
termination
  by (relation "measure (\<lambda>(_, _, h). length h)") (auto dest: remove_first_length)

declare trim.simps [simp del]

definition trimHistory :: "JobManager \<Rightarrow> JobManager" where
  "trimHistory m = m\<lparr> jm_history := trim (\<lambda>jid. j_Status (jm_jobs m jid) = StatusFinished) (jm_maxHistory m) (jm_history m) \<rparr>"

definition addHistoryLocked :: "jobid \<Rightarrow> JobManager \<Rightarrow> JobManager" where
  "addHistoryLocked jid m = trimHistory (m\<lparr> jm_history := jm_history m @ [jid] \<rparr>)"

section \<open>Running and finishing\<close>

definition dependenciesSatisfiedLocked :: "string list \<Rightarrow> string list \<Rightarrow> JobManager \<Rightarrow> bool" where
  "dependenciesSatisfiedLocked dependencies exclusiveKeys m \<longleftrightarrow>
     list_all (\<lambda>key. key \<notin> set (jm_activeKeys m)) dependencies
     \<and> list_all (\<lambda>key. key \<notin> set (jm_activeExclusiveKeys m)) exclusiveKeys"

definition runnable :: "JobManager \<Rightarrow> jobid \<Rightarrow> bool" where
  "runnable m jid = (let def = j_definition (jm_jobs m jid)
     in dependenciesSatisfiedLocked (jd_DependsOn def) (jd_ExclusiveKeys def) m)"

definition popRunnableQueueLocked :: "JobManager \<Rightarrow> (jobid \<times> JobManager) option" where
  "popRunnableQueueLocked m =
     (case (find (runnable m) (jm_queue m), remove_first (runnable m) (jm_queue m)) of
        (Some jid, Some queue) \<Rightarrow> Some (jid, m\<lparr> jm_queue := queue \<rparr>)
      | _ \<Rightarrow> None)"

definition startJobLocked :: "jobid \<Rightarrow> int \<Rightarrow> JobManager \<Rightarrow> JobManager" where
  "startJobLocked jid now m =
     (let item = (jm_jobs m jid)\<lparr> j_Status := StatusRunning, j_StartedAt := Some now, j_UpdatedAt := now \<rparr>;
          m = put_job jid item m;
          m = m\<lparr> jm_active := List.insert jid (jm_active m),
                 jm_activeExclusiveKeys := fold List.insert (jd_ExclusiveKeys (j_definition item)) (jm_activeExclusiveKeys m),
                 jm_running := jm_running m + 1 \<rparr>
      in publishJobChangeLocked ''update'' jid m)"

lemma popRunnable_shorter:
  "popRunnableQueueLocked m = Some (jid, m') \<Longrightarrow> length (jm_queue (startJobLocked jid now m')) < length (jm_queue m)"
  by (auto simp: popRunnableQueueLocked_def startJobLocked_def publishJobChangeLocked_def put_job_def Let_def
      split: option.splits dest: remove_first_length)

function dispatchLocked :: "int \<Rightarrow> JobManager \<Rightarrow> JobManager" where
  "dispatchLocked now m =
     (if jm_running m < jm_maxConcurrent m \<and> jm_queue m \<noteq> [] \<and> \<not> jm_shutdown m
      then (case popRunnableQueueLocked m of
              None \<Rightarrow> m
            | Some (jid, m') \<Rightarrow> dispatchLocked now (startJobLocked jid now m'))
      else m)"
  by pat_completeness auto
termination
  by (relation "measure (\<lambda>(_, m). length (jm_queue m))") (auto dest: popRunnable_shorter)

declare dispatchLocked.simps [simp del]

definition finishLocked :: "jobid \<Rightarrow> goerror option \<Rightarrow> bool \<Rightarrow> int \<Rightarrow> JobManager \<Rightarrow> JobManager go" where
  "finishLocked jid err aborted now m =
     (let item = jm_jobs m jid in
      if j_Status item = StatusFinished then Some m
      else
        let item = item\<lparr> j_Status := StatusFinished, j_UpdatedAt := now, j_FinishedAt := Some now, j_NextRunAt := None,
                         j_HasAborted := j_HasAborted item \<or> aborted \<rparr>;
            item = (case err of
                      Some e \<Rightarrow> if \<not> j_HasAborted item \<and> \<not> err_canceled e
                                then item\<lparr> j_HasFailed := True, j_Error := err_text e \<rparr> else item
                    | None \<Rightarrow> item);
            m = m\<lparr> jm_activeKeys := removeAll (j_Key item) (jm_activeKeys m) \<rparr>
        in if j_done item then None
           else Some (trimHistory (publishJobChangeLocked ''update'' jid (put_job jid (item\<lparr> j_done := True \<rparr>) m))))"

definition completeActiveLocked :: "jobid \<Rightarrow> JobManager \<Rightarrow> JobManager" where
  "completeActiveLocked jid m =
     m\<lparr> jm_active := removeAll jid (jm_active m),
        jm_activeExclusiveKeys := fold removeAll (jd_ExclusiveKeys (j_definition (jm_jobs m jid))) (jm_activeExclusiveKeys m),
        jm_running := jm_running m - 1 \<rparr>"

definition shouldRetryLocked :: "jobid \<Rightarrow> goerror option \<Rightarrow> JobManager \<Rightarrow> bool" where
  "shouldRetryLocked jid err m =
     (case err of
        None \<Rightarrow> False
      | Some e \<Rightarrow>
          let item = jm_jobs m jid; def = j_definition item in
          if err_canceled e \<or> j_RetryCount item \<ge> blen (jd_RetryDelays def) \<or> jm_shutdown m then False
          else (case jd_RetryIf def of None \<Rightarrow> True | Some retryIf \<Rightarrow> retryIf e))"

definition standbyLocked :: "jobid \<Rightarrow> goerror \<Rightarrow> int \<Rightarrow> JobManager \<Rightarrow> JobManager go" where
  "standbyLocked jid err now m = do {
     let item = jm_jobs m jid;
     delay \<leftarrow> idx (jd_RetryDelays (j_definition item)) (j_RetryCount item);
     let item = item\<lparr> j_RetryCount := j_RetryCount item + 1, j_Status := StatusStandby, j_UpdatedAt := now,
                      j_NextRunAt := Some (now + delay), j_Error := err_text err \<rparr>;
     Some (publishJobChangeLocked ''update'' jid (put_job jid item m)) }"

text \<open>The end of \<open>run\<close>, with what the handler returned.\<close>

definition run_complete :: "jobid \<Rightarrow> goerror option \<Rightarrow> int \<Rightarrow> JobManager \<Rightarrow> JobManager go" where
  "run_complete jid err now m = do {
     let m = completeActiveLocked jid m;
     m \<leftarrow> (case err of
             Some e \<Rightarrow> if \<not> j_HasAborted (jm_jobs m jid) \<and> shouldRetryLocked jid err m then standbyLocked jid e now m
                       else finishLocked jid err (j_HasAborted (jm_jobs m jid)) now m
           | None \<Rightarrow> finishLocked jid err (j_HasAborted (jm_jobs m jid)) now m);
     Some (dispatchLocked now m) }"

definition retryToQueueLocked :: "jobid \<Rightarrow> int \<Rightarrow> JobManager \<Rightarrow> JobManager" where
  "retryToQueueLocked jid now m =
     (let item = (jm_jobs m jid)\<lparr> j_Status := StatusQueued, j_UpdatedAt := now, j_NextRunAt := None \<rparr>;
          m = put_job jid item m;
          m = m\<lparr> jm_queue := jm_queue m @ [jid] \<rparr>
      in publishJobChangeLocked ''update'' jid m)"

text \<open>What the goroutine of \<open>standbyLocked\<close> does after its timer fired or the shutdown woke it.\<close>

definition retry_timer :: "jobid \<Rightarrow> int \<Rightarrow> JobManager \<Rightarrow> JobManager" where
  "retry_timer jid now m =
     (let item = jm_jobs m jid in
      if j_Status item \<noteq> StatusStandby \<or> j_HasAborted item \<or> jm_shutdown m then m
      else dispatchLocked now (retryToQueueLocked jid now m))"

section \<open>Operations of the API\<close>

definition Register :: "JobDefinition \<Rightarrow> JobManager \<Rightarrow> JobManager" where
  "Register def m = m\<lparr> jm_definitions := AList.update (jd_Key def) def (jm_definitions m) \<rparr>"

text \<open>\<open>scheduled\<close> is what the scheduler's \<open>NewJob\<close> returns: an error, or the identifier of its job.\<close>

definition AddSchedule :: "string \<Rightarrow> string \<Rightarrow> goerror + string \<Rightarrow> JobManager \<Rightarrow> JobManager \<times> job_error option" where
  "AddSchedule key schedule scheduled m =
     (case map_of (jm_definitions m) key of
        None \<Rightarrow> (m, Some ErrDefinitionNotFound)
      | Some def \<Rightarrow>
          (case scheduled of
             Inl e \<Rightarrow> (m, Some (ErrScheduler e))
           | Inr uuid \<Rightarrow>
               let m = m\<lparr> jm_gocronIDs := AList.update key uuid (jm_gocronIDs m) \<rparr>
               in (m\<lparr> jm_events := (if jm_publisher m
                     then jm_events m @ [JobScheduleEvent ''create'' \<lparr> si_Key = key, si_Schedule = schedule, si_JobKey = key, si_JobName = jd_Name def \<rparr>]
                     else jm_events m) \<rparr>, None)))"

definition new_job :: "jobid \<Rightarrow> JobDefinition \<Rightarrow> int \<Rightarrow> Job_item" where
  "new_job jid def now =
     \<lparr> j_ID = jid, j_Key = jd_Key def, j_Name = jd_Name def, j_Status = StatusQueued, j_RetryCount = 0,
       j_IsAborting = False, j_HasAborted = False, j_HasSkipped = False, j_HasFailed = False, j_Error = [],
       j_Result = None, j_CreatedAt = now, j_UpdatedAt = now, j_StartedAt = None, j_FinishedAt = None,
       j_NextRunAt = None, j_definition = def, j_done = False \<rparr>"

definition enqueueLocked :: "JobDefinition \<Rightarrow> jobid \<Rightarrow> int \<Rightarrow> JobManager \<Rightarrow> JobManager \<times> (job_error + jobid)" where
  "enqueueLocked def jid now m =
     (if jm_shutdown m then (m, Inl ErrManagerShutdown)
      else if jd_Key def = [] \<or> \<not> jd_Handler def then (m, Inl ErrInvalidDefinition)
      else if jd_Key def \<in> set (jm_activeKeys m) then (m, Inl ErrJobAlreadyRunning)
      else
        let m = put_job jid (new_job jid def now) m;
            m = addHistoryLocked jid m;
            m = m\<lparr> jm_queue := jm_queue m @ [jid] \<rparr>;
            m = m\<lparr> jm_activeKeys := List.insert (jd_Key def) (jm_activeKeys m) \<rparr>;
            m = publishJobChangeLocked ''create'' jid m
        in (dispatchLocked now m, Inr jid))"

definition Enqueue :: "string \<Rightarrow> jobid \<Rightarrow> int \<Rightarrow> JobManager \<Rightarrow> JobManager \<times> (job_error + jobid)" where
  "Enqueue key jid now m =
     (case map_of (jm_definitions m) key of
        None \<Rightarrow> (m, Inl ErrDefinitionNotFound)
      | Some def \<Rightarrow> enqueueLocked def jid now m)"

definition EnqueueDefinition :: "JobDefinition \<Rightarrow> jobid \<Rightarrow> int \<Rightarrow> JobManager \<Rightarrow> JobManager \<times> (job_error + jobid)" where
  "EnqueueDefinition def jid now m = enqueueLocked def jid now m"

text \<open>The task that a schedule runs: a job that is queued or running already is not an error.\<close>

definition wrapHandler :: "JobDefinition \<Rightarrow> jobid \<Rightarrow> int \<Rightarrow> JobManager \<Rightarrow> JobManager \<times> job_error option" where
  "wrapHandler def jid now m =
     (let (m, r) = Enqueue (jd_Key def) jid now m
      in (m, case r of Inl e \<Rightarrow> if e = ErrJobAlreadyRunning then None else Some e | Inr _ \<Rightarrow> None))"

definition abortPendingLocked :: "jobid \<Rightarrow> int \<Rightarrow> JobManager \<Rightarrow> JobManager go" where
  "abortPendingLocked jid now m =
     finishLocked jid (Some context_Canceled) True now (put_job jid ((jm_jobs m jid)\<lparr> j_IsAborting := True \<rparr>) m)"

definition abortActiveLocked :: "jobid \<Rightarrow> int \<Rightarrow> JobManager \<Rightarrow> JobManager \<times> bool" where
  "abortActiveLocked jid now m =
     (if jid \<notin> set (jm_active m) then (m, False)
      else
        let m = (case findJob jid m of
                   Some x \<Rightarrow> publishJobChangeLocked ''update'' x
                     (put_job x ((jm_jobs m x)\<lparr> j_IsAborting := True, j_HasAborted := True, j_UpdatedAt := now \<rparr>) m)
                 | None \<Rightarrow> m)
        in (m\<lparr> jm_cancelled := List.insert jid (jm_cancelled m) \<rparr>, True))"

definition abortQueuedLocked :: "jobid \<Rightarrow> int \<Rightarrow> JobManager \<Rightarrow> (JobManager \<times> bool) go" where
  "abortQueuedLocked jid now m =
     (case (find (\<lambda>x. j_ID (jm_jobs m x) = jid) (jm_queue m), remove_first (\<lambda>x. j_ID (jm_jobs m x) = jid) (jm_queue m)) of
        (Some x, Some queue) \<Rightarrow> do { m \<leftarrow> abortPendingLocked x now (m\<lparr> jm_queue := queue \<rparr>); Some (m, True) }
      | _ \<Rightarrow> Some (m, False))"

definition abortStandbyLocked :: "jobid \<Rightarrow> int \<Rightarrow> JobManager \<Rightarrow> (JobManager \<times> bool) go" where
  "abortStandbyLocked jid now m =
     (case findJob jid m of
        None \<Rightarrow> Some (m, False)
      | Some x \<Rightarrow>
          if j_Status (jm_jobs m x) \<noteq> StatusStandby then Some (m, False)
          else do {
            m \<leftarrow> abortPendingLocked x now (put_job x ((jm_jobs m x)\<lparr> j_HasAborted := True \<rparr>) m);
            Some (m, True) })"

definition Abort :: "jobid \<Rightarrow> int \<Rightarrow> JobManager \<Rightarrow> (JobManager \<times> job_error option) go" where
  "Abort jid now m =
     (let (m, ok) = abortActiveLocked jid now m in
      if ok then Some (m, None)
      else do {
        (m, ok) \<leftarrow> abortQueuedLocked jid now m;
        if ok then Some (m, None)
        else do {
          (m, ok) \<leftarrow> abortStandbyLocked jid now m;
          if ok then Some (m, None) else Some (m, Some ErrJobNotRunning) } })"

text \<open>
  \<open>Rerun\<close> reads the definition in one critical section and enqueues it in another; a definition
  never changes, so nothing that happens in between changes what is enqueued.
\<close>

definition Rerun_lookup :: "jobid \<Rightarrow> JobManager \<Rightarrow> job_error + JobDefinition" where
  "Rerun_lookup jid m =
     (case findJob jid m of
        None \<Rightarrow> Inl ErrJobNotFound
      | Some x \<Rightarrow>
          let def = j_definition (jm_jobs m x)
          in if jd_IsRerunnable def then Inr def else Inl ErrJobNotRerunnable)"

definition Rerun :: "jobid \<Rightarrow> jobid \<Rightarrow> int \<Rightarrow> JobManager \<Rightarrow> JobManager \<times> job_error option" where
  "Rerun jid newID now m =
     (case Rerun_lookup jid m of
        Inl e \<Rightarrow> (m, Some e)
      | Inr def \<Rightarrow>
          (case EnqueueDefinition def newID now m of
             (m, Inl e) \<Rightarrow> (m, Some e)
           | (m, Inr _) \<Rightarrow> (m, None)))"

text \<open>\<open>scheduled\<close> lists the scheduler's jobs by identifier, with what \<open>RunNow\<close> returns for each.\<close>

definition RunSchedule :: "string \<Rightarrow> (string \<times> goerror option) list \<Rightarrow> JobManager \<Rightarrow> job_error option" where
  "RunSchedule key scheduled m =
     (case map_of (jm_gocronIDs m) key of
        None \<Rightarrow> Some ErrDefinitionNotFound
      | Some gocronID \<Rightarrow>
          (case map_of scheduled gocronID of
             Some r \<Rightarrow> map_option ErrScheduler r
           | None \<Rightarrow> Some ErrJobNotFound))"

definition GetJobs :: "JobManager \<Rightarrow> Job list" where
  "GetJobs m = map (\<lambda>jid. Job_copy (jm_jobs m jid)) (jm_history m)"

fun prefix_keys :: "string \<Rightarrow> Job_item list \<Rightarrow> string list \<Rightarrow> string list" where
  "prefix_keys prefx [] result = result"
| "prefix_keys prefx (item # rest) result =
     (if j_Status item = StatusFinished \<or> take (length prefx) (j_Key item) \<noteq> prefx \<or> j_Key item \<in> set result
      then prefix_keys prefx rest result
      else prefix_keys prefx rest (result @ [j_Key item]))"

definition GetActiveJobKeysByPrefix :: "string \<Rightarrow> JobManager \<Rightarrow> string list" where
  "GetActiveJobKeysByPrefix prefx m = prefix_keys prefx (map (jm_jobs m) (jm_history m)) []"

text \<open>What \<open>Wait\<close> returns at this moment: an error, nothing yet (it blocks), or the finished job.\<close>

definition Wait_poll :: "jobid \<Rightarrow> JobManager \<Rightarrow> job_error + Job option" where
  "Wait_poll jid m =
     (case findJob jid m of
        None \<Rightarrow> Inl ErrJobNotFound
      | Some x \<Rightarrow> Inr (if j_done (jm_jobs m x) then Some (Job_copy (jm_jobs m x)) else None))"

definition setJobResult :: "jobid \<Rightarrow> run_Result \<Rightarrow> int \<Rightarrow> JobManager \<Rightarrow> JobManager" where
  "setJobResult jid result now m =
     (let item = jm_jobs m jid in
      if j_Status item = StatusFinished then m
      else publishJobChangeLocked ''update'' jid
             (put_job jid (item\<lparr> j_Result := Some result, j_UpdatedAt := now \<rparr>) m))"

section \<open>Shutdown\<close>

text \<open>
  \<open>for _, item := range m.history\<close> evaluates the slice once, but \<open>finishLocked\<close> may call
  \<open>trimHistory\<close>, whose \<open>append(m.history[:i], m.history[i+1:]...)\<close> shifts the elements of the same
  backing array: \<open>arr\<close> is that array, up to the length the loop started with.
\<close>

fun abort_standby_loop :: "nat \<Rightarrow> nat \<Rightarrow> jobid list \<Rightarrow> int \<Rightarrow> JobManager \<Rightarrow> JobManager go" where
  "abort_standby_loop 0 i arr now m = Some m"
| "abort_standby_loop (Suc n) i arr now m =
     (let jid = arr ! i in
      if j_Status (jm_jobs m jid) = StatusStandby
      then do {
        m \<leftarrow> abortPendingLocked jid now m;
        abort_standby_loop n (Suc i) (jm_history m @ drop (length (jm_history m)) arr) now m }
      else abort_standby_loop n (Suc i) arr now m)"

fun abort_all :: "jobid list \<Rightarrow> int \<Rightarrow> JobManager \<Rightarrow> JobManager go" where
  "abort_all [] now m = Some m"
| "abort_all (jid # rest) now m = do { m \<leftarrow> abortPendingLocked jid now m; abort_all rest now m }"

definition abortQueuedAndStandbyLocked :: "int \<Rightarrow> JobManager \<Rightarrow> JobManager go" where
  "abortQueuedAndStandbyLocked now m = do {
     let queued = jm_queue m;
     m \<leftarrow> abort_all queued now (m\<lparr> jm_queue := [] \<rparr>);
     abort_standby_loop (length (jm_history m)) 0 (jm_history m) now m }"

definition cancelActiveLocked :: "JobManager \<Rightarrow> JobManager" where
  "cancelActiveLocked m = m\<lparr> jm_cancelled := fold List.insert (jm_active m) (jm_cancelled m) \<rparr>"

text \<open>
  \<open>Shutdown\<close> up to the point where it waits for the scheduler and the goroutines. It cancels the
  context before it takes the lock: \<open>OpShutdownCancel\<close> below is that moment on its own.
\<close>

definition shutdownCancel :: "JobManager \<Rightarrow> JobManager" where
  "shutdownCancel m = m\<lparr> jm_shutdown := True \<rparr>"

definition Shutdown :: "int \<Rightarrow> JobManager \<Rightarrow> JobManager go" where
  "Shutdown now m = do {
     m \<leftarrow> abortQueuedAndStandbyLocked now (shutdownCancel m);
     Some (cancelActiveLocked m) }"

section \<open>Histories of operations\<close>

datatype job_op =
    OpRegister JobDefinition
  | OpAddSchedule string string "goerror + string"
  | OpEnqueue string jobid
  | OpEnqueueDefinition JobDefinition jobid
  | OpRunComplete jobid "goerror option"
  | OpRetryTimer jobid
  | OpAbort jobid
  | OpRerun jobid jobid
  | OpSetJobResult jobid run_Result
  | OpShutdownCancel
  | OpShutdown

fun job_exec :: "job_op \<Rightarrow> int \<Rightarrow> JobManager \<Rightarrow> JobManager go" where
  "job_exec (OpRegister def) now m = Some (Register def m)"
| "job_exec (OpAddSchedule key schedule scheduled) now m = Some (fst (AddSchedule key schedule scheduled m))"
| "job_exec (OpEnqueue key jid) now m = Some (fst (Enqueue key jid now m))"
| "job_exec (OpEnqueueDefinition def jid) now m = Some (fst (EnqueueDefinition def jid now m))"
| "job_exec (OpRunComplete jid err) now m = run_complete jid err now m"
| "job_exec (OpRetryTimer jid) now m = Some (retry_timer jid now m)"
| "job_exec (OpAbort jid) now m = map_option fst (Abort jid now m)"
| "job_exec (OpRerun jid newID) now m = Some (fst (Rerun jid newID now m))"
| "job_exec (OpSetJobResult jid result) now m = Some (setJobResult jid result now m)"
| "job_exec OpShutdownCancel now m = Some (shutdownCancel m)"
| "job_exec OpShutdown now m = Shutdown now m"

text \<open>
  When an operation can happen: a new ID is one no job of the history has; a handler returns once
  for each job that is running.
\<close>

fun job_enabled :: "job_op \<Rightarrow> JobManager \<Rightarrow> bool" where
  "job_enabled (OpEnqueue key jid) m \<longleftrightarrow> jid \<notin> set (jm_history m)"
| "job_enabled (OpEnqueueDefinition def jid) m \<longleftrightarrow> jid \<notin> set (jm_history m)"
| "job_enabled (OpRerun jid newID) m \<longleftrightarrow> newID \<notin> set (jm_history m)"
| "job_enabled (OpRunComplete jid err) m \<longleftrightarrow> jid \<in> set (jm_active m)"
| "job_enabled _ m \<longleftrightarrow> True"

text \<open>The reachable states; an operation comes with the time at which it happens.\<close>

definition jm_init :: "JobManager \<Rightarrow> bool" where
  "jm_init m \<longleftrightarrow> (\<exists>maxHistory maxConcurrentJobs hasPublisher. m = NewManager maxHistory maxConcurrentJobs hasPublisher)"

abbreviation job_step_enabled :: "job_op \<times> int \<Rightarrow> JobManager \<Rightarrow> bool" where
  "job_step_enabled \<equiv> \<lambda>(op, now). job_enabled op"

abbreviation job_step :: "job_op \<times> int \<Rightarrow> JobManager \<Rightarrow> JobManager go" where
  "job_step \<equiv> \<lambda>(op, now). job_exec op now"

abbreviation jm_reach :: "JobManager \<Rightarrow> bool" where
  "jm_reach \<equiv> reach jm_init job_step_enabled job_step"

end
