(* ===== verification/Job_Invariant.thy ===== *)
theory Job_Invariant
  imports Job_Manager
begin

text \<open>
  The invariant of the job manager and the proof that every operation keeps it, so that none of
  them panics: \<open>jobs\<close> below is the job manager as an instance of \<open>op_system\<close>.
\<close>

section \<open>Lemmas on lists\<close>

lemma remove_first_None: "remove_first P xs = None \<longleftrightarrow> (\<forall>x \<in> set xs. \<not> P x)"
  by (induction xs) auto

lemma remove_first_find:
  "remove_first P xs = Some ys \<Longrightarrow> \<exists>x us vs. xs = us @ x # vs \<and> ys = us @ vs \<and> P x \<and> (\<forall>u \<in> set us. \<not> P u) \<and> find P xs = Some x"
proof (induction xs arbitrary: ys)
  case (Cons a xs)
  show ?case
  proof (cases "P a")
    case False
    then obtain zs where zs: "remove_first P xs = Some zs" "ys = a # zs" using Cons.prems by auto
    then obtain x us vs where "xs = us @ x # vs" "zs = us @ vs" "P x" "\<forall>u \<in> set us. \<not> P u" "find P xs = Some x"
      using Cons.IH by blast
    then show ?thesis using False zs(2) by (intro exI [of _ x] exI [of _ "a # us"] exI [of _ vs]) auto
  next
    case True
    then show ?thesis using Cons.prems by (intro exI [of _ a] exI [of _ "[]"] exI [of _ xs]) auto
  qed
qed simp

lemma trim_props:
  "distinct h \<Longrightarrow> distinct (trim P mx h) \<and> set (trim P mx h) \<subseteq> set h
     \<and> (\<forall>x \<in> set h. \<not> P x \<longrightarrow> x \<in> set (trim P mx h))
     \<and> (blen (trim P mx h) \<le> mx \<or> (\<forall>x \<in> set (trim P mx h). \<not> P x))"
proof (induction P mx h rule: trim.induct)
  case (1 P mx h)
  show ?case
  proof (cases "blen h > mx")
    case False
    then show ?thesis using "1.prems" by (simp add: trim.simps [of P mx h])
  next
    case True
    show ?thesis
    proof (cases "remove_first P h")
      case None
      then have "\<forall>x \<in> set h. \<not> P x" by (simp add: remove_first_None)
      moreover have "trim P mx h = h" using True None by (simp add: trim.simps [of P mx h])
      ultimately show ?thesis using "1.prems" by simp
    next
      case (Some h')
      then obtain x us vs where h: "h = us @ x # vs" "h' = us @ vs" "P x" using remove_first_find by metis
      then have "distinct h'" using "1.prems" by auto
      moreover have "trim P mx h = trim P mx h'" using True Some by (simp add: trim.simps [of P mx h])
      ultimately show ?thesis using "1.IH" [OF True Some] h by auto
    qed
  qed
qed

lemma set_fold_insert [simp]: "set (fold List.insert xs ys) = set xs \<union> set ys"
  by (induction xs arbitrary: ys) auto

lemma set_fold_removeAll [simp]: "set (fold removeAll xs ys) = set ys - set xs"
  by (induction xs arbitrary: ys) auto

lemma blen_removeAll: "distinct xs \<Longrightarrow> x \<in> set xs \<Longrightarrow> blen (removeAll x xs) = blen xs - 1"
  by (induction xs) (auto simp: removeAll_id)

section \<open>Invariant\<close>

text \<open>
  \<open>jm_inv X m\<close>: the state is consistent, except that the jobs in \<open>X\<close> have just left the queue, the
  running jobs or their standby and have not got their new status yet. Outside \<open>X\<close> the queue is
  the queued jobs and \<open>active\<close> the running ones; the keys recorded as active are the keys of the
  unfinished jobs, no two of which share a key; the exclusive keys recorded are those of the
  running jobs, no two of which share one.
\<close>

definition excl :: "JobManager \<Rightarrow> jobid \<Rightarrow> string set" where
  "excl m jid = set (jd_ExclusiveKeys (j_definition (jm_jobs m jid)))"

definition live :: "JobManager \<Rightarrow> jobid \<Rightarrow> bool" where
  "live m jid \<longleftrightarrow> j_Status (jm_jobs m jid) \<noteq> StatusFinished"

definition lists_ok :: "jobid set \<Rightarrow> JobManager \<Rightarrow> bool" where
  "lists_ok X m \<longleftrightarrow> distinct (jm_history m) \<and> distinct (jm_queue m) \<and> distinct (jm_active m)
     \<and> (\<forall>jid. live m jid \<longrightarrow> jid \<in> set (jm_history m))
     \<and> (\<forall>jid. jid \<in> set (jm_queue m) \<longleftrightarrow> jid \<notin> X \<and> j_Status (jm_jobs m jid) = StatusQueued)
     \<and> (\<forall>jid. jid \<in> set (jm_active m) \<longleftrightarrow> jid \<notin> X \<and> j_Status (jm_jobs m jid) = StatusRunning)
     \<and> (\<forall>jid \<in> X. live m jid)"

definition limits_ok :: "JobManager \<Rightarrow> bool" where
  "limits_ok m \<longleftrightarrow> jm_running m = blen (jm_active m) \<and> jm_running m \<le> jm_maxConcurrent m \<and> 1 \<le> jm_maxConcurrent m
     \<and> (blen (jm_history m) \<le> jm_maxHistory m \<or> (\<forall>jid \<in> set (jm_history m). live m jid))"

definition keys_ok :: "JobManager \<Rightarrow> bool" where
  "keys_ok m \<longleftrightarrow> (\<forall>k. k \<in> set (jm_activeKeys m) \<longleftrightarrow> (\<exists>jid. live m jid \<and> j_Key (jm_jobs m jid) = k))
     \<and> (\<forall>a b. live m a \<and> live m b \<and> j_Key (jm_jobs m a) = j_Key (jm_jobs m b) \<longrightarrow> a = b)
     \<and> set (jm_activeExclusiveKeys m) = (\<Union>a \<in> set (jm_active m). excl m a)
     \<and> (\<forall>a \<in> set (jm_active m). \<forall>b \<in> set (jm_active m). a \<noteq> b \<longrightarrow> excl m a \<inter> excl m b = {})"

definition jobs_ok :: "JobManager \<Rightarrow> bool" where
  "jobs_ok m \<longleftrightarrow> (\<forall>jid. j_done (jm_jobs m jid) \<longleftrightarrow> \<not> live m jid)
     \<and> (\<forall>jid. live m jid \<longrightarrow> j_ID (jm_jobs m jid) = jid)
     \<and> (\<forall>jid. 0 \<le> j_RetryCount (jm_jobs m jid)
           \<and> j_RetryCount (jm_jobs m jid) \<le> blen (jd_RetryDelays (j_definition (jm_jobs m jid))))"

definition jm_inv :: "jobid set \<Rightarrow> JobManager \<Rightarrow> bool" where
  "jm_inv X m \<longleftrightarrow> lists_ok X m \<and> limits_ok m \<and> keys_ok m \<and> jobs_ok m"

text \<open>The invariant looks at some fields only; the rest (times, errors, results, events) may change freely.\<close>

definition job_core :: "Job_item \<Rightarrow> JobStatus \<times> string \<times> jobid \<times> JobDefinition \<times> bool \<times> int" where
  "job_core j = (j_Status j, j_Key j, j_ID j, j_definition j, j_done j, j_RetryCount j)"

definition same_core :: "JobManager \<Rightarrow> JobManager \<Rightarrow> bool" where
  "same_core m m' \<longleftrightarrow> jm_history m' = jm_history m \<and> jm_queue m' = jm_queue m \<and> jm_active m' = jm_active m
     \<and> jm_activeKeys m' = jm_activeKeys m \<and> jm_activeExclusiveKeys m' = jm_activeExclusiveKeys m
     \<and> jm_running m' = jm_running m \<and> jm_maxConcurrent m' = jm_maxConcurrent m \<and> jm_maxHistory m' = jm_maxHistory m
     \<and> (\<forall>jid. job_core (jm_jobs m' jid) = job_core (jm_jobs m jid))"

lemma same_core_inv: "same_core m m' \<Longrightarrow> jm_inv X m \<Longrightarrow> jm_inv X m'"
proof -
  assume c: "same_core m m'"
  have "live m' = live m" "excl m' = excl m"
    using c by (auto simp: same_core_def job_core_def live_def excl_def fun_eq_iff)
  moreover assume "jm_inv X m"
  ultimately show "jm_inv X m'"
    using c by (simp add: jm_inv_def lists_ok_def limits_ok_def keys_ok_def jobs_ok_def same_core_def job_core_def)
qed

lemma same_core_publish: "same_core m (publishJobChangeLocked typ jid m)"
  by (simp add: same_core_def publishJobChangeLocked_def)

lemma same_core_put: "job_core item = job_core (jm_jobs m jid) \<Longrightarrow> same_core m (put_job jid item m)"
  by (simp add: same_core_def put_job_def)

lemma publish_inv: "jm_inv X (publishJobChangeLocked typ jid m) = jm_inv X m"
proof
  assume "jm_inv X (publishJobChangeLocked typ jid m)"
  then show "jm_inv X m" by (rule same_core_inv [rotated]) (simp add: same_core_def publishJobChangeLocked_def)
qed (rule same_core_inv [OF same_core_publish])

lemma cancelled_inv: "jm_inv X (m\<lparr> jm_cancelled := c \<rparr>) = jm_inv X m"
proof
  assume "jm_inv X (m\<lparr> jm_cancelled := c \<rparr>)"
  then show "jm_inv X m" by (rule same_core_inv [rotated]) (simp add: same_core_def)
next
  assume "jm_inv X m"
  then show "jm_inv X (m\<lparr> jm_cancelled := c \<rparr>)" by (rule same_core_inv [rotated]) (simp add: same_core_def)
qed

lemma publish_fields [simp]:
  "jm_history (publishJobChangeLocked typ jid m) = jm_history m"
  "jm_queue (publishJobChangeLocked typ jid m) = jm_queue m"
  "jm_active (publishJobChangeLocked typ jid m) = jm_active m"
  "jm_activeKeys (publishJobChangeLocked typ jid m) = jm_activeKeys m"
  "jm_activeExclusiveKeys (publishJobChangeLocked typ jid m) = jm_activeExclusiveKeys m"
  "jm_running (publishJobChangeLocked typ jid m) = jm_running m"
  "jm_maxConcurrent (publishJobChangeLocked typ jid m) = jm_maxConcurrent m"
  "jm_maxHistory (publishJobChangeLocked typ jid m) = jm_maxHistory m"
  "jm_shutdown (publishJobChangeLocked typ jid m) = jm_shutdown m"
  "jm_jobs (publishJobChangeLocked typ jid m) = jm_jobs m"
  by (simp_all add: publishJobChangeLocked_def)

section \<open>Leaving the queue, the running jobs or the standby\<close>

lemma detach_queue:
  assumes "jm_inv X m" and "jid \<in> set (jm_queue m)" and "distinct q" and "set q = set (jm_queue m) - {jid}"
  shows "jm_inv (insert jid X) (m\<lparr> jm_queue := q \<rparr>)"
  using assms
  by (auto simp: jm_inv_def lists_ok_def limits_ok_def keys_ok_def jobs_ok_def live_def excl_def)

lemma detach_standby:
  assumes "jm_inv X m" and "j_Status (jm_jobs m jid) = StatusStandby"
  shows "jm_inv (insert jid X) m"
  using assms
  by (auto simp: jm_inv_def lists_ok_def limits_ok_def keys_ok_def jobs_ok_def live_def excl_def)

lemma detach_active:
  assumes inv: "jm_inv X m" and jid: "jid \<in> set (jm_active m)"
  shows "jm_inv (insert jid X) (completeActiveLocked jid m)"
proof -
  let ?m = "completeActiveLocked jid m"
  have same: "live ?m = live m" "excl ?m = excl m" "jm_jobs ?m = jm_jobs m" "jm_history ?m = jm_history m"
      "jm_queue ?m = jm_queue m" "jm_activeKeys ?m = jm_activeKeys m" "jm_maxHistory ?m = jm_maxHistory m"
      "jm_maxConcurrent ?m = jm_maxConcurrent m" "jm_running ?m = jm_running m - 1"
      "jm_active ?m = removeAll jid (jm_active m)" "set (jm_activeExclusiveKeys ?m) = set (jm_activeExclusiveKeys m) - excl m jid"
    by (auto simp: completeActiveLocked_def live_def excl_def fun_eq_iff)
  have lists: "lists_ok X m" and limits: "limits_ok m" and keys: "keys_ok m" and jobs: "jobs_ok m"
    using inv by (simp_all add: jm_inv_def)
  have act: "distinct (jm_active m)" using lists by (simp add: lists_ok_def)
  have "blen (removeAll jid (jm_active m)) = blen (jm_active m) - 1"
    using act jid by (rule blen_removeAll)
  then have "limits_ok ?m" using limits by (simp add: limits_ok_def same)
  moreover have "lists_ok (insert jid X) ?m"
    using lists jid unfolding lists_ok_def same by (auto simp: live_def distinct_removeAll)
  moreover have "jobs_ok ?m" using jobs by (simp add: jobs_ok_def same)
  moreover have "keys_ok ?m"
  proof -
    have u: "set (jm_activeExclusiveKeys m) = (\<Union>a \<in> set (jm_active m). excl m a)"
      and d: "\<And>a b. a \<in> set (jm_active m) \<Longrightarrow> b \<in> set (jm_active m) \<Longrightarrow> a \<noteq> b \<Longrightarrow> excl m a \<inter> excl m b = {}"
      using keys by (auto simp: keys_ok_def)
    have "(\<Union>a \<in> set (jm_active m). excl m a) - excl m jid = (\<Union>a \<in> set (removeAll jid (jm_active m)). excl m a)"
      using d jid by (auto simp: disjoint_iff)
    then show ?thesis using keys u by (simp add: keys_ok_def same)
  qed
  ultimately show ?thesis by (simp add: jm_inv_def)
qed

section \<open>Getting a new status\<close>

lemma trim_inv:
  assumes "lists_ok X m" and "keys_ok m" and "jobs_ok m"
    and "jm_running m = blen (jm_active m) \<and> jm_running m \<le> jm_maxConcurrent m \<and> 1 \<le> jm_maxConcurrent m"
  shows "jm_inv X (trimHistory m)"
proof -
  let ?P = "\<lambda>jid. j_Status (jm_jobs m jid) = StatusFinished"
  have "distinct (jm_history m)" using assms(1) by (simp add: lists_ok_def)
  note t = trim_props [OF this, of ?P "jm_maxHistory m"]
  have same: "live (trimHistory m) = live m" "excl (trimHistory m) = excl m"
    by (auto simp: trimHistory_def live_def excl_def fun_eq_iff)
  have "lists_ok X (trimHistory m)"
    using assms(1) t unfolding lists_ok_def same by (simp add: trimHistory_def live_def)
  moreover have "limits_ok (trimHistory m)"
    using assms(4) t unfolding limits_ok_def same by (auto simp: trimHistory_def live_def)
  moreover have "keys_ok (trimHistory m)" "jobs_ok (trimHistory m)"
    using assms(2,3) unfolding keys_ok_def jobs_ok_def same by (simp_all add: trimHistory_def)
  ultimately show ?thesis by (simp add: jm_inv_def)
qed

lemma inv_parts:
  "jm_inv X m \<Longrightarrow> lists_ok X m" "jm_inv X m \<Longrightarrow> limits_ok m" "jm_inv X m \<Longrightarrow> keys_ok m" "jm_inv X m \<Longrightarrow> jobs_ok m"
  by (simp_all add: jm_inv_def)

lemma live_put: "live (put_job jid item m) x = (if x = jid then j_Status item \<noteq> StatusFinished else live m x)"
  by (simp add: live_def put_job_def)

lemma excl_put: "j_definition item = j_definition (jm_jobs m jid) \<Longrightarrow> excl (put_job jid item m) = excl m"
  by (auto simp: excl_def put_job_def fun_eq_iff)

lemma put_fields [simp]:
  "jm_history (put_job jid item m) = jm_history m" "jm_queue (put_job jid item m) = jm_queue m"
  "jm_active (put_job jid item m) = jm_active m" "jm_activeKeys (put_job jid item m) = jm_activeKeys m"
  "jm_activeExclusiveKeys (put_job jid item m) = jm_activeExclusiveKeys m" "jm_running (put_job jid item m) = jm_running m"
  "jm_maxConcurrent (put_job jid item m) = jm_maxConcurrent m" "jm_maxHistory (put_job jid item m) = jm_maxHistory m"
  "jm_shutdown (put_job jid item m) = jm_shutdown m"
  "jm_jobs (put_job jid item m) x = (if x = jid then item else jm_jobs m x)"
  by (simp_all add: put_job_def)

lemma jobs_ok_put:
  assumes "jobs_ok m" and "live m jid" and "j_ID item = j_ID (jm_jobs m jid)" and "j_definition item = j_definition (jm_jobs m jid)"
    and "j_done item = (j_Status item = StatusFinished)" and "0 \<le> j_RetryCount item"
    and "j_RetryCount item \<le> blen (jd_RetryDelays (j_definition item))"
  shows "jobs_ok (put_job jid item m)"
  using assms by (auto simp: jobs_ok_def live_put)

lemma keys_ok_put:
  assumes "keys_ok m" and "live m jid" and "j_Status item \<noteq> StatusFinished" and "j_Key item = j_Key (jm_jobs m jid)"
    and "j_definition item = j_definition (jm_jobs m jid)"
  shows "keys_ok (put_job jid item m)"
proof -
  have l: "live (put_job jid item m) = live m" using assms(2,3) by (auto simp: live_put fun_eq_iff)
  have k: "j_Key (jm_jobs (put_job jid item m) x) = j_Key (jm_jobs m x)" for x using assms(4) by simp
  show ?thesis using assms(1) unfolding keys_ok_def l k excl_put [OF assms(5)] by simp
qed

lemma limits_ok_put:
  "limits_ok m \<Longrightarrow> live m jid \<Longrightarrow> j_Status item \<noteq> StatusFinished \<Longrightarrow> limits_ok (put_job jid item m)"
  by (auto simp: limits_ok_def live_put)

text \<open>A detached job gets a new status and goes to the list that belongs to it.\<close>

lemma lists_ok_move:
  assumes ok: "lists_ok X m" and jid: "jid \<in> X"
    and hist: "jm_history m' = jm_history m" and dist: "distinct (jm_queue m')" "distinct (jm_active m')"
    and others: "\<And>x. x \<noteq> jid \<Longrightarrow> j_Status (jm_jobs m' x) = j_Status (jm_jobs m x)"
    and q: "\<And>x. x \<in> set (jm_queue m') \<longleftrightarrow> x \<in> set (jm_queue m) \<or> x = jid \<and> j_Status (jm_jobs m' jid) = StatusQueued"
    and a: "\<And>x. x \<in> set (jm_active m') \<longleftrightarrow> x \<in> set (jm_active m) \<or> x = jid \<and> j_Status (jm_jobs m' jid) = StatusRunning"
  shows "lists_ok (X - {jid}) m'"
proof -
  have o: "live m jid" "\<And>x. live m x \<Longrightarrow> x \<in> set (jm_history m)" "distinct (jm_history m)"
    "\<And>x. x \<in> set (jm_queue m) \<longleftrightarrow> x \<notin> X \<and> j_Status (jm_jobs m x) = StatusQueued"
    "\<And>x. x \<in> set (jm_active m) \<longleftrightarrow> x \<notin> X \<and> j_Status (jm_jobs m x) = StatusRunning"
    "\<And>x. x \<in> X \<Longrightarrow> live m x"
    using ok jid by (simp_all add: lists_ok_def)
  have live: "live m' x = live m x" if ne: "x \<noteq> jid" for x using others [OF ne] by (simp add: live_def)
  show ?thesis unfolding lists_ok_def
  proof (intro conjI allI ballI impI)
    fix x
    show "live m' x \<Longrightarrow> x \<in> set (jm_history m')" using o(1,2) live hist by (cases "x = jid") auto
    show "x \<in> set (jm_queue m') \<longleftrightarrow> x \<notin> X - {jid} \<and> j_Status (jm_jobs m' x) = StatusQueued"
      using q [of x] o(4) [of x] others [of x] jid by (cases "x = jid") auto
    show "x \<in> set (jm_active m') \<longleftrightarrow> x \<notin> X - {jid} \<and> j_Status (jm_jobs m' x) = StatusRunning"
      using a [of x] o(5) [of x] others [of x] jid by (cases "x = jid") auto
    show "x \<in> X - {jid} \<Longrightarrow> live m' x" using o(6) live by auto
  qed (use dist o hist in simp_all)
qed

lemma detached:
  assumes "jm_inv X m" and "jid \<in> X"
  shows "live m jid" "jid \<notin> set (jm_queue m)" "jid \<notin> set (jm_active m)" "distinct (jm_queue m)" "distinct (jm_active m)"
  using assms by (auto simp: jm_inv_def lists_ok_def)

lemma standby_inv:
  assumes inv: "jm_inv X m" and jid: "jid \<in> X" and n: "j_RetryCount (jm_jobs m jid) < blen (jd_RetryDelays (j_definition (jm_jobs m jid)))"
  shows "go_ok (standbyLocked jid e now m) (\<lambda>m'. jm_inv (X - {jid}) m' \<and> jm_queue m' = jm_queue m
     \<and> jm_active m' = jm_active m \<and> jm_shutdown m' = jm_shutdown m)"
proof -
  note p = inv_parts [OF inv]
  note d = detached [OF inv jid]
  have l: "live m jid" by (rule d)
  have r: "0 \<le> j_RetryCount (jm_jobs m jid)" using p(4) by (simp add: jobs_ok_def)
  let ?i = "(jm_jobs m jid)\<lparr> j_RetryCount := j_RetryCount (jm_jobs m jid) + 1, j_Status := StatusStandby, j_UpdatedAt := now,
      j_NextRunAt := Some (now + jd_RetryDelays (j_definition (jm_jobs m jid)) ! nat (j_RetryCount (jm_jobs m jid))),
      j_Error := err_text e \<rparr>"
  have "lists_ok (X - {jid}) (put_job jid ?i m)"
    using d by (intro lists_ok_move [OF p(1) jid]) auto
  moreover have "limits_ok (put_job jid ?i m)" "keys_ok (put_job jid ?i m)" "jobs_ok (put_job jid ?i m)"
    using p l n r by (intro limits_ok_put keys_ok_put jobs_ok_put; simp add: live_def jobs_ok_def)+
  ultimately have "jm_inv (X - {jid}) (put_job jid ?i m)" by (simp add: jm_inv_def)
  then show ?thesis using n r by (simp add: standbyLocked_def Let_def publish_inv)
qed

lemma queue_irrelevant:
  "limits_ok (m\<lparr> jm_queue := q \<rparr>) = limits_ok m" "keys_ok (m\<lparr> jm_queue := q \<rparr>) = keys_ok m"
  "jobs_ok (m\<lparr> jm_queue := q \<rparr>) = jobs_ok m"
  by (simp_all add: limits_ok_def keys_ok_def jobs_ok_def live_def excl_def)

text \<open>The three facts of \<open>keys_ok\<close> that depend on which jobs are live and active.\<close>

lemma keys_okI:
  assumes "\<And>k. k \<in> set (jm_activeKeys m) \<longleftrightarrow> (\<exists>jid. live m jid \<and> j_Key (jm_jobs m jid) = k)"
    and "\<And>a b. live m a \<Longrightarrow> live m b \<Longrightarrow> j_Key (jm_jobs m a) = j_Key (jm_jobs m b) \<Longrightarrow> a = b"
    and "set (jm_activeExclusiveKeys m) = (\<Union>a \<in> set (jm_active m). excl m a)"
    and "\<And>a b. a \<in> set (jm_active m) \<Longrightarrow> b \<in> set (jm_active m) \<Longrightarrow> a \<noteq> b \<Longrightarrow> excl m a \<inter> excl m b = {}"
  shows "keys_ok m"
  using assms unfolding keys_ok_def by blast

lemma keys_okD:
  assumes "keys_ok m"
  shows "\<And>k. k \<in> set (jm_activeKeys m) \<longleftrightarrow> (\<exists>jid. live m jid \<and> j_Key (jm_jobs m jid) = k)"
    and "\<And>a b. live m a \<Longrightarrow> live m b \<Longrightarrow> j_Key (jm_jobs m a) = j_Key (jm_jobs m b) \<Longrightarrow> a = b"
    and "set (jm_activeExclusiveKeys m) = (\<Union>a \<in> set (jm_active m). excl m a)"
    and "\<And>a b. a \<in> set (jm_active m) \<Longrightarrow> b \<in> set (jm_active m) \<Longrightarrow> a \<noteq> b \<Longrightarrow> excl m a \<inter> excl m b = {}"
  using assms [unfolded keys_ok_def, THEN conjunct1] assms [unfolded keys_ok_def, THEN conjunct2, THEN conjunct1]
    assms [unfolded keys_ok_def, THEN conjunct2, THEN conjunct2, THEN conjunct1]
    assms [unfolded keys_ok_def, THEN conjunct2, THEN conjunct2, THEN conjunct2]
  by simp_all

lemma requeue_inv:
  assumes inv: "jm_inv X m" and jid: "jid \<in> X"
  shows "jm_inv (X - {jid}) (retryToQueueLocked jid now m)"
proof -
  note p = inv_parts [OF inv]
  note d = detached [OF inv jid]
  note l = d(1)
  let ?i = "(jm_jobs m jid)\<lparr> j_Status := StatusQueued, j_UpdatedAt := now, j_NextRunAt := None \<rparr>"
  let ?m = "put_job jid ?i m"
  have parts: "limits_ok ?m" "keys_ok ?m" "jobs_ok ?m"
    using p l by (intro limits_ok_put keys_ok_put jobs_ok_put; simp add: live_def jobs_ok_def)+
  have "lists_ok (X - {jid}) (?m\<lparr> jm_queue := jm_queue m @ [jid] \<rparr>)"
    using d by (intro lists_ok_move [OF p(1) jid]) auto
  moreover have "limits_ok (?m\<lparr> jm_queue := q \<rparr>)" "keys_ok (?m\<lparr> jm_queue := q \<rparr>)" "jobs_ok (?m\<lparr> jm_queue := q \<rparr>)" for q
    using parts by (simp_all add: queue_irrelevant)
  ultimately have "jm_inv (X - {jid}) (?m\<lparr> jm_queue := jm_queue m @ [jid] \<rparr>)" by (simp add: jm_inv_def)
  then show ?thesis by (simp add: retryToQueueLocked_def Let_def publish_inv)
qed

lemma finish_inv:
  assumes inv: "jm_inv X m" and jid: "jid \<in> X"
  shows "go_ok (finishLocked jid err ab now m) (\<lambda>m'. jm_inv (X - {jid}) m' \<and> jm_queue m' = jm_queue m
     \<and> jm_active m' = jm_active m \<and> jm_shutdown m' = jm_shutdown m \<and> \<not> live m' jid
     \<and> (\<forall>x. x \<noteq> jid \<longrightarrow> jm_jobs m' x = jm_jobs m x))"
proof -
  note p = inv_parts [OF inv]
  note d = detached [OF inv jid]
  note l = d(1)
  have nd: "\<not> j_done (jm_jobs m jid)" using p(4) l by (simp add: jobs_ok_def)
  define i where "i = (let item = (jm_jobs m jid)\<lparr> j_Status := StatusFinished, j_UpdatedAt := now, j_FinishedAt := Some now,
        j_NextRunAt := None, j_HasAborted := j_HasAborted (jm_jobs m jid) \<or> ab \<rparr>
    in case err of Some e \<Rightarrow> if \<not> j_HasAborted item \<and> \<not> err_canceled e
          then item\<lparr> j_HasFailed := True, j_Error := err_text e \<rparr> else item | None \<Rightarrow> item)"
  have i: "j_Status i = StatusFinished" "j_Key i = j_Key (jm_jobs m jid)" "j_ID i = j_ID (jm_jobs m jid)"
      "j_definition i = j_definition (jm_jobs m jid)" "j_done i = j_done (jm_jobs m jid)"
      "j_RetryCount i = j_RetryCount (jm_jobs m jid)"
    by (simp_all add: i_def Let_def split: option.split)
  define m1 where "m1 = publishJobChangeLocked ''update'' jid (put_job jid (i\<lparr> j_done := True \<rparr>)
      (m\<lparr> jm_activeKeys := removeAll (j_Key i) (jm_activeKeys m) \<rparr>))"
  have fin: "finishLocked jid err ab now m = Some (trimHistory m1)"
    using l nd i(5) unfolding finishLocked_def Let_def m1_def i_def by (simp add: live_def)
  have m1: "jm_jobs m1 = (jm_jobs m)(jid := i\<lparr> j_done := True \<rparr>)" "jm_history m1 = jm_history m" "jm_queue m1 = jm_queue m"
      "jm_active m1 = jm_active m" "jm_activeKeys m1 = removeAll (j_Key i) (jm_activeKeys m)" "jm_running m1 = jm_running m"
      "jm_activeExclusiveKeys m1 = jm_activeExclusiveKeys m" "jm_maxConcurrent m1 = jm_maxConcurrent m" "jm_shutdown m1 = jm_shutdown m"
    by (simp_all add: m1_def put_job_def)
  have live1: "live m1 x \<longleftrightarrow> x \<noteq> jid \<and> live m x" for x by (simp add: live_def m1 i)
  have excl1: "excl m1 = excl m" by (auto simp: excl_def m1 i fun_eq_iff)
  have "lists_ok (X - {jid}) m1"
    using d by (intro lists_ok_move [OF p(1) jid]) (auto simp: m1 i)
  moreover have "keys_ok m1"
  proof (rule keys_okI)
    note k = keys_okD [OF p(3)]
    have key1: "j_Key (jm_jobs m1 x) = j_Key (jm_jobs m x)" for x by (simp add: m1 i)
    show "k \<in> set (jm_activeKeys m1) \<longleftrightarrow> (\<exists>jid. live m1 jid \<and> j_Key (jm_jobs m1 jid) = k)" for k
      using k(1) [of k] k(2) [OF l] unfolding live1 key1 m1(5) i by (simp add: set_removeAll) metis
    show "live m1 a \<Longrightarrow> live m1 b \<Longrightarrow> j_Key (jm_jobs m1 a) = j_Key (jm_jobs m1 b) \<Longrightarrow> a = b" for a b
      using k(2) unfolding live1 key1 by blast
  qed (use keys_okD [OF p(3)] in \<open>simp_all add: m1 excl1\<close>)
  moreover have "jobs_ok m1"
    using p(4) unfolding jobs_ok_def live1 by (auto simp: m1 i)
  moreover have "jm_running m1 = blen (jm_active m1) \<and> jm_running m1 \<le> jm_maxConcurrent m1 \<and> 1 \<le> jm_maxConcurrent m1"
    using p(2) by (simp add: limits_ok_def m1)
  ultimately have "jm_inv (X - {jid}) (trimHistory m1)" by (rule trim_inv)
  moreover have "\<not> live (trimHistory m1) jid" by (simp add: live_def trimHistory_def m1 i)
  ultimately show ?thesis by (simp add: fin) (simp add: trimHistory_def m1)
qed

lemma start_inv:
  assumes inv: "jm_inv X m" and jid: "jid \<in> X" and room: "jm_running m < jm_maxConcurrent m"
    and free: "excl m jid \<inter> set (jm_activeExclusiveKeys m) = {}"
  shows "jm_inv (X - {jid}) (startJobLocked jid now m)"
proof -
  note p = inv_parts [OF inv]
  note d = detached [OF inv jid]
  note l = d(1) and notin = d(3)
  let ?i = "(jm_jobs m jid)\<lparr> j_Status := StatusRunning, j_StartedAt := Some now, j_UpdatedAt := now \<rparr>"
  define m1 where "m1 = startJobLocked jid now m"
  have m1: "jm_jobs m1 = (jm_jobs m)(jid := ?i)" "jm_history m1 = jm_history m" "jm_queue m1 = jm_queue m"
      "jm_active m1 = jid # jm_active m" "jm_activeKeys m1 = jm_activeKeys m" "jm_running m1 = jm_running m + 1"
      "set (jm_activeExclusiveKeys m1) = excl m jid \<union> set (jm_activeExclusiveKeys m)" "jm_maxConcurrent m1 = jm_maxConcurrent m"
      "jm_maxHistory m1 = jm_maxHistory m"
    using notin by (simp_all add: m1_def startJobLocked_def Let_def put_job_def excl_def)
  have live1: "live m1 = live m" using l by (auto simp: live_def m1 fun_eq_iff)
  have excl1: "excl m1 = excl m" by (auto simp: excl_def m1 fun_eq_iff)
  have "lists_ok (X - {jid}) m1"
    using d by (intro lists_ok_move [OF p(1) jid]) (auto simp: m1)
  moreover have "limits_ok m1"
    using p(2) room unfolding limits_ok_def live1 by (simp add: m1)
  moreover have "keys_ok m1"
  proof (rule keys_okI)
    note k = keys_okD [OF p(3)]
    have key1: "j_Key (jm_jobs m1 x) = j_Key (jm_jobs m x)" for x by (simp add: m1)
    show "k \<in> set (jm_activeKeys m1) \<longleftrightarrow> (\<exists>jid. live m1 jid \<and> j_Key (jm_jobs m1 jid) = k)" for k
      using k(1) unfolding live1 key1 m1(5) .
    show "live m1 a \<Longrightarrow> live m1 b \<Longrightarrow> j_Key (jm_jobs m1 a) = j_Key (jm_jobs m1 b) \<Longrightarrow> a = b" for a b
      using k(2) unfolding live1 key1 .
    show "set (jm_activeExclusiveKeys m1) = (\<Union>a \<in> set (jm_active m1). excl m1 a)"
      using k(3) unfolding excl1 by (simp add: m1)
    have f: "excl m jid \<inter> excl m b = {}" if b: "b \<in> set (jm_active m)" for b
      using free b k(3) by blast
    show "a \<in> set (jm_active m1) \<Longrightarrow> b \<in> set (jm_active m1) \<Longrightarrow> a \<noteq> b \<Longrightarrow> excl m1 a \<inter> excl m1 b = {}" for a b
      using k(4) [of a b] f [of a] f [of b] unfolding excl1 m1(4) by (auto simp: Int_commute)
  qed
  moreover have "jobs_ok m1"
    using p(4) unfolding jobs_ok_def live1 by (auto simp: m1)
  ultimately show ?thesis by (simp add: jm_inv_def m1_def)
qed

section \<open>Dispatching\<close>

lemma popRunnable_Some:
  assumes "popRunnableQueueLocked m = Some (jid, m')"
  obtains us vs where "jm_queue m = us @ jid # vs" "m' = m\<lparr> jm_queue := us @ vs \<rparr>" "runnable m jid"
    "\<forall>u \<in> set us. \<not> runnable m u"
proof -
  obtain q where q: "find (runnable m) (jm_queue m) = Some jid" "remove_first (runnable m) (jm_queue m) = Some q"
      "m' = m\<lparr> jm_queue := q \<rparr>"
    using assms by (auto simp: popRunnableQueueLocked_def split: option.splits)
  then obtain x us vs where "jm_queue m = us @ x # vs" "q = us @ vs" "runnable m x" "\<forall>u \<in> set us. \<not> runnable m u"
      "find (runnable m) (jm_queue m) = Some x"
    using remove_first_find [OF q(2)] by blast
  then show ?thesis using q that by simp
qed

lemma popRunnable_None:
  assumes "popRunnableQueueLocked m = None"
  shows "\<forall>jid \<in> set (jm_queue m). \<not> runnable m jid"
proof (cases "remove_first (runnable m) (jm_queue m)")
  case None
  then show ?thesis by (simp add: remove_first_None)
next
  case (Some q)
  then show ?thesis using assms remove_first_find [OF Some] by (auto simp: popRunnableQueueLocked_def)
qed

text \<open>A state in which no free slot is left unused: nothing more could be started now.\<close>

definition work_conserving :: "JobManager \<Rightarrow> bool" where
  "work_conserving m \<longleftrightarrow> jm_shutdown m \<or> jm_maxConcurrent m \<le> jm_running m \<or> (\<forall>jid \<in> set (jm_queue m). \<not> runnable m jid)"

lemma start_fields [simp]:
  "jm_history (startJobLocked jid now m) = jm_history m" "jm_queue (startJobLocked jid now m) = jm_queue m"
  "jm_active (startJobLocked jid now m) = List.insert jid (jm_active m)" "jm_activeKeys (startJobLocked jid now m) = jm_activeKeys m"
  "jm_maxConcurrent (startJobLocked jid now m) = jm_maxConcurrent m" "jm_shutdown (startJobLocked jid now m) = jm_shutdown m"
  "jm_running (startJobLocked jid now m) = jm_running m + 1"
  "j_definition (jm_jobs (startJobLocked jid now m) x) = j_definition (jm_jobs m x)"
  "j_Key (jm_jobs (startJobLocked jid now m) x) = j_Key (jm_jobs m x)"
  by (simp_all add: startJobLocked_def Let_def)

lemma dispatch_inv:
  "jm_inv {} m \<Longrightarrow> jm_inv {} (dispatchLocked now m)"
proof (induction now m rule: dispatchLocked.induct)
  case (1 now m)
  show ?case
  proof (cases "jm_running m < jm_maxConcurrent m \<and> jm_queue m \<noteq> [] \<and> \<not> jm_shutdown m")
    case guard: True
    show ?thesis
    proof (cases "popRunnableQueueLocked m")
      case None
      then show ?thesis using "1.prems" guard by (simp add: dispatchLocked.simps [of now m])
    next
      case (Some r)
      obtain jid m' where r: "r = (jid, m')" by fastforce
      obtain us vs where q: "jm_queue m = us @ jid # vs" "m' = m\<lparr> jm_queue := us @ vs \<rparr>" "runnable m jid"
        using popRunnable_Some [OF Some [unfolded r]] by blast
      have "distinct (jm_queue m)" using "1.prems" by (simp add: jm_inv_def lists_ok_def)
      then have "jm_inv {jid} m'"
        using detach_queue [OF "1.prems", of jid "us @ vs"] q by auto
      moreover have "excl m' jid \<inter> set (jm_activeExclusiveKeys m') = {}"
        using q(2,3) by (auto simp: runnable_def dependenciesSatisfiedLocked_def Let_def excl_def list_all_iff)
      ultimately have "jm_inv {} (startJobLocked jid now m')"
        using start_inv [of "{jid}" m' jid now] guard q(2) by simp
      then have "jm_inv {} (dispatchLocked now (startJobLocked jid now m'))"
        using "1.IH" [OF guard Some] r by simp
      then show ?thesis using guard Some r by (simp add: dispatchLocked.simps [of now m])
    qed
  qed (use "1.prems" in \<open>auto simp: dispatchLocked.simps [of now m]\<close>)
qed

lemma dispatch_result:
  "jm_activeKeys (dispatchLocked now m) = jm_activeKeys m \<and> jm_shutdown (dispatchLocked now m) = jm_shutdown m
   \<and> (\<forall>x. j_definition (jm_jobs (dispatchLocked now m) x) = j_definition (jm_jobs m x))
   \<and> work_conserving (dispatchLocked now m)
   \<and> (\<forall>jid \<in> set (jm_active (dispatchLocked now m)). jid \<in> set (jm_active m)
        \<or> (\<forall>k \<in> set (jd_DependsOn (j_definition (jm_jobs m jid))). k \<notin> set (jm_activeKeys m)))"
proof (induction now m rule: dispatchLocked.induct)
  case (1 now m)
  show ?case
  proof (cases "jm_running m < jm_maxConcurrent m \<and> jm_queue m \<noteq> [] \<and> \<not> jm_shutdown m")
    case guard: True
    show ?thesis
    proof (cases "popRunnableQueueLocked m")
      case None
      then show ?thesis using guard popRunnable_None [OF None] by (simp add: dispatchLocked.simps [of now m] work_conserving_def)
    next
      case (Some r)
      obtain jid m' where r: "r = (jid, m')" by fastforce
      obtain us vs where q: "jm_queue m = us @ jid # vs" "m' = m\<lparr> jm_queue := us @ vs \<rparr>" "runnable m jid"
        using popRunnable_Some [OF Some [unfolded r]] by blast
      have "\<forall>k \<in> set (jd_DependsOn (j_definition (jm_jobs m jid))). k \<notin> set (jm_activeKeys m)"
        using q(3) by (auto simp: runnable_def dependenciesSatisfiedLocked_def Let_def list_all_iff)
      then show ?thesis
        using "1.IH" [OF guard Some r [symmetric]] q(2) guard Some r
        by (auto simp: dispatchLocked.simps [of now m])
    qed
  qed (auto simp: dispatchLocked.simps [of now m] work_conserving_def)
qed

section \<open>The operations keep the invariant\<close>

lemma NewManager_inv: "jm_inv {} (NewManager a b c)"
  by (simp add: jm_inv_def lists_ok_def limits_ok_def keys_ok_def jobs_ok_def live_def NewManager_def no_job_def)

lemma enqueue_inv:
  assumes inv: "jm_inv {} m" and fresh: "jid \<notin> set (jm_history m)"
  shows "jm_inv {} (fst (enqueueLocked def jid now m))"
proof (cases "jm_shutdown m \<or> jd_Key def = [] \<or> \<not> jd_Handler def \<or> jd_Key def \<in> set (jm_activeKeys m)")
  case False
  note p = inv_parts [OF inv]
  note k = keys_okD [OF p(3)]
  have nl: "\<not> live m jid" using p(1) fresh by (auto simp: lists_ok_def)
  have free: "\<not> (live m x \<and> j_Key (jm_jobs m x) = jd_Key def)" for x using k(1) [of "jd_Key def"] False by blast
  define m1 where "m1 = (put_job jid (new_job jid def now) m)
      \<lparr> jm_history := jm_history m @ [jid], jm_queue := jm_queue m @ [jid],
         jm_activeKeys := List.insert (jd_Key def) (jm_activeKeys m) \<rparr>"
  have m1: "jm_jobs m1 = (jm_jobs m)(jid := new_job jid def now)" "jm_history m1 = jm_history m @ [jid]"
      "jm_queue m1 = jm_queue m @ [jid]" "jm_active m1 = jm_active m" "jm_running m1 = jm_running m"
      "set (jm_activeKeys m1) = insert (jd_Key def) (set (jm_activeKeys m))" "jm_maxConcurrent m1 = jm_maxConcurrent m"
      "jm_activeExclusiveKeys m1 = jm_activeExclusiveKeys m"
    by (simp_all add: m1_def put_job_def)
  have n: "j_Status (new_job jid def now) = StatusQueued" "j_Key (new_job jid def now) = jd_Key def"
      "j_ID (new_job jid def now) = jid" "j_definition (new_job jid def now) = def" "\<not> j_done (new_job jid def now)"
      "j_RetryCount (new_job jid def now) = 0"
    by (simp_all add: new_job_def)
  have live1: "live m1 x \<longleftrightarrow> x = jid \<or> live m x" for x by (simp add: live_def m1 n)
  have act: "jid \<notin> set (jm_active m)" "jid \<notin> set (jm_queue m)"
    using p(1) nl by (auto simp: lists_ok_def live_def)
  have excl1: "excl m1 a = excl m a" if a: "a \<in> set (jm_active m)" for a
    using a act by (auto simp: excl_def m1)
  have "lists_ok {} m1"
  proof -
    have o: "\<And>x. live m x \<Longrightarrow> x \<in> set (jm_history m)" "distinct (jm_history m)" "distinct (jm_queue m)" "distinct (jm_active m)"
      "\<And>x. x \<in> set (jm_queue m) \<longleftrightarrow> j_Status (jm_jobs m x) = StatusQueued"
      "\<And>x. x \<in> set (jm_active m) \<longleftrightarrow> j_Status (jm_jobs m x) = StatusRunning"
      using p(1) by (simp_all add: lists_ok_def)
    show ?thesis unfolding lists_ok_def live1
    proof (intro conjI allI impI)
      show "distinct (jm_queue m1)" using o(3) act by (simp add: m1)
      show "x \<in> set (jm_queue m1) \<longleftrightarrow> x \<notin> {} \<and> j_Status (jm_jobs m1 x) = StatusQueued" for x
        using o(5) [of x] by (auto simp: m1 n)
      show "x \<in> set (jm_active m1) \<longleftrightarrow> x \<notin> {} \<and> j_Status (jm_jobs m1 x) = StatusRunning" for x
        using o(6) [of x] act by (auto simp: m1 n)
      show "x \<in> set (jm_history m1)" if "x = jid \<or> live m x" for x using that o(1) by (auto simp: m1)
    qed (use o fresh in \<open>simp_all add: m1\<close>)
  qed
  moreover have "keys_ok m1"
  proof (rule keys_okI)
    have key1: "j_Key (jm_jobs m1 x) = (if x = jid then jd_Key def else j_Key (jm_jobs m x))" for x by (simp add: m1 n)
    show "key \<in> set (jm_activeKeys m1) \<longleftrightarrow> (\<exists>x. live m1 x \<and> j_Key (jm_jobs m1 x) = key)" for key
      using k(1) [of key] nl unfolding live1 key1 m1(6) by auto
    show "live m1 a \<Longrightarrow> live m1 b \<Longrightarrow> j_Key (jm_jobs m1 a) = j_Key (jm_jobs m1 b) \<Longrightarrow> a = b" for a b
      using k(2) [of a b] free [of a] free [of b] unfolding live1 key1 by (cases "a = jid"; cases "b = jid") simp_all
  qed (use k(3,4) excl1 in \<open>simp_all add: m1\<close>)
  moreover have "jobs_ok m1"
    using p(4) unfolding jobs_ok_def live1 by (auto simp: m1 n)
  moreover have "jm_running m1 = blen (jm_active m1) \<and> jm_running m1 \<le> jm_maxConcurrent m1 \<and> 1 \<le> jm_maxConcurrent m1"
    using p(2) by (simp add: limits_ok_def m1)
  ultimately have "jm_inv {} (trimHistory m1)" by (rule trim_inv)
  moreover have "(addHistoryLocked jid (put_job jid (new_job jid def now) m))\<lparr> jm_queue := jm_queue m @ [jid],
      jm_activeKeys := List.insert (jd_Key def) (jm_activeKeys m) \<rparr> = trimHistory m1"
    by (rule JobManager.equality) (simp_all add: addHistoryLocked_def m1_def trimHistory_def put_job_def)
  then have "fst (enqueueLocked def jid now m) = dispatchLocked now (publishJobChangeLocked ''create'' jid (trimHistory m1))"
    using False by (simp add: enqueueLocked_def Let_def) (simp add: addHistoryLocked_def trimHistory_def)
  ultimately show ?thesis by (simp add: dispatch_inv publish_inv)
qed (use inv in \<open>auto simp: enqueueLocked_def\<close>)

lemma run_complete_inv:
  assumes inv: "jm_inv {} m" and jid: "jid \<in> set (jm_active m)"
  shows "go_ok (run_complete jid err now m) (jm_inv {})"
proof -
  let ?m = "completeActiveLocked jid m"
  have d: "jm_inv {jid} ?m" using detach_active [OF inv jid] by simp
  have f: "go_ok (finishLocked jid err ab now ?m) (jm_inv {})" for ab
    using finish_inv [OF d, of jid err ab now] by (auto simp: go_ok_def)
  have s: "go_ok (standbyLocked jid e now ?m) (jm_inv {})" if "shouldRetryLocked jid (Some e) ?m" for e
    using standby_inv [OF d, of jid e now] that
    by (auto simp: shouldRetryLocked_def Let_def go_ok_def split: if_splits)
  have "go_ok (case err of
             Some e \<Rightarrow> if \<not> j_HasAborted (jm_jobs ?m jid) \<and> shouldRetryLocked jid err ?m then standbyLocked jid e now ?m
                       else finishLocked jid err (j_HasAborted (jm_jobs ?m jid)) now ?m
           | None \<Rightarrow> finishLocked jid err (j_HasAborted (jm_jobs ?m jid)) now ?m) (jm_inv {})"
    using f s by (auto split: option.split)
  then show ?thesis
    unfolding run_complete_def Let_def by (auto simp: go_ok_def dispatch_inv)
qed

lemma retry_timer_inv: "jm_inv {} m \<Longrightarrow> jm_inv {} (retry_timer jid now m)"
  using requeue_inv [of "{jid}" m jid now] detach_standby [of "{}" m jid]
  by (auto simp: retry_timer_def Let_def intro!: dispatch_inv)

lemma abortPending_inv:
  assumes inv: "jm_inv X m" and jid: "jid \<in> X"
  shows "go_ok (abortPendingLocked jid now m) (\<lambda>m'. jm_inv (X - {jid}) m' \<and> jm_queue m' = jm_queue m
     \<and> jm_shutdown m' = jm_shutdown m \<and> \<not> live m' jid \<and> (\<forall>x. x \<noteq> jid \<longrightarrow> jm_jobs m' x = jm_jobs m x))"
proof -
  let ?m = "put_job jid ((jm_jobs m jid)\<lparr> j_IsAborting := True \<rparr>) m"
  have "jm_inv X ?m" using inv by (rule same_core_inv [rotated]) (simp add: same_core_put job_core_def)
  from finish_inv [OF this jid, of "Some context_Canceled" True now] show ?thesis
    by (auto simp: abortPendingLocked_def go_ok_def)
qed

lemma findJob_Some: "findJob jid m = Some x \<Longrightarrow> x \<in> set (jm_history m) \<and> j_ID (jm_jobs m x) = jid"
  unfolding findJob_def by (auto simp: find_Some_iff)

lemma abortActive_inv: "jm_inv {} m \<Longrightarrow> jm_inv {} (fst (abortActiveLocked jid now m))"
proof -
  assume inv: "jm_inv {} m"
  have "jm_inv {} (put_job x ((jm_jobs m x)\<lparr> j_IsAborting := True, j_HasAborted := True, j_UpdatedAt := now \<rparr>) m)" for x
    using inv by (rule same_core_inv [rotated]) (simp add: same_core_put job_core_def)
  then show ?thesis
    using inv by (auto simp: abortActiveLocked_def Let_def publish_inv cancelled_inv split: option.split)
qed

lemma abortQueued_inv:
  assumes inv: "jm_inv {} m"
  shows "go_ok (abortQueuedLocked jid now m) (\<lambda>(m', ok). jm_inv {} m' \<and> (\<not> ok \<longrightarrow> m' = m))"
proof (cases "remove_first (\<lambda>x. j_ID (jm_jobs m x) = jid) (jm_queue m)")
  case None
  then show ?thesis using inv by (auto simp: abortQueuedLocked_def split: option.split)
next
  case (Some q)
  obtain x us vs where q: "jm_queue m = us @ x # vs" "q = us @ vs" "find (\<lambda>x. j_ID (jm_jobs m x) = jid) (jm_queue m) = Some x"
    using remove_first_find [OF Some] by blast
  have "distinct (jm_queue m)" using inv by (simp add: jm_inv_def lists_ok_def)
  then have "jm_inv {x} (m\<lparr> jm_queue := q \<rparr>)" using detach_queue [OF inv, of x q] q by auto
  from abortPending_inv [OF this, of x now] show ?thesis
    using Some q(3) by (auto simp: abortQueuedLocked_def go_ok_def)
qed

lemma abortStandby_inv:
  assumes inv: "jm_inv {} m"
  shows "go_ok (abortStandbyLocked jid now m) (\<lambda>(m', ok). jm_inv {} m')"
proof (cases "findJob jid m")
  case (Some x)
  show ?thesis
  proof (cases "j_Status (jm_jobs m x) = StatusStandby")
    case True
    let ?m = "put_job x ((jm_jobs m x)\<lparr> j_HasAborted := True \<rparr>) m"
    have "jm_inv {x} m" using detach_standby [OF inv True] by simp
    then have "jm_inv {x} ?m" by (rule same_core_inv [rotated]) (simp add: same_core_put job_core_def)
    from abortPending_inv [OF this, of x now] show ?thesis
      using Some True by (auto simp: abortStandbyLocked_def go_ok_def)
  qed (use inv Some in \<open>simp add: abortStandbyLocked_def\<close>)
qed (use inv in \<open>simp add: abortStandbyLocked_def\<close>)

lemma abort_all_inv:
  "\<lbrakk>jm_inv X m; set ids \<subseteq> X; distinct ids\<rbrakk> \<Longrightarrow>
     go_ok (abort_all ids now m) (\<lambda>m'. jm_inv (X - set ids) m' \<and> jm_queue m' = jm_queue m \<and> jm_shutdown m' = jm_shutdown m)"
proof (induction ids arbitrary: X m)
  case (Cons jid ids)
  obtain m1 where m1: "abortPendingLocked jid now m = Some m1" "jm_inv (X - {jid}) m1" "jm_queue m1 = jm_queue m"
      "jm_shutdown m1 = jm_shutdown m"
    using abortPending_inv [OF Cons.prems(1), of jid now] Cons.prems(2) by (auto simp: go_ok_def)
  have "X - set (jid # ids) = X - {jid} - set ids" by auto
  then show ?case using Cons.IH [OF m1(2)] Cons.prems(2,3) m1 by (auto simp: go_ok_def)
qed simp

lemma abort_standby_loop_inv:
  "jm_inv {} m \<Longrightarrow> go_ok (abort_standby_loop n i arr now m) (\<lambda>m'. jm_inv {} m' \<and> jm_queue m' = jm_queue m \<and> jm_shutdown m' = jm_shutdown m)"
proof (induction n arbitrary: i arr m)
  case (Suc n)
  show ?case
  proof (cases "j_Status (jm_jobs m (arr ! i)) = StatusStandby")
    case True
    have "jm_inv {arr ! i} m" using detach_standby [OF Suc.prems True] by simp
    then obtain m1 where m1: "abortPendingLocked (arr ! i) now m = Some m1" "jm_inv {} m1" "jm_queue m1 = jm_queue m"
        "jm_shutdown m1 = jm_shutdown m"
      using abortPending_inv [of "{arr ! i}" m "arr ! i" now] by (auto simp: go_ok_def)
    then show ?thesis
      using True Suc.IH [OF m1(2), of "Suc i" "jm_history m1 @ drop (length (jm_history m1)) arr"]
      by (auto simp: go_ok_def Let_def)
  qed (use Suc in \<open>simp add: Let_def\<close>)
qed simp

lemma detach_all:
  assumes "jm_inv {} m"
  shows "jm_inv (set (jm_queue m)) (m\<lparr> jm_queue := [] \<rparr>)"
proof -
  note p = inv_parts [OF assms]
  have "lists_ok (set (jm_queue m)) (m\<lparr> jm_queue := [] \<rparr>)"
    using p(1) unfolding lists_ok_def live_def by auto
  then show ?thesis using p(2-4) by (simp add: jm_inv_def queue_irrelevant)
qed

lemma shutdown_inv: "jm_inv X (shutdownCancel m) = jm_inv X m"
  by (simp add: shutdownCancel_def jm_inv_def lists_ok_def limits_ok_def keys_ok_def jobs_ok_def live_def excl_def)

lemma Shutdown_inv:
  assumes "jm_inv {} m"
  shows "go_ok (Shutdown now m) (\<lambda>m'. jm_inv {} m' \<and> jm_shutdown m' \<and> jm_queue m' = [])"
proof -
  let ?m = "shutdownCancel m"
  have inv: "jm_inv {} ?m" using assms by (simp add: shutdown_inv)
  have "distinct (jm_queue ?m)" using inv by (simp add: jm_inv_def lists_ok_def)
  from abort_all_inv [OF detach_all [OF inv] order.refl this, of now] obtain m1 where m1:
      "abort_all (jm_queue ?m) now (?m\<lparr> jm_queue := [] \<rparr>) = Some m1" "jm_inv {} m1" "jm_queue m1 = []" "jm_shutdown m1"
    by (auto simp: go_ok_def shutdownCancel_def)
  from abort_standby_loop_inv [OF m1(2), of "length (jm_history m1)" 0 "jm_history m1" now] m1 show ?thesis
    by (auto simp: Shutdown_def abortQueuedAndStandbyLocked_def Let_def go_ok_def cancelActiveLocked_def cancelled_inv)
qed

lemma setJobResult_inv: "jm_inv {} m \<Longrightarrow> jm_inv {} (setJobResult jid r now m)"
proof -
  assume inv: "jm_inv {} m"
  have "jm_inv {} (put_job jid ((jm_jobs m jid)\<lparr> j_Result := Some r, j_UpdatedAt := now \<rparr>) m)"
    using inv by (rule same_core_inv [rotated]) (simp add: same_core_put job_core_def)
  then show ?thesis using inv by (simp add: setJobResult_def Let_def publish_inv)
qed

lemma definitions_irrelevant:
  "jm_inv X m \<Longrightarrow> jm_inv X (m\<lparr> jm_definitions := ds \<rparr>)"
  "jm_inv X m \<Longrightarrow> jm_inv X (m\<lparr> jm_gocronIDs := gs, jm_events := es \<rparr>)"
  by (rule same_core_inv [rotated], assumption, simp add: same_core_def)+

lemma Abort_inv: "jm_inv {} m \<Longrightarrow> go_ok (Abort jid now m) (\<lambda>(m', e). jm_inv {} m')"
proof -
  assume inv: "jm_inv {} m"
  obtain m1 b where a: "abortActiveLocked jid now m = (m1, b)" by fastforce
  have m1: "jm_inv {} m1" using abortActive_inv [OF inv, of jid now] a by simp
  show ?thesis
  proof (cases b)
    case False
    obtain m2 b2 where q: "abortQueuedLocked jid now m1 = Some (m2, b2)" "jm_inv {} m2"
      using abortQueued_inv [OF m1, of jid now] by (auto simp: go_ok_def)
    then show ?thesis
      using a False abortStandby_inv [OF q(2), of jid now] by (cases b2) (auto simp: Abort_def go_ok_def)
  qed (use a m1 in \<open>simp add: Abort_def\<close>)
qed

lemma job_exec_inv:
  assumes inv: "jm_inv {} m" and en: "job_enabled op m"
  shows "go_ok (job_exec op now m) (jm_inv {})"
proof (cases op)
  case (OpEnqueue key jid)
  then show ?thesis using inv en enqueue_inv by (auto simp: Enqueue_def split: option.split)
next
  case (OpRerun jid newID)
  have "jm_inv {} (fst (Rerun jid newID now m))"
  proof (cases "Rerun_lookup jid m")
    case (Inr def)
    obtain m1 r where "enqueueLocked def newID now m = (m1, r)" by fastforce
    then show ?thesis
      using enqueue_inv [OF inv, of newID def now] en OpRerun Inr
      by (cases r) (simp_all add: Rerun_def EnqueueDefinition_def)
  qed (use inv in \<open>simp add: Rerun_def\<close>)
  then show ?thesis using OpRerun by simp
next
  case (OpAbort jid)
  then show ?thesis using Abort_inv [OF inv, of jid now] by (auto simp: go_ok_def)
next
  case OpShutdown
  then show ?thesis using Shutdown_inv [OF inv, of now] by (auto simp: go_ok_def)
qed (use inv en in \<open>auto simp: Register_def AddSchedule_def Let_def EnqueueDefinition_def enqueue_inv run_complete_inv
    retry_timer_inv setJobResult_inv shutdown_inv definitions_irrelevant split: option.split sum.split\<close>)

interpretation jobs: op_system jm_init job_step_enabled job_step "jm_inv {}"
  by unfold_locales (auto simp: jm_init_def NewManager_inv intro: job_exec_inv)

end
