(* ===== verification/Job_Properties.thy ===== *)
theory Job_Properties
  imports Job_Invariant
begin

text \<open>
  What the job manager guarantees: mutual exclusion and uniqueness of keys, order of dependent
  jobs, no free slot left unused (and the operation that violates this), and the effect of a
  shutdown.
\<close>

section \<open>Which jobs start, and when none is left waiting\<close>

text \<open>What an operation leaves behind: it starts only jobs whose dependencies are not live, and, if
nothing was left waiting before, nothing is left waiting after.\<close>

definition starts_ok :: "JobManager \<Rightarrow> JobManager \<Rightarrow> bool" where
  "starts_ok m m' \<longleftrightarrow> (\<forall>jid \<in> set (jm_active m'). jid \<in> set (jm_active m)
          \<or> (\<forall>k \<in> set (jd_DependsOn (j_definition (jm_jobs m' jid))). k \<notin> set (jm_activeKeys m')))"

definition after_dispatch :: "JobManager \<Rightarrow> JobManager \<Rightarrow> bool" where
  "after_dispatch m m' \<longleftrightarrow> (work_conserving m \<longrightarrow> work_conserving m') \<and> starts_ok m m'"

lemma after_dispatch_dispatch:
  assumes "set (jm_active m1) \<subseteq> set (jm_active m)"
  shows "after_dispatch m (dispatchLocked now m1)"
  using dispatch_result [of now m1] assms unfolding after_dispatch_def starts_ok_def by auto

lemma after_dispatch_same:
  assumes "set (jm_active m') \<subseteq> set (jm_active m)" and "work_conserving m \<Longrightarrow> work_conserving m'"
  shows "after_dispatch m m'"
  using assms by (auto simp: after_dispatch_def starts_ok_def)

lemma trim_active [simp]: "jm_active (trimHistory m) = jm_active m"
  by (simp add: trimHistory_def)

lemma finish_active: "finishLocked jid err ab now m = Some m' \<Longrightarrow> jm_active m' = jm_active m"
  by (auto simp: finishLocked_def Let_def split: if_splits option.splits)

lemma enqueue_after_dispatch:
  "after_dispatch m (fst (enqueueLocked def jid now m))"
  unfolding enqueueLocked_def Let_def
  by (auto simp: addHistoryLocked_def intro!: after_dispatch_same after_dispatch_dispatch)

lemma run_complete_after_dispatch:
  assumes "run_complete jid err now m = Some m'"
  shows "after_dispatch m m'"
proof -
  let ?m = "completeActiveLocked jid m"
  obtain m1 where m1: "m' = dispatchLocked now m1" and r: "(case err of
             Some e \<Rightarrow> if \<not> j_HasAborted (jm_jobs ?m jid) \<and> shouldRetryLocked jid err ?m then standbyLocked jid e now ?m
                       else finishLocked jid err (j_HasAborted (jm_jobs ?m jid)) now ?m
           | None \<Rightarrow> finishLocked jid err (j_HasAborted (jm_jobs ?m jid)) now ?m) = Some m1"
    using assms by (auto simp: run_complete_def Let_def split: bind_splits)
  have "jm_active m1 = jm_active ?m"
    using r by (auto simp: standbyLocked_def Let_def dest: finish_active split: option.splits if_splits bind_splits)
  then show ?thesis unfolding m1 by (intro after_dispatch_dispatch) (auto simp: completeActiveLocked_def)
qed

lemma retry_timer_after_dispatch: "after_dispatch m (retry_timer jid now m)"
  unfolding retry_timer_def retryToQueueLocked_def Let_def
  by (auto intro!: after_dispatch_same after_dispatch_dispatch)

lemma abort_all_active: "abort_all ids now m = Some m' \<Longrightarrow> jm_active m' = jm_active m"
proof (induction ids arbitrary: m)
  case (Cons a ids)
  then show ?case by (auto simp: abortPendingLocked_def dest!: finish_active split: bind_splits)
qed simp

lemma abort_standby_loop_active: "abort_standby_loop n i arr now m = Some m' \<Longrightarrow> jm_active m' = jm_active m"
proof (induction n arbitrary: i arr m)
  case (Suc n)
  then show ?case
    by (auto simp: abortPendingLocked_def Let_def dest!: finish_active split: bind_splits if_splits)
qed simp

lemma Shutdown_active: "Shutdown now m = Some m' \<Longrightarrow> jm_active m' = jm_active m"
  by (auto simp: Shutdown_def abortQueuedAndStandbyLocked_def cancelActiveLocked_def shutdownCancel_def Let_def
      dest!: abort_all_active abort_standby_loop_active split: bind_splits)

lemma setJobResult_runnable:
  "work_conserving m \<Longrightarrow> work_conserving (setJobResult jid r now m)" "jm_active (setJobResult jid r now m) = jm_active m"
  by (auto simp: setJobResult_def Let_def work_conserving_def runnable_def dependenciesSatisfiedLocked_def)

lemma job_exec_after_dispatch:
  assumes inv: "jm_inv {} m" and x: "job_exec op now m = Some m'" and na: "\<forall>jid. op \<noteq> OpAbort jid"
  shows "after_dispatch m m'"
proof (cases op)
  case (OpEnqueue key jid)
  then show ?thesis using x by (auto simp: Enqueue_def enqueue_after_dispatch after_dispatch_same split: option.splits)
next
  case (OpRerun jid newID)
  show ?thesis
  proof (cases "Rerun_lookup jid m")
    case (Inr def)
    obtain m1 r where "enqueueLocked def newID now m = (m1, r)" by fastforce
    then show ?thesis
      using enqueue_after_dispatch [of m def newID now] x OpRerun Inr
      by (cases r) (simp_all add: Rerun_def EnqueueDefinition_def)
  qed (use x OpRerun in \<open>simp add: Rerun_def after_dispatch_same\<close>)
next
  case OpShutdown
  then show ?thesis
    using x Shutdown_active [of now m m'] Shutdown_inv [OF inv, of now]
    by (auto simp: go_ok_def work_conserving_def intro!: after_dispatch_same)
next
  case (OpSetJobResult jid r)
  then show ?thesis using x setJobResult_runnable(1) [of m jid r now] setJobResult_runnable(2) [of jid r now m] by (auto intro!: after_dispatch_same)
next
  case (OpAddSchedule key schedule scheduled)
  have "work_conserving (m\<lparr> jm_gocronIDs := g, jm_events := e \<rparr>)" if "work_conserving m" for g e
    using that by (simp add: work_conserving_def runnable_def dependenciesSatisfiedLocked_def)
  then show ?thesis
    using x OpAddSchedule by (auto simp: AddSchedule_def Let_def intro!: after_dispatch_same split: option.splits sum.splits)
next
  case (OpRegister def)
  then show ?thesis
    using x by (auto simp: Register_def work_conserving_def runnable_def dependenciesSatisfiedLocked_def intro!: after_dispatch_same)
next
  case OpShutdownCancel
  then show ?thesis using x by (auto simp: shutdownCancel_def work_conserving_def intro!: after_dispatch_same)
qed (use x na in \<open>auto simp: EnqueueDefinition_def enqueue_after_dispatch run_complete_after_dispatch
    retry_timer_after_dispatch\<close>)

lemma Abort_active: "Abort jid now m = Some (m', e) \<Longrightarrow> jm_active m' = jm_active m"
  by (auto simp: Abort_def abortActiveLocked_def abortQueuedLocked_def abortStandbyLocked_def abortPendingLocked_def Let_def
      dest!: finish_active split: if_splits option.splits bind_splits prod.splits)

lemma job_exec_starts:
  assumes "jm_inv {} m" and "job_exec op now m = Some m'"
  shows "starts_ok m m'"
proof (cases "\<exists>jid. op = OpAbort jid")
  case True
  then show ?thesis using assms(2) Abort_active by (auto simp: starts_ok_def)
next
  case False
  then show ?thesis using job_exec_after_dispatch [OF assms] by (auto simp: after_dispatch_def)
qed

section \<open>Shutdown when no history is trimmed\<close>

lemma trim_noop: "blen h \<le> mx \<Longrightarrow> trim P mx h = h"
  by (simp add: trim.simps [of P mx h])

lemma abortPending_keeps:
  assumes "abortPendingLocked jid now m = Some m'" and "blen (jm_history m) \<le> jm_maxHistory m"
  shows "jm_history m' = jm_history m" "jm_maxHistory m' = jm_maxHistory m"
  using assms by (auto simp: abortPendingLocked_def finishLocked_def Let_def trimHistory_def trim_noop split: if_splits)

lemma abort_all_keeps:
  "\<lbrakk>abort_all ids now m = Some m'; blen (jm_history m) \<le> jm_maxHistory m\<rbrakk>
   \<Longrightarrow> jm_history m' = jm_history m \<and> jm_maxHistory m' = jm_maxHistory m"
proof (induction ids arbitrary: m)
  case (Cons a ids)
  then obtain m1 where m1: "abortPendingLocked a now m = Some m1" "abort_all ids now m1 = Some m'" by (auto split: bind_splits)
  then show ?case using Cons.IH [OF m1(2)] abortPending_keeps [OF m1(1) Cons.prems(2)] Cons.prems(2) by simp
qed simp

lemma abort_standby_loop_all:
  "\<lbrakk>jm_inv {} m; blen (jm_history m) \<le> jm_maxHistory m; i + n = length (jm_history m);
    \<forall>j < i. j_Status (jm_jobs m (jm_history m ! j)) \<noteq> StatusStandby;
    abort_standby_loop n i (jm_history m) now m = Some m'\<rbrakk>
   \<Longrightarrow> \<forall>x \<in> set (jm_history m'). j_Status (jm_jobs m' x) \<noteq> StatusStandby"
proof (induction n arbitrary: i m)
  case 0
  then show ?case by (auto simp: in_set_conv_nth)
next
  case (Suc n)
  let ?x = "jm_history m ! i"
  show ?case
  proof (cases "j_Status (jm_jobs m ?x) = StatusStandby")
    case True
    have "jm_inv {?x} m" using detach_standby [OF Suc.prems(1) True] by simp
    then obtain m1 where m1: "abortPendingLocked ?x now m = Some m1" "jm_inv {} m1" "\<not> live m1 ?x"
        "\<forall>y. y \<noteq> ?x \<longrightarrow> jm_jobs m1 y = jm_jobs m y"
      using abortPending_inv [of "{?x}" m ?x now] by (auto simp: go_ok_def)
    note keep = abortPending_keeps [OF m1(1) Suc.prems(2)]
    have "j_Status (jm_jobs m1 (jm_history m ! j)) \<noteq> StatusStandby" if "j < Suc i" for j
      using that Suc.prems(4) m1(3,4) by (cases "jm_history m ! j = ?x") (auto simp: live_def less_Suc_eq)
    then show ?thesis
      using Suc.IH [OF m1(2), of "Suc i"] Suc.prems(2,3,5) True m1(1) keep by (simp add: Let_def)
  next
    case False
    then have "\<forall>j < Suc i. j_Status (jm_jobs m (jm_history m ! j)) \<noteq> StatusStandby"
      using Suc.prems(4) by (auto simp: less_Suc_eq)
    then show ?thesis using Suc.IH [OF Suc.prems(1,2), of "Suc i"] Suc.prems(3,5) False by (simp add: Let_def)
  qed
qed

lemma Shutdown_stops:
  assumes inv: "jm_inv {} m" and room: "blen (jm_history m) \<le> jm_maxHistory m" and s: "Shutdown now m = Some m'"
  shows "live m' jid \<Longrightarrow> jid \<in> set (jm_active m') \<and> jid \<in> set (jm_cancelled m')"
proof -
  let ?m = "shutdownCancel m"
  obtain m1 m2 where m1: "abort_all (jm_queue ?m) now (?m\<lparr> jm_queue := [] \<rparr>) = Some m1"
    and m2: "abort_standby_loop (length (jm_history m1)) 0 (jm_history m1) now m1 = Some m2" and m': "m' = cancelActiveLocked m2"
    using s by (auto simp: Shutdown_def abortQueuedAndStandbyLocked_def Let_def split: bind_splits)
  have inv0: "jm_inv {} ?m" using inv by (simp add: shutdown_inv)
  then have "distinct (jm_queue ?m)" by (simp add: jm_inv_def lists_ok_def)
  then have inv1: "jm_inv {} m1"
    using abort_all_inv [OF detach_all [OF inv0] order.refl, of now] m1 by (auto simp: go_ok_def)
  have q1: "jm_history m1 = jm_history m" "jm_maxHistory m1 = jm_maxHistory m"
    using abort_all_keeps [OF m1] room by (simp_all add: shutdownCancel_def)
  have sb: "\<forall>x \<in> set (jm_history m2). j_Status (jm_jobs m2 x) \<noteq> StatusStandby"
    using abort_standby_loop_all [OF inv1 _ _ _ m2] room q1 by simp
  have inv2: "jm_inv {} m'" and q2: "jm_queue m' = []"
    using Shutdown_inv [OF inv, of now] s by (auto simp: go_ok_def)
  assume l: "live m' jid"
  have m'_same: "jm_jobs m' = jm_jobs m2" "jm_history m' = jm_history m2" "jm_active m' = jm_active m2"
      "set (jm_cancelled m') = set (jm_active m2) \<union> set (jm_cancelled m2)"
    by (simp_all add: m' cancelActiveLocked_def)
  have "jid \<in> set (jm_history m')" "j_Status (jm_jobs m' jid) \<noteq> StatusQueued"
    "jid \<in> set (jm_active m') \<longleftrightarrow> j_Status (jm_jobs m' jid) = StatusRunning"
    using inv2 l q2 by (auto simp: jm_inv_def lists_ok_def)
  moreover have "j_Status (jm_jobs m' jid) \<noteq> StatusStandby" using sb calculation(1) by (simp add: m'_same)
  ultimately show "jid \<in> set (jm_active m') \<and> jid \<in> set (jm_cancelled m')"
    using l m'_same by (cases "j_Status (jm_jobs m' jid)") (auto simp: live_def)
qed

section \<open>Properties\<close>

lemma NewManager_reach: "jm_reach (NewManager a b c)"
  by (rule reach.start) (auto simp: jm_init_def)

text \<open>
  C14. In every reachable state every operation that can happen returns: the \<open>done\<close> channel of a
  job is never closed twice and \<open>RetryDelays\<close> is never read out of range, whatever the handlers
  return and however operations, completions, timers, aborts and the shutdown are ordered.
\<close>

theorem JobManager_never_panics:
  assumes "jm_reach m" and "job_enabled op m"
  shows "\<exists>m'. job_exec op now m = Some m' \<and> jm_reach m'"
  using jobs.reach_total [OF assms(1), of "(op, now)"] reach.step [OF assms(1), of "(op, now)"] assms(2) by auto

theorem JobManager_never_panics_witness:
  "\<exists>m'. job_exec OpShutdown 7 (NewManager 10 2 True) = Some m' \<and> jm_reach m'"
  by (rule JobManager_never_panics [OF NewManager_reach]) simp

text \<open>
  C3. In every reachable state: the running counter is the number of running jobs and at most
  \<open>maxConcurrent\<close>; no two running jobs share an exclusive key; no two unfinished jobs (queued,
  running or waiting for a retry) have the same key, and the keys refused as \<open>ErrJobAlreadyRunning\<close>
  are exactly theirs; unfinished jobs are never dropped from the history; and no job has been
  retried more often than its definition has delays.
\<close>

theorem JobManager_invariant:
  assumes "jm_reach m"
  shows "jm_running m = int (card {jid. j_Status (jm_jobs m jid) = StatusRunning}) \<and> jm_running m \<le> jm_maxConcurrent m
    \<and> (\<forall>a b. j_Status (jm_jobs m a) = StatusRunning \<and> j_Status (jm_jobs m b) = StatusRunning \<and> a \<noteq> b \<longrightarrow> excl m a \<inter> excl m b = {})
    \<and> (\<forall>a b. live m a \<and> live m b \<and> j_Key (jm_jobs m a) = j_Key (jm_jobs m b) \<longrightarrow> a = b)
    \<and> (\<forall>k. k \<in> set (jm_activeKeys m) \<longleftrightarrow> (\<exists>a. live m a \<and> j_Key (jm_jobs m a) = k))
    \<and> (\<forall>a. live m a \<longrightarrow> a \<in> set (jm_history m))
    \<and> (\<forall>a. j_RetryCount (jm_jobs m a) \<le> blen (jd_RetryDelays (j_definition (jm_jobs m a))))"
proof -
  note inv = jobs.reach_inv [OF assms]
  note p = inv_parts [OF inv] and k = keys_okD [OF inv_parts(3) [OF inv]]
  have run: "x \<in> set (jm_active m) \<longleftrightarrow> j_Status (jm_jobs m x) = StatusRunning" for x
    using p(1) by (simp add: lists_ok_def)
  then have "{jid. j_Status (jm_jobs m jid) = StatusRunning} = set (jm_active m)" by auto
  moreover have "distinct (jm_active m)" using p(1) by (simp add: lists_ok_def)
  ultimately have card: "int (card {jid. j_Status (jm_jobs m jid) = StatusRunning}) = blen (jm_active m)"
    by (simp add: distinct_card)
  show ?thesis
  proof (intro conjI allI impI)
    show "jm_running m = int (card {jid. j_Status (jm_jobs m jid) = StatusRunning})" "jm_running m \<le> jm_maxConcurrent m"
      using p(2) card by (simp_all add: limits_ok_def)
    show "a \<in> set (jm_history m)" if "live m a" for a using p(1) that by (simp add: lists_ok_def)
    show "j_RetryCount (jm_jobs m a) \<le> blen (jd_RetryDelays (j_definition (jm_jobs m a)))" for a
      using p(4) by (simp add: jobs_ok_def)
  qed (use k run in blast)+
qed

theorem JobManager_invariant_witness:
  "jm_running (NewManager 10 0 True) \<le> jm_maxConcurrent (NewManager 10 0 True)"
  using JobManager_invariant [OF NewManager_reach, of 10 0 True] by simp

text \<open>
  C15. Dependencies: when an operation in a reachable state starts a job, then no job whose key is
  one of its \<open>DependsOn\<close> is queued, running or waiting for a retry. In particular a job that
  depends on its own key is never started.
\<close>

theorem job_starts_after_dependencies:
  assumes "jm_reach m" and "job_exec op now m = Some m'" and "job_enabled op m"
    and "jid \<notin> set (jm_active m)" and "jid \<in> set (jm_active m')" and "k \<in> set (jd_DependsOn (j_definition (jm_jobs m' jid)))"
  shows "\<not> (live m' x \<and> j_Key (jm_jobs m' x) = k)"
proof -
  note inv = jobs.reach_inv [OF assms(1)]
  have "jm_inv {} m'" using job_exec_inv [OF inv assms(3), of now] assms(2) by (simp add: go_ok_def)
  then have "k \<in> set (jm_activeKeys m') \<longleftrightarrow> (\<exists>x. live m' x \<and> j_Key (jm_jobs m' x) = k)"
    using keys_okD(1) [of m' k] by (simp add: jm_inv_def)
  moreover have "k \<notin> set (jm_activeKeys m')"
    using job_exec_starts [OF inv assms(2)] assms(4-6) by (auto simp: starts_ok_def)
  ultimately show ?thesis by blast
qed

text \<open>Definitions for concrete runs: a job with a retry, one that depends on a key, failing handlers.\<close>

definition retry_def :: "string \<Rightarrow> JobDefinition" where
  "retry_def key = \<lparr> jd_Key = key, jd_Name = key, jd_Handler = True, jd_DependsOn = [], jd_ExclusiveKeys = [],
     jd_IsRerunnable = True, jd_RetryDelays = [5], jd_RetryIf = None \<rparr>"

definition dependent_def :: "string \<Rightarrow> string \<Rightarrow> JobDefinition" where
  "dependent_def key on = (retry_def key)\<lparr> jd_DependsOn := [on] \<rparr>"

definition failure :: "goerror option" where
  "failure = Some (GoError ''timeout'' False)"

text \<open>A run from the initial state, checked by evaluation.\<close>

definition run_from_start :: "int \<Rightarrow> (job_op \<times> int) list \<Rightarrow> (JobManager \<Rightarrow> bool) \<Rightarrow> bool" where
  "run_from_start maxHistory ops P =
     (let m = NewManager maxHistory 1 False
      in all_enabled job_step_enabled job_step ops m
         \<and> (case run_ops job_step ops m of Some m' \<Rightarrow> P m' | None \<Rightarrow> False))"

lemma run_from_startD: "run_from_start maxHistory ops P \<Longrightarrow> \<exists>m. run_ops job_step ops (NewManager maxHistory 1 False) = Some m \<and> jm_reach m \<and> P m"
  using run_ops_reach [OF NewManager_reach] by (auto simp: run_from_start_def Let_def split: option.splits)

definition fail_once :: "string \<Rightarrow> jobid \<Rightarrow> (job_op \<times> int) list" where
  "fail_once key jid = [(OpEnqueueDefinition (retry_def key) jid, 0), (OpRunComplete jid failure, 1)]"

theorem job_starts_after_dependencies_witness:
  "\<exists>m'. job_exec (OpEnqueueDefinition (dependent_def ''b'' ''a'') ''1'') 0 (NewManager 10 1 False) = Some m'
     \<and> jm_active m' = [''1''] \<and> \<not> (live m' ''2'' \<and> j_Key (jm_jobs m' ''2'') = ''a'')"
proof -
  have "run_from_start 10 [(OpEnqueueDefinition (dependent_def ''b'' ''a'') ''1'', 0)]
      (\<lambda>m. jm_active m = [''1''] \<and> ''a'' \<in> set (jd_DependsOn (j_definition (jm_jobs m ''1''))))"
    by code_simp
  then obtain m' where m': "job_exec (OpEnqueueDefinition (dependent_def ''b'' ''a'') ''1'') 0 (NewManager 10 1 False) = Some m'"
      "jm_active m' = [''1'']" "''a'' \<in> set (jd_DependsOn (j_definition (jm_jobs m' ''1'')))"
    by (auto simp del: job_exec.simps dest!: run_from_startD split: bind_splits)
  then show ?thesis
    using job_starts_after_dependencies [OF NewManager_reach m'(1), of "''1''" "''a''" "''2''"]
    by (simp add: NewManager_def)
qed

text \<open>
  \<open>Abort\<close> of a waiting job frees its key but does not dispatch: after a job has failed and waits
  for its retry, and a job that depends on it has been queued, aborting the first leaves the
  second in the queue although it could run, nothing is running, and no timer or completion is
  outstanding that would start it.
\<close>

theorem Abort_loses_wakeup:
  "\<exists>m. run_ops job_step (fail_once ''a'' ''1'' @ [(OpEnqueueDefinition (dependent_def ''b'' ''a'') ''2'', 2), (OpAbort ''1'', 3)])
          (NewManager 10 1 False) = Some m \<and> jm_reach m
     \<and> jm_queue m = [''2''] \<and> runnable m ''2'' \<and> jm_running m = 0 \<and> \<not> jm_shutdown m
     \<and> filter (\<lambda>x. j_Status (jm_jobs m x) = StatusStandby) (jm_history m) = []"
  by (rule run_from_startD) code_simp

text \<open>
  C16. Every other operation is work-conserving: if no free slot was left unused before (no queued job
  could have been started), then none is left unused after it; so \<open>Abort\<close> is the only operation
  that can leave a runnable job waiting.
\<close>

theorem job_exec_work_conserving:
  assumes "jm_reach m" and "work_conserving m" and "\<forall>jid. op \<noteq> OpAbort jid" and "job_exec op now m = Some m'"
  shows "work_conserving m'"
  using job_exec_after_dispatch [OF jobs.reach_inv [OF assms(1)] assms(4,3)] assms(2) by (simp add: after_dispatch_def)

theorem job_exec_work_conserving_witness:
  "work_conserving (fst (EnqueueDefinition (retry_def ''a'') ''1'' 0 (NewManager 10 1 False)))"
  by (rule job_exec_work_conserving [where m = "NewManager 10 1 False" and op = "OpEnqueueDefinition (retry_def ''a'') ''1''"
        and now = 0, OF NewManager_reach])
     (simp_all add: work_conserving_def NewManager_def)

text \<open>
  C17. \<open>Shutdown\<close>, when the history has not outgrown its limit: afterwards the queue is empty and the
  only unfinished jobs are running ones whose context has been cancelled; every queued job and
  every job waiting for a retry is finished, so that nobody waits for them for ever.
\<close>

theorem Shutdown_finishes_pending:
  assumes "jm_reach m" and "blen (jm_history m) \<le> jm_maxHistory m"
  shows "\<exists>m'. Shutdown now m = Some m' \<and> jm_queue m' = []
     \<and> (\<forall>jid. live m' jid \<longrightarrow> j_Status (jm_jobs m' jid) = StatusRunning \<and> jid \<in> set (jm_cancelled m'))"
proof -
  note inv = jobs.reach_inv [OF assms(1)]
  obtain m' where m': "Shutdown now m = Some m'" "jm_inv {} m'" "jm_queue m' = []"
    using Shutdown_inv [OF inv, of now] by (auto simp: go_ok_def)
  moreover have "jid \<in> set (jm_active m') \<longleftrightarrow> j_Status (jm_jobs m' jid) = StatusRunning" for jid
    using m'(2) by (simp add: jm_inv_def lists_ok_def)
  ultimately show ?thesis using Shutdown_stops [OF inv assms(2) m'(1)] by blast
qed

theorem Shutdown_finishes_pending_witness:
  "\<exists>m'. Shutdown 3 (NewManager 10 1 False) = Some m' \<and> jm_queue m' = []"
  using Shutdown_finishes_pending [OF NewManager_reach, of 10 1 False 3] by (auto simp: NewManager_def)

text \<open>
  Beyond that limit \<open>Shutdown\<close> can miss a job: its loop ranges over the history while
  \<open>finishLocked\<close> trims that history in place. With a limit of one and three jobs waiting for
  a retry, the second one is skipped: it still waits after the shutdown, its key still taken and
  its \<open>done\<close> channel open.
\<close>

theorem Shutdown_skips_standby:
  "\<exists>m. run_ops job_step (fail_once ''a'' ''1'' @ fail_once ''b'' ''2'' @ fail_once ''c'' ''3'' @ [(OpShutdown, 9)])
          (NewManager 1 1 False) = Some m \<and> jm_reach m
     \<and> j_Status (jm_jobs m ''2'') = StatusStandby \<and> ''b'' \<in> set (jm_activeKeys m) \<and> \<not> j_done (jm_jobs m ''2'')
     \<and> j_Status (jm_jobs m ''1'') = StatusFinished \<and> j_Status (jm_jobs m ''3'') = StatusFinished"
  by (rule run_from_startD) code_simp

end
