(* ===== verification/Configuration.thy ===== *)
theory Configuration
  imports Go_Prelude
begin

text \<open>
  The configuration files of \<open>internal/config\<close>: \<open>channel.go\<close>, \<open>tuners.go\<close>, \<open>remotes.go\<close>, \<open>system.go\<close>,
  \<open>config.go\<close>. Reading and decoding a YAML file is an argument: the file may be missing, fail to be
  read or decoded, or give a value. Everything the package does with the value is modelled: checks,
  defaults, and the translation of deprecated fields. Strings are lists of bytes (\<open>char\<close>), an
  \<open>ObservabilitySignal\<close>, a struct of one boolean, is that boolean, and error values keep the text of their message.
\<close>

datatype config_error = ErrNotExist | ConfigError string | RemoteNotConfigured string

datatype 'a config_file = FileMissing | FileError string | FileDecoded 'a

fun file_error :: "'a config_file \<Rightarrow> config_error option" where
  "file_error FileMissing = Some ErrNotExist"
| "file_error (FileError e) = Some (ConfigError e)"
| "file_error (FileDecoded x) = None"

text \<open>A value of a \<open>map[string]any\<close>: one that the package stores, or one from the file, as its text.\<close>

datatype any_value = AnyString string | AnyUint8 u8 | AnyUint32 u32 | AnyDecoded string

section \<open>Channels\<close>

record ChannelRouteConfig =
  rc_Id :: string
  rc_Remote :: string
  rc_Type :: string
  rc_Channel :: string
  rc_ServiceId :: "u32 option"
  rc_TsmfRelTs :: "u8 option"
  rc_CommandVars :: "(string, any_value) gomap option"
  rc_IsDisabled :: "bool option"
  rc_Priority :: "int option"

record ChannelConfig =
  cc_Name :: string
  cc_Type :: string
  cc_Channel :: string
  cc_ServiceId :: "u32 option"
  cc_TsmfRelTs :: "u8 option"
  cc_CommandVars :: "(string, any_value) gomap option"
  cc_IsDisabled :: "bool option"
  cc_Satelite :: "string option"
  cc_Satellite :: "string option"
  cc_Space :: "u8 option"
  cc_Freq :: "u32 option"
  cc_Polarity :: "string option"
  cc_Routes :: "ChannelRouteConfig list"

definition IsChannelDisabled :: "ChannelConfig \<Rightarrow> bool" where
  "IsChannelDisabled channel \<longleftrightarrow> cc_IsDisabled channel = Some True"

definition route_id :: "ChannelRouteConfig \<Rightarrow> string" where
  "route_id r =
     (if rc_Id r = []
      then if rc_Remote r \<noteq> [] then rc_Remote r @ '':'' @ rc_Type r @ '':'' @ rc_Channel r
           else rc_Type r @ '':'' @ rc_Channel r
      else rc_Id r)"

definition default_to :: "'a \<Rightarrow> 'a option \<Rightarrow> 'a option" where
  "default_to d v = (case v of None \<Rightarrow> Some d | Some x \<Rightarrow> Some x)"

fun normalize_routes :: "string list \<Rightarrow> ChannelRouteConfig list \<Rightarrow> config_error + ChannelRouteConfig list" where
  "normalize_routes seen [] = Inr []"
| "normalize_routes seen (r # rs) =
     (if rc_Type r = [] then Inl (ConfigError ''route type is required'')
      else if rc_Channel r = [] then Inl (ConfigError ''route channel is required'')
      else let rid = route_id r in
      if rid \<in> set seen then Inl (ConfigError ''duplicate route id'')
      else if rc_TsmfRelTs r \<noteq> None \<and> rc_ServiceId r = None then Inl (ConfigError ''serviceId is required when route tsmfRelTs is set'')
      else if (case rc_TsmfRelTs r of Some n \<Rightarrow> n > 0x0f | None \<Rightarrow> False) then Inl (ConfigError ''route tsmfRelTs must be between 0 and 15'')
      else (case normalize_routes (rid # seen) rs of
          Inl e \<Rightarrow> Inl e
        | Inr rs \<Rightarrow> Inr (r\<lparr> rc_Id := rid, rc_CommandVars := default_to [] (rc_CommandVars r),
                           rc_IsDisabled := default_to False (rc_IsDisabled r) \<rparr> # rs)))"

definition normalizeRoutes :: "ChannelConfig \<Rightarrow> config_error + ChannelRouteConfig list" where
  "normalizeRoutes channel = normalize_routes [] (cc_Routes channel)"

text \<open>The deprecated fields are moved to the command variables.\<close>

definition set_var :: "string \<Rightarrow> any_value option \<Rightarrow> (string, any_value) gomap \<Rightarrow> (string, any_value) gomap" where
  "set_var k v vars = (case v of None \<Rightarrow> vars | Some x \<Rightarrow> AList.update k x vars)"

definition deprecated_vars :: "ChannelConfig \<Rightarrow> (string, any_value) gomap \<Rightarrow> (string, any_value) gomap" where
  "deprecated_vars c vars =
     set_var ''polarity'' (map_option AnyString (cc_Polarity c))
      (set_var ''freq'' (map_option AnyUint32 (cc_Freq c))
        (set_var ''space'' (map_option AnyUint8 (cc_Space c))
          (set_var ''satellite'' (map_option AnyString (cc_Satellite c))
            (set_var ''satellite'' (map_option AnyString (cc_Satelite c)) vars))))"

definition normalize_channel :: "ChannelConfig \<Rightarrow> config_error + ChannelConfig" where
  "normalize_channel c =
     (if cc_Name c = [] then Inl (ConfigError ''channel name is required'')
      else if cc_Type c = [] then Inl (ConfigError ''channel type is required'')
      else if cc_Channel c = [] then Inl (ConfigError ''channel symbol is required'')
      else if cc_TsmfRelTs c \<noteq> None \<and> cc_ServiceId c = None then Inl (ConfigError ''serviceId is required when tsmfRelTs is set'')
      else if (case cc_TsmfRelTs c of Some n \<Rightarrow> n > 0x0f | None \<Rightarrow> False) then Inl (ConfigError ''tsmfRelTs must be between 0 and 15'')
      else if cc_CommandVars c \<noteq> None \<and> (cc_Satelite c \<noteq> None \<or> cc_Satellite c \<noteq> None \<or> cc_Space c \<noteq> None \<or> cc_Freq c \<noteq> None \<or> cc_Polarity c \<noteq> None)
      then Inl (ConfigError ''commandVars cannot be used with satelite, satellite, space, freq, or polarity'')
      else
        let vars = (case cc_CommandVars c of None \<Rightarrow> [] | Some vars \<Rightarrow> vars);
            c = c\<lparr> cc_IsDisabled := default_to False (cc_IsDisabled c), cc_CommandVars := Some (deprecated_vars c vars),
                  cc_Satelite := None, cc_Satellite := None, cc_Space := None, cc_Freq := None, cc_Polarity := None \<rparr>
        in (case normalizeRoutes c of Inl e \<Rightarrow> Inl e | Inr routes \<Rightarrow> Inr (c\<lparr> cc_Routes := routes \<rparr>)))"

fun normalize_channels :: "ChannelConfig list \<Rightarrow> config_error + ChannelConfig list" where
  "normalize_channels [] = Inr []"
| "normalize_channels (c # cs) =
     (case normalize_channel c of
        Inl e \<Rightarrow> Inl e
      | Inr c \<Rightarrow> (case normalize_channels cs of Inl e \<Rightarrow> Inl e | Inr cs \<Rightarrow> Inr (c # cs)))"

fun LoadAndParseChannelsConfig :: "ChannelConfig list config_file \<Rightarrow> config_error + ChannelConfig list" where
  "LoadAndParseChannelsConfig (FileDecoded config) =
     (if config = [] then Inl (ConfigError ''at least one channel is required'') else normalize_channels config)"
| "LoadAndParseChannelsConfig file = Inl (the (file_error file))"

definition RouteChannelConfig :: "ChannelConfig \<Rightarrow> ChannelRouteConfig \<Rightarrow> ChannelConfig" where
  "RouteChannelConfig c route = c\<lparr> cc_Type := rc_Type route, cc_Channel := rc_Channel route, cc_ServiceId := rc_ServiceId route,
     cc_TsmfRelTs := rc_TsmfRelTs route, cc_CommandVars := rc_CommandVars route, cc_IsDisabled := rc_IsDisabled route, cc_Routes := [] \<rparr>"

definition RoutesOrDefault :: "ChannelConfig \<Rightarrow> ChannelRouteConfig list" where
  "RoutesOrDefault c =
     (if cc_Routes c \<noteq> [] then cc_Routes c
      else [\<lparr> rc_Id = ''default'', rc_Remote = [], rc_Type = cc_Type c, rc_Channel = cc_Channel c, rc_ServiceId = cc_ServiceId c,
              rc_TsmfRelTs = cc_TsmfRelTs c, rc_CommandVars = cc_CommandVars c, rc_IsDisabled = cc_IsDisabled c, rc_Priority = None \<rparr>])"

section \<open>Tuners\<close>

record TunerConfig =
  tc_Name :: string
  tc_Types :: "string list"
  tc_Command :: string
  tc_DvbDevicePath :: string
  tc_Decoder :: string
  tc_IsDisabled :: bool
  tc_StartupRetryMax :: int
  tc_StartupTimeout :: int
  tc_StartupRetryDelay :: int

definition tuner_error :: "TunerConfig \<Rightarrow> string option" where
  "tuner_error t =
     (if tc_Name t = [] then Some ''tuner name is required''
      else if tc_Command t = [] then Some ''command is required''
      else if tc_DvbDevicePath t \<noteq> [] \<and> tc_Command t = [] then Some ''dvbDevicePath is only allowed when command is set''
      else if tc_Types t = [] then Some ''at least one types is required''
      else if tc_StartupRetryMax t < 0 then Some ''startupRetryMax must be >= 0''
      else if tc_StartupTimeout t < 0 then Some ''startupTimeout must be >= 0''
      else if tc_StartupRetryDelay t < 0 then Some ''startupRetryDelay must be >= 0''
      else None)"

text \<open>The list of tuners is one of pointers; a \<open>null\<close> entry of the file is a nil pointer.\<close>

fun check_tuners :: "TunerConfig option list \<Rightarrow> (config_error option) go" where
  "check_tuners [] = Some None"
| "check_tuners (tuner # tuners) = do {
     t \<leftarrow> tuner;
     (case tuner_error t of Some e \<Rightarrow> Some (Some (ConfigError e)) | None \<Rightarrow> check_tuners tuners) }"

fun LoadAndParseTunersConfig :: "TunerConfig option list config_file \<Rightarrow> (config_error + TunerConfig option list) go" where
  "LoadAndParseTunersConfig (FileDecoded config) =
     (if config = [] then Some (Inl (ConfigError ''at least one tuner is required''))
      else do { e \<leftarrow> check_tuners config; Some (case e of Some e \<Rightarrow> Inl e | None \<Rightarrow> Inr config) })"
| "LoadAndParseTunersConfig file = Some (Inl (the (file_error file)))"

section \<open>Remotes\<close>

record BasicAuthConfig =
  ba_Username :: string
  ba_Password :: string

record RemoteConfig =
  rm_Name :: string
  rm_URL :: string
  rm_BasicAuth :: "BasicAuthConfig option"

fun check_remotes :: "string list \<Rightarrow> RemoteConfig list \<Rightarrow> config_error option" where
  "check_remotes seen [] = None"
| "check_remotes seen (r # rs) =
     (if rm_Name r = [] then Some (ConfigError ''remote name is required'')
      else if rm_Name r \<in> set seen then Some (ConfigError ''duplicate remote name'')
      else if rm_URL r = [] then Some (ConfigError ''remote url is required'')
      else if (case rm_BasicAuth r of Some a \<Rightarrow> ba_Username a = [] \<or> ba_Password a = [] | None \<Rightarrow> False)
      then Some (ConfigError ''remote basicAuth username and password are required'')
      else check_remotes (rm_Name r # seen) rs)"

fun LoadAndParseRemotesConfig :: "RemoteConfig list config_file \<Rightarrow> config_error + RemoteConfig list" where
  "LoadAndParseRemotesConfig (FileDecoded config) = (case check_remotes [] config of Some e \<Rightarrow> Inl e | None \<Rightarrow> Inr config)"
| "LoadAndParseRemotesConfig file = Inl (the (file_error file))"

definition Remotes_Get :: "RemoteConfig list \<Rightarrow> string \<Rightarrow> RemoteConfig option" where
  "Remotes_Get c name = find (\<lambda>r. rm_Name r = name) c"

section \<open>The system\<close>

record ServerAddress =
  sa_Http :: string
  sa_Unix :: string

record JobScheduleConfig =
  js_Key :: string
  js_Schedule :: string

record ObservabilityConfig =
  oc_ServiceName :: string
  oc_Endpoint :: string
  oc_Headers :: "(string, string) gomap"
  oc_Logs :: bool
  oc_Traces :: bool
  oc_Metrics :: bool

record SystemConfig =
  sc_Addresses :: "ServerAddress list"
  sc_LogLevel :: string
  sc_Observability :: ObservabilityConfig
  sc_MaxConcurrentJobs :: int
  sc_Jobs :: "JobScheduleConfig list"
  sc_DatabasePath :: string
  sc_DataBroadcastCachePath :: string
  sc_DataBroadcastCacheBytes :: u64
  sc_DataBroadcastCacheMaxAgeDays :: int
  sc_EpgRetentionDays :: int
  sc_EpgRetrievalTime :: int
  sc_EpgStaleAfter :: int
  sc_LogoGatherTimeout :: int
  sc_ServiceScanTimeout :: int

definition default_system :: SystemConfig where
  "default_system = \<lparr> sc_Addresses = [], sc_LogLevel = [],
     sc_Observability = \<lparr> oc_ServiceName = [], oc_Endpoint = [], oc_Headers = [], oc_Logs = False, oc_Traces = False, oc_Metrics = False \<rparr>,
     sc_MaxConcurrentJobs = 1, sc_Jobs = [], sc_DatabasePath = ''./db/mahiron.db'',
     sc_DataBroadcastCachePath = ''./db/data-broadcast-cache.db'', sc_DataBroadcastCacheBytes = 128 * 1024 * 1024,
     sc_DataBroadcastCacheMaxAgeDays = 14, sc_EpgRetentionDays = 3, sc_EpgRetrievalTime = 600000, sc_EpgStaleAfter = 7200000,
     sc_LogoGatherTimeout = 1200000, sc_ServiceScanTimeout = 30000 \<rparr>"

fun address_error :: "ServerAddress list \<Rightarrow> string option" where
  "address_error [] = None"
| "address_error (a # as) =
     (if sa_Http a = [] \<and> sa_Unix a = [] then Some ''at least one address is required''
      else if sa_Http a \<noteq> [] \<and> sa_Unix a \<noteq> [] then Some ''only one address type is allowed''
      else address_error as)"

text \<open>\<open>url\<close> is \<open>url.Parse\<close>, reduced to the scheme and the host.\<close>

definition endpoint_error :: "(string \<Rightarrow> (string \<times> string) option) \<Rightarrow> string \<Rightarrow> bool" where
  "endpoint_error url endpoint \<longleftrightarrow> endpoint \<noteq> [] \<and>
     (case url endpoint of None \<Rightarrow> True | Some (scheme, host) \<Rightarrow> scheme \<noteq> ''http'' \<and> scheme \<noteq> ''https'' \<or> host = [])"

definition check_system :: "(string \<Rightarrow> (string \<times> string) option) \<Rightarrow> SystemConfig \<Rightarrow> config_error + SystemConfig" where
  "check_system url c = (
     let c = (if sc_Addresses c = [] then c\<lparr> sc_Addresses := [\<lparr> sa_Http = ''localhost:40772'', sa_Unix = [] \<rparr>] \<rparr> else c) in
     case address_error (sc_Addresses c) of
       Some e \<Rightarrow> Inl (ConfigError e)
     | None \<Rightarrow>
         let c = (if sc_LogLevel c = [] then c\<lparr> sc_LogLevel := ''info'' \<rparr> else c);
             o1 = sc_Observability c;
             c = (if oc_ServiceName o1 = [] then c\<lparr> sc_Observability := o1\<lparr> oc_ServiceName := ''mahiron'' \<rparr> \<rparr> else c)
         in if endpoint_error url (oc_Endpoint (sc_Observability c))
            then Inl (ConfigError ''observability endpoint must be a URL like http://localhost:4318'')
            else if sc_LogLevel c \<notin> {''debug'', ''info'', ''warn'', ''error''} then Inl (ConfigError ''invalid log level'')
            else if sc_MaxConcurrentJobs c < 1 \<or> sc_MaxConcurrentJobs c > 100 then Inl (ConfigError ''maxConcurrentJobs must be between 1 and 100'')
            else if sc_EpgRetentionDays c < 0 then Inl (ConfigError ''epgRetentionDays must be >= 0 (0 = unlimited)'')
            else if sc_DataBroadcastCacheMaxAgeDays c < 0 then Inl (ConfigError ''dataBroadcastCacheMaxAgeDays must be >= 0 (0 = unlimited)'')
            else if sc_EpgRetrievalTime c < 5000 then Inl (ConfigError ''epgRetrievalTime must be >= 5000'')
            else if sc_EpgStaleAfter c \<le> 0 then Inl (ConfigError ''epgStaleAfter must be > 0'')
            else if sc_LogoGatherTimeout c \<le> 0 then Inl (ConfigError ''logoGatherTimeout must be > 0'')
            else if sc_ServiceScanTimeout c < 5000 then Inl (ConfigError ''serviceScanTimeout must be >= 5000'')
            else Inr c)"

text \<open>Decoding changes the fields that the file has; the file is the function from the defaults.\<close>

fun LoadAndParseSystemConfig :: "(string \<Rightarrow> (string \<times> string) option) \<Rightarrow> (SystemConfig \<Rightarrow> SystemConfig) config_file \<Rightarrow> config_error + SystemConfig" where
  "LoadAndParseSystemConfig url (FileDecoded decode) = check_system url (decode default_system)"
| "LoadAndParseSystemConfig url file = Inl (the (file_error file))"

section \<open>The directory\<close>

record config_dir =
  cd_channels :: "ChannelConfig list config_file"
  cd_server :: "(SystemConfig \<Rightarrow> SystemConfig) config_file"
  cd_tuners :: "TunerConfig option list config_file"
  cd_remotes :: "RemoteConfig list config_file"

record Config =
  cfg_Channels :: "ChannelConfig list"
  cfg_Remotes :: "RemoteConfig list"
  cfg_System :: SystemConfig
  cfg_Tuners :: "TunerConfig option list"

definition route_remotes :: "ChannelConfig list \<Rightarrow> string list" where
  "route_remotes channels = filter (\<lambda>r. r \<noteq> []) (map rc_Remote (concat (map RoutesOrDefault channels)))"

definition loadRemotesForChannels :: "RemoteConfig list config_file \<Rightarrow> ChannelConfig list \<Rightarrow> config_error + RemoteConfig list" where
  "loadRemotesForChannels file channels =
     (let needsRemotes = (route_remotes channels \<noteq> []) in
      case LoadAndParseRemotesConfig file of
        Inl e \<Rightarrow> if e = ErrNotExist \<and> \<not> needsRemotes then Inr [] else Inl e
      | Inr remotes \<Rightarrow>
          (case find (\<lambda>r. Remotes_Get remotes r = None) (route_remotes channels) of
             Some r \<Rightarrow> Inl (RemoteNotConfigured r)
           | None \<Rightarrow> Inr remotes))"

definition LoadAndParseConfigFromDir :: "(string \<Rightarrow> (string \<times> string) option) \<Rightarrow> config_dir \<Rightarrow> (config_error + Config) go" where
  "LoadAndParseConfigFromDir url dir =
     (case LoadAndParseChannelsConfig (cd_channels dir) of
        Inl e \<Rightarrow> Some (Inl e)
      | Inr channels \<Rightarrow>
          (case LoadAndParseSystemConfig url (cd_server dir) of
             Inl e \<Rightarrow> Some (Inl e)
           | Inr system \<Rightarrow> do {
               r \<leftarrow> LoadAndParseTunersConfig (cd_tuners dir);
               Some (case r of
                 Inl e \<Rightarrow> Inl e
               | Inr tuners \<Rightarrow>
                   (case loadRemotesForChannels (cd_remotes dir) channels of
                      Inl e \<Rightarrow> Inl e
                    | Inr remotes \<Rightarrow> Inr \<lparr> cfg_Channels = channels, cfg_Remotes = remotes, cfg_System = system, cfg_Tuners = tuners \<rparr>)) }))"

section \<open>What the loaders accept\<close>

definition route_ok :: "ChannelRouteConfig \<Rightarrow> bool" where
  "route_ok r \<longleftrightarrow> rc_Id r \<noteq> [] \<and> rc_Type r \<noteq> [] \<and> rc_Channel r \<noteq> [] \<and> rc_CommandVars r \<noteq> None \<and> rc_IsDisabled r \<noteq> None
     \<and> (\<forall>n. rc_TsmfRelTs r = Some n \<longrightarrow> n \<le> 0x0f \<and> rc_ServiceId r \<noteq> None)"

definition channel_ok :: "ChannelConfig \<Rightarrow> bool" where
  "channel_ok c \<longleftrightarrow> cc_Name c \<noteq> [] \<and> cc_Type c \<noteq> [] \<and> cc_Channel c \<noteq> [] \<and> cc_CommandVars c \<noteq> None \<and> cc_IsDisabled c \<noteq> None
     \<and> (\<forall>n. cc_TsmfRelTs c = Some n \<longrightarrow> n \<le> 0x0f \<and> cc_ServiceId c \<noteq> None)
     \<and> cc_Satelite c = None \<and> cc_Satellite c = None \<and> cc_Space c = None \<and> cc_Freq c = None \<and> cc_Polarity c = None
     \<and> list_all route_ok (cc_Routes c) \<and> distinct (map rc_Id (cc_Routes c))"

lemma default_to_simps [simp]: "default_to d v \<noteq> None" "default_to d (Some x) = Some x" "default_to d (default_to d v) = default_to d v"
  by (simp_all add: default_to_def split: option.split)

lemma default_to_ex [simp]: "\<exists>y. default_to d v = Some y"
  by (simp add: default_to_def split: option.split)

lemma route_id_nonempty [simp]: "route_id r \<noteq> []"
  by (simp add: route_id_def)

lemma normalize_routes_ok:
  "normalize_routes seen rs = Inr rs' \<Longrightarrow> list_all route_ok rs' \<and> distinct (map rc_Id rs') \<and> set (map rc_Id rs') \<inter> set seen = {}"
proof (induction rs arbitrary: seen rs')
  case (Cons r rs)
  from Cons.prems obtain rs2 where rest: "normalize_routes (route_id r # seen) rs = Inr rs2"
    and rs': "rs' = r\<lparr> rc_Id := route_id r, rc_CommandVars := default_to [] (rc_CommandVars r),
                  rc_IsDisabled := default_to False (rc_IsDisabled r) \<rparr> # rs2"
    and guards: "rc_Type r \<noteq> []" "rc_Channel r \<noteq> []" "route_id r \<notin> set seen"
      "rc_TsmfRelTs r \<noteq> None \<longrightarrow> rc_ServiceId r \<noteq> None" "\<forall>n. rc_TsmfRelTs r = Some n \<longrightarrow> n \<le> 0x0f"
    by (auto simp: Let_def not_less split: if_splits sum.splits option.splits)
  have "route_ok (hd rs')" using guards by (simp add: rs' route_ok_def)
  with Cons.IH [OF rest] guards(3) show ?case by (auto simp: rs')
qed simp

lemma normalize_routes_normal:
  "list_all route_ok rs \<Longrightarrow> distinct (map rc_Id rs) \<Longrightarrow> set (map rc_Id rs) \<inter> set seen = {} \<Longrightarrow> normalize_routes seen rs = Inr rs"
proof (induction rs arbitrary: seen)
  case (Cons r rs)
  have ok: "route_ok r" using Cons.prems(1) by simp
  have rid: "route_id r = rc_Id r" using ok by (simp add: route_id_def route_ok_def)
  have rest: "normalize_routes (rc_Id r # seen) rs = Inr rs" using Cons by simp
  have same: "r\<lparr> rc_Id := rc_Id r, rc_CommandVars := default_to [] (rc_CommandVars r), rc_IsDisabled := default_to False (rc_IsDisabled r) \<rparr> = r"
    using ok by (cases r) (auto simp: route_ok_def)
  show ?case using ok Cons.prems(3) by (auto simp: rid rest same route_ok_def Let_def split: option.splits)
qed simp

lemma normalize_channel_ok: "normalize_channel c = Inr c' \<Longrightarrow> channel_ok c'"
  by (auto simp: normalize_channel_def normalizeRoutes_def channel_ok_def Let_def not_less split: if_splits sum.splits option.splits
      dest: normalize_routes_ok)

lemma normalize_channel_normal:
  assumes "channel_ok c"
  shows "normalize_channel c = Inr c"
proof -
  have routes: "normalize_routes [] (cc_Routes c) = Inr (cc_Routes c)" using assms normalize_routes_normal [of "cc_Routes c" "[]"] by (simp add: channel_ok_def)
  obtain vars where vars: "cc_CommandVars c = Some vars" using assms by (auto simp: channel_ok_def)
  have same: "c\<lparr> cc_IsDisabled := default_to False (cc_IsDisabled c), cc_CommandVars := Some vars,
      cc_Satelite := None, cc_Satellite := None, cc_Space := None, cc_Freq := None, cc_Polarity := None, cc_Routes := cc_Routes c \<rparr> = c"
    using assms vars by (cases c) (auto simp: channel_ok_def)
  have dep: "deprecated_vars c vars = vars" using assms by (simp add: channel_ok_def deprecated_vars_def set_var_def)
  show ?thesis using assms same
    by (auto simp: normalize_channel_def normalizeRoutes_def routes vars dep Let_def channel_ok_def not_less split: option.splits)
qed

lemma normalize_channels_ok: "normalize_channels cs = Inr cs' \<Longrightarrow> list_all channel_ok cs' \<and> length cs' = length cs"
  by (induction cs arbitrary: cs') (auto simp: normalize_channel_ok split: sum.splits)

lemma normalize_channels_normal: "list_all channel_ok cs \<Longrightarrow> normalize_channels cs = Inr cs"
  by (induction cs) (simp_all add: normalize_channel_normal)

text \<open>
  C34. Loading a channels file establishes the well-formedness that the rest of the program relies on:
  an accepted configuration has a channel for each entry of the file, every channel and route has a
  name or id, a type, a symbol and its command variables, a TSMF number is a 4-bit one and comes with a
  service id, route ids are distinct in a channel, the deprecated fields are gone. An accepted
  configuration is a fixed point: loading it again changes nothing and is not refused.
\<close>

theorem LoadAndParseChannelsConfig_normalizes:
  assumes "LoadAndParseChannelsConfig (FileDecoded config) = Inr channels"
  shows "channels \<noteq> [] \<and> length channels = length config \<and> list_all channel_ok channels
    \<and> LoadAndParseChannelsConfig (FileDecoded channels) = Inr channels"
proof -
  have "config \<noteq> []" and "normalize_channels config = Inr channels" using assms by (auto split: if_splits)
  with normalize_channels_ok [of config channels] show ?thesis by (auto simp: normalize_channels_normal)
qed

definition sample_channel :: ChannelConfig where
  "sample_channel = \<lparr> cc_Name = ''BS'', cc_Type = ''BS'', cc_Channel = ''101'', cc_ServiceId = Some 101, cc_TsmfRelTs = Some 2,
     cc_CommandVars = None, cc_IsDisabled = None, cc_Satelite = Some ''JCSAT'', cc_Satellite = None, cc_Space = Some 1, cc_Freq = None,
     cc_Polarity = None, cc_Routes = [\<lparr> rc_Id = [], rc_Remote = ''r'', rc_Type = ''BS'', rc_Channel = ''1'', rc_ServiceId = None,
       rc_TsmfRelTs = None, rc_CommandVars = None, rc_IsDisabled = None, rc_Priority = None \<rparr>] \<rparr>"

definition sample_channel_loaded :: ChannelConfig where
  "sample_channel_loaded = sample_channel\<lparr> cc_IsDisabled := Some False, cc_Satelite := None, cc_Space := None,
     cc_CommandVars := Some [(''satellite'', AnyString ''JCSAT''), (''space'', AnyUint8 1)],
     cc_Routes := map (\<lambda>r. r\<lparr> rc_Id := ''r:BS:1'', rc_CommandVars := Some [], rc_IsDisabled := Some False \<rparr>) (cc_Routes sample_channel) \<rparr>"

lemma sample_channel_loads: "LoadAndParseChannelsConfig (FileDecoded [sample_channel]) = Inr [sample_channel_loaded]"
  by (simp add: sample_channel_def sample_channel_loaded_def normalize_channel_def normalizeRoutes_def route_id_def default_to_def
      deprecated_vars_def set_var_def)

theorem LoadAndParseChannelsConfig_normalizes_witness:
  "list_all channel_ok [sample_channel_loaded] \<and> LoadAndParseChannelsConfig (FileDecoded [sample_channel_loaded]) = Inr [sample_channel_loaded]"
  using LoadAndParseChannelsConfig_normalizes [OF sample_channel_loads] by blast

lemma check_tuners_panics:
  "check_tuners ts = None \<longleftrightarrow> (\<exists>good rest. ts = map Some good @ None # rest \<and> list_all (\<lambda>t. tuner_error t = None) good)"
proof (induction ts)
  case (Cons t ts)
  show ?case
  proof (cases t)
    case None
    then have "t # ts = map Some [] @ None # ts \<and> list_all (\<lambda>t. tuner_error t = None) []" by simp
    then show ?thesis using None by (metis check_tuners.simps(2) bind.bind_lzero)
  next
    case (Some x)
    have "(\<exists>good rest. t # ts = map Some good @ None # rest \<and> list_all (\<lambda>t. tuner_error t = None) good)
      \<longleftrightarrow> tuner_error x = None \<and> (\<exists>good rest. ts = map Some good @ None # rest \<and> list_all (\<lambda>t. tuner_error t = None) good)"
      (is "?l = ?r")
    proof
      assume ?l
      then obtain good rest where g: "t # ts = map Some good @ None # rest" "list_all (\<lambda>t. tuner_error t = None) good" by blast
      then show ?r using Some by (cases good) auto
    next
      assume ?r
      then obtain good rest where "ts = map Some good @ None # rest" "list_all (\<lambda>t. tuner_error t = None) (x # good)" by auto
      then have "t # ts = map Some (x # good) @ None # rest \<and> list_all (\<lambda>t. tuner_error t = None) (x # good)" using Some by simp
      then show ?l by blast
    qed
    then show ?thesis using Some Cons by (auto split: option.splits)
  qed
qed simp

text \<open>
  The program stops with a nil pointer panic on a tuners file exactly if an entry is \<open>null\<close> and
  the entries before it are valid: \<open>null\<close> entries are not rejected like other bad entries.
\<close>

theorem LoadAndParseTunersConfig_panics_iff:
  "LoadAndParseTunersConfig source = None \<longleftrightarrow>
     (\<exists>good rest. source = FileDecoded (map Some good @ None # rest) \<and> list_all (\<lambda>t. tuner_error t = None) good)"
proof (cases source)
  case (FileDecoded config)
  have "check_tuners [] = Some None" by simp
  then have "LoadAndParseTunersConfig (FileDecoded config) = None \<longleftrightarrow> check_tuners config = None"
    by (cases "check_tuners config") auto
  then show ?thesis using FileDecoded check_tuners_panics [of config] by simp
qed simp_all

section \<open>The loaded configuration\<close>

definition tuner_ok :: "TunerConfig \<Rightarrow> bool" where
  "tuner_ok t \<longleftrightarrow> tc_Name t \<noteq> [] \<and> tc_Command t \<noteq> [] \<and> tc_Types t \<noteq> [] \<and> tc_StartupRetryMax t \<ge> 0 \<and> tc_StartupTimeout t \<ge> 0
     \<and> tc_StartupRetryDelay t \<ge> 0"

definition remote_ok :: "RemoteConfig \<Rightarrow> bool" where
  "remote_ok r \<longleftrightarrow> rm_Name r \<noteq> [] \<and> rm_URL r \<noteq> [] \<and> (\<forall>a. rm_BasicAuth r = Some a \<longrightarrow> ba_Username a \<noteq> [] \<and> ba_Password a \<noteq> [])"

definition system_ok :: "SystemConfig \<Rightarrow> bool" where
  "system_ok c \<longleftrightarrow> sc_Addresses c \<noteq> [] \<and> list_all (\<lambda>a. (sa_Http a = []) \<noteq> (sa_Unix a = [])) (sc_Addresses c)
     \<and> sc_LogLevel c \<in> {''debug'', ''info'', ''warn'', ''error''} \<and> oc_ServiceName (sc_Observability c) \<noteq> []
     \<and> 1 \<le> sc_MaxConcurrentJobs c \<and> sc_MaxConcurrentJobs c \<le> 100 \<and> 0 \<le> sc_EpgRetentionDays c \<and> 0 \<le> sc_DataBroadcastCacheMaxAgeDays c
     \<and> 5000 \<le> sc_EpgRetrievalTime c \<and> 0 < sc_EpgStaleAfter c \<and> 0 < sc_LogoGatherTimeout c \<and> 5000 \<le> sc_ServiceScanTimeout c"

definition config_ok :: "Config \<Rightarrow> bool" where
  "config_ok c \<longleftrightarrow> cfg_Channels c \<noteq> [] \<and> list_all channel_ok (cfg_Channels c)
     \<and> cfg_Tuners c \<noteq> [] \<and> list_all (\<lambda>t. t \<noteq> None \<and> tuner_ok (the t)) (cfg_Tuners c)
     \<and> list_all remote_ok (cfg_Remotes c) \<and> distinct (map rm_Name (cfg_Remotes c)) \<and> system_ok (cfg_System c)
     \<and> (\<forall>channel \<in> set (cfg_Channels c). \<forall>route \<in> set (RoutesOrDefault channel).
          rc_Type route \<noteq> [] \<and> rc_Channel route \<noteq> [] \<and> rc_CommandVars route \<noteq> None
          \<and> (rc_Remote route \<noteq> [] \<longrightarrow> (\<exists>r. Remotes_Get (cfg_Remotes c) (rc_Remote route) = Some r \<and> r \<in> set (cfg_Remotes c) \<and> rm_Name r = rc_Remote route)))"

lemma tuner_error_ok: "tuner_error t = None \<Longrightarrow> tuner_ok t"
  by (auto simp: tuner_error_def tuner_ok_def split: if_splits)

lemma check_tuners_ok: "check_tuners ts = Some None \<Longrightarrow> list_all (\<lambda>t. t \<noteq> None \<and> tuner_ok (the t)) ts"
  by (induction ts) (auto dest: tuner_error_ok split: option.splits bind_splits)

lemma check_remotes_ok:
  "check_remotes seen rs = None \<Longrightarrow> list_all remote_ok rs \<and> distinct (map rm_Name rs) \<and> set (map rm_Name rs) \<inter> set seen = {}"
proof (induction rs arbitrary: seen)
  case (Cons r rs)
  then have "remote_ok r" "rm_Name r \<notin> set seen" "check_remotes (rm_Name r # seen) rs = None"
    by (auto simp: remote_ok_def split: if_splits option.splits)
  with Cons.IH [of "rm_Name r # seen"] show ?case by auto
qed simp

lemma address_error_ok: "address_error as = None \<Longrightarrow> list_all (\<lambda>a. (sa_Http a = []) \<noteq> (sa_Unix a = [])) as"
  by (induction as) (auto split: if_splits)

lemma check_system_ok:
  assumes "check_system url c = Inr c'"
  shows "system_ok c'"
proof -
  define c1 where "c1 = (if sc_Addresses c = [] then c\<lparr> sc_Addresses := [\<lparr> sa_Http = ''localhost:40772'', sa_Unix = [] \<rparr>] \<rparr> else c)"
  define c2 where "c2 = (if sc_LogLevel c1 = [] then c1\<lparr> sc_LogLevel := ''info'' \<rparr> else c1)"
  define c3 where "c3 = (if oc_ServiceName (sc_Observability c2) = []
    then c2\<lparr> sc_Observability := (sc_Observability c2)\<lparr> oc_ServiceName := ''mahiron'' \<rparr> \<rparr> else c2)"
  have c1: "sc_Addresses c1 \<noteq> []" by (simp add: c1_def)
  have c3: "sc_Addresses c3 = sc_Addresses c1" "oc_ServiceName (sc_Observability c3) \<noteq> []" by (simp_all add: c3_def c2_def)
  show ?thesis using assms c1 c3 address_error_ok [of "sc_Addresses c1"]
    unfolding check_system_def Let_def c1_def [symmetric] c2_def [symmetric] c3_def [symmetric]
    by (auto simp: system_ok_def not_less not_le split: option.splits if_splits)
qed

lemma LoadAndParseRemotesConfig_ok: "LoadAndParseRemotesConfig source = Inr rs \<Longrightarrow> list_all remote_ok rs \<and> distinct (map rm_Name rs)"
  by (cases source) (auto dest: check_remotes_ok split: option.splits)

lemma loadRemotesForChannels_ok:
  assumes "loadRemotesForChannels source channels = Inr remotes"
  shows "list_all remote_ok remotes \<and> distinct (map rm_Name remotes) \<and> (\<forall>r \<in> set (route_remotes channels). Remotes_Get remotes r \<noteq> None)"
  using assms LoadAndParseRemotesConfig_ok [of source]
  by (auto simp: loadRemotesForChannels_def Let_def find_None_iff split: sum.splits option.splits if_splits)

lemma Remotes_Get_Some: "Remotes_Get rs n = Some r \<Longrightarrow> r \<in> set rs \<and> rm_Name r = n"
  by (auto simp: Remotes_Get_def find_Some_iff)

lemma channel_ok_routes:
  "channel_ok c \<Longrightarrow> route \<in> set (RoutesOrDefault c) \<Longrightarrow> rc_Type route \<noteq> [] \<and> rc_Channel route \<noteq> [] \<and> rc_CommandVars route \<noteq> None"
  by (auto simp: channel_ok_def RoutesOrDefault_def list_all_iff route_ok_def split: if_splits)

lemma route_remotes_member:
  "channel \<in> set channels \<Longrightarrow> route \<in> set (RoutesOrDefault channel) \<Longrightarrow> rc_Remote route \<noteq> [] \<Longrightarrow> rc_Remote route \<in> set (route_remotes channels)"
  by (auto simp: route_remotes_def)

text \<open>
  C33. Everything the program reads from its configuration directory is well formed: there are channels
  and tuners, they and the remotes are valid, no two remotes share a name, all numbers of the server
  file are in their ranges, and each route of each channel, the default route included, has a type and
  a symbol and names a configured remote if it names one.
\<close>

theorem LoadAndParseConfigFromDir_ok:
  assumes "LoadAndParseConfigFromDir url dir = Some (Inr config)"
  shows "config_ok config"
proof -
  obtain channels system tuners remotes where
    channels: "LoadAndParseChannelsConfig (cd_channels dir) = Inr channels" and
    system: "LoadAndParseSystemConfig url (cd_server dir) = Inr system" and
    tuners: "LoadAndParseTunersConfig (cd_tuners dir) = Some (Inr tuners)" and
    remotes: "loadRemotesForChannels (cd_remotes dir) channels = Inr remotes" and
    config: "config = \<lparr> cfg_Channels = channels, cfg_Remotes = remotes, cfg_System = system, cfg_Tuners = tuners \<rparr>"
    using assms by (auto simp: LoadAndParseConfigFromDir_def split: sum.splits bind_splits)
  have c: "channels \<noteq> [] \<and> list_all channel_ok channels"
    using channels normalize_channels_ok [of _ channels] by (cases "cd_channels dir") (fastforce split: if_splits)+
  have s: "system_ok system" using system by (cases "cd_server dir") (auto dest: check_system_ok)
  have t: "tuners \<noteq> [] \<and> list_all (\<lambda>t. t \<noteq> None \<and> tuner_ok (the t)) tuners"
    using tuners by (cases "cd_tuners dir") (auto dest: check_tuners_ok split: if_splits option.splits bind_splits)
  note r = loadRemotesForChannels_ok [OF remotes]
  have "rc_Type route \<noteq> [] \<and> rc_Channel route \<noteq> [] \<and> rc_CommandVars route \<noteq> None
      \<and> (rc_Remote route \<noteq> [] \<longrightarrow> (\<exists>r. Remotes_Get remotes (rc_Remote route) = Some r \<and> r \<in> set remotes \<and> rm_Name r = rc_Remote route))"
    if route: "channel \<in> set channels" "route \<in> set (RoutesOrDefault channel)" for channel route
  proof -
    have "channel_ok channel" using c route(1) by (simp add: list_all_iff)
    then show ?thesis using channel_ok_routes [OF _ route(2)] route_remotes_member [OF route] r Remotes_Get_Some [of remotes]
      by blast
  qed
  then show ?thesis using c s t r by (simp add: config_ok_def config)
qed

definition sample_dir :: config_dir where
  "sample_dir = \<lparr> cd_channels = FileDecoded [sample_channel], cd_server = FileDecoded (\<lambda>c. c),
     cd_tuners = FileDecoded [Some \<lparr> tc_Name = ''t'', tc_Types = [''BS''], tc_Command = ''rec'', tc_DvbDevicePath = [], tc_Decoder = [],
       tc_IsDisabled = False, tc_StartupRetryMax = 0, tc_StartupTimeout = 0, tc_StartupRetryDelay = 0 \<rparr>],
     cd_remotes = FileDecoded [\<lparr> rm_Name = ''r'', rm_URL = ''http://r'', rm_BasicAuth = None \<rparr>] \<rparr>"

theorem LoadAndParseConfigFromDir_ok_witness:
  "\<exists>config. LoadAndParseConfigFromDir (\<lambda>_. None) sample_dir = Some (Inr config) \<and> config_ok config"
proof -
  have channels: "LoadAndParseChannelsConfig (cd_channels sample_dir) = Inr [sample_channel_loaded]"
    using sample_channel_loads by (simp add: sample_dir_def del: LoadAndParseChannelsConfig.simps)
  have "\<exists>system. LoadAndParseSystemConfig (\<lambda>_. None) (cd_server sample_dir) = Inr system"
    by (simp add: sample_dir_def check_system_def default_system_def endpoint_error_def)
  moreover have "\<exists>tuners. LoadAndParseTunersConfig (cd_tuners sample_dir) = Some (Inr tuners)"
    by (simp add: sample_dir_def tuner_error_def)
  moreover have "\<exists>remotes. loadRemotesForChannels (cd_remotes sample_dir) [sample_channel_loaded] = Inr remotes"
    by (simp add: sample_dir_def loadRemotesForChannels_def route_remotes_def RoutesOrDefault_def sample_channel_loaded_def
        sample_channel_def Remotes_Get_def)
  ultimately have "\<exists>config. LoadAndParseConfigFromDir (\<lambda>_. None) sample_dir = Some (Inr config)"
    by (auto simp: LoadAndParseConfigFromDir_def channels)
  then show ?thesis using LoadAndParseConfigFromDir_ok by blast
qed

end
