(* ===== verification/Tuner_Manager.thy ===== *)
theory Tuner_Manager
  imports Step_Systems Configuration "HOL-Library.Char_ord" "HOL-Library.List_Lexorder"
begin

text \<open>
  The tuner manager of \<open>internal/tuner\<close>: \<open>tuner.go\<close> (a configured tuner), \<open>status.go\<close> (run-time state,
  users, status) and \<open>manager.go\<close> (reservation, grabbing, release). A tuner is identified by its
  index, as \<open>NewTunerManager\<close> allocates one \<open>Tuner\<close> for each configuration entry, and a managed
  device by the number of devices reserved before it. Each operation is a critical section of
  \<open>tm.mu\<close>; what the underlying device returns from \<open>Start\<close>, \<open>Stop\<close>, \<open>Err\<close> and
  \<open>ProcessStatus\<close> (processes of the operating system) is an argument. The channel \<open>changed\<close> is the
  number of times it has been replaced. A \<open>map[*Tuner]bool\<close> that only holds \<open>true\<close> is the list of its
  keys. \<open>cloneUser\<close>, a copy that detaches a map, is the value itself.
\<close>

section \<open>Tuners\<close>

datatype SourceKind = SourceKindUnsupported | SourceKindCommand | SourceKindDVB

record StartupRetryConfig =
  sr_Max :: int
  sr_Timeout :: int
  sr_Delay :: int

datatype base_device =
    CommandDevice "ChannelConfig option" string StartupRetryConfig
  | DVBDevice "ChannelConfig option" string string StartupRetryConfig

definition Tuner_Groups :: "TunerConfig \<Rightarrow> string list" where
  "Tuner_Groups t = sort (remdups (tc_Types t))"

definition Tuner_SourceKind :: "TunerConfig \<Rightarrow> SourceKind" where
  "Tuner_SourceKind t =
     (if tc_DvbDevicePath t \<noteq> [] then SourceKindDVB
      else if tc_Command t \<noteq> [] then SourceKindCommand
      else SourceKindUnsupported)"

definition Tuner_Usable :: "TunerConfig \<Rightarrow> bool" where
  "Tuner_Usable t = (case Tuner_SourceKind t of SourceKindCommand \<Rightarrow> True | SourceKindDVB \<Rightarrow> True | SourceKindUnsupported \<Rightarrow> False)"

text \<open>Durations in nanoseconds; the configuration has milliseconds.\<close>

definition Tuner_NewDevice :: "TunerConfig \<Rightarrow> ChannelConfig option \<Rightarrow> base_device option" where
  "Tuner_NewDevice t channel =
     (let startupRetry = \<lparr> sr_Max = tc_StartupRetryMax t, sr_Timeout = tc_StartupTimeout t * 1000000,
                           sr_Delay = tc_StartupRetryDelay t * 1000000 \<rparr>
      in case Tuner_SourceKind t of
           SourceKindDVB \<Rightarrow> Some (DVBDevice channel (tc_Command t) (tc_DvbDevicePath t) startupRetry)
         | SourceKindCommand \<Rightarrow> Some (CommandDevice channel (tc_Command t) startupRetry)
         | SourceKindUnsupported \<Rightarrow> None)"

section \<open>State\<close>

record StreamInfo =
  si_Packet :: int
  si_Drop :: int

record User =
  u_ID :: string
  u_Priority :: int
  u_Agent :: string
  u_URL :: string
  u_DisableDecoder :: bool
  u_StreamInfo :: "(string, StreamInfo) gomap option"

record trackedUser =
  tu_user :: User
  tu_refs :: int

record tunerRuntime =
  rt_inUse :: bool
  rt_running :: bool
  rt_stopped :: bool
  rt_fault :: bool
  rt_reservationPriority :: int
  rt_device :: "nat option"
  rt_requested :: "ChannelConfig option"
  rt_tuned :: "ChannelConfig option"
  rt_users :: "(string, trackedUser) gomap"

record managedDevice =
  md_base :: base_device
  md_tuner :: nat
  md_released :: bool

record Status =
  st_Index :: int
  st_Name :: string
  st_Types :: "string list"
  st_Command :: string
  st_PID :: int
  st_Users :: "User list"
  st_IsAvailable :: bool
  st_IsFree :: bool
  st_IsUsing :: bool
  st_IsFault :: bool
  st_CurrentChannelType :: string
  st_CurrentChannel :: string
  st_TunedChannelType :: string
  st_TunedChannel :: string

record TunerManager =
  tm_tuners :: "TunerConfig list"
  tm_inUse :: "nat list"
  tm_runtime :: "tunerRuntime list"
  tm_nextByType :: "(string, nat) gomap"
  tm_changed :: nat
  tm_devices :: "managedDevice list"

definition new_runtime :: tunerRuntime where
  "new_runtime = \<lparr> rt_inUse = False, rt_running = False, rt_stopped = False, rt_fault = False,
     rt_reservationPriority = 0, rt_device = None, rt_requested = None, rt_tuned = None, rt_users = [] \<rparr>"

definition NewTunerManager :: "TunerConfig list \<Rightarrow> TunerManager" where
  "NewTunerManager configs = \<lparr> tm_tuners = configs, tm_inUse = [], tm_runtime = map (\<lambda>_. new_runtime) configs,
     tm_nextByType = [], tm_changed = 0, tm_devices = [] \<rparr>"

definition effectivePriority :: "tunerRuntime \<Rightarrow> int" where
  "effectivePriority r =
     fold (\<lambda>(_, tracked) priority. if u_Priority (tu_user tracked) > priority then u_Priority (tu_user tracked) else priority)
       (rt_users r) (rt_reservationPriority r)"

text \<open>The runtime after \<open>resetReservation\<close>, and whether it was faulted.\<close>

definition resetReservation :: "tunerRuntime \<Rightarrow> tunerRuntime \<times> bool" where
  "resetReservation r =
     (r\<lparr> rt_inUse := False, rt_running := False, rt_stopped := False, rt_fault := False, rt_reservationPriority := 0,
         rt_device := None, rt_requested := None, rt_tuned := None, rt_users := [] \<rparr>, rt_fault r)"

definition set_runtime :: "nat \<Rightarrow> tunerRuntime \<Rightarrow> TunerManager \<Rightarrow> TunerManager" where
  "set_runtime i r tm = tm\<lparr> tm_runtime := (tm_runtime tm)[i := r] \<rparr>"

section \<open>Status\<close>

text \<open>\<open>process\<close> is the command and PID a device reports.\<close>

definition statusLockedByTuner :: "(nat \<Rightarrow> string \<times> int) \<Rightarrow> nat \<Rightarrow> TunerManager \<Rightarrow> Status" where
  "statusLockedByTuner process i tm =
     (let item = tm_tuners tm ! i;
          runtime = tm_runtime tm ! i;
          available = (\<not> tc_IsDisabled item \<and> Tuner_Usable item \<and> \<not> rt_fault runtime \<and> \<not> rt_stopped runtime);
          info = (case rt_device runtime of Some d \<Rightarrow> process d | None \<Rightarrow> ([], 0));
          users = map (\<lambda>uid. tu_user (the (map_of (rt_users runtime) uid))) (sort (map fst (rt_users runtime)))
      in \<lparr> st_Index = int i, st_Name = tc_Name item, st_Types = Tuner_Groups item, st_Command = fst info, st_PID = snd info,
           st_Users = users, st_IsAvailable = available,
           st_IsFree = (available \<and> \<not> rt_inUse runtime \<and> users = []),
           st_IsUsing = (available \<and> rt_running runtime \<and> users \<noteq> []),
           st_IsFault = rt_fault runtime,
           st_CurrentChannelType = (case rt_requested runtime of Some c \<Rightarrow> cc_Type c | None \<Rightarrow> []),
           st_CurrentChannel = (case rt_requested runtime of Some c \<Rightarrow> cc_Channel c | None \<Rightarrow> []),
           st_TunedChannelType = (case rt_tuned runtime of Some c \<Rightarrow> cc_Type c | None \<Rightarrow> []),
           st_TunedChannel = (case rt_tuned runtime of Some c \<Rightarrow> cc_Channel c | None \<Rightarrow> []) \<rparr>)"

definition Statuses :: "(nat \<Rightarrow> string \<times> int) \<Rightarrow> TunerManager \<Rightarrow> Status list" where
  "Statuses process tm = map (\<lambda>i. statusLockedByTuner process i tm) [0..<length (tm_tuners tm)]"

definition TunerManager_Status :: "(nat \<Rightarrow> string \<times> int) \<Rightarrow> int \<Rightarrow> TunerManager \<Rightarrow> Status option" where
  "TunerManager_Status process index tm =
     (if index < 0 \<or> index \<ge> blen (tm_tuners tm) then None else Some (statusLockedByTuner process (nat index) tm))"

definition GetTuner :: "string \<Rightarrow> TunerManager \<Rightarrow> TunerConfig option" where
  "GetTuner name tm = find (\<lambda>t. tc_Name t = name) (tm_tuners tm)"

definition GetTunerByType :: "string \<Rightarrow> TunerManager \<Rightarrow> TunerConfig option" where
  "GetTunerByType channelType tm = find (\<lambda>t. \<not> tc_IsDisabled t \<and> channelType \<in> set (Tuner_Groups t)) (tm_tuners tm)"

definition DecoderCommandByType :: "string \<Rightarrow> TunerManager \<Rightarrow> string" where
  "DecoderCommandByType channelType tm = (case GetTunerByType channelType tm of None \<Rightarrow> [] | Some t \<Rightarrow> tc_Decoder t)"

section \<open>Reservation\<close>

record grabCandidate =
  gc_device :: "nat option"
  gc_tunerName :: string
  gc_priority :: int

definition no_grab :: grabCandidate where
  "no_grab = \<lparr> gc_device = None, gc_tunerName = [], gc_priority = 0 \<rparr>"

record acquireAttempt =
  aa_device :: "nat option"
  aa_decoder :: string
  aa_found :: bool
  aa_usable :: bool
  aa_grab :: grabCandidate
  aa_changed :: nat

definition betterGrabCandidate :: "grabCandidate \<Rightarrow> TunerConfig \<Rightarrow> tunerRuntime \<Rightarrow> int \<Rightarrow> grabCandidate" where
  "betterGrabCandidate current item runtime requestPriority =
     (case rt_device runtime of
        None \<Rightarrow> current
      | Some device \<Rightarrow>
          if requestPriority \<le> effectivePriority runtime then current
          else if gc_device current \<noteq> None \<and> gc_priority current \<le> effectivePriority runtime then current
          else \<lparr> gc_device = Some device, gc_tunerName = tc_Name item, gc_priority = effectivePriority runtime \<rparr>)"

definition reserveLocked ::
    "nat \<Rightarrow> int \<Rightarrow> ChannelConfig option \<Rightarrow> ChannelConfig option \<Rightarrow> TunerManager \<Rightarrow> (TunerManager \<times> nat \<times> string) option" where
  "reserveLocked i priority requestedChannel tunedChannel tm =
     (case Tuner_NewDevice (tm_tuners tm ! i) tunedChannel of
        None \<Rightarrow> None
      | Some base \<Rightarrow>
          let managed = length (tm_devices tm);
              runtime = (tm_runtime tm ! i)\<lparr> rt_inUse := True, rt_running := False, rt_stopped := False,
                 rt_reservationPriority := priority, rt_requested := requestedChannel, rt_tuned := tunedChannel,
                 rt_device := Some managed \<rparr>;
              tm = tm\<lparr> tm_inUse := List.insert i (tm_inUse tm),
                       tm_devices := tm_devices tm @ [\<lparr> md_base = base, md_tuner = i, md_released = False \<rparr>] \<rparr>
          in Some (set_runtime i runtime tm, managed, tc_Decoder (tm_tuners tm ! i)))"

text \<open>The loop of \<open>tryAcquireLocked\<close> over the tuner indices in the order in which it visits them.\<close>

fun try_tuners :: "string \<Rightarrow> int \<Rightarrow> ChannelConfig option \<Rightarrow> ChannelConfig option \<Rightarrow> nat list \<Rightarrow>
    acquireAttempt \<Rightarrow> TunerManager \<Rightarrow> TunerManager \<times> acquireAttempt" where
  "try_tuners channelType prio requested tuned [] result tm = (tm, result)"
| "try_tuners channelType prio requested tuned (index # rest) result tm =
     (let item = tm_tuners tm ! index; runtime = tm_runtime tm ! index in
      if tc_IsDisabled item \<or> channelType \<notin> set (Tuner_Groups item)
      then try_tuners channelType prio requested tuned rest result tm
      else
        let result = result\<lparr> aa_found := True \<rparr> in
        if \<not> Tuner_Usable item then try_tuners channelType prio requested tuned rest result tm
        else
          let result = result\<lparr> aa_usable := True \<rparr> in
          if rt_fault runtime then try_tuners channelType prio requested tuned rest result tm
          else if index \<in> set (tm_inUse tm)
          then try_tuners channelType prio requested tuned rest
                 (result\<lparr> aa_grab := betterGrabCandidate (aa_grab result) item runtime prio \<rparr>) tm
          else (case reserveLocked index prio requested tuned tm of
                  None \<Rightarrow> try_tuners channelType prio requested tuned rest result tm
                | Some (tm, managed, decoder) \<Rightarrow>
                    (tm\<lparr> tm_nextByType := AList.update channelType ((index + 1) mod length (tm_tuners tm)) (tm_nextByType tm) \<rparr>,
                     result\<lparr> aa_device := Some managed, aa_decoder := decoder \<rparr>)))"

definition visit_order :: "string \<Rightarrow> TunerManager \<Rightarrow> nat list" where
  "visit_order channelType tm =
     (let start = (case map_of (tm_nextByType tm) channelType of Some k \<Rightarrow> k | None \<Rightarrow> 0)
      in map (\<lambda>offset. (start + offset) mod length (tm_tuners tm)) [0..<length (tm_tuners tm)])"

definition tryAcquireLocked :: "string \<Rightarrow> int \<Rightarrow> ChannelConfig option \<Rightarrow> ChannelConfig option \<Rightarrow> TunerManager \<Rightarrow>
    TunerManager \<times> acquireAttempt" where
  "tryAcquireLocked channelType prio requested tuned tm =
     try_tuners channelType prio requested tuned (visit_order channelType tm)
       \<lparr> aa_device = None, aa_decoder = [], aa_found = False, aa_usable = False, aa_grab = no_grab, aa_changed = tm_changed tm \<rparr> tm"

datatype acquire_error = ErrTunerNotFound | ErrUnsupportedTuner | ErrTunerUnavailable

text \<open>
  One turn of the loop of \<open>AcquireDevice\<close>: it returns a device or an error, or stops another
  device and waits, or waits for \<open>changed\<close> to move past the value it read.
\<close>

datatype acquire_turn = Acquired nat string | AcquireFailed acquire_error | StopAndWait nat nat | WaitChanged nat

definition AcquireDevice_turn :: "string \<Rightarrow> int \<Rightarrow> ChannelConfig option \<Rightarrow> ChannelConfig option \<Rightarrow> bool \<Rightarrow> TunerManager \<Rightarrow>
    TunerManager \<times> acquire_turn" where
  "AcquireDevice_turn channelType prio requested tuned wait tm =
     (let (tm, attempt) = tryAcquireLocked channelType prio requested tuned tm in
      (tm, case aa_device attempt of
         Some d \<Rightarrow> Acquired d (aa_decoder attempt)
       | None \<Rightarrow>
           if \<not> aa_found attempt then AcquireFailed ErrTunerNotFound
           else if \<not> aa_usable attempt then AcquireFailed ErrUnsupportedTuner
           else (case gc_device (aa_grab attempt) of
                   Some victim \<Rightarrow> StopAndWait victim (aa_changed attempt)
                 | None \<Rightarrow> if \<not> wait then AcquireFailed ErrTunerUnavailable else WaitChanged (aa_changed attempt))))"

section \<open>The managed device\<close>

definition release :: "nat \<Rightarrow> TunerManager \<Rightarrow> TunerManager" where
  "release i tm =
     (if i \<in> set (tm_inUse tm)
      then let tm = tm\<lparr> tm_inUse := removeAll i (tm_inUse tm) \<rparr>;
               tm = set_runtime i (fst (resetReservation (tm_runtime tm ! i))) tm
           in tm\<lparr> tm_changed := Suc (tm_changed tm) \<rparr>
      else tm)"

definition releaseOnce :: "nat \<Rightarrow> TunerManager \<Rightarrow> TunerManager" where
  "releaseOnce d tm =
     (if md_released (tm_devices tm ! d) then tm
      else release (md_tuner (tm_devices tm ! d))
             (tm\<lparr> tm_devices := (tm_devices tm)[d := (tm_devices tm ! d)\<lparr> md_released := True \<rparr>] \<rparr>))"

text \<open>\<open>markRunning\<close>, \<open>markStopped\<close>, \<open>markFault\<close> change the runtime of the reservation the device holds.\<close>

definition update_if_current :: "(tunerRuntime \<Rightarrow> tunerRuntime) \<Rightarrow> nat \<Rightarrow> TunerManager \<Rightarrow> TunerManager" where
  "update_if_current f d tm =
     (let i = md_tuner (tm_devices tm ! d); runtime = tm_runtime tm ! i in
      if \<not> rt_inUse runtime \<or> rt_device runtime \<noteq> Some d then tm else set_runtime i (f runtime) tm)"

definition markRunning :: "nat \<Rightarrow> TunerManager \<Rightarrow> TunerManager" where
  "markRunning = update_if_current (\<lambda>r. r\<lparr> rt_running := True, rt_stopped := False \<rparr>)"

definition markStopped :: "nat \<Rightarrow> TunerManager \<Rightarrow> TunerManager" where
  "markStopped = update_if_current (\<lambda>r. r\<lparr> rt_running := False, rt_stopped := True \<rparr>)"

definition markFault :: "nat \<Rightarrow> TunerManager \<Rightarrow> TunerManager" where
  "markFault = update_if_current (\<lambda>r. r\<lparr> rt_running := False, rt_fault := True \<rparr>)"

text \<open>\<open>Start\<close> once the device has returned from its own \<open>Start\<close>, the goroutine that waits for the end,
and \<open>Stop\<close>.\<close>

definition managedDevice_Start :: "nat \<Rightarrow> bool \<Rightarrow> TunerManager \<Rightarrow> TunerManager" where
  "managedDevice_Start d failed tm = (if failed then releaseOnce d (markFault d tm) else markRunning d tm)"

definition managedDevice_done :: "nat \<Rightarrow> bool \<Rightarrow> TunerManager \<Rightarrow> TunerManager" where
  "managedDevice_done d failed tm = (if failed then markFault d tm else markStopped d tm)"

definition managedDevice_Stop :: "nat \<Rightarrow> TunerManager \<Rightarrow> TunerManager" where
  "managedDevice_Stop d tm = releaseOnce d tm"

definition KillProcess :: "int \<Rightarrow> TunerManager \<Rightarrow> TunerManager \<times> acquire_error option" where
  "KillProcess index tm =
     (if index < 0 \<or> index \<ge> blen (tm_tuners tm) then (tm, Some ErrTunerNotFound)
      else (case rt_device (tm_runtime tm ! nat index) of
              None \<Rightarrow> (tm, None)
            | Some d \<Rightarrow> (managedDevice_Stop d tm, None)))"

section \<open>Users\<close>

definition addUser :: "nat \<Rightarrow> User \<Rightarrow> TunerManager \<Rightarrow> TunerManager" where
  "addUser i user tm =
     (if u_ID user = [] then tm
      else
        let runtime = tm_runtime tm ! i;
            tracked = (case map_of (rt_users runtime) (u_ID user) of
                Some tracked \<Rightarrow>
                  \<lparr> tu_user = (if u_StreamInfo user = None then user\<lparr> u_StreamInfo := u_StreamInfo (tu_user tracked) \<rparr> else user),
                    tu_refs = tu_refs tracked + 1 \<rparr>
              | None \<Rightarrow> \<lparr> tu_user = user, tu_refs = 1 \<rparr>)
        in set_runtime i (runtime\<lparr> rt_users := AList.update (u_ID user) tracked (rt_users runtime) \<rparr>) tm)"

definition removeUser :: "nat \<Rightarrow> string \<Rightarrow> TunerManager \<Rightarrow> TunerManager" where
  "removeUser i uid tm =
     (let runtime = tm_runtime tm ! i in
      case map_of (rt_users runtime) uid of
        None \<Rightarrow> tm
      | Some tracked \<Rightarrow>
          let refs = tu_refs tracked - 1 in
          if refs = 0 then set_runtime i (runtime\<lparr> rt_users := AList.delete uid (rt_users runtime) \<rparr>) tm
          else set_runtime i (runtime\<lparr> rt_users := AList.update uid (tracked\<lparr> tu_refs := refs \<rparr>) (rt_users runtime) \<rparr>) tm)"

definition updateUserStreamInfo :: "nat \<Rightarrow> string \<Rightarrow> string \<Rightarrow> StreamInfo \<Rightarrow> TunerManager \<Rightarrow> TunerManager" where
  "updateUserStreamInfo i userID key info tm =
     (let runtime = tm_runtime tm ! i in
      case map_of (rt_users runtime) userID of
        None \<Rightarrow> tm
      | Some tracked \<Rightarrow>
          let infos = (case u_StreamInfo (tu_user tracked) of Some m \<Rightarrow> m | None \<Rightarrow> []);
              tracked = tracked\<lparr> tu_user := (tu_user tracked)\<lparr> u_StreamInfo := Some (AList.update key info infos) \<rparr> \<rparr>
          in set_runtime i (runtime\<lparr> rt_users := AList.update userID tracked (rt_users runtime) \<rparr>) tm)"

section \<open>Histories of operations\<close>

datatype tuner_op =
    TunerAcquire string int "ChannelConfig option" "ChannelConfig option"
  | TunerStart nat bool
  | TunerDone nat bool
  | TunerStop nat
  | TunerKill int
  | TunerAddUser nat User
  | TunerRemoveUser nat string
  | TunerStreamInfo nat string string StreamInfo

fun tuner_exec :: "tuner_op \<Rightarrow> TunerManager \<Rightarrow> TunerManager go" where
  "tuner_exec (TunerAcquire channelType prio requested tuned) tm = Some (fst (AcquireDevice_turn channelType prio requested tuned True tm))"
| "tuner_exec (TunerStart d failed) tm = Some (managedDevice_Start d failed tm)"
| "tuner_exec (TunerDone d failed) tm = Some (managedDevice_done d failed tm)"
| "tuner_exec (TunerStop d) tm = Some (managedDevice_Stop d tm)"
| "tuner_exec (TunerKill index) tm = Some (fst (KillProcess index tm))"
| "tuner_exec (TunerAddUser d user) tm = Some (addUser (md_tuner (tm_devices tm ! d)) user tm)"
| "tuner_exec (TunerRemoveUser d uid) tm = Some (removeUser (md_tuner (tm_devices tm ! d)) uid tm)"
| "tuner_exec (TunerStreamInfo d uid key info) tm = Some (updateUserStreamInfo (md_tuner (tm_devices tm ! d)) uid key info tm)"

text \<open>An operation on a device needs the device; it may be called at any time after the reservation,
also after the release.\<close>

fun tuner_enabled :: "tuner_op \<Rightarrow> TunerManager \<Rightarrow> bool" where
  "tuner_enabled (TunerAcquire channelType prio requested tuned) tm \<longleftrightarrow> True"
| "tuner_enabled (TunerStart d failed) tm \<longleftrightarrow> d < length (tm_devices tm)"
| "tuner_enabled (TunerDone d failed) tm \<longleftrightarrow> d < length (tm_devices tm)"
| "tuner_enabled (TunerStop d) tm \<longleftrightarrow> d < length (tm_devices tm)"
| "tuner_enabled (TunerKill index) tm \<longleftrightarrow> True"
| "tuner_enabled (TunerAddUser d user) tm \<longleftrightarrow> d < length (tm_devices tm)"
| "tuner_enabled (TunerRemoveUser d uid) tm \<longleftrightarrow> d < length (tm_devices tm)"
| "tuner_enabled (TunerStreamInfo d uid key info) tm \<longleftrightarrow> d < length (tm_devices tm)"

abbreviation tm_reach :: "TunerConfig list \<Rightarrow> TunerManager \<Rightarrow> bool" where
  "tm_reach configs \<equiv> reach (\<lambda>tm. tm = NewTunerManager configs) tuner_enabled tuner_exec"

section \<open>Invariant\<close>

text \<open>
  \<open>inUse\<close> and the runtimes agree; the device of a reservation is not released and belongs to that
  tuner; conversely a device that is not released is the device of its tuner's reservation; a
  tuner that is not reserved has no trace of an old reservation; every user is counted at least
  once; the rotation indices are tuner indices.
\<close>

definition runtime_ok :: "managedDevice list \<Rightarrow> nat \<Rightarrow> tunerRuntime \<Rightarrow> bool" where
  "runtime_ok devices i r \<longleftrightarrow> (rt_inUse r \<longleftrightarrow> rt_device r \<noteq> None)
     \<and> (\<forall>d. rt_device r = Some d \<longrightarrow> d < length devices \<and> md_tuner (devices ! d) = i \<and> \<not> md_released (devices ! d))
     \<and> (\<not> rt_inUse r \<longrightarrow> \<not> rt_running r \<and> \<not> rt_stopped r \<and> \<not> rt_fault r \<and> rt_requested r = None \<and> rt_tuned r = None
           \<and> rt_reservationPriority r = 0)
     \<and> \<not> (rt_running r \<and> rt_stopped r)
     \<and> distinct (map fst (rt_users r)) \<and> (\<forall>uid t. map_of (rt_users r) uid = Some t \<longrightarrow> 1 \<le> tu_refs t \<and> u_ID (tu_user t) = uid)"

definition tm_ok :: "TunerManager \<Rightarrow> bool" where
  "tm_ok tm \<longleftrightarrow> length (tm_runtime tm) = length (tm_tuners tm)
     \<and> (\<forall>i \<in> set (tm_inUse tm). i < length (tm_tuners tm))
     \<and> (\<forall>i < length (tm_tuners tm). runtime_ok (tm_devices tm) i (tm_runtime tm ! i)
           \<and> (i \<in> set (tm_inUse tm) \<longleftrightarrow> rt_inUse (tm_runtime tm ! i)))
     \<and> (\<forall>d < length (tm_devices tm). md_tuner (tm_devices tm ! d) < length (tm_tuners tm)
           \<and> (\<not> md_released (tm_devices tm ! d) \<longrightarrow> rt_device (tm_runtime tm ! md_tuner (tm_devices tm ! d)) = Some d))
     \<and> (\<forall>ty k. map_of (tm_nextByType tm) ty = Some k \<longrightarrow> k < length (tm_tuners tm))"

lemma tm_okI:
  assumes "length (tm_runtime tm) = length (tm_tuners tm)"
    and "\<And>i. i \<in> set (tm_inUse tm) \<Longrightarrow> i < length (tm_tuners tm)"
    and "\<And>i. i < length (tm_tuners tm) \<Longrightarrow> runtime_ok (tm_devices tm) i (tm_runtime tm ! i)"
    and "\<And>i. i < length (tm_tuners tm) \<Longrightarrow> i \<in> set (tm_inUse tm) \<longleftrightarrow> rt_inUse (tm_runtime tm ! i)"
    and "\<And>d. d < length (tm_devices tm) \<Longrightarrow> md_tuner (tm_devices tm ! d) < length (tm_tuners tm)"
    and "\<And>d. d < length (tm_devices tm) \<Longrightarrow> \<not> md_released (tm_devices tm ! d) \<Longrightarrow>
           rt_device (tm_runtime tm ! md_tuner (tm_devices tm ! d)) = Some d"
    and "\<And>ty k. map_of (tm_nextByType tm) ty = Some k \<Longrightarrow> k < length (tm_tuners tm)"
  shows "tm_ok tm"
  using assms by (simp add: tm_ok_def)

lemma tm_okD:
  assumes "tm_ok tm"
  shows "length (tm_runtime tm) = length (tm_tuners tm)"
    and "\<And>i. i \<in> set (tm_inUse tm) \<Longrightarrow> i < length (tm_tuners tm)"
    and "\<And>i. i < length (tm_tuners tm) \<Longrightarrow> runtime_ok (tm_devices tm) i (tm_runtime tm ! i)"
    and "\<And>i. i < length (tm_tuners tm) \<Longrightarrow> i \<in> set (tm_inUse tm) \<longleftrightarrow> rt_inUse (tm_runtime tm ! i)"
    and "\<And>d. d < length (tm_devices tm) \<Longrightarrow> md_tuner (tm_devices tm ! d) < length (tm_tuners tm)"
    and "\<And>d. d < length (tm_devices tm) \<Longrightarrow> \<not> md_released (tm_devices tm ! d) \<Longrightarrow>
           rt_device (tm_runtime tm ! md_tuner (tm_devices tm ! d)) = Some d"
    and "\<And>ty k. map_of (tm_nextByType tm) ty = Some k \<Longrightarrow> k < length (tm_tuners tm)"
  using assms by (simp_all add: tm_ok_def)

lemma NewTunerManager_ok: "tm_ok (NewTunerManager configs)"
  by (rule tm_okI) (simp_all add: NewTunerManager_def runtime_ok_def new_runtime_def)

text \<open>Changing the runtime of one tuner without touching its reservation.\<close>

lemma set_runtime_ok:
  assumes ok: "tm_ok tm" and r: "runtime_ok (tm_devices tm) i r"
    and same: "rt_inUse r = rt_inUse (tm_runtime tm ! i)" "rt_device r = rt_device (tm_runtime tm ! i)"
  shows "tm_ok (set_runtime i r tm)"
proof (cases "i < length (tm_runtime tm)")
  case True
  note d = tm_okD [OF ok]
  have nth: "(tm_runtime tm)[i := r] ! j = (if j = i then r else tm_runtime tm ! j)" for j
    using True by simp
  show ?thesis
  proof (rule tm_okI)
    show "rt_device (tm_runtime (set_runtime i r tm) ! md_tuner (tm_devices (set_runtime i r tm) ! e)) = Some e"
      if e: "e < length (tm_devices (set_runtime i r tm))" "\<not> md_released (tm_devices (set_runtime i r tm) ! e)" for e
      using d(6) [of e] e same nth by (auto simp: set_runtime_def)
  qed (use d r same nth in \<open>simp_all add: set_runtime_def\<close>)
next
  case False
  then have "set_runtime i r tm = tm" by (simp add: set_runtime_def list_update_beyond)
  then show ?thesis using ok by simp
qed

lemma update_if_current_ok:
  assumes ok: "tm_ok tm" and d: "d < length (tm_devices tm)"
    and f: "\<And>r. rt_inUse r \<Longrightarrow> runtime_ok (tm_devices tm) i r \<Longrightarrow> i = md_tuner (tm_devices tm ! d) \<Longrightarrow> runtime_ok (tm_devices tm) i (f r)"
    and same: "\<And>r. rt_inUse (f r) = rt_inUse r \<and> rt_device (f r) = rt_device r" and i: "i = md_tuner (tm_devices tm ! d)"
  shows "tm_ok (update_if_current f d tm)"
  using set_runtime_ok [OF ok f] tm_okD(3,5) [OF ok] d same i
  by (auto simp: update_if_current_def Let_def ok)

lemma mark_ok:
  assumes "tm_ok tm" and "d < length (tm_devices tm)"
  shows "tm_ok (markRunning d tm)" "tm_ok (markStopped d tm)" "tm_ok (markFault d tm)"
  unfolding markRunning_def markStopped_def markFault_def
  by (rule update_if_current_ok [OF assms _ _ refl]; auto simp: runtime_ok_def)+

section \<open>Release\<close>

lemma resetReservation_ok: "runtime_ok devices i (fst (resetReservation r))"
  by (simp add: resetReservation_def runtime_ok_def)

text \<open>Releasing a device ends the reservation it holds, and nothing else.\<close>

lemma releaseOnce_live:
  assumes ok: "tm_ok tm" and d: "d < length (tm_devices tm)" and live: "\<not> md_released (tm_devices tm ! d)"
    and i: "i = md_tuner (tm_devices tm ! d)"
  shows "releaseOnce d tm = tm\<lparr> tm_inUse := removeAll i (tm_inUse tm),
      tm_runtime := (tm_runtime tm)[i := fst (resetReservation (tm_runtime tm ! i))], tm_changed := Suc (tm_changed tm),
      tm_devices := (tm_devices tm)[d := (tm_devices tm ! d)\<lparr> md_released := True \<rparr>] \<rparr>"
    and "tm_ok (releaseOnce d tm)"
proof -
  note o = tm_okD [OF ok]
  have dev: "i < length (tm_tuners tm)" "rt_device (tm_runtime tm ! i) = Some d"
    using o(5) [OF d] o(6) [OF d live] i by simp_all
  have used: "i \<in> set (tm_inUse tm)" using o(3,4) [OF dev(1)] dev(2) by (simp add: runtime_ok_def)
  let ?tm = "tm\<lparr> tm_inUse := removeAll i (tm_inUse tm),
      tm_runtime := (tm_runtime tm)[i := fst (resetReservation (tm_runtime tm ! i))], tm_changed := Suc (tm_changed tm),
      tm_devices := (tm_devices tm)[d := (tm_devices tm ! d)\<lparr> md_released := True \<rparr>] \<rparr>"
  show eq: "releaseOnce d tm = ?tm"
    using live used i by (intro TunerManager.equality) (simp_all add: releaseOnce_def release_def set_runtime_def Let_def)
  have runtime: "tm_runtime ?tm ! j = (if j = i then fst (resetReservation (tm_runtime tm ! i)) else tm_runtime tm ! j)" for j
    using dev(1) o(1) by simp
  have devices: "tm_devices ?tm ! e = (if e = d then (tm_devices tm ! d)\<lparr> md_released := True \<rparr> else tm_devices tm ! e)" for e
    using d by simp
  have "tm_ok ?tm"
  proof (rule tm_okI)
    show "runtime_ok (tm_devices ?tm) j (tm_runtime ?tm ! j)" if j: "j < length (tm_tuners ?tm)" for j
    proof (cases "j = i")
      case False
      then have "rt_device (tm_runtime tm ! j) \<noteq> Some d"
        using o(3) [of j] j i by (auto simp: runtime_ok_def)
      then show ?thesis using o(3) [of j] j False unfolding runtime devices by (auto simp: runtime_ok_def nth_list_update)
    next
      case True
      show ?thesis unfolding runtime using True by (simp add: resetReservation_ok)
    qed
    show "j \<in> set (tm_inUse ?tm) \<longleftrightarrow> rt_inUse (tm_runtime ?tm ! j)" if j: "j < length (tm_tuners ?tm)" for j
      using o(4) [of j] j unfolding runtime by (auto simp: resetReservation_def)
    show "rt_device (tm_runtime ?tm ! md_tuner (tm_devices ?tm ! e)) = Some e"
      if e: "e < length (tm_devices ?tm)" "\<not> md_released (tm_devices ?tm ! e)" for e
    proof -
      have ne: "e \<noteq> d" using e(2) unfolding devices by auto
      then have "rt_device (tm_runtime tm ! md_tuner (tm_devices tm ! e)) = Some e" using o(6) [of e] e by simp
      moreover from this have "md_tuner (tm_devices tm ! e) \<noteq> i" using dev(2) ne by auto
      ultimately show ?thesis using ne unfolding runtime devices by simp
    qed
    show "md_tuner (tm_devices ?tm ! e) < length (tm_tuners ?tm)" if e: "e < length (tm_devices ?tm)" for e
      using o(5) [of e] o(5) [OF d] e unfolding devices by simp
  qed (use o in auto)
  then show "tm_ok (releaseOnce d tm)" by (simp only: eq)
qed

lemma releaseOnce_ok: "tm_ok tm \<Longrightarrow> d < length (tm_devices tm) \<Longrightarrow> tm_ok (releaseOnce d tm)"
  using releaseOnce_live(2) [of tm d] by (cases "md_released (tm_devices tm ! d)") (auto simp: releaseOnce_def)

section \<open>Acquisition\<close>

definition serves :: "string \<Rightarrow> TunerManager \<Rightarrow> nat \<Rightarrow> bool" where
  "serves channelType tm i \<longleftrightarrow> \<not> tc_IsDisabled (tm_tuners tm ! i) \<and> channelType \<in> set (Tuner_Groups (tm_tuners tm ! i))"

definition candidate :: "string \<Rightarrow> TunerManager \<Rightarrow> nat \<Rightarrow> bool" where
  "candidate channelType tm i \<longleftrightarrow> serves channelType tm i \<and> Tuner_Usable (tm_tuners tm ! i) \<and> \<not> rt_fault (tm_runtime tm ! i)"

definition free_for :: "string \<Rightarrow> TunerManager \<Rightarrow> nat \<Rightarrow> bool" where
  "free_for channelType tm i \<longleftrightarrow> candidate channelType tm i \<and> i \<notin> set (tm_inUse tm)"

text \<open>The tuners that a request of priority \<open>prio\<close> may take from their holders.\<close>

definition grabbable :: "string \<Rightarrow> int \<Rightarrow> TunerManager \<Rightarrow> nat \<Rightarrow> bool" where
  "grabbable channelType prio tm i \<longleftrightarrow> candidate channelType tm i \<and> i \<in> set (tm_inUse tm)
     \<and> effectivePriority (tm_runtime tm ! i) < prio"

text \<open>The best victim among the tuners of \<open>S\<close>: a least effective priority.\<close>

definition best_grab :: "TunerManager \<Rightarrow> nat set \<Rightarrow> grabCandidate \<Rightarrow> bool" where
  "best_grab tm S g \<longleftrightarrow> (S = {} \<longrightarrow> gc_device g = None) \<and> (S \<noteq> {} \<longrightarrow> (\<exists>i \<in> S. gc_device g = rt_device (tm_runtime tm ! i)
       \<and> gc_device g \<noteq> None \<and> gc_priority g = effectivePriority (tm_runtime tm ! i)
       \<and> (\<forall>j \<in> S. effectivePriority (tm_runtime tm ! i) \<le> effectivePriority (tm_runtime tm ! j))))"

lemma Tuner_NewDevice_usable: "Tuner_Usable t \<longleftrightarrow> Tuner_NewDevice t c \<noteq> None"
  by (simp add: Tuner_Usable_def Tuner_NewDevice_def Let_def split: SourceKind.split)

lemma visit_order_set:
  assumes "tm_ok tm"
  shows "set (visit_order ty tm) = {..<length (tm_tuners tm)}"
proof (cases "tm_tuners tm = []")
  case False
  define n where "n = length (tm_tuners tm)"
  define st where "st = (case map_of (tm_nextByType tm) ty of Some k \<Rightarrow> k | None \<Rightarrow> 0)"
  have n: "0 < n" and st: "st < n"
    using False tm_okD(7) [OF assms, of ty] by (auto simp: n_def st_def split: option.splits)
  have "\<exists>off < n. (st + off) mod n = i" if i: "i < n" for i
  proof (cases "st \<le> i")
    case True
    then show ?thesis using i by (intro exI [of _ "i - st"]) simp
  next
    case False
    then have "(st + (n - st + i)) mod n = i" "n - st + i < n" using st i by simp_all
    then show ?thesis by blast
  qed
  then have "set (map (\<lambda>off. (st + off) mod n) [0..<n]) = {..<n}" using n by force
  then show ?thesis by (simp add: visit_order_def Let_def flip: n_def st_def)
qed (simp add: visit_order_def Let_def)

lemma better_grab:
  assumes g: "best_grab tm S g" and i: "candidate ty tm i" "i \<in> set (tm_inUse tm)" and dev: "rt_device (tm_runtime tm ! i) \<noteq> None"
  shows "best_grab tm (S \<union> (if effectivePriority (tm_runtime tm ! i) < prio then {i} else {}))
     (betterGrabCandidate g (tm_tuners tm ! i) (tm_runtime tm ! i) prio)"
proof (cases "effectivePriority (tm_runtime tm ! i) < prio")
  case True
  obtain d where d: "rt_device (tm_runtime tm ! i) = Some d" using dev by blast
  show ?thesis
  proof (cases "S = {}")
    case True
    then show ?thesis using g d \<open>effectivePriority (tm_runtime tm ! i) < prio\<close>
      by (simp add: best_grab_def betterGrabCandidate_def)
  next
    case False
    then obtain k where k: "k \<in> S" "gc_device g = rt_device (tm_runtime tm ! k)" "gc_device g \<noteq> None"
        "gc_priority g = effectivePriority (tm_runtime tm ! k)"
        "\<forall>j \<in> S. effectivePriority (tm_runtime tm ! k) \<le> effectivePriority (tm_runtime tm ! j)"
      using g unfolding best_grab_def by blast
    show ?thesis
    proof (cases "gc_priority g \<le> effectivePriority (tm_runtime tm ! i)")
      case le: True
      then have "betterGrabCandidate g (tm_tuners tm ! i) (tm_runtime tm ! i) prio = g"
        using d k(3) True by (simp add: betterGrabCandidate_def)
      then show ?thesis using True k le by (auto simp: best_grab_def intro!: bexI [of _ k])
    next
      case gt: False
      then have "betterGrabCandidate g (tm_tuners tm ! i) (tm_runtime tm ! i) prio
          = \<lparr> gc_device = Some d, gc_tunerName = tc_Name (tm_tuners tm ! i), gc_priority = effectivePriority (tm_runtime tm ! i) \<rparr>"
        using d True by (simp add: betterGrabCandidate_def)
      then show ?thesis using True d k(4,5) gt by (fastforce simp: best_grab_def)
    qed
  qed
next
  case False
  then have "betterGrabCandidate g (tm_tuners tm ! i) (tm_runtime tm ! i) prio = g"
    by (simp add: betterGrabCandidate_def split: option.split)
  then show ?thesis using False g by simp
qed

text \<open>The loop without a free tuner, and with one.\<close>

definition skip_result :: "string \<Rightarrow> int \<Rightarrow> TunerManager \<Rightarrow> nat \<Rightarrow> acquireAttempt \<Rightarrow> acquireAttempt" where
  "skip_result ty prio tm i res = (if \<not> serves ty tm i then res
     else if \<not> Tuner_Usable (tm_tuners tm ! i) then res\<lparr> aa_found := True \<rparr>
     else if rt_fault (tm_runtime tm ! i) then res\<lparr> aa_found := True, aa_usable := True \<rparr>
     else res\<lparr> aa_found := True, aa_usable := True,
       aa_grab := betterGrabCandidate (aa_grab res) (tm_tuners tm ! i) (tm_runtime tm ! i) prio \<rparr>)"

lemma try_tuners_skip:
  "\<not> free_for ty tm i \<Longrightarrow>
     try_tuners ty prio requested tuned (i # order) res tm = try_tuners ty prio requested tuned order (skip_result ty prio tm i res) tm"
  by (auto simp: skip_result_def free_for_def serves_def candidate_def Let_def)

lemma try_tuners_none:
  assumes ok: "tm_ok tm" and bounds: "\<forall>i \<in> set order. i < length (tm_tuners tm)" and none: "\<forall>i \<in> set order. \<not> free_for ty tm i"
    and g: "best_grab tm S (aa_grab res)"
  shows "\<exists>res'. try_tuners ty prio requested tuned order res tm = (tm, res') \<and> aa_device res' = aa_device res
     \<and> aa_changed res' = aa_changed res
     \<and> (aa_found res' \<longleftrightarrow> aa_found res \<or> (\<exists>i \<in> set order. serves ty tm i))
     \<and> (aa_usable res' \<longleftrightarrow> aa_usable res \<or> (\<exists>i \<in> set order. serves ty tm i \<and> Tuner_Usable (tm_tuners tm ! i)))
     \<and> best_grab tm (S \<union> {i \<in> set order. grabbable ty prio tm i}) (aa_grab res')"
  using bounds none g
proof (induction order arbitrary: res S)
  case (Cons i order)
  have i: "i < length (tm_tuners tm)" and nf: "\<not> free_for ty tm i" using Cons.prems by simp_all
  have gr: "grabbable ty prio tm i \<Longrightarrow> candidate ty tm i" by (simp add: grabbable_def)
  define res1 where "res1 = skip_result ty prio tm i res"
  note res1 = res1_def [unfolded skip_result_def]
  have used: "candidate ty tm i \<Longrightarrow> i \<in> set (tm_inUse tm)" using nf by (simp add: free_for_def)
  have step: "try_tuners ty prio requested tuned (i # order) res tm = try_tuners ty prio requested tuned order res1 tm"
    unfolding res1_def by (rule try_tuners_skip [OF nf])
  have dev: "candidate ty tm i \<Longrightarrow> rt_device (tm_runtime tm ! i) \<noteq> None"
    using used tm_okD(3,4) [OF ok i] by (simp add: runtime_ok_def)
  have "best_grab tm (S \<union> {j. j = i \<and> grabbable ty prio tm j}) (aa_grab res1)"
  proof (cases "candidate ty tm i")
    case True
    have "{j. j = i \<and> grabbable ty prio tm j} = (if effectivePriority (tm_runtime tm ! i) < prio then {i} else {})"
      using True used by (auto simp: grabbable_def)
    moreover have "aa_grab res1 = betterGrabCandidate (aa_grab res) (tm_tuners tm ! i) (tm_runtime tm ! i) prio"
      using True by (simp add: res1 candidate_def)
    ultimately show ?thesis using better_grab [OF Cons.prems(3) True used dev, of prio] True by simp
  next
    case False
    have "{j. j = i \<and> grabbable ty prio tm j} = {}" using False by (auto simp: grabbable_def)
    moreover have "aa_grab res1 = aa_grab res" using False by (auto simp: res1 candidate_def)
    ultimately show ?thesis using Cons.prems(3) by (simp only: Un_empty_right)
  qed
  from Cons.IH [OF _ _ this] Cons.prems(1,2) obtain res' where r: "try_tuners ty prio requested tuned order res1 tm = (tm, res')"
      "aa_device res' = aa_device res1" "aa_changed res' = aa_changed res1"
      "aa_found res' \<longleftrightarrow> aa_found res1 \<or> (\<exists>i \<in> set order. serves ty tm i)"
      "aa_usable res' \<longleftrightarrow> aa_usable res1 \<or> (\<exists>i \<in> set order. serves ty tm i \<and> Tuner_Usable (tm_tuners tm ! i))"
      "best_grab tm (S \<union> {j. j = i \<and> grabbable ty prio tm j} \<union> {i \<in> set order. grabbable ty prio tm i}) (aa_grab res')"
    by auto
  have "S \<union> {j. j = i \<and> grabbable ty prio tm j} \<union> {i \<in> set order. grabbable ty prio tm i}
      = S \<union> {j \<in> set (i # order). grabbable ty prio tm j}" by auto
  then show ?case using step r by (auto simp: res1)
qed simp

lemma try_tuners_some:
  assumes "find (free_for ty tm) order = Some i"
  shows "\<exists>res' base. Tuner_NewDevice (tm_tuners tm ! i) tuned = Some base
     \<and> try_tuners ty prio requested tuned order res tm =
         (set_runtime i ((tm_runtime tm ! i)\<lparr> rt_inUse := True, rt_running := False, rt_stopped := False,
            rt_reservationPriority := prio, rt_requested := requested, rt_tuned := tuned, rt_device := Some (length (tm_devices tm)) \<rparr>)
           (tm\<lparr> tm_inUse := List.insert i (tm_inUse tm),
               tm_devices := tm_devices tm @ [\<lparr> md_base = base, md_tuner = i, md_released = False \<rparr>],
               tm_nextByType := AList.update ty ((i + 1) mod length (tm_tuners tm)) (tm_nextByType tm) \<rparr>), res')
     \<and> aa_device res' = Some (length (tm_devices tm)) \<and> aa_decoder res' = tc_Decoder (tm_tuners tm ! i)"
  using assms
proof (induction order arbitrary: res)
  case (Cons k order)
  show ?case
  proof (cases "free_for ty tm k")
    case True
    then have k: "k = i" "candidate ty tm i" "i \<notin> set (tm_inUse tm)" using Cons.prems by (simp_all add: free_for_def)
    then obtain base where "Tuner_NewDevice (tm_tuners tm ! i) tuned = Some base"
      using Tuner_NewDevice_usable [of "tm_tuners tm ! i" tuned] by (auto simp: candidate_def)
    then show ?thesis
      using k by (auto simp: candidate_def serves_def reserveLocked_def Let_def set_runtime_def intro!: TunerManager.equality)
  next
    case False
    then have "find (free_for ty tm) order = Some i" using Cons.prems by simp
    then show ?thesis unfolding try_tuners_skip [OF False] by (rule Cons.IH)
  qed
qed simp

lemma acquire_none:
  assumes ok: "tm_ok tm" and none: "find (free_for ty tm) (visit_order ty tm) = None"
  shows "\<exists>a. tryAcquireLocked ty prio requested tuned tm = (tm, a) \<and> aa_device a = None \<and> aa_changed a = tm_changed tm
     \<and> (aa_found a \<longleftrightarrow> (\<exists>i < length (tm_tuners tm). serves ty tm i))
     \<and> (aa_usable a \<longleftrightarrow> (\<exists>i < length (tm_tuners tm). serves ty tm i \<and> Tuner_Usable (tm_tuners tm ! i)))
     \<and> best_grab tm {i. i < length (tm_tuners tm) \<and> grabbable ty prio tm i} (aa_grab a)"
proof -
  let ?a = "\<lparr> aa_device = None, aa_decoder = [], aa_found = False, aa_usable = False, aa_grab = no_grab, aa_changed = tm_changed tm \<rparr>"
  have order: "set (visit_order ty tm) = {..<length (tm_tuners tm)}" by (rule visit_order_set [OF ok])
  have "\<forall>i \<in> set (visit_order ty tm). \<not> free_for ty tm i" using none by (simp add: find_None_iff)
  moreover have "\<forall>i \<in> set (visit_order ty tm). i < length (tm_tuners tm)" using order by simp
  moreover have "best_grab tm {} (aa_grab ?a)" by (simp add: best_grab_def no_grab_def)
  ultimately obtain a where a: "try_tuners ty prio requested tuned (visit_order ty tm) ?a tm = (tm, a)" "aa_device a = None"
      "aa_changed a = tm_changed tm"
      "aa_found a \<longleftrightarrow> (\<exists>i \<in> set (visit_order ty tm). serves ty tm i)"
      "aa_usable a \<longleftrightarrow> (\<exists>i \<in> set (visit_order ty tm). serves ty tm i \<and> Tuner_Usable (tm_tuners tm ! i))"
      "best_grab tm ({i \<in> set (visit_order ty tm). grabbable ty prio tm i}) (aa_grab a)"
    using try_tuners_none [OF ok, of "visit_order ty tm" ty "{}" ?a prio requested tuned] by auto
  then show ?thesis unfolding order by (simp add: tryAcquireLocked_def Bex_def)
qed

lemma acquire_ok:
  assumes ok: "tm_ok tm"
  shows "tm_ok (fst (tryAcquireLocked ty prio requested tuned tm))"
proof (cases "find (free_for ty tm) (visit_order ty tm)")
  case None
  then show ?thesis using acquire_none [OF ok, of ty prio requested tuned] ok by auto
next
  case (Some i)
  note o = tm_okD [OF ok]
  have "i \<in> set (visit_order ty tm)" "free_for ty tm i" using Some by (auto simp: find_Some_iff)
  then have i: "i < length (tm_tuners tm)" "i \<notin> set (tm_inUse tm)"
    using visit_order_set [OF ok] by (auto simp: free_for_def)
  then have idle: "rt_device (tm_runtime tm ! i) = None" "\<not> rt_inUse (tm_runtime tm ! i)"
    using o(3,4) [OF i(1)] by (auto simp: runtime_ok_def)
  let ?n = "length (tm_devices tm)"
  let ?r = "(tm_runtime tm ! i)\<lparr> rt_inUse := True, rt_running := False, rt_stopped := False,
            rt_reservationPriority := prio, rt_requested := requested, rt_tuned := tuned, rt_device := Some ?n \<rparr>"
  obtain res base where t: "tryAcquireLocked ty prio requested tuned tm = (set_runtime i ?r
           (tm\<lparr> tm_inUse := List.insert i (tm_inUse tm),
               tm_devices := tm_devices tm @ [\<lparr> md_base = base, md_tuner = i, md_released = False \<rparr>],
               tm_nextByType := AList.update ty ((i + 1) mod length (tm_tuners tm)) (tm_nextByType tm) \<rparr>), res)"
    using try_tuners_some [OF Some, of tuned prio requested] unfolding tryAcquireLocked_def by blast
  define tm' where "tm' = fst (tryAcquireLocked ty prio requested tuned tm)"
  have tm': "tm_tuners tm' = tm_tuners tm" "tm_inUse tm' = List.insert i (tm_inUse tm)" "tm_runtime tm' = (tm_runtime tm)[i := ?r]"
      "tm_devices tm' = tm_devices tm @ [\<lparr> md_base = base, md_tuner = i, md_released = False \<rparr>]"
      "tm_nextByType tm' = AList.update ty ((i + 1) mod length (tm_tuners tm)) (tm_nextByType tm)"
    by (simp_all add: tm'_def t set_runtime_def)
  have nth: "tm_runtime tm' ! j = (if j = i then ?r else tm_runtime tm ! j)" for j using i o(1) by (simp add: tm')
  have dev: "tm_devices tm' ! e = (if e < ?n then tm_devices tm ! e else \<lparr> md_base = base, md_tuner = i, md_released = False \<rparr>)"
    if "e < length (tm_devices tm')" for e
    using that by (auto simp: tm' nth_append)
  have "tm_ok tm'"
  proof (rule tm_okI)
    show "runtime_ok (tm_devices tm') j (tm_runtime tm' ! j)" if j: "j < length (tm_tuners tm')" for j
    proof (cases "j = i")
      case True
      then show ?thesis using o(3) [OF i(1)] unfolding nth by (simp add: runtime_ok_def tm'(4))
    next
      case False
      then show ?thesis using o(3) [of j] j unfolding nth by (auto simp: tm'(1,4) runtime_ok_def nth_append less_Suc_eq)
    qed
    show "rt_device (tm_runtime tm' ! md_tuner (tm_devices tm' ! e)) = Some e"
      if e: "e < length (tm_devices tm')" "\<not> md_released (tm_devices tm' ! e)" for e
    proof (cases "e < ?n")
      case True
      then have "rt_device (tm_runtime tm ! md_tuner (tm_devices tm ! e)) = Some e" using o(6) [of e] e dev [OF e(1)] by simp
      moreover from this have "md_tuner (tm_devices tm ! e) \<noteq> i" using idle by auto
      ultimately show ?thesis using True dev [OF e(1)] by (simp add: nth)
    next
      case False
      then have "e = ?n" using e(1) by (simp add: tm'(4))
      then show ?thesis using False dev [OF e(1)] by (simp add: nth)
    qed
    show "md_tuner (tm_devices tm' ! e) < length (tm_tuners tm')" if e: "e < length (tm_devices tm')" for e
      using o(5) [of e] i dev [OF e] by (auto simp: tm')
    show "j \<in> set (tm_inUse tm') \<longleftrightarrow> rt_inUse (tm_runtime tm' ! j)" if j: "j < length (tm_tuners tm')" for j
      using o(4) [of j] j unfolding nth by (auto simp: tm'(1,2))
    show "k < length (tm_tuners tm')" if k: "map_of (tm_nextByType tm') ty' = Some k" for ty' k
    proof -
      have "0 < length (tm_tuners tm)" using i by auto
      then show ?thesis using o(7) [of ty' k] k by (auto simp: tm' update_conv' split: if_splits)
    qed
  qed (use o i in \<open>auto simp: tm'\<close>)
  then show ?thesis by (simp add: tm'_def)
qed

lemma users_ok:
  assumes ok: "tm_ok tm" and i: "i < length (tm_tuners tm)"
  shows "tm_ok (addUser i user tm)" "tm_ok (removeUser i uid tm)" "tm_ok (updateUserStreamInfo i uid key info tm)"
proof -
  have r: "runtime_ok (tm_devices tm) i (tm_runtime tm ! i)" using tm_okD(3) [OF ok i] .
  have upd: "tm_ok (set_runtime i ((tm_runtime tm ! i)\<lparr> rt_users := us \<rparr>) tm)"
    if "distinct (map fst us)" "\<forall>uid t. map_of us uid = Some t \<longrightarrow> 1 \<le> tu_refs t \<and> u_ID (tu_user t) = uid" for us
    using that r by (intro set_runtime_ok ok) (simp_all add: runtime_ok_def)
  have d: "distinct (map fst (rt_users (tm_runtime tm ! i)))"
    and u: "\<And>uid t. map_of (rt_users (tm_runtime tm ! i)) uid = Some t \<Longrightarrow> 1 \<le> tu_refs t \<and> u_ID (tu_user t) = uid"
    using r by (auto simp: runtime_ok_def)
  show "tm_ok (addUser i user tm)"
  proof (cases "u_ID user = []")
    case False
    show ?thesis
    proof (cases "map_of (rt_users (tm_runtime tm ! i)) (u_ID user)")
      case None
      then show ?thesis unfolding addUser_def Let_def if_not_P [OF False]
        by (intro upd) (use d u in \<open>auto simp: distinct_update update_conv' split: if_splits\<close>)
    next
      case (Some t)
      have t: "0 \<le> tu_refs t" using u [OF Some] by simp
      show ?thesis unfolding addUser_def Let_def if_not_P [OF False]
        by (intro upd) (use d u t Some in \<open>auto simp: distinct_update update_conv' split: if_splits\<close>)
    qed
  qed (simp add: addUser_def ok)
  show "tm_ok (removeUser i uid tm)"
  proof (cases "map_of (rt_users (tm_runtime tm ! i)) uid")
    case (Some t)
    show ?thesis
    proof (cases "tu_refs t = 1")
      case True
      then show ?thesis
        using Some by (simp add: removeUser_def Let_def)
          (intro upd, use d u in \<open>auto simp: distinct_delete delete_conv' split: if_splits\<close>)
    next
      case False
      then have t: "1 < tu_refs t" using u [OF Some] by simp
      then show ?thesis
        using Some by (simp add: removeUser_def Let_def)
          (intro upd, use d u t in \<open>auto simp: distinct_update update_conv' split: if_splits\<close>)
    qed
  qed (simp add: removeUser_def ok)
  show "tm_ok (updateUserStreamInfo i uid key info tm)"
  proof (cases "map_of (rt_users (tm_runtime tm ! i)) uid")
    case (Some t)
    then show ?thesis
      using u [OF Some] by (simp add: updateUserStreamInfo_def Let_def)
        (intro upd, use d u in \<open>auto simp: distinct_update update_conv' split: if_splits\<close>)
  qed (simp add: updateUserStreamInfo_def ok)
qed

lemma tuner_exec_ok:
  assumes ok: "tm_ok tm" and en: "tuner_enabled op tm"
  shows "go_ok (tuner_exec op tm) tm_ok"
proof (cases op)
  case (TunerAcquire ty prio requested tuned)
  have "fst (AcquireDevice_turn ty prio requested tuned True tm) = fst (tryAcquireLocked ty prio requested tuned tm)"
    by (simp add: AcquireDevice_turn_def split: prod.split)
  then show ?thesis using TunerAcquire acquire_ok [OF ok] by simp
next
  case (TunerStart d failed)
  have "length (tm_devices (markFault d tm)) = length (tm_devices tm)"
    by (simp add: markFault_def update_if_current_def Let_def set_runtime_def)
  then show ?thesis
    using TunerStart en mark_ok [OF ok] by (simp add: managedDevice_Start_def releaseOnce_ok)
next
  case (TunerKill index)
  then show ?thesis
    using ok tm_okD(3) [OF ok, of "nat index"]
    by (auto simp: KillProcess_def managedDevice_Stop_def runtime_ok_def intro: releaseOnce_ok split: option.split)
qed (use ok en mark_ok users_ok releaseOnce_ok tm_okD(5) in \<open>auto simp: managedDevice_done_def managedDevice_Stop_def\<close>)

interpretation tuners: op_system "\<lambda>tm. tm = NewTunerManager configs" tuner_enabled tuner_exec tm_ok for configs
  by unfold_locales (auto simp: NewTunerManager_ok intro: tuner_exec_ok)

section \<open>Properties\<close>

lemma NewTunerManager_reach: "tm_reach configs (NewTunerManager configs)"
  by (rule reach.start) simp

text \<open>
  C5. Exclusive reservation: in every reachable state two devices that have not been released hold
  different tuners, and a tuner is marked in use exactly when some such device holds it; no
  tuner is lost (in use without a holder) and none is handed out twice. A tuner that is not in
  use shows no trace of its last holder: not running, not stopped, not faulted.
\<close>

theorem TunerManager_exclusive:
  assumes "tm_reach configs tm"
  shows "(\<forall>d e. d < length (tm_devices tm) \<and> e < length (tm_devices tm) \<and> d \<noteq> e \<and> \<not> md_released (tm_devices tm ! d)
           \<and> \<not> md_released (tm_devices tm ! e) \<longrightarrow> md_tuner (tm_devices tm ! d) \<noteq> md_tuner (tm_devices tm ! e))
    \<and> (\<forall>i < length (tm_tuners tm). i \<in> set (tm_inUse tm) \<longleftrightarrow>
         (\<exists>d < length (tm_devices tm). \<not> md_released (tm_devices tm ! d) \<and> md_tuner (tm_devices tm ! d) = i))
    \<and> (\<forall>i < length (tm_tuners tm). i \<notin> set (tm_inUse tm) \<longrightarrow>
         \<not> rt_running (tm_runtime tm ! i) \<and> \<not> rt_stopped (tm_runtime tm ! i) \<and> \<not> rt_fault (tm_runtime tm ! i))"
proof -
  have ok: "tm_ok tm" by (rule tuners.reach_inv [OF assms])
  note o = tm_okD [OF ok]
  show ?thesis
  proof (intro conjI allI impI)
    fix d e
    assume a: "d < length (tm_devices tm) \<and> e < length (tm_devices tm) \<and> d \<noteq> e \<and> \<not> md_released (tm_devices tm ! d)
        \<and> \<not> md_released (tm_devices tm ! e)"
    then show "md_tuner (tm_devices tm ! d) \<noteq> md_tuner (tm_devices tm ! e)" using o(6) [of d] o(6) [of e] by auto
  next
    fix i assume i: "i < length (tm_tuners tm)"
    show "i \<in> set (tm_inUse tm) \<longleftrightarrow> (\<exists>d < length (tm_devices tm). \<not> md_released (tm_devices tm ! d) \<and> md_tuner (tm_devices tm ! d) = i)"
      using o(3,4) [OF i] o(6) by (auto simp: runtime_ok_def)
    show "\<not> rt_running (tm_runtime tm ! i)" "\<not> rt_stopped (tm_runtime tm ! i)" "\<not> rt_fault (tm_runtime tm ! i)"
      if "i \<notin> set (tm_inUse tm)"
      using that o(3,4) [OF i] by (auto simp: runtime_ok_def)
  qed
qed

definition demo_tuner :: "string \<Rightarrow> TunerConfig" where
  "demo_tuner name = \<lparr> tc_Name = name, tc_Types = [''GR''], tc_Command = ''recpt1'', tc_DvbDevicePath = [], tc_Decoder = [],
     tc_IsDisabled = False, tc_StartupRetryMax = 0, tc_StartupTimeout = 0, tc_StartupRetryDelay = 0 \<rparr>"

theorem TunerManager_exclusive_witness:
  "\<not> rt_fault (tm_runtime (NewTunerManager [demo_tuner ''a'']) ! 0)"
  using TunerManager_exclusive [OF NewTunerManager_reach, of "[demo_tuner ''a'']"] by (simp add: NewTunerManager_def)

text \<open>
  C27. \<open>tryAcquireLocked\<close>: it reserves the first free tuner of the group in the rotation that starts
  after the tuner last given out for that group (a new, unreleased device for it, the others
  untouched); when none is free it changes nothing, says exactly whether some tuner serves the
  group and whether one of them is usable, and proposes to grab one exactly when some holder has
  a strictly lower effective priority, and then one of lowest priority.
\<close>

theorem tryAcquireLocked_correct:
  assumes "tm_reach configs tm"
  shows "set (visit_order ty tm) = {..<length (tm_tuners tm)} \<and>
    (case find (free_for ty tm) (visit_order ty tm) of
      Some i \<Rightarrow> \<exists>tm' a. tryAcquireLocked ty prio requested tuned tm = (tm', a) \<and> aa_device a = Some (length (tm_devices tm))
        \<and> aa_decoder a = tc_Decoder (tm_tuners tm ! i)
        \<and> md_tuner (tm_devices tm' ! length (tm_devices tm)) = i \<and> \<not> md_released (tm_devices tm' ! length (tm_devices tm))
        \<and> set (tm_inUse tm') = insert i (set (tm_inUse tm)) \<and> rt_reservationPriority (tm_runtime tm' ! i) = prio
        \<and> map_of (tm_nextByType tm') ty = Some ((i + 1) mod length (tm_tuners tm))
        \<and> (\<forall>j. j \<noteq> i \<longrightarrow> tm_runtime tm' ! j = tm_runtime tm ! j)
    | None \<Rightarrow> \<exists>a. tryAcquireLocked ty prio requested tuned tm = (tm, a) \<and> aa_device a = None
        \<and> (aa_found a \<longleftrightarrow> (\<exists>i < length (tm_tuners tm). serves ty tm i))
        \<and> (aa_usable a \<longleftrightarrow> (\<exists>i < length (tm_tuners tm). serves ty tm i \<and> Tuner_Usable (tm_tuners tm ! i)))
        \<and> best_grab tm {i. i < length (tm_tuners tm) \<and> grabbable ty prio tm i} (aa_grab a))"
proof (rule conjI)
  have ok: "tm_ok tm" by (rule tuners.reach_inv [OF assms])
  note o = tm_okD [OF ok]
  show order: "set (visit_order ty tm) = {..<length (tm_tuners tm)}" by (rule visit_order_set [OF ok])
  show "case find (free_for ty tm) (visit_order ty tm) of
      Some i \<Rightarrow> \<exists>tm' a. tryAcquireLocked ty prio requested tuned tm = (tm', a) \<and> aa_device a = Some (length (tm_devices tm))
        \<and> aa_decoder a = tc_Decoder (tm_tuners tm ! i)
        \<and> md_tuner (tm_devices tm' ! length (tm_devices tm)) = i \<and> \<not> md_released (tm_devices tm' ! length (tm_devices tm))
        \<and> set (tm_inUse tm') = insert i (set (tm_inUse tm)) \<and> rt_reservationPriority (tm_runtime tm' ! i) = prio
        \<and> map_of (tm_nextByType tm') ty = Some ((i + 1) mod length (tm_tuners tm))
        \<and> (\<forall>j. j \<noteq> i \<longrightarrow> tm_runtime tm' ! j = tm_runtime tm ! j)
    | None \<Rightarrow> \<exists>a. tryAcquireLocked ty prio requested tuned tm = (tm, a) \<and> aa_device a = None
        \<and> (aa_found a \<longleftrightarrow> (\<exists>i < length (tm_tuners tm). serves ty tm i))
        \<and> (aa_usable a \<longleftrightarrow> (\<exists>i < length (tm_tuners tm). serves ty tm i \<and> Tuner_Usable (tm_tuners tm ! i)))
        \<and> best_grab tm {i. i < length (tm_tuners tm) \<and> grabbable ty prio tm i} (aa_grab a)"
  proof (cases "find (free_for ty tm) (visit_order ty tm)")
    case None
    then show ?thesis using acquire_none [OF ok None, of prio requested tuned] by auto
  next
    case (Some i)
    then have "i < length (tm_runtime tm)" using order o(1) by (auto simp: find_Some_iff)
    then show ?thesis
      using Some try_tuners_some [OF Some, of tuned prio requested] unfolding tryAcquireLocked_def
      by (fastforce simp: set_runtime_def update_conv')
  qed
qed

text \<open>
  Releasing: stopping a device that has been released already changes nothing, so that a late or
  repeated \<open>Stop\<close> cannot end somebody else's reservation of the tuner; stopping a device that
  holds its tuner frees that tuner, leaves the others alone and wakes the waiters.
\<close>

theorem managedDevice_Stop_correct:
  assumes "tm_reach configs tm" and "d < length (tm_devices tm)" and "i = md_tuner (tm_devices tm ! d)"
  shows "if md_released (tm_devices tm ! d) then managedDevice_Stop d tm = tm
     else set (tm_inUse (managedDevice_Stop d tm)) = set (tm_inUse tm) - {i} \<and> i \<in> set (tm_inUse tm)
       \<and> rt_device (tm_runtime (managedDevice_Stop d tm) ! i) = None \<and> rt_users (tm_runtime (managedDevice_Stop d tm) ! i) = []
       \<and> (\<forall>j. j \<noteq> i \<longrightarrow> tm_runtime (managedDevice_Stop d tm) ! j = tm_runtime tm ! j)
       \<and> tm_changed (managedDevice_Stop d tm) = Suc (tm_changed tm)"
proof -
  have ok: "tm_ok tm" by (rule tuners.reach_inv [OF assms(1)])
  note o = tm_okD [OF ok]
  have i: "i < length (tm_runtime tm)" using o(1,5) assms(2,3) by simp
  show ?thesis
  proof (cases "md_released (tm_devices tm ! d)")
    case False
    have "i \<in> set (tm_inUse tm)"
      using o(3,4) [of i] o(5,6) [OF assms(2)] False assms(3) by (simp add: runtime_ok_def)
    then show ?thesis
      using False i releaseOnce_live(1) [OF ok assms(2) False assms(3)]
      by (simp add: managedDevice_Stop_def resetReservation_def)
  qed (simp add: managedDevice_Stop_def releaseOnce_def)
qed


text \<open>Two tuners, both reserved with priority 1; a request of priority 2 grabs the first of them.\<close>

definition busy_manager :: TunerManager where
  "busy_manager = fst (tryAcquireLocked ''GR'' 1 None None (fst (tryAcquireLocked ''GR'' 1 None None
     (NewTunerManager [demo_tuner ''a'', demo_tuner ''b'']))))"

lemma busy_manager_reach: "tm_reach [demo_tuner ''a'', demo_tuner ''b''] busy_manager"
proof -
  have acquire: "tm_reach cfg (fst (tryAcquireLocked ''GR'' 1 None None tm))" if r: "tm_reach cfg tm" for cfg tm
    using reach.step [OF r, of "TunerAcquire ''GR'' 1 None None"] by (simp add: AcquireDevice_turn_def split: prod.splits)
  then show ?thesis unfolding busy_manager_def by (intro acquire NewTunerManager_reach)
qed

theorem tryAcquireLocked_correct_witness:
  "\<exists>a. tryAcquireLocked ''BS'' 5 None None busy_manager = (busy_manager, a) \<and> aa_device a = None"
proof -
  have "find (free_for ''BS'' busy_manager) (visit_order ''BS'' busy_manager) = None" by code_simp
  then show ?thesis using tryAcquireLocked_correct [OF busy_manager_reach, of "''BS''" 5 None None] by auto
qed

theorem managedDevice_Stop_correct_witness:
  "tm_changed (managedDevice_Stop 0 busy_manager) = Suc (tm_changed busy_manager)"
proof -
  have "0 < length (tm_devices busy_manager)" "\<not> md_released (tm_devices busy_manager ! 0)" by code_simp+
  then show ?thesis using managedDevice_Stop_correct [OF busy_manager_reach, of 0] by simp
qed


end
