(* ===== verification/TS_DSMCC.thy ===== *)
theory TS_DSMCC
  imports TS_Tables
begin

text \<open>
  DSM-CC: the download messages of \<open>ts/logo_common.go\<close> (\<open>ParseDSMCCDII\<close>, \<open>ParseDSMCCDDB\<close>), the module
  information of \<open>ts/dsmcc_module_info.go\<close> and the stream descriptors of \<open>ts/dsmcc_stream.go\<close>. The
  DII and DDB parsers are proved inverse to the encoding of the messages.
\<close>

section \<open>Searching and reading bytes\<close>

definition HasPrefix :: "bytes \<Rightarrow> bytes \<Rightarrow> bool" where
  "HasPrefix s p \<longleftrightarrow> take (length p) s = p"

fun bytes_Index :: "bytes \<Rightarrow> bytes \<Rightarrow> int" where
  "bytes_Index [] p = (if p = [] then 0 else - 1)"
| "bytes_Index (x # s) p =
     (if HasPrefix (x # s) p then 0 else let i = bytes_Index s p in if i < 0 then - 1 else i + 1)"

definition read_u32 :: "bytes \<Rightarrow> int \<Rightarrow> u32 go" where
  "read_u32 data off = do {
     a \<leftarrow> idx data off; b \<leftarrow> idx data (off + 1); c \<leftarrow> idx data (off + 2); d \<leftarrow> idx data (off + 3); Some (be32 a b c d) }"

lemma read_u32_wp [go_wp]:
  "go_ok (read_u32 data off) P \<longleftrightarrow> 0 \<le> off \<and> off + 3 < blen data
     \<and> P (be32 (data ! nat off) (data ! nat (off + 1)) (data ! nat (off + 2)) (data ! nat (off + 3)))"
  by (auto simp: read_u32_def go_wp)

lemma bytes_Index_ge: "- 1 \<le> bytes_Index s p"
  by (induction s p rule: bytes_Index.induct) (auto simp: Let_def)

text \<open>The first position at which the pattern occurs, or -1.\<close>

lemma bytes_Index_found:
  "0 \<le> bytes_Index s p \<Longrightarrow> \<exists>pre post. s = pre @ p @ post \<and> blen pre = bytes_Index s p"
proof (induction s p rule: bytes_Index.induct)
  case (1 p)
  then show ?case by (auto split: if_splits)
next
  case (2 x s p)
  show ?case
  proof (cases "HasPrefix (x # s) p")
    case True
    then have "x # s = p @ drop (length p) (x # s)" unfolding HasPrefix_def by (metis append_take_drop_id)
    then show ?thesis using True by (intro exI [of _ "[]"] exI [of _ "drop (length p) (x # s)"]) simp
  next
    case False
    then have i: "0 \<le> bytes_Index s p" "bytes_Index (x # s) p = bytes_Index s p + 1"
      using 2(2) by (auto simp: Let_def split: if_splits)
    with 2(1) [OF False] obtain pre post where "s = pre @ p @ post" "blen pre = bytes_Index s p" by blast
    then show ?thesis using i(2) by (intro exI [of _ "x # pre"] exI [of _ post]) simp
  qed
qed

section \<open>Module information\<close>

record DSMCCModuleInfo =
  mi_ModuleID :: u16
  mi_ModuleSize :: u32
  mi_Version :: u8
  mi_Info :: bytes

text \<open>The bytes of the string \<open>LOGO-0\<close>.\<close>

definition LOGO_0 :: bytes where
  "LOGO_0 = [0x4c, 0x4f, 0x47, 0x4f, 0x2d, 0x30]"

definition IsLogoModule :: "DSMCCModuleInfo \<Rightarrow> bool" where
  "IsLogoModule m \<longleftrightarrow> bytes_Index (mi_Info m) LOGO_0 \<ge> 0"

definition LogoType :: "DSMCCModuleInfo \<Rightarrow> u8 option go" where
  "LogoType m =
     (let i = bytes_Index (mi_Info m) LOGO_0 in
      if i < 0 \<or> i + 7 > blen (mi_Info m) then Some None
      else do {
        n \<leftarrow> idx (mi_Info m) (i + 6);
        if n < 0x30 \<or> n > 0x35 then Some None else Some (Some (n - 0x30)) })"

text \<open>Go strings made from bytes without decoding are those bytes.\<close>

record DSMCCModuleMetadata =
  mm_Type :: bytes
  mm_Name :: bytes
  mm_CRC32 :: "u32 option"
  mm_EstimatedDownloadSeconds :: "u32 option"
  mm_CachingPriority :: "u8 option"
  mm_ExpireMode :: "u8 option"
  mm_ExpireData :: bytes
  mm_ActivationMode :: "u8 option"
  mm_ActivationData :: bytes
  mm_CompressionType :: "u8 option"
  mm_OriginalSize :: "u32 option"

definition no_metadata :: DSMCCModuleMetadata where
  "no_metadata = \<lparr> mm_Type = [], mm_Name = [], mm_CRC32 = None, mm_EstimatedDownloadSeconds = None,
     mm_CachingPriority = None, mm_ExpireMode = None, mm_ExpireData = [], mm_ActivationMode = None,
     mm_ActivationData = [], mm_CompressionType = None, mm_OriginalSize = None \<rparr>"

definition metadata_case :: "u8 \<Rightarrow> bytes \<Rightarrow> DSMCCModuleMetadata \<Rightarrow> DSMCCModuleMetadata go" where
  "metadata_case tag data metadata =
     (if tag = 0x01 then Some (metadata\<lparr> mm_Type := data \<rparr>)
      else if tag = 0x02 then Some (metadata\<lparr> mm_Name := data \<rparr>)
      else if tag = 0x05 then
        if blen data = 4 then do { n \<leftarrow> read_u32 data 0; Some (metadata\<lparr> mm_CRC32 := Some n \<rparr>) } else Some metadata
      else if tag = 0x07 then
        if blen data = 4 then do { n \<leftarrow> read_u32 data 0; Some (metadata\<lparr> mm_EstimatedDownloadSeconds := Some n \<rparr>) }
        else Some metadata
      else if tag = 0x71 then
        if blen data \<ge> 1 then do { b \<leftarrow> idx data 0; Some (metadata\<lparr> mm_CachingPriority := Some b \<rparr>) } else Some metadata
      else if tag = 0xc0 then
        if blen data \<ge> 1
        then do { b \<leftarrow> idx data 0; rest \<leftarrow> slice data 1 (blen data);
                  Some (metadata\<lparr> mm_ExpireMode := Some b, mm_ExpireData := rest \<rparr>) }
        else Some metadata
      else if tag = 0xc1 then
        if blen data \<ge> 1
        then do { b \<leftarrow> idx data 0; rest \<leftarrow> slice data 1 (blen data);
                  Some (metadata\<lparr> mm_ActivationMode := Some b, mm_ActivationData := rest \<rparr>) }
        else Some metadata
      else if tag = 0xc2 then
        if blen data = 5
        then do { b \<leftarrow> idx data 0; n \<leftarrow> read_u32 data 1;
                  Some (metadata\<lparr> mm_CompressionType := Some b, mm_OriginalSize := Some n \<rparr>) }
        else Some metadata
      else Some metadata)"

text \<open>The loop over the descriptors; \<open>None\<close> inside is \<open>ok = false\<close>.\<close>

function metadata_loop :: "bytes \<Rightarrow> int \<Rightarrow> DSMCCModuleMetadata \<Rightarrow> DSMCCModuleMetadata option go" where
  "metadata_loop info off metadata =
     (if off < blen info
      then if off + 2 > blen info then Some None
           else do {
             tag \<leftarrow> idx info off; b \<leftarrow> idx info (off + 1);
             let size = len8 b;
             if off + 2 + size > blen info then Some None
             else do {
               data \<leftarrow> slice info (off + 2) (off + 2 + size);
               metadata \<leftarrow> metadata_case tag data metadata;
               metadata_loop info (off + 2 + size) metadata } }
      else Some (Some metadata))"
  by pat_completeness auto
termination
proof (relation "measure (\<lambda>(info, off, _). nat (blen info - off))", simp)
  fix info :: bytes and off :: int and tag b :: u8 and x :: int and data :: bytes and m m' :: DSMCCModuleMetadata
  assume "off < blen info" "x = len8 b"
  then show "((info, off + 2 + x, m'), info, off, m) \<in> measure (\<lambda>(info, off, _). nat (blen info - off))"
    by simp (use len8_bounds(1) [of b] in linarith)
qed

declare metadata_loop.simps [simp del]

definition Metadata :: "DSMCCModuleInfo \<Rightarrow> DSMCCModuleMetadata option go" where
  "Metadata m = metadata_loop (mi_Info m) 0 no_metadata"

section \<open>Download messages\<close>

record DSMCCDII =
  dii_DownloadID :: u32
  dii_BlockSize :: u16
  dii_Modules :: "DSMCCModuleInfo list"
  dii_PrivateData :: bytes

record DSMCCDDB =
  ddb_DownloadID :: u32
  ddb_ModuleID :: u16
  ddb_ModuleVersion :: u8
  ddb_BlockNumber :: u16
  ddb_Data :: bytes

definition dsmccMessageBody :: "Section \<Rightarrow> u16 \<Rightarrow> bytes res" where
  "dsmccMessageBody s messageID = do {
     total \<leftarrow> Section_TotalLength s;
     let end' = total - 4;
     if end' < 20 then res_err ErrInvalidSection
     else do {
       message \<leftarrow> slice s 8 end';
       if blen message < 12 then res_err ErrInvalidSection
       else do {
         m0 \<leftarrow> idx message 0; m1 \<leftarrow> idx message 1; mid \<leftarrow> read_u16 message 2;
         if m0 \<noteq> 0x11 \<or> m1 \<noteq> 0x03 \<or> mid \<noteq> messageID then res_err ErrInvalidSection
         else do {
           adaptation \<leftarrow> idx message 9;
           messageLen \<leftarrow> read_u16 message 10;
           let off = 12 + len8 adaptation;
           if off > blen message \<or> off + uint messageLen > blen message then res_err ErrInvalidSection
           else do { body \<leftarrow> slice message off (off + uint messageLen); res_ok body } } } } }"

text \<open>The module loop of a DII: the modules read and the offset behind them.\<close>

fun dii_modules :: "bytes \<Rightarrow> int \<Rightarrow> nat \<Rightarrow> DSMCCModuleInfo list \<Rightarrow> (DSMCCModuleInfo list \<times> int) res" where
  "dii_modules body off 0 modules = res_ok (modules, off)"
| "dii_modules body off (Suc n) modules =
     (if off + 8 > blen body then res_err ErrInvalidSection
      else do {
        mid \<leftarrow> read_u16 body off; size \<leftarrow> read_u32 body (off + 2); version \<leftarrow> idx body (off + 6);
        b \<leftarrow> idx body (off + 7);
        let infoLen = len8 b;
        if off + 8 + infoLen > blen body then res_err ErrInvalidSection
        else do {
          info \<leftarrow> slice body (off + 8) (off + 8 + infoLen);
          dii_modules body (off + 8 + infoLen) n
            (modules @ [\<lparr> mi_ModuleID = mid, mi_ModuleSize = size, mi_Version = version, mi_Info = info \<rparr>]) } })"

definition ParseDSMCCDII :: "Section \<Rightarrow> DSMCCDII res" where
  "ParseDSMCCDII s = do {
     valid \<leftarrow> table_guard 23 (\<lambda>t. t = 0x3B) None s;
     if \<not> valid then res_err ErrInvalidSection
     else res_bind (dsmccMessageBody s 0x1002) (\<lambda>body.
       if blen body < 18 then res_err ErrInvalidSection
       else do {
         did \<leftarrow> read_u32 body 0; blockSize \<leftarrow> read_u16 body 4;
         let result = \<lparr> dii_DownloadID = did, dii_BlockSize = blockSize, dii_Modules = [], dii_PrivateData = [] \<rparr>;
         compatLen \<leftarrow> read_u16 body 16;
         let off = 18 + uint compatLen;
         if off = blen body then res_ok result
         else if off + 2 > blen body then res_err ErrInvalidSection
         else do {
           moduleCount \<leftarrow> read_u16 body off;
           res_bind (dii_modules body (off + 2) (unat moduleCount) []) (\<lambda>(modules, off).
             let result = result\<lparr> dii_Modules := modules \<rparr> in
             if off = blen body then res_ok result
             else if off + 2 > blen body then res_ok result
             else do {
               privateLen \<leftarrow> read_u16 body off;
               if off + 2 + uint privateLen > blen body then res_ok result
               else do {
                 private \<leftarrow> slice body (off + 2) (off + 2 + uint privateLen);
                 res_ok (result\<lparr> dii_PrivateData := private \<rparr>) } }) } }) }"

definition ParseDSMCCDDB :: "Section \<Rightarrow> DSMCCDDB res" where
  "ParseDSMCCDDB s = do {
     valid \<leftarrow> table_guard 25 (\<lambda>t. t = 0x3C) None s;
     if \<not> valid then res_err ErrInvalidSection
     else res_bind (dsmccMessageBody s 0x1003) (\<lambda>body.
       if blen body < 6 then res_err ErrInvalidSection
       else do {
         did \<leftarrow> read_u32 s 12;
         mid \<leftarrow> read_u16 body 0; version \<leftarrow> idx body 2; number \<leftarrow> read_u16 body 4;
         data \<leftarrow> slice body 6 (blen body);
         res_ok \<lparr> ddb_DownloadID = did, ddb_ModuleID = mid, ddb_ModuleVersion = version,
           ddb_BlockNumber = number, ddb_Data = data \<rparr> }) }"

section \<open>Stream descriptors\<close>

record DSMCCStream =
  ds_DataEventID :: u8
  ds_EventMessageGroupID :: u16
  ds_VersionNumber :: u8
  ds_CurrentNext :: bool
  ds_SectionNumber :: u8
  ds_LastSectionNumber :: u8
  ds_Descriptors :: "Descriptor list"

function stream_loop :: "Section \<Rightarrow> int \<Rightarrow> int \<Rightarrow> Descriptor list \<Rightarrow> Descriptor list res" where
  "stream_loop s off end' ds =
     (if off < end'
      then if off + 2 > end' then res_err ErrInvalidSection
           else do {
             b \<leftarrow> idx s (off + 1);
             let next = off + 2 + len8 b;
             if next > end' then res_err ErrInvalidSection
             else do { d \<leftarrow> slice s off next; stream_loop s next end' (ds @ [d]) } }
      else res_ok ds)"
  by pat_completeness auto
termination
proof (relation "measure (\<lambda>(s, off, e, _). nat (e - off))", simp)
  fix s :: Section and off e :: int and ds :: "Descriptor list" and b :: u8 and x :: int and d :: bytes
  assume "off < e" "x = off + 2 + len8 b"
  then show "((s, x, e, ds @ [d]), s, off, e, ds) \<in> measure (\<lambda>(s, off, e, _). nat (e - off))"
    by simp (use len8_bounds(1) [of b] in linarith)
qed

declare stream_loop.simps [simp del]

definition ParseDSMCCStream :: "Section \<Rightarrow> DSMCCStream res" where
  "ParseDSMCCStream s = do {
     valid \<leftarrow> table_guard 12 (\<lambda>t. t = 0x3D) (Some True) s;
     if \<not> valid then res_err ErrInvalidSection
     else do {
       b1 \<leftarrow> idx s 1;
       if b1 AND 0x40 \<noteq> 0 then res_err ErrInvalidSection
       else do {
         total \<leftarrow> Section_TotalLength s;
         b3 \<leftarrow> idx s 3; b4 \<leftarrow> idx s 4; b5 \<leftarrow> idx s 5; b6 \<leftarrow> idx s 6; b7 \<leftarrow> idx s 7;
         res_bind (stream_loop s 8 (total - 4) []) (\<lambda>ds.
           res_ok \<lparr> ds_DataEventID = drop_bit 4 b3, ds_EventMessageGroupID = be16 (b3 AND 0x0f) b4,
             ds_VersionNumber = drop_bit 1 b5 AND 0x1f, ds_CurrentNext = b5 AND 1 \<noteq> 0,
             ds_SectionNumber = b6, ds_LastSectionNumber = b7, ds_Descriptors = ds \<rparr>) } } }"

record DSMCCGeneralEvent =
  ge_EventMessageGroupID :: u16
  ge_TimeMode :: u8
  ge_TimeValue :: bytes
  ge_EventMessageType :: u8
  ge_EventMessageID :: u16
  ge_PrivateData :: bytes

definition ParseDSMCCGeneralEvent :: "Descriptor \<Rightarrow> DSMCCGeneralEvent option go" where
  "ParseDSMCCGeneralEvent d = do {
     data \<leftarrow> Descriptor_Data d;
     tag \<leftarrow> Descriptor_Tag d;
     if tag \<noteq> 0x40 \<or> blen data < 6 then Some None
     else do {
       d0 \<leftarrow> idx data 0; d1 \<leftarrow> idx data 1; mode \<leftarrow> idx data 2;
       let timed = mode \<in> {0x00, 0x01, 0x02, 0x03, 0x05};
       if timed \<and> blen data < 3 + 8 then Some None
       else do {
         value \<leftarrow> (if timed then slice data 3 8 else Some []);
         let off = (if timed then 8 else 3);
         ty \<leftarrow> idx data off; eid \<leftarrow> read_u16 data (off + 1);
         private \<leftarrow> slice data (off + 3) (blen data);
         Some (Some \<lparr> ge_EventMessageGroupID = push_bit 4 (ucast d0) OR ucast (drop_bit 4 d1), ge_TimeMode = mode,
           ge_TimeValue = value, ge_EventMessageType = ty, ge_EventMessageID = eid, ge_PrivateData = private \<rparr>) } } }"

text \<open>A 33-bit value: one bit and a 32-bit word.\<close>

definition npt33 :: "u8 \<Rightarrow> u32 \<Rightarrow> u64" where
  "npt33 hi lo = push_bit 32 (ucast (hi AND 1)) OR ucast lo"

record DSMCCNPTReference =
  np_PostDiscontinuityIndicator :: bool
  np_DSMContentID :: u8
  np_STCReference :: u64
  np_NPTReference :: u64
  np_ScaleNumerator :: u16
  np_ScaleDenominator :: u16

text \<open>The two scales are \<open>int16\<close> in the source: the same 16 bits, read with \<open>sint\<close>.\<close>

definition ParseDSMCCNPTReference :: "Descriptor \<Rightarrow> DSMCCNPTReference option go" where
  "ParseDSMCCNPTReference d = do {
     data \<leftarrow> Descriptor_Data d;
     tag \<leftarrow> Descriptor_Tag d;
     if tag \<noteq> 0x17 \<or> blen data < 18 then Some None
     else do {
       d0 \<leftarrow> idx data 0; d1 \<leftarrow> idx data 1; stc \<leftarrow> read_u32 data 2; d9 \<leftarrow> idx data 9; npt \<leftarrow> read_u32 data 10;
       num \<leftarrow> read_u16 data 14; den \<leftarrow> read_u16 data 16;
       Some (Some \<lparr> np_PostDiscontinuityIndicator = d0 AND 0x80 \<noteq> 0, np_DSMContentID = d0 AND 0x7f,
         np_STCReference = npt33 d1 stc, np_NPTReference = npt33 d9 npt,
         np_ScaleNumerator = num, np_ScaleDenominator = den \<rparr>) } }"

definition EventMessageNPT :: "DSMCCGeneralEvent \<Rightarrow> u64 option go" where
  "EventMessageNPT e =
     (if ge_TimeMode e \<noteq> 0x02 \<or> blen (ge_TimeValue e) \<noteq> 5 then Some None
      else do { b \<leftarrow> idx (ge_TimeValue e) 0; n \<leftarrow> read_u32 (ge_TimeValue e) 1; Some (Some (npt33 b n)) })"

section \<open>Totality\<close>

lemma metadata_case_total: "go_ok (metadata_case tag data m) (\<lambda>_. True)"
  by (auto simp: metadata_case_def go_wp)

lemma metadata_loop_total: "0 \<le> off \<Longrightarrow> go_ok (metadata_loop info off m) (\<lambda>_. True)"
proof (induction info off m rule: metadata_loop.induct)
  case (1 info off m)
  obtain m' where m': "metadata_case (info ! nat off) (take (nat (len8 (info ! nat (off + 1)))) (drop (nat (off + 2)) info)) m = Some m'"
    using metadata_case_total unfolding go_ok_def by blast
  show ?case
    using "1.prems" "1.IH" m' by (subst metadata_loop.simps) (auto simp: go_wp Let_def)
qed

lemma Metadata_total: "Metadata m \<noteq> None"
  unfolding Metadata_def by (rule go_ok_returns, rule metadata_loop_total) simp

lemma LogoType_total: "LogoType m \<noteq> None"
  using bytes_Index_ge [of "mi_Info m" LOGO_0] by (auto simp: LogoType_def Let_def split: bind_splits)

lemma dsmccMessageBody_total: "total_length s \<le> blen s \<Longrightarrow> 3 \<le> length s \<Longrightarrow> go_ok (dsmccMessageBody s mid) (\<lambda>_. True)"
  by (auto simp: dsmccMessageBody_def go_wp Let_def)

lemma dii_modules_total: "0 \<le> off \<Longrightarrow> go_ok (dii_modules body off n acc) (\<lambda>r. \<forall>ms off'. r = Inr (ms, off') \<longrightarrow> 0 \<le> off')"
  by (induction n arbitrary: off acc) (auto simp: go_wp Let_def)

lemma stream_loop_total: "0 \<le> off \<Longrightarrow> e \<le> blen s \<Longrightarrow> go_ok (stream_loop s off e acc) (\<lambda>_. True)"
proof (induction s off e acc rule: stream_loop.induct)
  case (1 s off e acc)
  then show ?case by (subst stream_loop.simps) (auto simp: go_wp Let_def)
qed

lemma ParseDSMCCDDB_total: "go_ok (ParseDSMCCDDB s) (\<lambda>_. True)"
proof (cases "guard_holds 25 (\<lambda>t. t = 0x3C) None s")
  case True
  note g = guard_holdsD [OF True]
  then have "go_ok (dsmccMessageBody s 0x1003) (\<lambda>_. True)" by (intro dsmccMessageBody_total) simp_all
  then show ?thesis
    using True g by (auto simp: ParseDSMCCDDB_def go_wp elim!: go_ok_mono)
qed (simp add: ParseDSMCCDDB_def)

lemma ParseDSMCCDII_total: "go_ok (ParseDSMCCDII s) (\<lambda>_. True)"
proof (cases "guard_holds 23 (\<lambda>t. t = 0x3B) None s")
  case True
  note g = guard_holdsD [OF True]
  then have "go_ok (dsmccMessageBody s 0x1002) (\<lambda>_. True)" by (intro dsmccMessageBody_total) simp_all
  then show ?thesis
    using True g unfolding ParseDSMCCDII_def
    by (auto simp: go_wp Let_def elim!: go_ok_mono intro!: go_ok_mono [OF dii_modules_total])
qed (simp add: ParseDSMCCDII_def)

lemma ParseDSMCCStream_total: "go_ok (ParseDSMCCStream s) (\<lambda>_. True)"
proof (cases "guard_holds 12 (\<lambda>t. t = 0x3D) (Some True) s")
  case True
  note g = guard_holdsD [OF True]
  show ?thesis
    using True g by (auto simp: ParseDSMCCStream_def go_wp Let_def stream_loop_total)
qed (simp add: ParseDSMCCStream_def)

interpretation dii: table_parser ParseDSMCCDII "\<lambda>t. t = 0x3B"
  by unfold_locales (rule ParseDSMCCDII_total, unfold ParseDSMCCDII_def, erule table_guard_accepts, simp)

interpretation ddb: table_parser ParseDSMCCDDB "\<lambda>t. t = 0x3C"
  by unfold_locales (rule ParseDSMCCDDB_total, unfold ParseDSMCCDDB_def, erule table_guard_accepts, simp)

interpretation dstream: table_parser ParseDSMCCStream "\<lambda>t. t = 0x3D"
  by unfold_locales (rule ParseDSMCCStream_total, unfold ParseDSMCCStream_def, erule table_guard_accepts, simp)

section \<open>Encoding\<close>

text \<open>
  The encodings of ISO/IEC 13818-6: a message header with no adaptation header, in a section
  whose length and CRC are filled in. \<open>did\<close> is the transaction id of a DII and the download id of
  a DDB.
\<close>

definition dsmcc_section :: "u8 \<Rightarrow> u16 \<Rightarrow> u32 \<Rightarrow> bytes \<Rightarrow> Section" where
  "dsmcc_section tid mid did body =
     section_bytes tid ([0, 0, version_byte 0, 0, 0] @ [0x11, 0x03, hi8 mid, lo8 mid] @ b32 did
       @ [0xff, 0, hi8 (word_of_nat (length body)), lo8 (word_of_nat (length body))] @ body)"

definition module_bytes :: "DSMCCModuleInfo \<Rightarrow> bytes" where
  "module_bytes m = [hi8 (mi_ModuleID m), lo8 (mi_ModuleID m)] @ b32 (mi_ModuleSize m)
     @ [mi_Version m, word_of_nat (length (mi_Info m))] @ mi_Info m"

definition dii_body :: "DSMCCDII \<Rightarrow> bytes" where
  "dii_body d = b32 (dii_DownloadID d) @ [hi8 (dii_BlockSize d), lo8 (dii_BlockSize d), 0, 0, 0, 0, 0, 0, 0, 0, 0, 0, 0, 0]
     @ [hi8 (word_of_nat (length (dii_Modules d))), lo8 (word_of_nat (length (dii_Modules d)))]
     @ concat (map module_bytes (dii_Modules d))
     @ [hi8 (word_of_nat (length (dii_PrivateData d))), lo8 (word_of_nat (length (dii_PrivateData d)))] @ dii_PrivateData d"

definition ddb_body :: "DSMCCDDB \<Rightarrow> bytes" where
  "ddb_body d = [hi8 (ddb_ModuleID d), lo8 (ddb_ModuleID d), ddb_ModuleVersion d, 0xff,
     hi8 (ddb_BlockNumber d), lo8 (ddb_BlockNumber d)] @ ddb_Data d"

lemma length_dsmcc_section:
  assumes "length body \<le> 4000"
  shows "good_section (dsmcc_section tid mid did body)" and "length (dsmcc_section tid mid did body) = length body + 24"
    and "total_length (dsmcc_section tid mid did body) = blen body + 24" and "dsmcc_section tid mid did body ! 0 = tid"
  using assms unfolding dsmcc_section_def
  by (simp_all add: section_bytes_good section_bytes_nth(1))

lemma section_bytes_split: "\<exists>h c. length h = 3 \<and> length c = 4 \<and> section_bytes tid body = h @ body @ c"
  unfolding section_bytes_def Let_def
  by (rule exI [of _ "[tid, 0xb0 OR hi8 (word_of_nat (length body + 4)), lo8 (word_of_nat (length body + 4))]"]) auto

lemma idx_after_prefix: "idx (pre @ xs) (blen pre + i) = (if 0 \<le> i then idx xs i else idx (pre @ xs) (blen pre + i))"
  by (auto simp: idx_def nat_add_distrib)

lemma dsmccMessageBody_encode:
  assumes "length body \<le> 4000"
  shows "dsmccMessageBody (dsmcc_section tid mid did body) mid = Some (Inr body)"
    and "read_u32 (dsmcc_section tid mid did body) 12 = Some did"
proof -
  let ?s = "dsmcc_section tid mid did body"
  define msg where "msg = [0x11, 0x03, hi8 mid, lo8 mid] @ b32 did
     @ [0xff, 0, hi8 (word_of_nat (length body)), lo8 (word_of_nat (length body))] @ body"
  obtain h crc where h: "length h = 3" "length crc = 4" "?s = h @ ([0, 0, version_byte 0, 0, 0] @ msg) @ crc"
    using section_bytes_split [of tid "[0, 0, version_byte 0, 0, 0] @ msg"] unfolding dsmcc_section_def msg_def by blast
  define pre where "pre = h @ [0, 0, version_byte 0, 0, 0]"
  have s: "?s = pre @ msg @ crc" "length pre = 8" "length msg = length body + 12" using h by (simp_all add: pre_def msg_def)
  have m: "msg ! 0 = 0x11" "msg ! 1 = 3" "msg ! 2 = hi8 mid" "msg ! 3 = lo8 mid" "msg ! 9 = 0"
    "msg ! 10 = hi8 (word_of_nat (length body))" "msg ! 11 = lo8 (word_of_nat (length body))"
    "drop 12 msg = body"
    by (simp_all add: msg_def b32_def)
  have n: "uint (word_of_nat (length body) :: u16) = blen body"
    using assms by (simp add: uint_nat unsigned_of_nat take_bit_nat_eq_self)
  have total: "total_length ?s = blen body + 24" using length_dsmcc_section(3) [OF assms] .
  have "slice ?s 8 (blen body + 20) = Some msg" unfolding s(1) using s(2,3) by (simp add: nat_add_distrib)
  then have msg: "slice ?s 8 (total_length ?s - 4) = Some msg" by (simp add: total add.commute)
  show "dsmccMessageBody ?s mid = Some (Inr body)"
    using msg m n s(3) length_dsmcc_section(2) [OF assms, of tid mid did] assms
    by (simp add: dsmccMessageBody_def total read_u16_def len8_def)
  have "msg ! 4 = ucast (drop_bit 24 did)" "msg ! 5 = ucast (drop_bit 16 did)" "msg ! 6 = ucast (drop_bit 8 did)" "msg ! 7 = ucast did"
    by (simp_all add: msg_def b32_def)
  then show "read_u32 ?s 12 = Some did"
    unfolding s(1) using s(2,3) by (simp add: read_u32_def nth_append)
qed

lemma ParseDSMCCDDB_encode:
  assumes "length (ddb_Data d) \<le> 3900"
  shows "ParseDSMCCDDB (dsmcc_section 0x3C 0x1003 (ddb_DownloadID d) (ddb_body d)) = Some (Inr d)"
proof -
  let ?s = "dsmcc_section 0x3C 0x1003 (ddb_DownloadID d) (ddb_body d)"
  have small: "length (ddb_body d) \<le> 4000" using assms by (simp add: ddb_body_def)
  note sec = length_dsmcc_section [OF small, where tid = "0x3C"]
  have "guard_holds 25 (\<lambda>t. t = 0x3C) None ?s"
    using sec by (simp add: guard_holds_def good_section_def ddb_body_def)
  then show ?thesis
    using dsmccMessageBody_encode [OF small, where tid = "0x3C" and mid = "0x1003"]
    by (simp add: ParseDSMCCDDB_def) (simp add: ddb_body_def read_u16_def)
qed

lemma dii_modules_encode:
  "list_all (\<lambda>m. length (mi_Info m) < 256) ms \<Longrightarrow>
   dii_modules (pre @ concat (map module_bytes ms) @ post) (blen pre) (length ms) acc
     = Some (Inr (acc @ ms, blen pre + blen (concat (map module_bytes ms))))"
proof (induction ms arbitrary: pre acc)
  case (Cons m ms)
  define s where "s = pre @ concat (map module_bytes (m # ms)) @ post"
  define n where "n = length (mi_Info m)"
  define hdr where "hdr = [hi8 (mi_ModuleID m), lo8 (mi_ModuleID m)] @ b32 (mi_ModuleSize m) @ [mi_Version m, word_of_nat n]"
  have hdr: "length hdr = 8" "be16 (hdr ! 0) (hdr ! 1) = mi_ModuleID m"
    "be32 (hdr ! 2) (hdr ! 3) (hdr ! 4) (hdr ! 5) = mi_ModuleSize m" "hdr ! 6 = mi_Version m" "len8 (hdr ! 7) = int n"
    using Cons.prems by (simp_all add: hdr_def b32_def len8_of_nat n_def)
  have s: "s = pre @ hdr @ mi_Info m @ concat (map module_bytes ms) @ post" by (simp add: s_def module_bytes_def hdr_def n_def)
  have at: "idx s (blen pre + int i) = Some (hdr ! i)" if "i < 8" for i
    unfolding s using that hdr(1) by (simp add: nat_add_distrib nth_append)
  note at = at [of 0, simplified] at [of 1, simplified] at [of 2, simplified] at [of 3, simplified]
    at [of 4, simplified] at [of 5, simplified] at [of 6, simplified] at [of 7, simplified]
  have info: "slice s (blen pre + 8) (blen pre + 8 + int n) = Some (mi_Info m)"
    unfolding s using hdr(1) by (simp add: nat_add_distrib n_def)
  have len: "blen pre + 8 + int n \<le> blen s" unfolding s using hdr(1) by (simp add: n_def)
  have "dii_modules s (blen pre) (length (m # ms)) acc = dii_modules s (blen pre + 8 + int n) (length ms) (acc @ [m])"
    using at info hdr len by (cases m) (simp add: read_u16_def read_u32_def add.assoc)
  also have "\<dots> = Some (Inr ((acc @ [m]) @ ms, blen pre + 8 + int n + blen (concat (map module_bytes ms))))"
    using Cons.IH [of "pre @ hdr @ mi_Info m" "acc @ [m]"] Cons.prems s hdr(1) by (simp add: algebra_simps n_def)
  also have "(acc @ [m]) @ ms = acc @ m # ms" by simp
  also have "blen pre + 8 + int n + blen (concat (map module_bytes ms)) = blen pre + blen (concat (map module_bytes (m # ms)))"
    using hdr(1) by (simp add: module_bytes_def n_def)
  finally show ?case by (simp only: s_def)
qed simp

text \<open>A DII that fits a section.\<close>

definition dii_ok :: "DSMCCDII \<Rightarrow> bool" where
  "dii_ok d \<longleftrightarrow> list_all (\<lambda>m. length (mi_Info m) < 256) (dii_Modules d) \<and> length (dii_body d) \<le> 4000"

lemma ParseDSMCCDII_encode:
  assumes "dii_ok d"
  shows "ParseDSMCCDII (dsmcc_section 0x3B 0x1002 tr (dii_body d)) = Some (Inr d)"
proof -
  define s where "s = dsmcc_section 0x3B 0x1002 tr (dii_body d)"
  define body where "body = dii_body d"
  define ms where "ms = concat (map module_bytes (dii_Modules d))"
  let ?n = "length (dii_Modules d)" and ?p = "length (dii_PrivateData d)"
  define A where "A = b32 (dii_DownloadID d) @ [hi8 (dii_BlockSize d), lo8 (dii_BlockSize d), 0, 0, 0, 0, 0, 0, 0, 0, 0, 0, 0, 0]
     @ [hi8 (word_of_nat ?n), lo8 (word_of_nat ?n)]"
  define P where "P = [hi8 (word_of_nat ?p), lo8 (word_of_nat ?p)] @ dii_PrivateData d"
  have A: "length A = 20" "be32 (A ! 0) (A ! 1) (A ! 2) (A ! 3) = dii_DownloadID d" "be16 (A ! 4) (A ! 5) = dii_BlockSize d"
    "be16 (A ! 16) (A ! 17) = 0" "be16 (A ! 18) (A ! 19) = word_of_nat ?n"
    by (simp_all add: A_def b32_def) (simp add: be16_def)
  have body: "body = A @ ms @ P" by (simp add: body_def dii_body_def A_def P_def ms_def)
  have small: "length (dii_body d) \<le> 4000" and infos: "list_all (\<lambda>m. length (mi_Info m) < 256) (dii_Modules d)"
    using assms by (simp_all add: dii_ok_def)
  have "8 * length l \<le> length (concat (map module_bytes l))" for l by (induction l) (auto simp: module_bytes_def)
  from this [of "dii_Modules d"] have lms: "8 * ?n \<le> length ms" by (simp only: ms_def)
  have n: "unat (word_of_nat ?n :: u16) = ?n" "uint (word_of_nat ?p :: u16) = int ?p"
    using small lms by (simp_all flip: body_def add: body P_def uint_nat unsigned_of_nat take_bit_nat_eq_self)
  have at: "idx body (int i) = Some (A ! i)" if "i < 20" for i
    unfolding body using that A(1) by (simp add: nth_append)
  note at = at [of 0, simplified] at [of 1, simplified] at [of 2, simplified] at [of 3, simplified] at [of 4, simplified]
    at [of 5, simplified] at [of 16, simplified] at [of 17, simplified] at [of 18, simplified] at [of 19, simplified]
  have mods: "dii_modules body 20 ?n [] = Some (Inr (dii_Modules d, 20 + blen ms))"
    using dii_modules_encode [OF infos, of A P "[]"] A(1) by (simp add: body flip: ms_def)
  have pl: "read_u16 body (20 + blen ms) = Some (word_of_nat ?p)" and
    pd: "slice body (22 + blen ms) (22 + blen ms + int ?p) = Some (dii_PrivateData d)"
    unfolding body using A(1) by (simp_all add: P_def read_u16_def nat_add_distrib nth_append)
  have lb: "blen body = 22 + blen ms + int ?p" using A(1) by (simp add: body P_def)
  note sec = length_dsmcc_section [OF small, where tid = "0x3B"]
  have "guard_holds 23 (\<lambda>t. t = 0x3B) None s"
    using sec lb unfolding s_def body_def by (simp add: guard_holds_def good_section_def)
  moreover have "dsmccMessageBody s 0x1002 = Some (Inr body)"
    unfolding s_def body_def by (rule dsmccMessageBody_encode [OF small])
  ultimately show ?thesis
    using at A mods pl pd lb n unfolding s_def [symmetric]
    by (simp add: ParseDSMCCDII_def read_u16_def [of body 4] read_u16_def [of body 16] read_u16_def [of body 18] read_u32_def)
qed

end
