(* ===== verification/DSMCC_Carousel.thy ===== *)
theory DSMCC_Carousel
  imports TS_DSMCC Step_Systems
begin

text \<open>
  The data-carousel receiver of \<open>ts/dsmcc_carousel.go\<close>: the modules a DII announces, assembled from
  DDB blocks within a budget for the modules in flight and one for the completed modules. The
  counters are the \<open>uint64\<close> of the source; the invariant shows that they are the sums they stand
  for. \<open>cloneDSMCCModuleInfo\<close>, a copy that detaches a slice, is the value itself.
\<close>

section \<open>State\<close>

record DSMCCCarouselLimits =
  cl_MaxModuleSize :: u32
  cl_MaxCompletedBytes :: u64
  cl_MaxInFlightBytes :: u64

definition withDefaults :: "DSMCCCarouselLimits \<Rightarrow> DSMCCCarouselLimits" where
  "withDefaults l =
     \<lparr> cl_MaxModuleSize = (if cl_MaxModuleSize l = 0 then 1040896 else cl_MaxModuleSize l),
       cl_MaxCompletedBytes = (if cl_MaxCompletedBytes l = 0 then 64 * 1024 * 1024 else cl_MaxCompletedBytes l),
       cl_MaxInFlightBytes = (if cl_MaxInFlightBytes l = 0 then 16 * 1024 * 1024 else cl_MaxInFlightBytes l) \<rparr>"

record DSMCCModule =
  dm_DownloadID :: u32
  dm_ModuleID :: u16
  dm_Version :: u8
  dm_Size :: u32
  dm_Info :: bytes
  dm_Data :: bytes
  dm_Generation :: u64

datatype DSMCCDDBResult = DSMCCDDBIgnored | DSMCCDDBBlock | DSMCCDDBDuplicate | DSMCCDDBCompleted

datatype rejection_reason =
  moduleSizeZero | blockSizeZero | moduleSizeLimitExceeded | inFlightBudgetExceeded

record DSMCCModuleRejection =
  rj_Module :: DSMCCModuleInfo
  rj_Reason :: rejection_reason

record DSMCCModuleAnnouncement =
  an_Module :: DSMCCModule
  an_Complete :: bool
  an_ReceivedBlocks :: int
  an_TotalBlocks :: int

record dsmccModuleState =
  mst_info :: DSMCCModuleInfo
  mst_downloadID :: u32
  mst_blockSize :: u16
  mst_data :: bytes
  mst_received :: "bool list"
  mst_count :: int
  mst_completed :: bool
  mst_generation :: u64

record DSMCCCarousel =
  dc_limits :: DSMCCCarouselLimits
  dc_modules :: "(u16, dsmccModuleState) gomap"
  dc_completedBytes :: u64
  dc_inFlightBytes :: u64
  dc_generation :: u64
  dc_rejected :: "(u16, DSMCCModuleRejection) gomap"

definition NewDSMCCCarousel :: "DSMCCCarouselLimits \<Rightarrow> DSMCCCarousel" where
  "NewDSMCCCarousel limits = \<lparr> dc_limits = withDefaults limits, dc_modules = [], dc_completedBytes = 0,
     dc_inFlightBytes = 0, dc_generation = 0, dc_rejected = [] \<rparr>"

section \<open>Removal and eviction\<close>

definition carousel_remove :: "u16 \<Rightarrow> DSMCCCarousel \<Rightarrow> DSMCCCarousel" where
  "carousel_remove mid c =
     (case map_of (dc_modules c) mid of
        None \<Rightarrow> c
      | Some st \<Rightarrow>
          (if mst_completed st
           then c\<lparr> dc_completedBytes := dc_completedBytes c - word_of_nat (length (mst_data st)) \<rparr>
           else c\<lparr> dc_inFlightBytes := dc_inFlightBytes c - ucast (mi_ModuleSize (mst_info st)) \<rparr>)
          \<lparr> dc_modules := AList.delete mid (dc_modules c) \<rparr>)"

text \<open>The oldest module among those that are not skipped: the loops of the two eviction functions.\<close>

fun pick_older :: "(u16 \<Rightarrow> dsmccModuleState \<Rightarrow> bool) \<Rightarrow> u16 \<times> dsmccModuleState \<Rightarrow> (u16 \<times> dsmccModuleState) option \<Rightarrow>
    (u16 \<times> dsmccModuleState) option" where
  "pick_older skip (mid, st) None = (if skip mid st then None else Some (mid, st))"
| "pick_older skip (mid, st) (Some (old, ost)) =
     (if skip mid st then Some (old, ost)
      else if mst_generation st < mst_generation ost then Some (mid, st) else Some (old, ost))"

definition oldest_module :: "(u16 \<Rightarrow> dsmccModuleState \<Rightarrow> bool) \<Rightarrow> (u16, dsmccModuleState) gomap \<Rightarrow> (u16 \<times> dsmccModuleState) option" where
  "oldest_module skip modules = fold (pick_older skip) modules None"

definition evictOldestInFlight :: "DSMCCCarousel \<Rightarrow> DSMCCCarousel \<times> bool" where
  "evictOldestInFlight c =
     (case oldest_module (\<lambda>_ st. mst_completed st) (dc_modules c) of
        None \<Rightarrow> (c, False) | Some (mid, _) \<Rightarrow> (carousel_remove mid c, True))"

definition evictOldestCompletedExcept :: "u16 \<Rightarrow> DSMCCCarousel \<Rightarrow> DSMCCCarousel \<times> bool" where
  "evictOldestCompletedExcept except c =
     (case oldest_module (\<lambda>mid st. \<not> mst_completed st \<or> mst_data st = [] \<or> mid = except) (dc_modules c) of
        None \<Rightarrow> (c, False) | Some (mid, _) \<Rightarrow> (carousel_remove mid c, True))"

lemma pick_older_fold_in:
  "fold (pick_older skip) ms acc = Some (mid, st) \<Longrightarrow> acc = Some (mid, st) \<or> ((mid, st) \<in> set ms \<and> \<not> skip mid st)"
proof (induction ms arbitrary: acc)
  case (Cons x ms)
  have "pick_older skip x acc = acc \<or> (pick_older skip x acc = Some x \<and> \<not> skip (fst x) (snd x))"
    by (cases "(skip, x, acc)" rule: pick_older.cases) auto
  then show ?case using Cons.IH [of "pick_older skip x acc"] Cons.prems by auto
qed simp

lemma oldest_module_in: "oldest_module skip modules = Some (mid, st) \<Longrightarrow> (mid, st) \<in> set modules \<and> \<not> skip mid st"
  using pick_older_fold_in [of skip modules None mid st] by (simp add: oldest_module_def)

lemma pick_older_fold_None: "fold (pick_older skip) ms acc = None \<longleftrightarrow> acc = None \<and> (\<forall>(mid, st) \<in> set ms. skip mid st)"
proof (induction ms arbitrary: acc)
  case (Cons x ms)
  have "pick_older skip x acc = None \<longleftrightarrow> acc = None \<and> skip (fst x) (snd x)"
    by (cases "(skip, x, acc)" rule: pick_older.cases) auto
  then show ?case using Cons.IH [of "pick_older skip x acc"] by auto
qed simp

lemma oldest_module_None: "oldest_module skip modules = None \<longleftrightarrow> (\<forall>(mid, st) \<in> set modules. skip mid st)"
  by (simp add: oldest_module_def pick_older_fold_None)

lemma remove_shrinks: "(mid, st) \<in> set (dc_modules c) \<Longrightarrow> length (dc_modules (carousel_remove mid c)) < length (dc_modules c)"
proof -
  assume "(mid, st) \<in> set (dc_modules c)"
  then obtain st' where st': "map_of (dc_modules c) mid = Some st'" by (metis map_of_eq_None_iff not_None_eq image_eqI fst_conv)
  then show ?thesis using length_delete_less [OF st'] by (simp add: carousel_remove_def)
qed

function evict_in_flight :: "u64 \<Rightarrow> DSMCCCarousel \<Rightarrow> DSMCCCarousel" where
  "evict_in_flight sz c =
     (if dc_inFlightBytes c + sz > cl_MaxInFlightBytes (dc_limits c)
      then case evictOldestInFlight c of (c', evicted) \<Rightarrow> if evicted then evict_in_flight sz c' else c'
      else c)"
  by pat_completeness auto
termination
  by (relation "measure (\<lambda>(_, c). length (dc_modules c))")
     (auto simp: evictOldestInFlight_def split: option.splits dest!: oldest_module_in intro: remove_shrinks)

function evict_completed :: "u16 \<Rightarrow> DSMCCCarousel \<Rightarrow> DSMCCCarousel" where
  "evict_completed except c =
     (if dc_completedBytes c > cl_MaxCompletedBytes (dc_limits c)
      then case evictOldestCompletedExcept except c of (c', evicted) \<Rightarrow> if evicted then evict_completed except c' else c'
      else c)"
  by pat_completeness auto
termination
  by (relation "measure (\<lambda>(_, c). length (dc_modules c))")
     (auto simp: evictOldestCompletedExcept_def split: option.splits dest!: oldest_module_in intro: remove_shrinks)

declare evict_in_flight.simps [simp del] evict_completed.simps [simp del]

section \<open>Announcements\<close>

definition reject :: "DSMCCModuleInfo \<Rightarrow> rejection_reason \<Rightarrow> DSMCCCarousel \<Rightarrow> DSMCCCarousel" where
  "reject module reason c =
     c\<lparr> dc_rejected := AList.update (mi_ModuleID module) \<lparr> rj_Module = module, rj_Reason = reason \<rparr> (dc_rejected c) \<rparr>"

text \<open>\<open>(ModuleSize + uint32(blockSize) - 1) / uint32(blockSize)\<close> in \<open>uint32\<close>; a division by zero panics.\<close>

definition block_count :: "u32 \<Rightarrow> u16 \<Rightarrow> int go" where
  "block_count sz blockSize = (if blockSize = 0 then None else Some (uint ((sz + ucast blockSize - 1) div ucast blockSize)))"

definition new_module_state :: "DSMCCDII \<Rightarrow> DSMCCModuleInfo \<Rightarrow> int \<Rightarrow> u64 \<Rightarrow> dsmccModuleState" where
  "new_module_state dii module blockCount generation =
     \<lparr> mst_info = module, mst_downloadID = dii_DownloadID dii, mst_blockSize = dii_BlockSize dii,
       mst_data = replicate (unat (mi_ModuleSize module)) 0, mst_received = replicate (nat blockCount) False,
       mst_count = 0, mst_completed = False, mst_generation = generation \<rparr>"

text \<open>The module of the DII is the one being received, or was received already.\<close>

definition same_module :: "DSMCCDII \<Rightarrow> DSMCCModuleInfo \<Rightarrow> dsmccModuleState \<Rightarrow> bool" where
  "same_module dii module current \<longleftrightarrow> mst_downloadID current = dii_DownloadID dii
     \<and> mi_Version (mst_info current) = mi_Version module \<and> mi_ModuleSize (mst_info current) = mi_ModuleSize module
     \<and> mst_blockSize current = dii_BlockSize dii"

text \<open>One module of a DII.\<close>

definition observe_module :: "DSMCCDII \<Rightarrow> DSMCCModuleInfo \<Rightarrow> DSMCCCarousel \<times> DSMCCModuleInfo list \<Rightarrow> (DSMCCCarousel \<times> DSMCCModuleInfo list) go" where
  "observe_module dii module = (\<lambda>(c, accepted).
     let mid = mi_ModuleID module; sz = mi_ModuleSize module in
     if sz = 0 then Some (reject module moduleSizeZero (carousel_remove mid c), accepted)
     else if dii_BlockSize dii = 0 then Some (reject module blockSizeZero (carousel_remove mid c), accepted)
     else if sz > cl_MaxModuleSize (dc_limits c)
     then Some (reject module moduleSizeLimitExceeded (carousel_remove mid c), accepted)
     else
       let c = c\<lparr> dc_rejected := AList.delete mid (dc_rejected c) \<rparr> in
       if (case map_of (dc_modules c) mid of None \<Rightarrow> False | Some current \<Rightarrow> same_module dii module current)
       then Some (c, accepted @ [module])
       else
         let c = carousel_remove mid c in
         if ucast sz > cl_MaxInFlightBytes (dc_limits c) then Some (reject module inFlightBudgetExceeded c, accepted)
         else
           let c = evict_in_flight (ucast sz) c in
           if dc_inFlightBytes c + ucast sz > cl_MaxInFlightBytes (dc_limits c)
           then Some (reject module inFlightBudgetExceeded c, accepted)
           else do {
             blockCount \<leftarrow> block_count sz (dii_BlockSize dii);
             let st = new_module_state dii module blockCount (dc_generation c + 1);
             Some (c\<lparr> dc_generation := dc_generation c + 1, dc_modules := AList.update mid st (dc_modules c),
                      dc_inFlightBytes := dc_inFlightBytes c + ucast sz \<rparr>, accepted @ [module]) })"

fun observe_modules :: "DSMCCDII \<Rightarrow> DSMCCModuleInfo list \<Rightarrow> DSMCCCarousel \<times> DSMCCModuleInfo list \<Rightarrow> (DSMCCCarousel \<times> DSMCCModuleInfo list) go" where
  "observe_modules dii [] ca = Some ca"
| "observe_modules dii (module # modules) ca = do { ca \<leftarrow> observe_module dii module ca; observe_modules dii modules ca }"

definition ObserveDII :: "DSMCCDII \<Rightarrow> DSMCCCarousel \<Rightarrow> (DSMCCCarousel \<times> DSMCCModuleInfo list) go" where
  "ObserveDII dii c = do {
     (c, accepted) \<leftarrow> observe_modules dii (dii_Modules dii) (c, []);
     let seen = map mi_ModuleID (dii_Modules dii);
     let c = fold (\<lambda>mid c. if mid \<in> set seen then c else carousel_remove mid c) (map fst (dc_modules c)) c;
     let c = c\<lparr> dc_rejected := filter (\<lambda>(mid, _). mid \<in> set seen) (dc_rejected c) \<rparr>;
     Some (c, accepted) }"

definition RejectedAnnouncements :: "DSMCCCarousel \<Rightarrow> DSMCCModuleRejection list" where
  "RejectedAnnouncements c = sort_key (\<lambda>r. uint (mi_ModuleID (rj_Module r))) (map snd (dc_rejected c))"

definition announcement :: "dsmccModuleState \<Rightarrow> DSMCCModuleAnnouncement" where
  "announcement st =
     \<lparr> an_Module = \<lparr> dm_DownloadID = mst_downloadID st, dm_ModuleID = mi_ModuleID (mst_info st),
         dm_Version = mi_Version (mst_info st), dm_Size = mi_ModuleSize (mst_info st), dm_Info = mi_Info (mst_info st),
         dm_Data = (if mst_completed st then mst_data st else []), dm_Generation = 0 \<rparr>,
       an_Complete = mst_completed st, an_ReceivedBlocks = mst_count st,
       an_TotalBlocks = (if mst_completed st then mst_count st else blen (mst_received st)) \<rparr>"

definition Announcements :: "DSMCCCarousel \<Rightarrow> DSMCCModuleAnnouncement list" where
  "Announcements c = sort_key (\<lambda>a. uint (dm_ModuleID (an_Module a))) (map (announcement \<circ> snd) (dc_modules c))"

section \<open>Blocks\<close>

definition state_module :: "dsmccModuleState \<Rightarrow> DSMCCModule" where
  "state_module st = \<lparr> dm_DownloadID = mst_downloadID st, dm_ModuleID = mi_ModuleID (mst_info st),
     dm_Version = mi_Version (mst_info st), dm_Size = mi_ModuleSize (mst_info st), dm_Info = mi_Info (mst_info st),
     dm_Data = mst_data st, dm_Generation = mst_generation st \<rparr>"

text \<open>
  \<open>copy(data[off:end], src[:end-off])\<close>: the block written into the buffer of the module.
\<close>

definition copy_block :: "bytes \<Rightarrow> int \<Rightarrow> bytes \<Rightarrow> bytes go" where
  "copy_block data off src = do {
     let end' = (if off + blen src > blen data then blen data else off + blen src);
     target \<leftarrow> slice data off end';
     source \<leftarrow> slice src 0 (end' - off);
     Some (take (nat off) data @ source @ drop (nat end') data) }"

text \<open>The accounting of a module that has just become complete, shared with \<open>Restore\<close>: the carousel, and
whether the module stays.\<close>

definition complete_module :: "u16 \<Rightarrow> dsmccModuleState \<Rightarrow> DSMCCCarousel \<Rightarrow> DSMCCCarousel \<times> bool" where
  "complete_module mid st c =
     (let st = st\<lparr> mst_completed := True, mst_received := [] \<rparr>;
          sz = ucast (mi_ModuleSize (mst_info st));
          c = c\<lparr> dc_modules := AList.update mid st (dc_modules c), dc_inFlightBytes := dc_inFlightBytes c - sz,
                 dc_completedBytes := dc_completedBytes c + sz \<rparr>;
          c = evict_completed mid c
      in if dc_completedBytes c > cl_MaxCompletedBytes (dc_limits c) then (carousel_remove mid c, False) else (c, True))"

definition ObserveDDBWithResult :: "DSMCCDDB \<Rightarrow> DSMCCCarousel \<Rightarrow>
    (DSMCCCarousel \<times> DSMCCModule option \<times> bool \<times> DSMCCDDBResult \<times> ts_error option) go" where
  "ObserveDDBWithResult ddb c =
     (let mid = ddb_ModuleID ddb; ignored = (c, None, False, DSMCCDDBIgnored, None) in
      case map_of (dc_modules c) mid of
        None \<Rightarrow> Some ignored
      | Some st \<Rightarrow>
          if mst_completed st \<or> mst_downloadID st \<noteq> ddb_DownloadID ddb \<or> mi_Version (mst_info st) \<noteq> ddb_ModuleVersion ddb
             \<or> mst_blockSize st = 0
          then Some ignored
          else
            let blockNumber = uint (ddb_BlockNumber ddb) in
            if blockNumber \<ge> blen (mst_received st) then Some ignored
            else
              let off = blockNumber * uint (mst_blockSize st) in
              if off \<ge> blen (mst_data st) then Some ignored
              else do {
                duplicate \<leftarrow> idx (mst_received st) blockNumber;
                let st = (if duplicate then st
                   else st\<lparr> mst_received := (mst_received st)[nat blockNumber := True], mst_count := mst_count st + 1 \<rparr>);
                data \<leftarrow> copy_block (mst_data st) off (ddb_Data ddb);
                let st = st\<lparr> mst_data := data \<rparr>;
                if mst_count st < blen (mst_received st)
                then Some (c\<lparr> dc_modules := AList.update mid st (dc_modules c) \<rparr>, None, False,
                           if duplicate then DSMCCDDBDuplicate else DSMCCDDBBlock, None)
                else
                  let (c, stays) = complete_module mid st c in
                  if stays then Some (c, Some (state_module (st\<lparr> mst_completed := True, mst_received := [] \<rparr>)), True,
                                      DSMCCDDBCompleted, None)
                  else Some (c, None, False, DSMCCDDBIgnored, Some ErrDSMCCCarouselBudgetExceeded) })"

definition ObserveDDB :: "DSMCCDDB \<Rightarrow> DSMCCCarousel \<Rightarrow> (DSMCCCarousel \<times> DSMCCModule option \<times> bool \<times> ts_error option) go" where
  "ObserveDDB ddb c = do {
     (c, module, complete, _, err) \<leftarrow> ObserveDDBWithResult ddb c;
     Some (c, module, complete, err) }"

section \<open>Completed modules\<close>

text \<open>\<open>state == nil || !state.completed || uint32(len(state.data)) != state.info.ModuleSize\<close> negated.\<close>

definition has_payload :: "dsmccModuleState \<Rightarrow> bool" where
  "has_payload st \<longleftrightarrow> mst_completed st \<and> word_of_nat (length (mst_data st)) = mi_ModuleSize (mst_info st)"

definition carousel_Module :: "u16 \<Rightarrow> DSMCCCarousel \<Rightarrow> DSMCCModule option" where
  "carousel_Module mid c =
     (case map_of (dc_modules c) mid of
        None \<Rightarrow> None | Some st \<Rightarrow> if has_payload st then Some (state_module st) else None)"

definition ReleaseCompletedPayload :: "u16 \<Rightarrow> DSMCCCarousel \<Rightarrow> DSMCCCarousel \<times> bool" where
  "ReleaseCompletedPayload mid c =
     (case map_of (dc_modules c) mid of
        None \<Rightarrow> (c, False)
      | Some st \<Rightarrow>
          if \<not> has_payload st then (c, False)
          else (c\<lparr> dc_completedBytes := dc_completedBytes c - word_of_nat (length (mst_data st)),
                   dc_modules := AList.update mid (st\<lparr> mst_data := [] \<rparr>) (dc_modules c) \<rparr>, True))"

definition ModuleInfo :: "u16 \<Rightarrow> DSMCCCarousel \<Rightarrow> DSMCCModuleInfo option" where
  "ModuleInfo mid c = map_option mst_info (map_of (dc_modules c) mid)"

definition Restore :: "DSMCCModule \<Rightarrow> DSMCCCarousel \<Rightarrow> (DSMCCCarousel \<times> bool) go" where
  "Restore module c =
     (case map_of (dc_modules c) (dm_ModuleID module) of
        None \<Rightarrow> Some (c, False)
      | Some st \<Rightarrow>
          if mst_completed st \<or> mst_downloadID st \<noteq> dm_DownloadID module \<or> mi_Version (mst_info st) \<noteq> dm_Version module
             \<or> mi_ModuleSize (mst_info st) \<noteq> dm_Size module \<or> word_of_nat (length (dm_Data module)) \<noteq> dm_Size module
          then Some (c, False)
          else do {
            count \<leftarrow> block_count (mi_ModuleSize (mst_info st)) (mst_blockSize st);
            Some (complete_module (dm_ModuleID module) (st\<lparr> mst_data := dm_Data module, mst_count := count \<rparr>) c) })"

definition Modules :: "DSMCCCarousel \<Rightarrow> DSMCCModule list" where
  "Modules c = sort_key (\<lambda>m. uint (dm_ModuleID m)) (map state_module (filter mst_completed (map snd (dc_modules c))))"

section \<open>Sums over a map\<close>

definition msum :: "('v \<Rightarrow> nat) \<Rightarrow> ('k, 'v) gomap \<Rightarrow> nat" where
  "msum f m = sum_list (map (\<lambda>(_, v). f v) m)"

lemma msum_delete: "distinct (map fst m) \<Longrightarrow> map_of m k = Some v \<Longrightarrow> msum f m = f v + msum f (AList.delete k m)"
  by (induction m) (auto simp: msum_def delete_idem image_iff dest!: map_of_SomeD)

lemma msum_update: "distinct (map fst m) \<Longrightarrow> msum f (AList.update k v m) = f v + msum f (AList.delete k m)"
  by (induction m) (auto simp: msum_def delete_idem)

lemma msum_bound: "(\<forall>(k, v) \<in> set m. f v \<le> b) \<Longrightarrow> msum f m \<le> length m * b"
  by (induction m) (auto simp: msum_def)

lemma msum_zero: "(\<forall>(k, v) \<in> set m. f v = 0) \<Longrightarrow> msum f m = 0"
  by (induction m) (auto simp: msum_def)

lemma length_le_keys: "distinct (map fst (m :: (u16, 'v) gomap)) \<Longrightarrow> length m \<le> 65536"
proof -
  assume "distinct (map fst m)"
  then have "length m = card (fst ` set m)" by (metis distinct_card length_map list.set_map)
  also have "\<dots> \<le> card (UNIV :: u16 set)" by (intro card_mono) simp_all
  also have "\<dots> = 65536" by (simp add: card_word)
  finally show ?thesis .
qed

section \<open>Invariant\<close>

definition in_flight :: "dsmccModuleState \<Rightarrow> nat" where
  "in_flight st = (if mst_completed st then 0 else unat (mi_ModuleSize (mst_info st)))"

definition held :: "dsmccModuleState \<Rightarrow> nat" where
  "held st = (if mst_completed st then length (mst_data st) else 0)"

definition mst_ok :: "DSMCCCarouselLimits \<Rightarrow> u16 \<Rightarrow> dsmccModuleState \<Rightarrow> bool" where
  "mst_ok l mid st \<longleftrightarrow> mi_ModuleID (mst_info st) = mid \<and> mi_ModuleSize (mst_info st) \<noteq> 0
     \<and> mi_ModuleSize (mst_info st) \<le> cl_MaxModuleSize l \<and> ucast (mi_ModuleSize (mst_info st)) \<le> cl_MaxInFlightBytes l
     \<and> mst_blockSize st \<noteq> 0
     \<and> (length (mst_data st) = unat (mi_ModuleSize (mst_info st)) \<or> (mst_completed st \<and> mst_data st = []))
     \<and> (\<not> mst_completed st \<longrightarrow> mst_count st = int (length (filter id (mst_received st)))
          \<and> block_count (mi_ModuleSize (mst_info st)) (mst_blockSize st) = Some (blen (mst_received st)))"

text \<open>The counters are the sums over the modules, and then within the budgets.\<close>

definition dc_sums :: "DSMCCCarousel \<Rightarrow> bool" where
  "dc_sums c \<longleftrightarrow> distinct (map fst (dc_modules c)) \<and> (\<forall>(mid, st) \<in> set (dc_modules c). mst_ok (dc_limits c) mid st)
     \<and> unat (dc_inFlightBytes c) = msum in_flight (dc_modules c) \<and> unat (dc_completedBytes c) = msum held (dc_modules c)"

definition dc_ok :: "DSMCCCarousel \<Rightarrow> bool" where
  "dc_ok c \<longleftrightarrow> dc_sums c \<and> dc_inFlightBytes c \<le> cl_MaxInFlightBytes (dc_limits c)
     \<and> dc_completedBytes c \<le> cl_MaxCompletedBytes (dc_limits c)"

lemma NewDSMCCCarousel_ok: "dc_ok (NewDSMCCCarousel limits)"
  by (simp add: dc_ok_def dc_sums_def NewDSMCCCarousel_def msum_def)

lemma mst_ok_small:
  assumes "mst_ok l mid st"
  shows "in_flight st < 2 ^ 32" and "held st < 2 ^ 32"
  using assms unsigned_less [of "mi_ModuleSize (mst_info st)"]
  by (auto simp: mst_ok_def in_flight_def held_def)

lemma dc_sums_bound:
  assumes "dc_sums c"
  shows "msum in_flight (dc_modules c) < 2 ^ 48" and "msum held (dc_modules c) < 2 ^ 48"
proof -
  have "\<forall>(k, v) \<in> set (dc_modules c). in_flight v \<le> 2 ^ 32 - 1" "\<forall>(k, v) \<in> set (dc_modules c). held v \<le> 2 ^ 32 - 1"
    using assms mst_ok_small unfolding dc_sums_def by fastforce+
  from this [THEN msum_bound] have "msum in_flight (dc_modules c) \<le> length (dc_modules c) * (2 ^ 32 - 1)"
    "msum held (dc_modules c) \<le> length (dc_modules c) * (2 ^ 32 - 1)" by blast+
  moreover have "length (dc_modules c) * (2 ^ 32 - 1) \<le> 65536 * (2 ^ 32 - 1)"
    using assms length_le_keys [of "dc_modules c"] by (intro mult_right_mono) (simp_all add: dc_sums_def)
  ultimately show "msum in_flight (dc_modules c) < 2 ^ 48" "msum held (dc_modules c) < 2 ^ 48" by simp_all
qed

lemma unat_u64_of_u32 [simp]: "unat (ucast (x :: u32) :: u64) = unat x"
proof -
  have "unat x < 2 ^ LENGTH(32)" by (rule unsigned_less)
  then show ?thesis by (simp add: unsigned_ucast_eq take_bit_nat_eq_self)
qed

lemma unat_u64_of_nat: "n < 2 ^ 32 \<Longrightarrow> unat (word_of_nat n :: u64) = n"
  by (simp add: unsigned_of_nat take_bit_nat_eq_self)

lemma remove_limits [simp]: "dc_limits (carousel_remove mid c) = dc_limits c"
  by (simp add: carousel_remove_def split: option.splits)

lemma remove_modules: "dc_modules (carousel_remove mid c) = AList.delete mid (dc_modules c)"
  by (auto simp: carousel_remove_def delete_idem map_of_eq_None_iff split: option.splits)

lemma map_of_remove: "map_of (dc_modules (carousel_remove mid c)) = (map_of (dc_modules c))(mid := None)"
  by (simp add: remove_modules delete_conv')

lemma remove_subset: "set (dc_modules (carousel_remove mid c)) \<subseteq> set (dc_modules c)"
  by (auto simp: remove_modules AList.delete_eq)

lemma remove_sums:
  assumes "dc_sums c"
  shows "dc_sums (carousel_remove mid c)" and "dc_inFlightBytes (carousel_remove mid c) \<le> dc_inFlightBytes c"
    and "dc_completedBytes (carousel_remove mid c) \<le> dc_completedBytes c"
proof -
  have "dc_sums (carousel_remove mid c) \<and> dc_inFlightBytes (carousel_remove mid c) \<le> dc_inFlightBytes c
    \<and> dc_completedBytes (carousel_remove mid c) \<le> dc_completedBytes c"
  proof (cases "map_of (dc_modules c) mid")
    case (Some st)
    have d: "distinct (map fst (dc_modules c))" using assms by (simp add: dc_sums_def)
    note del = msum_delete [OF d Some, of in_flight] msum_delete [OF d Some, of held]
    have ok: "mst_ok (dc_limits c) mid st" using assms map_of_SomeD [OF Some] by (auto simp: dc_sums_def)
    have "\<forall>(m, st) \<in> set (AList.delete mid (dc_modules c)). mst_ok (dc_limits c) m st"
      using assms by (auto simp: dc_sums_def AList.delete_eq)
    moreover have "unat (dc_inFlightBytes c) = msum in_flight (dc_modules c)" "unat (dc_completedBytes c) = msum held (dc_modules c)"
      using assms by (simp_all add: dc_sums_def)
    moreover have "unat (word_of_nat (held st) :: u64) = held st" by (rule unat_u64_of_nat, rule mst_ok_small [OF ok])
    ultimately show ?thesis
      using Some d del
      by (auto simp: carousel_remove_def dc_sums_def in_flight_def held_def distinct_delete unat_sub_if' word_le_nat_alt
          simp del: unsigned_of_nat)
  qed (simp add: carousel_remove_def assms)
  then show "dc_sums (carousel_remove mid c)" "dc_inFlightBytes (carousel_remove mid c) \<le> dc_inFlightBytes c"
    "dc_completedBytes (carousel_remove mid c) \<le> dc_completedBytes c" by simp_all
qed

section \<open>Eviction\<close>

text \<open>
  Eviction keeps the sums and the limits, and stops within the budget unless nothing is left to
  evict.
\<close>

lemma evict_in_flight_sums:
  "dc_sums c \<Longrightarrow> dc_sums (evict_in_flight sz c) \<and> dc_limits (evict_in_flight sz c) = dc_limits c
     \<and> dc_inFlightBytes (evict_in_flight sz c) \<le> dc_inFlightBytes c \<and> dc_completedBytes (evict_in_flight sz c) \<le> dc_completedBytes c
     \<and> dc_rejected (evict_in_flight sz c) = dc_rejected c \<and> dc_generation (evict_in_flight sz c) = dc_generation c
     \<and> set (dc_modules (evict_in_flight sz c)) \<subseteq> set (dc_modules c)
     \<and> (dc_inFlightBytes (evict_in_flight sz c) + sz \<le> cl_MaxInFlightBytes (dc_limits c) \<or> dc_inFlightBytes (evict_in_flight sz c) = 0)"
proof (induction sz c rule: evict_in_flight.induct)
  case (1 sz c)
  show ?case
  proof (cases "dc_inFlightBytes c + sz > cl_MaxInFlightBytes (dc_limits c)")
    case True
    show ?thesis
    proof (cases "oldest_module (\<lambda>_ st. mst_completed st) (dc_modules c)")
      case None
      then have "\<forall>(mid, st) \<in> set (dc_modules c). in_flight st = 0" by (auto simp: oldest_module_None in_flight_def)
      from msum_zero [OF this] have "dc_inFlightBytes c = 0" using "1.prems" by (simp add: dc_sums_def unat_eq_0)
      moreover have "evict_in_flight sz c = c" using True None by (subst evict_in_flight.simps) (simp add: evictOldestInFlight_def)
      ultimately show ?thesis using "1.prems" by simp
    next
      case (Some x)
      obtain mid st where x: "x = (mid, st)" by (cases x)
      have step: "evict_in_flight sz c = evict_in_flight sz (carousel_remove mid c)"
        using True Some x by (subst evict_in_flight.simps) (simp add: evictOldestInFlight_def)
      have "evictOldestInFlight c = (carousel_remove mid c, True)" using Some x by (simp add: evictOldestInFlight_def)
      note IH = "1.IH" [OF True this [symmetric] TrueI remove_sums(1) [OF "1.prems"]]
      have "dc_rejected (carousel_remove mid c) = dc_rejected c" "dc_generation (carousel_remove mid c) = dc_generation c"
        "set (dc_modules (carousel_remove mid c)) \<subseteq> set (dc_modules c)"
        by (auto simp: carousel_remove_def AList.delete_eq split: option.splits)
      then show ?thesis using IH remove_sums(2,3) [OF "1.prems", of mid] unfolding step by (auto intro: order_trans)
    qed
  next
    case False
    then have "evict_in_flight sz c = c" by (subst evict_in_flight.simps) simp
    then show ?thesis using "1.prems" False by (simp add: not_less)
  qed
qed

lemma evict_completed_sums:
  "dc_sums c \<Longrightarrow> dc_sums (evict_completed except c) \<and> dc_limits (evict_completed except c) = dc_limits c
     \<and> dc_inFlightBytes (evict_completed except c) \<le> dc_inFlightBytes c \<and> dc_completedBytes (evict_completed except c) \<le> dc_completedBytes c
     \<and> (\<forall>mid st. map_of (dc_modules c) mid = Some st \<and> (mid = except \<or> \<not> mst_completed st) \<longrightarrow>
           map_of (dc_modules (evict_completed except c)) mid = Some st)
     \<and> set (dc_modules (evict_completed except c)) \<subseteq> set (dc_modules c)
     \<and> (dc_completedBytes (evict_completed except c) \<le> cl_MaxCompletedBytes (dc_limits c)
         \<or> (\<forall>(mid, st) \<in> set (dc_modules (evict_completed except c)). held st = 0 \<or> mid = except))"
proof (induction except c rule: evict_completed.induct)
  case (1 except c)
  show ?case
  proof (cases "dc_completedBytes c > cl_MaxCompletedBytes (dc_limits c)")
    case True
    show ?thesis
    proof (cases "oldest_module (\<lambda>mid st. \<not> mst_completed st \<or> mst_data st = [] \<or> mid = except) (dc_modules c)")
      case None
      then have "\<forall>(mid, st) \<in> set (dc_modules c). held st = 0 \<or> mid = except" by (auto simp: oldest_module_None held_def)
      moreover have "evict_completed except c = c"
        using True None by (subst evict_completed.simps) (simp add: evictOldestCompletedExcept_def)
      ultimately show ?thesis using "1.prems" by simp
    next
      case (Some x)
      obtain mid st where x: "x = (mid, st)" by (cases x)
      then have st: "(mid, st) \<in> set (dc_modules c)" "mst_completed st" "mid \<noteq> except" using oldest_module_in Some by blast+
      then have "map_of (dc_modules c) mid = Some st" using "1.prems" by (intro map_of_is_SomeI) (simp_all add: dc_sums_def)
      then have keep: "map_of (dc_modules (carousel_remove mid c)) k = Some s"
        if "map_of (dc_modules c) k = Some s \<and> (k = except \<or> \<not> mst_completed s)" for k s
        using that st by (auto simp: remove_modules delete_conv')
      have ev: "evictOldestCompletedExcept except c = (carousel_remove mid c, True)" using Some x by (simp add: evictOldestCompletedExcept_def)
      then have step: "evict_completed except c = evict_completed except (carousel_remove mid c)"
        using True by (subst evict_completed.simps) simp
      note IH = "1.IH" [OF True ev [symmetric] TrueI remove_sums(1) [OF "1.prems"]]
      have "set (dc_modules (carousel_remove mid c)) \<subseteq> set (dc_modules c)"
        by (auto simp: carousel_remove_def AList.delete_eq split: option.splits)
      then show ?thesis using IH keep remove_sums(2,3) [OF "1.prems", of mid] unfolding step by (auto intro: order_trans)
    qed
  next
    case False
    then have "evict_completed except c = c" by (subst evict_completed.simps) simp
    then show ?thesis using "1.prems" False by (simp add: not_less)
  qed
qed

section \<open>Completion\<close>

lemma in_flight_split:
  assumes "dc_sums c" and "map_of (dc_modules c) mid = Some st"
  shows "unat (dc_inFlightBytes c) = in_flight st + msum in_flight (AList.delete mid (dc_modules c))"
    and "unat (dc_completedBytes c) = held st + msum held (AList.delete mid (dc_modules c))"
    and "mst_ok (dc_limits c) mid st"
  using assms msum_delete [OF _ assms(2)] map_of_SomeD [OF assms(2)] by (auto simp: dc_sums_def)

text \<open>What replaces the entry of a module in flight by a completed one does to the sums.\<close>

lemma complete_sums:
  assumes c: "dc_sums c" and mid: "map_of (dc_modules c) mid = Some st0" "\<not> mst_completed st0"
    and st: "mst_ok (dc_limits c) mid st" "mst_completed st" "mst_data st \<noteq> []" "mst_info st = mst_info st0"
  defines "sz \<equiv> ucast (mi_ModuleSize (mst_info st)) :: u64"
  shows "dc_sums (c\<lparr> dc_modules := AList.update mid st (dc_modules c), dc_inFlightBytes := dc_inFlightBytes c - sz,
           dc_completedBytes := dc_completedBytes c + sz \<rparr>)"
proof -
  note split = in_flight_split [OF c mid(1)]
  have d: "distinct (map fst (dc_modules c))" using c by (simp add: dc_sums_def)
  have sz: "unat sz = unat (mi_ModuleSize (mst_info st0))" by (simp add: sz_def st(4))
  have held: "held st = unat sz" "held st0 = 0" "in_flight st = 0" "in_flight st0 = unat sz"
    using st mid(2) by (auto simp: mst_ok_def held_def in_flight_def sz)
  have "unat (dc_completedBytes c) < 2 ^ 48" using dc_sums_bound(2) [OF c] c by (simp add: dc_sums_def)
  moreover have "unat sz < 2 ^ 32" using mst_ok_small(2) [OF st(1)] held(1) by simp
  ultimately have add: "unat (dc_completedBytes c + sz) = unat (dc_completedBytes c) + unat sz" by (simp add: unat_word_ariths)
  have sub: "unat (dc_inFlightBytes c - sz) = unat (dc_inFlightBytes c) - unat sz"
    using split(1) held(4) by (simp add: unat_sub word_le_nat_alt)
  have "\<forall>(k, s) \<in> set (AList.update mid st (dc_modules c)). mst_ok (dc_limits c) k s"
    using c st(1) set_update_subset [of mid st "dc_modules c"] by (auto simp: dc_sums_def)
  then show ?thesis
    using add sub split held by (simp add: dc_sums_def distinct_update d msum_update)
qed

lemma complete_module_ok:
  assumes c: "dc_ok c" and mid: "map_of (dc_modules c) mid = Some st0" "\<not> mst_completed st0"
    and st: "mst_info st = mst_info st0" "mst_blockSize st = mst_blockSize st0"
      "length (mst_data st) = unat (mi_ModuleSize (mst_info st0))"
  defines "st1 \<equiv> st\<lparr> mst_completed := True, mst_received := [] \<rparr>"
    and "fits \<equiv> ucast (mi_ModuleSize (mst_info st0)) \<le> cl_MaxCompletedBytes (dc_limits c)"
  shows "\<exists>c'. complete_module mid st c = (c', fits) \<and> dc_ok c' \<and> dc_limits c' = dc_limits c
     \<and> map_of (dc_modules c') mid = (if fits then Some st1 else None)
     \<and> (\<forall>k s. k \<noteq> mid \<and> map_of (dc_modules c) k = Some s \<and> \<not> mst_completed s \<longrightarrow> map_of (dc_modules c') k = Some s)
     \<and> set (dc_modules c') \<subseteq> insert (mid, st1) (set (dc_modules c))"
proof -
  define sz :: u64 where "sz = ucast (mi_ModuleSize (mst_info st0))"
  have sums: "dc_sums c" using c by (simp add: dc_ok_def)
  note ok0 = in_flight_split(3) [OF sums mid(1)]
  have ok1: "mst_ok (dc_limits c) mid st1" "mst_completed st1" "mst_data st1 \<noteq> []" "mst_info st1 = mst_info st0"
    using ok0 st by (auto simp: mst_ok_def st1_def unat_eq_0)
  define c1 where "c1 = c\<lparr> dc_modules := AList.update mid st1 (dc_modules c), dc_inFlightBytes := dc_inFlightBytes c - sz,
     dc_completedBytes := dc_completedBytes c + sz \<rparr>"
  have c1: "dc_sums c1" unfolding c1_def sz_def using complete_sums [OF sums mid ok1] by (simp only: ok1(4))
  define c2 where "c2 = evict_completed mid c1"
  note ev = evict_completed_sums [OF c1, of mid, folded c2_def]
  have lim: "dc_limits c1 = dc_limits c" "map_of (dc_modules c1) mid = Some st1" by (simp_all add: c1_def update_conv')
  have "dc_inFlightBytes c1 \<le> dc_inFlightBytes c"
    unfolding c1_def using in_flight_split(1) [OF sums mid(1)] mid(2)
    by (simp add: word_le_nat_alt unat_sub_if' in_flight_def sz_def)
  then have fl: "dc_inFlightBytes c2 \<le> cl_MaxInFlightBytes (dc_limits c)"
    using ev c by (auto simp: dc_ok_def intro: order_trans)
  have at2: "map_of (dc_modules c2) mid = Some st1" using ev lim(2) by blast
  note split2 = in_flight_split [OF conjunct1 [OF ev] at2]
  have held1: "held st1 = unat sz" using ok1 st by (simp add: held_def st1_def sz_def)
  have keep: "map_of (dc_modules c2) k = Some s" if "k \<noteq> mid" "map_of (dc_modules c) k = Some s" "\<not> mst_completed s" for k s
    using ev that by (simp add: c1_def update_conv')
  have sub: "set (dc_modules c2) \<subseteq> insert (mid, st1) (set (dc_modules c))"
    using ev set_update_subset [of mid st1 "dc_modules c"] by (auto simp: c1_def)
  have run: "complete_module mid st c = (if dc_completedBytes c2 > cl_MaxCompletedBytes (dc_limits c2) then (carousel_remove mid c2, False) else (c2, True))"
    by (simp add: complete_module_def Let_def c2_def c1_def st1_def sz_def st(1))
  show ?thesis
  proof (cases "dc_completedBytes c2 > cl_MaxCompletedBytes (dc_limits c2)")
    case False
    have "unat sz \<le> unat (dc_completedBytes c2)" using split2(2) held1 by simp
    then have fits unfolding fits_def sz_def [symmetric] using False ev lim(1) by (simp add: not_less word_le_nat_alt)
    then show ?thesis using False run ev fl at2 keep sub lim(1) by (auto simp: dc_ok_def not_less)
  next
    case True
    then have "\<forall>(k, s) \<in> set (dc_modules c2). held s = 0 \<or> k = mid" using ev by auto
    then have z: "msum held (AList.delete mid (dc_modules c2)) = 0" by (intro msum_zero) (auto simp: AList.delete_eq)
    then have "unat (dc_completedBytes c2) = unat sz" using split2(2) held1 by simp
    then have nf: "\<not> fits" unfolding fits_def sz_def [symmetric] using True ev lim(1) by (simp add: word_le_nat_alt word_less_nat_alt)
    note rm = remove_sums [OF conjunct1 [OF ev], of mid]
    have "unat (dc_completedBytes (carousel_remove mid c2)) = 0" using rm(1) z by (simp add: dc_sums_def remove_modules)
    then have "dc_ok (carousel_remove mid c2)"
      using rm fl ev lim(1) by (auto simp: dc_ok_def unat_eq_0 intro: order_trans)
    then show ?thesis
      using nf True run ev lim(1) keep sub remove_subset [of mid c2] by (auto simp: map_of_remove)
  qed
qed

section \<open>Announced modules\<close>

lemma new_module_state_ok:
  assumes "mi_ModuleSize m \<noteq> 0" "dii_BlockSize dii \<noteq> 0" "mi_ModuleSize m \<le> cl_MaxModuleSize l"
    and "ucast (mi_ModuleSize m) \<le> cl_MaxInFlightBytes l" and "block_count (mi_ModuleSize m) (dii_BlockSize dii) = Some n"
  shows "mst_ok l (mi_ModuleID m) (new_module_state dii m n g)"
proof -
  have "0 \<le> n" using assms(5) by (auto simp: block_count_def split: if_splits)
  then show ?thesis using assms by (simp add: mst_ok_def new_module_state_def)
qed

lemma insert_sums:
  assumes c: "dc_sums c" and no: "map_of (dc_modules c) mid = None" and st: "mst_ok (dc_limits c) mid st" "\<not> mst_completed st"
  defines "sz \<equiv> ucast (mi_ModuleSize (mst_info st)) :: u64"
  shows "dc_sums (c\<lparr> dc_modules := AList.update mid st (dc_modules c), dc_inFlightBytes := dc_inFlightBytes c + sz \<rparr>)"
proof -
  have d: "distinct (map fst (dc_modules c))" using c by (simp add: dc_sums_def)
  have idem: "AList.delete mid (dc_modules c) = dc_modules c" using no by (simp add: delete_idem map_of_eq_None_iff)
  have "unat (dc_inFlightBytes c) < 2 ^ 48" using dc_sums_bound(1) [OF c] c by (simp add: dc_sums_def)
  moreover have "unat sz < 2 ^ 32" using mst_ok_small(1) [OF st(1)] st(2) by (simp add: in_flight_def sz_def)
  ultimately have "unat (dc_inFlightBytes c + sz) = unat (dc_inFlightBytes c) + unat sz" by (simp add: unat_word_ariths)
  moreover have "in_flight st = unat sz" "held st = 0" using st(2) by (simp_all add: in_flight_def held_def sz_def)
  moreover have "\<forall>(k, s) \<in> set (AList.update mid st (dc_modules c)). mst_ok (dc_limits c) k s"
    using c st(1) set_update_subset [of mid st "dc_modules c"] by (auto simp: dc_sums_def)
  ultimately show ?thesis using c by (simp add: dc_sums_def distinct_update d msum_update idem)
qed

definition receivable :: "DSMCCCarouselLimits \<Rightarrow> DSMCCDII \<Rightarrow> DSMCCModuleInfo \<Rightarrow> bool" where
  "receivable l dii m \<longleftrightarrow> mi_ModuleSize m \<noteq> 0 \<and> dii_BlockSize dii \<noteq> 0 \<and> mi_ModuleSize m \<le> cl_MaxModuleSize l
     \<and> ucast (mi_ModuleSize m) \<le> cl_MaxInFlightBytes l"

text \<open>
  A module of a DII is accepted exactly when it is receivable; then the carousel has a module of
  that identity, and otherwise none under its id, and a rejection.
\<close>

lemma dc_ok_rejected [simp]: "dc_ok (c\<lparr> dc_rejected := x \<rparr>) \<longleftrightarrow> dc_ok c"
  by (simp add: dc_ok_def dc_sums_def)

lemma remove_ok: "dc_ok c \<Longrightarrow> dc_ok (carousel_remove mid c)"
  using remove_sums [of c mid] by (auto simp: dc_ok_def intro: order_trans)

lemma remove_rejected [simp]: "dc_rejected (carousel_remove mid c) = dc_rejected c"
  by (simp add: carousel_remove_def split: option.splits)

text \<open>The last part of \<open>observe_module\<close>: the module is new, or has another identity than the one under its id.\<close>

lemma start_module_ok:
  assumes c: "dc_ok c" and r: "receivable (dc_limits c) dii m" and no: "map_of (dc_modules c) (mi_ModuleID m) = None"
  defines "sz \<equiv> ucast (mi_ModuleSize m) :: u64" and "e \<equiv> evict_in_flight (ucast (mi_ModuleSize m)) c"
  shows "dc_inFlightBytes e + sz \<le> cl_MaxInFlightBytes (dc_limits e)"
    and "block_count (mi_ModuleSize m) (dii_BlockSize dii) = Some n \<Longrightarrow> dc_ok (e\<lparr> dc_generation := g,
       dc_modules := AList.update (mi_ModuleID m) (new_module_state dii m n g') (dc_modules e), dc_inFlightBytes := dc_inFlightBytes e + sz \<rparr>)"
    and "dc_limits e = dc_limits c" and "set (dc_modules e) \<subseteq> set (dc_modules c)" and "dc_rejected e = dc_rejected c"
proof -
  have sums: "dc_sums c" using c by (simp add: dc_ok_def)
  note ev = evict_in_flight_sums [OF sums, of sz]
  have e: "evict_in_flight sz c = e" by (simp add: e_def sz_def)
  note ev = ev [unfolded e]
  have "sz \<le> cl_MaxInFlightBytes (dc_limits c)" using r by (simp add: receivable_def sz_def)
  then show fits: "dc_inFlightBytes e + sz \<le> cl_MaxInFlightBytes (dc_limits e)" using ev by auto
  show "dc_limits e = dc_limits c" "set (dc_modules e) \<subseteq> set (dc_modules c)" "dc_rejected e = dc_rejected c" using ev by simp_all
  have no': "map_of (dc_modules e) (mi_ModuleID m) = None" using ev no by (auto simp: map_of_eq_None_iff)
  assume n: "block_count (mi_ModuleSize m) (dii_BlockSize dii) = Some n"
  have ok: "mst_ok (dc_limits e) (mi_ModuleID m) (new_module_state dii m n g')"
    using r n ev by (intro new_module_state_ok) (simp_all add: receivable_def)
  from insert_sums [OF conjunct1 [OF ev] no' ok]
  have "dc_sums (e\<lparr> dc_modules := AList.update (mi_ModuleID m) (new_module_state dii m n g') (dc_modules e),
      dc_inFlightBytes := dc_inFlightBytes e + sz \<rparr>)" by (simp add: new_module_state_def sz_def)
  then show "dc_ok (e\<lparr> dc_generation := g, dc_modules := AList.update (mi_ModuleID m) (new_module_state dii m n g') (dc_modules e),
      dc_inFlightBytes := dc_inFlightBytes e + sz \<rparr>)"
    using fits ev c by (auto simp: dc_ok_def dc_sums_def intro: order_trans)
qed

lemma observe_module_ok:
  assumes c: "dc_ok c"
  shows "\<exists>c' acc'. observe_module dii m (c, acc) = Some (c', acc') \<and> dc_ok c' \<and> dc_limits c' = dc_limits c
     \<and> (if receivable (dc_limits c) dii m
        then acc' = acc @ [m] \<and> (\<exists>st. map_of (dc_modules c') (mi_ModuleID m) = Some st \<and> same_module dii m st)
        else acc' = acc \<and> map_of (dc_modules c') (mi_ModuleID m) = None \<and> map_of (dc_rejected c') (mi_ModuleID m) \<noteq> None)
     \<and> (\<forall>k s. (k, s) \<in> set (dc_modules c') \<longrightarrow> (k, s) \<in> set (dc_modules c) \<or> (k = mi_ModuleID m \<and> dii_BlockSize dii \<noteq> 0
           \<and> (\<exists>n g. block_count (mi_ModuleSize m) (dii_BlockSize dii) = Some n \<and> s = new_module_state dii m n g)))"
proof -
  let ?mid = "mi_ModuleID m" and ?r = "receivable (dc_limits c) dii m"
  define c0 where "c0 = c\<lparr> dc_rejected := AList.delete ?mid (dc_rejected c) \<rparr>"
  have rejected: ?thesis if "observe_module dii m (c, acc) = Some (reject m reason (carousel_remove ?mid d), acc)" "d \<in> {c, c0}" "\<not> ?r" for reason d
    using that c remove_subset [of ?mid c] remove_subset [of ?mid c0] unfolding c0_def
    by (auto simp: reject_def map_of_remove remove_ok update_conv')
  consider "mi_ModuleSize m = 0 \<or> dii_BlockSize dii = 0 \<or> mi_ModuleSize m > cl_MaxModuleSize (dc_limits c)"
    | st where "mi_ModuleSize m \<noteq> 0" "dii_BlockSize dii \<noteq> 0" "mi_ModuleSize m \<le> cl_MaxModuleSize (dc_limits c)"
        "map_of (dc_modules c) ?mid = Some st" "same_module dii m st"
    | "mi_ModuleSize m \<noteq> 0" "dii_BlockSize dii \<noteq> 0" "mi_ModuleSize m \<le> cl_MaxModuleSize (dc_limits c)"
        "case map_of (dc_modules c) ?mid of None \<Rightarrow> True | Some st \<Rightarrow> \<not> same_module dii m st"
    by (cases "map_of (dc_modules c) ?mid") force+
  then show ?thesis
  proof cases
    case 1
    then show ?thesis
      by (intro rejected [of "if mi_ModuleSize m = 0 then moduleSizeZero else if dii_BlockSize dii = 0 then blockSizeZero else moduleSizeLimitExceeded" c])
        (auto simp: observe_module_def receivable_def Let_def)
  next
    case 2
    have "mst_ok (dc_limits c) ?mid st" using c in_flight_split(3) [OF _ 2(4)] by (simp add: dc_ok_def)
    then have "?r" using 2 by (simp add: receivable_def mst_ok_def same_module_def)
    moreover have "observe_module dii m (c, acc) = Some (c0, acc @ [m])"
      using 2 by (simp add: observe_module_def Let_def c0_def)
    ultimately show ?thesis using c 2(4,5) by (auto simp: c0_def)
  next
    case 3
    define c1 where "c1 = carousel_remove ?mid c0"
    have c1: "dc_ok c1" "dc_limits c1 = dc_limits c" "map_of (dc_modules c1) ?mid = None" "set (dc_modules c1) \<subseteq> set (dc_modules c)"
      using c remove_ok [of c0 ?mid] remove_subset [of ?mid c0] unfolding c1_def by (simp_all add: c0_def map_of_remove)
    have new: "(case map_of (dc_modules c) ?mid of None \<Rightarrow> False | Some st \<Rightarrow> same_module dii m st) = False"
      using 3(4) by (simp split: option.splits)
    show ?thesis
    proof (cases "?r")
      case False
      then show ?thesis
        using 3 new by (intro rejected [of inFlightBudgetExceeded c0]) (auto simp: observe_module_def receivable_def Let_def c0_def)
    next
      case True
      obtain n where n: "block_count (mi_ModuleSize m) (dii_BlockSize dii) = Some n" using 3(2) by (simp add: block_count_def)
      define e where "e = evict_in_flight (ucast (mi_ModuleSize m)) c1"
      note st = start_module_ok [OF c1(1) _ c1(3), of dii, folded e_def] 
      have r1: "receivable (dc_limits c1) dii m" using True c1(2) by simp
      let ?st = "new_module_state dii m n (dc_generation e + 1)"
      let ?c = "e\<lparr> dc_generation := dc_generation e + 1, dc_modules := AList.update ?mid ?st (dc_modules e),
         dc_inFlightBytes := dc_inFlightBytes e + ucast (mi_ModuleSize m) \<rparr>"
      have fits: "ucast (mi_ModuleSize m) \<le> cl_MaxInFlightBytes (dc_limits c)" using True by (simp add: receivable_def)
      have "observe_module dii m (c, acc) = Some (?c, acc @ [m])"
        using 3(1-3) new n st(1) [OF r1] fits unfolding e_def c1_def c0_def
        by (simp add: observe_module_def Let_def not_less)
      moreover have "dc_ok ?c" using st(2) [OF r1 n] .
      moreover have "set (dc_modules ?c) \<subseteq> insert (?mid, ?st) (set (dc_modules c))"
        using set_update_subset [of ?mid ?st "dc_modules e"] st(4) [OF r1] c1(4) by auto
      moreover have "same_module dii m ?st" by (simp add: same_module_def new_module_state_def)
      ultimately show ?thesis using True st(3) [OF r1] c1(2) n 3(2) by (auto simp: update_conv')
    qed
  qed
qed

lemma observe_modules_ok:
  "dc_ok c \<Longrightarrow> \<exists>c'. observe_modules dii ms (c, acc) = Some (c', acc @ filter (receivable (dc_limits c) dii) ms) \<and> dc_ok c'
     \<and> dc_limits c' = dc_limits c
     \<and> (\<forall>k s. (k, s) \<in> set (dc_modules c') \<longrightarrow> (k, s) \<in> set (dc_modules c) \<or> (\<exists>m n g. m \<in> set ms \<and> k = mi_ModuleID m \<and> dii_BlockSize dii \<noteq> 0
           \<and> block_count (mi_ModuleSize m) (dii_BlockSize dii) = Some n \<and> s = new_module_state dii m n g))"
proof (induction ms arbitrary: c acc)
  case (Cons m ms)
  obtain c1 acc1 where 1: "observe_module dii m (c, acc) = Some (c1, acc1)" "dc_ok c1" "dc_limits c1 = dc_limits c"
      "acc1 = (if receivable (dc_limits c) dii m then acc @ [m] else acc)"
      "\<And>k s. (k, s) \<in> set (dc_modules c1) \<Longrightarrow> (k, s) \<in> set (dc_modules c) \<or> (k = mi_ModuleID m \<and> dii_BlockSize dii \<noteq> 0
           \<and> (\<exists>n g. block_count (mi_ModuleSize m) (dii_BlockSize dii) = Some n \<and> s = new_module_state dii m n g))"
    using observe_module_ok [OF Cons.prems, of dii m acc] by (auto split: if_splits)
  obtain c2 where 2: "observe_modules dii ms (c1, acc1) = Some (c2, acc1 @ filter (receivable (dc_limits c) dii) ms)" "dc_ok c2"
      "dc_limits c2 = dc_limits c"
      "\<And>k s. (k, s) \<in> set (dc_modules c2) \<Longrightarrow> (k, s) \<in> set (dc_modules c1) \<or> (\<exists>m n g. m \<in> set ms \<and> k = mi_ModuleID m \<and> dii_BlockSize dii \<noteq> 0
           \<and> block_count (mi_ModuleSize m) (dii_BlockSize dii) = Some n \<and> s = new_module_state dii m n g)"
    using Cons.IH [OF 1(2), of acc1] 1(3) by auto
  have "(k, s) \<in> set (dc_modules c) \<or> (\<exists>m' n g. m' \<in> set (m # ms) \<and> k = mi_ModuleID m' \<and> dii_BlockSize dii \<noteq> 0
           \<and> block_count (mi_ModuleSize m') (dii_BlockSize dii) = Some n \<and> s = new_module_state dii m' n g)"
    if "(k, s) \<in> set (dc_modules c2)" for k s
    using 2(4) [OF that] 1(5) [of k s] by auto
  then show ?case using 1(1,4) 2(1-3) by auto
qed simp

lemma fold_remove_ok:
  "dc_ok c \<Longrightarrow> dc_ok (fold (\<lambda>mid c. if mid \<in> S then c else carousel_remove mid c) ids c)
     \<and> dc_limits (fold (\<lambda>mid c. if mid \<in> S then c else carousel_remove mid c) ids c) = dc_limits c
     \<and> map_of (dc_modules (fold (\<lambda>mid c. if mid \<in> S then c else carousel_remove mid c) ids c))
         = (\<lambda>k. if k \<in> set ids \<and> k \<notin> S then None else map_of (dc_modules c) k)"
  by (induction ids arbitrary: c) (auto simp: remove_ok map_of_remove fun_eq_iff)

text \<open>
  After a DII: the accepted modules are the receivable ones, in order, and the modules left are of
  the DII, each either kept as it was or new.
\<close>

lemma ObserveDII_ok:
  assumes c: "dc_ok c"
  shows "\<exists>c'. ObserveDII dii c = Some (c', filter (receivable (dc_limits c) dii) (dii_Modules dii)) \<and> dc_ok c'
     \<and> dc_limits c' = dc_limits c
     \<and> (\<forall>k s. map_of (dc_modules c') k = Some s \<longrightarrow> k \<in> mi_ModuleID ` set (dii_Modules dii) \<and> (map_of (dc_modules c) k = Some s
         \<or> (\<exists>m n g. m \<in> set (dii_Modules dii) \<and> k = mi_ModuleID m \<and> dii_BlockSize dii \<noteq> 0
           \<and> block_count (mi_ModuleSize m) (dii_BlockSize dii) = Some n \<and> s = new_module_state dii m n g)))"
proof -
  obtain c1 where 1: "observe_modules dii (dii_Modules dii) (c, []) = Some (c1, filter (receivable (dc_limits c) dii) (dii_Modules dii))"
      "dc_ok c1" "dc_limits c1 = dc_limits c"
      "\<And>k s. (k, s) \<in> set (dc_modules c1) \<Longrightarrow> (k, s) \<in> set (dc_modules c) \<or> (\<exists>m n g. m \<in> set (dii_Modules dii) \<and> k = mi_ModuleID m
           \<and> dii_BlockSize dii \<noteq> 0 \<and> block_count (mi_ModuleSize m) (dii_BlockSize dii) = Some n \<and> s = new_module_state dii m n g)"
    using observe_modules_ok [OF c, of dii "dii_Modules dii" "[]"] by auto
  let ?S = "set (map mi_ModuleID (dii_Modules dii))"
  define c2 where "c2 = fold (\<lambda>mid c. if mid \<in> ?S then c else carousel_remove mid c) (map fst (dc_modules c1)) c1"
  note f = fold_remove_ok [OF 1(2), of ?S "map fst (dc_modules c1)", folded c2_def]
  let ?c = "c2\<lparr> dc_rejected := filter (\<lambda>(mid, _). mid \<in> ?S) (dc_rejected c2) \<rparr>"
  have run: "ObserveDII dii c = Some (?c, filter (receivable (dc_limits c) dii) (dii_Modules dii))"
    using 1(1) by (simp add: ObserveDII_def c2_def)
  have "k \<in> mi_ModuleID ` set (dii_Modules dii) \<and> (map_of (dc_modules c) k = Some s
         \<or> (\<exists>m n g. m \<in> set (dii_Modules dii) \<and> k = mi_ModuleID m \<and> dii_BlockSize dii \<noteq> 0
           \<and> block_count (mi_ModuleSize m) (dii_BlockSize dii) = Some n \<and> s = new_module_state dii m n g))"
    if k: "map_of (dc_modules c2) k = Some s" for k s
  proof -
    have k1: "map_of (dc_modules c1) k = Some s" "k \<in> ?S" 
      using k f by (auto simp: fun_eq_iff map_of_eq_None_iff split: if_splits dest: map_of_SomeD) (metis image_eqI fst_conv map_of_SomeD)
    have "distinct (map fst (dc_modules c))" using c by (simp add: dc_ok_def dc_sums_def)
    then show ?thesis using 1(4) [OF map_of_SomeD [OF k1(1)]] k1(2) by (auto dest: map_of_is_SomeI)
  qed
  then have "\<forall>k s. map_of (dc_modules ?c) k = Some s \<longrightarrow> k \<in> mi_ModuleID ` set (dii_Modules dii) \<and> (map_of (dc_modules c) k = Some s
         \<or> (\<exists>m n g. m \<in> set (dii_Modules dii) \<and> k = mi_ModuleID m \<and> dii_BlockSize dii \<noteq> 0
           \<and> block_count (mi_ModuleSize m) (dii_BlockSize dii) = Some n \<and> s = new_module_state dii m n g))" by simp
  moreover have "dc_ok ?c" "dc_limits ?c = dc_limits c" using f 1(3) by simp_all
  ultimately show ?thesis using run by blast
qed

section \<open>Blocks\<close>

lemma copy_block_eq:
  assumes "0 \<le> off" "off < blen data"
  shows "\<exists>data'. copy_block data off src = Some data' \<and> length data' = length data
    \<and> (\<forall>j < length data. data' ! j = (if nat off \<le> j \<and> j < nat off + length src then src ! (j - nat off) else data ! j))"
proof -
  define e where "e = min (length data) (nat off + length src)"
  have e: "(if off + blen src > blen data then blen data else off + blen src) = int e" using assms by (simp add: e_def)
  have le: "nat off \<le> e" "e \<le> length data" "e - nat off \<le> length src" using assms by (auto simp: e_def)
  have "copy_block data off src = Some (take (nat off) data @ take (e - nat off) src @ drop e data)"
    using assms le unfolding copy_block_def e by (simp add: Let_def nat_diff_distrib)
  then show ?thesis using le by (auto simp: nth_append e_def min_def diff_less_mono split: if_splits)
qed

lemma filter_id_less: "length (filter id xs) < length xs \<longleftrightarrow> False \<in> set xs"
  by (induction xs) (auto simp: less_Suc_eq_le length_filter_le intro: le_less_trans)

lemma filter_id_update: "i < length xs \<Longrightarrow> length (filter id (xs[i := True])) = length (filter id xs) + (if xs ! i then 0 else 1)"
proof (induction xs arbitrary: i)
  case (Cons x xs)
  then show ?case by (cases i) auto
qed simp

text \<open>The block is one the module is waiting for or has; the state with the block in it.\<close>

definition hits :: "DSMCCDDB \<Rightarrow> dsmccModuleState \<Rightarrow> bool" where
  "hits ddb st \<longleftrightarrow> \<not> mst_completed st \<and> mst_downloadID st = ddb_DownloadID ddb
     \<and> mi_Version (mst_info st) = ddb_ModuleVersion ddb \<and> unat (ddb_BlockNumber ddb) < length (mst_received st)
     \<and> unat (ddb_BlockNumber ddb) * unat (mst_blockSize st) < length (mst_data st)"

definition takes_block :: "DSMCCDDB \<Rightarrow> dsmccModuleState \<Rightarrow> dsmccModuleState \<Rightarrow> bool" where
  "takes_block ddb st st1 \<longleftrightarrow>
     (\<exists>data. st1 = st\<lparr> mst_received := (mst_received st)[unat (ddb_BlockNumber ddb) := True],
         mst_count := int (length (filter id ((mst_received st)[unat (ddb_BlockNumber ddb) := True]))), mst_data := data \<rparr>
       \<and> length data = length (mst_data st)
       \<and> (\<forall>j < length data. data ! j =
            (let off = unat (ddb_BlockNumber ddb) * unat (mst_blockSize st)
             in if off \<le> j \<and> j < off + length (ddb_Data ddb) then ddb_Data ddb ! (j - off) else mst_data st ! j)))"

definition finished :: "dsmccModuleState \<Rightarrow> dsmccModuleState" where
  "finished st = st\<lparr> mst_completed := True, mst_received := [] \<rparr>"

lemma nat_block: "nat (uint (n :: u16) * uint (b :: u16)) = unat n * unat b" "uint n * uint b < int k \<longleftrightarrow> unat n * unat b < k"
proof -
  have "uint n * uint b = int (unat n * unat b)" by simp
  then show "nat (uint n * uint b) = unat n * unat b" "uint n * uint b < int k \<longleftrightarrow> unat n * unat b < k"
    by (metis nat_int, metis of_nat_less_iff)
qed

lemma nat_uint_unat: "nat (uint (n :: u16)) = unat n" "uint n < int k \<longleftrightarrow> unat n < k"
  by (simp_all add: nat_less_iff flip: unat_eq_nat_uint) (metis of_nat_unat of_nat_less_iff)

lemma ObserveDDB_eq:
  assumes c: "dc_ok c" and st: "map_of (dc_modules c) (ddb_ModuleID ddb) = Some st" and hit: "hits ddb st"
  shows "\<exists>st1. takes_block ddb st st1 \<and> ObserveDDBWithResult ddb c =
     (if False \<in> set (mst_received st1)
      then Some (c\<lparr> dc_modules := AList.update (ddb_ModuleID ddb) st1 (dc_modules c) \<rparr>, None, False,
                 if mst_received st ! unat (ddb_BlockNumber ddb) then DSMCCDDBDuplicate else DSMCCDDBBlock, None)
      else let (c, stays) = complete_module (ddb_ModuleID ddb) st1 c in
           if stays then Some (c, Some (state_module (finished st1)), True, DSMCCDDBCompleted, None)
           else Some (c, None, False, DSMCCDDBIgnored, Some ErrDSMCCCarouselBudgetExceeded))"
proof -
  let ?n = "ddb_BlockNumber ddb" and ?b = "mst_blockSize st"
  have ok: "mst_ok (dc_limits c) (ddb_ModuleID ddb) st" using c in_flight_split(3) [OF _ st] by (simp add: dc_ok_def)
  have b: "?b \<noteq> 0" "mst_count st = int (length (filter id (mst_received st)))" using ok hit by (simp_all add: mst_ok_def hits_def)
  have off: "uint ?n * uint ?b < blen (mst_data st)" "0 \<le> uint ?n * uint ?b" "uint ?n < blen (mst_received st)"
    using hit by (simp_all add: hits_def nat_block nat_uint_unat)
  obtain data where data: "copy_block (mst_data st) (uint ?n * uint ?b) (ddb_Data ddb) = Some data" "length data = length (mst_data st)"
      "\<forall>j < length (mst_data st). data ! j = (if unat ?n * unat ?b \<le> j \<and> j < unat ?n * unat ?b + length (ddb_Data ddb)
         then ddb_Data ddb ! (j - unat ?n * unat ?b) else mst_data st ! j)"
    using copy_block_eq [OF off(2,1), of "ddb_Data ddb"] unfolding nat_block(1) by blast
  let ?rec = "(mst_received st)[unat ?n := True]"
  define st1 where "st1 = st\<lparr> mst_received := ?rec, mst_count := int (length (filter id ?rec)), mst_data := data \<rparr>"
  have same: "mst_received st ! unat ?n \<longrightarrow> mst_received st = ?rec" by (metis list_update_id)
  have dup: "(if mst_received st ! unat ?n then st else st\<lparr> mst_received := ?rec, mst_count := mst_count st + 1 \<rparr>)\<lparr> mst_data := data \<rparr> = st1"
    using off(3) b(2) same unfolding st1_def
    by (intro dsmccModuleState.equality) (simp_all add: filter_id_update nat_uint_unat)
  have more: "mst_count st1 < blen (mst_received st1) \<longleftrightarrow> False \<in> set (mst_received st1)"
    unfolding st1_def by (simp flip: filter_id_less)
  have fields: "mst_downloadID st1 = mst_downloadID st" "mst_info st1 = mst_info st" "mst_data st1 = data" "mst_generation st1 = mst_generation st"
    by (simp_all add: st1_def)
  have "takes_block ddb st st1" using data(2,3) unfolding takes_block_def st1_def by (intro exI [of _ data]) (simp add: Let_def)
  moreover have "ObserveDDBWithResult ddb c =
     (if False \<in> set (mst_received st1)
      then Some (c\<lparr> dc_modules := AList.update (ddb_ModuleID ddb) st1 (dc_modules c) \<rparr>, None, False,
                 if mst_received st ! unat ?n then DSMCCDDBDuplicate else DSMCCDDBBlock, None)
      else let (c, stays) = complete_module (ddb_ModuleID ddb) st1 c in
           if stays then Some (c, Some (state_module (finished st1)), True, DSMCCDDBCompleted, None)
           else Some (c, None, False, DSMCCDDBIgnored, Some ErrDSMCCCarouselBudgetExceeded))"
  proof (cases "mst_received st ! unat ?n")
    case True
    then have e: "st\<lparr> mst_data := data \<rparr> = st1" using dup by simp
    have "mst_count st = mst_count st1" "mst_received st = mst_received st1" by (simp_all flip: e)
    then show ?thesis using st hit b(1) off data(1) True more e unfolding ObserveDDBWithResult_def
      by (simp add: Let_def hits_def nat_uint_unat finished_def not_le [symmetric] state_module_def fields split: prod.split)
  next
    case False
    then have e: "st\<lparr> mst_received := ?rec, mst_count := mst_count st + 1, mst_data := data \<rparr> = st1" using dup by simp
    have "mst_count st + 1 = mst_count st1" "length (mst_received st) = length (mst_received st1)" by (simp_all flip: e)
    then show ?thesis using st hit b(1) off data(1) False more e unfolding ObserveDDBWithResult_def
      by (simp add: Let_def hits_def nat_uint_unat finished_def not_le [symmetric] state_module_def fields split: prod.split)
  qed
  ultimately show ?thesis by blast
qed

lemma ObserveDDB_ignored:
  assumes "dc_ok c" and "\<And>st. map_of (dc_modules c) (ddb_ModuleID ddb) = Some st \<Longrightarrow> \<not> hits ddb st"
  shows "ObserveDDBWithResult ddb c = Some (c, None, False, DSMCCDDBIgnored, None)"
proof (cases "map_of (dc_modules c) (ddb_ModuleID ddb)")
  case (Some st)
  then show ?thesis using assms(2) [OF Some] unfolding ObserveDDBWithResult_def
    by (auto simp: Let_def hits_def nat_uint_unat nat_block not_less simp flip: not_less)
qed (simp add: ObserveDDBWithResult_def Let_def)

section \<open>The carousel as a system of operations\<close>

datatype carousel_op =
    CarouselDII DSMCCDII
  | CarouselDDB DSMCCDDB
  | CarouselRelease u16
  | CarouselRestore DSMCCModule

fun carousel_exec :: "carousel_op \<Rightarrow> DSMCCCarousel \<Rightarrow> DSMCCCarousel go" where
  "carousel_exec (CarouselDII dii) c = map_option fst (ObserveDII dii c)"
| "carousel_exec (CarouselDDB ddb) c = map_option fst (ObserveDDBWithResult ddb c)"
| "carousel_exec (CarouselRelease mid) c = Some (fst (ReleaseCompletedPayload mid c))"
| "carousel_exec (CarouselRestore module) c = map_option fst (Restore module c)"

text \<open>
  The data being broadcast: the payload and the block size for each download id, module id and
  version. A DII, a block or a cached module is faithful when it describes or carries that data.
  The bound on the size keeps the \<open>uint32\<close> arithmetic of the number of blocks from wrapping.
\<close>

type_synonym broadcast = "(u32 \<Rightarrow> u16 \<Rightarrow> u8 \<Rightarrow> bytes) \<times> (u32 \<Rightarrow> u16)"

fun faithful :: "broadcast \<Rightarrow> carousel_op \<Rightarrow> bool" where
  "faithful (payload, bs) (CarouselDII dii) \<longleftrightarrow> dii_BlockSize dii = bs (dii_DownloadID dii)
     \<and> list_all (\<lambda>m. length (payload (dii_DownloadID dii) (mi_ModuleID m) (mi_Version m)) = unat (mi_ModuleSize m)
          \<and> uint (mi_ModuleSize m) + 65536 \<le> 2 ^ 32) (dii_Modules dii)"
| "faithful (payload, bs) (CarouselDDB ddb) \<longleftrightarrow>
     (let b = unat (bs (ddb_DownloadID ddb))
      in ddb_Data ddb = take b (drop (unat (ddb_BlockNumber ddb) * b) (payload (ddb_DownloadID ddb) (ddb_ModuleID ddb) (ddb_ModuleVersion ddb))))"
| "faithful (payload, bs) (CarouselRelease mid) \<longleftrightarrow> True"
| "faithful (payload, bs) (CarouselRestore m) \<longleftrightarrow> dm_Data m = payload (dm_DownloadID m) (dm_ModuleID m) (dm_Version m)"

definition state_payload :: "broadcast \<Rightarrow> dsmccModuleState \<Rightarrow> bytes" where
  "state_payload br st = fst br (mst_downloadID st) (mi_ModuleID (mst_info st)) (mi_Version (mst_info st))"

text \<open>What has been received is the data: in flight the blocks marked as received, completed all of it.\<close>

definition content_ok :: "broadcast \<Rightarrow> dsmccModuleState \<Rightarrow> bool" where
  "content_ok br st \<longleftrightarrow> mst_blockSize st = snd br (mst_downloadID st) \<and> length (state_payload br st) = unat (mi_ModuleSize (mst_info st))
     \<and> (if mst_completed st then mst_data st = [] \<or> mst_data st = state_payload br st
        else length (mst_data st) \<le> length (mst_received st) * unat (mst_blockSize st) \<and> False \<in> set (mst_received st)
          \<and> length (mst_received st) * unat (mst_blockSize st) < length (mst_data st) + unat (mst_blockSize st)
          \<and> (\<forall>j < length (mst_data st). mst_received st ! (j div unat (mst_blockSize st)) \<longrightarrow> mst_data st ! j = state_payload br st ! j))"

definition carousel_ok :: "broadcast \<Rightarrow> DSMCCCarousel \<Rightarrow> bool" where
  "carousel_ok br c \<longleftrightarrow> dc_ok c \<and> (\<forall>k s. map_of (dc_modules c) k = Some s \<longrightarrow> content_ok br s)"

lemma block_count_bounds:
  assumes "block_count sz b = Some n" and "unat sz + 65536 \<le> 2 ^ 32"
  shows "unat sz \<le> nat n * unat b" and "nat n * unat b < unat sz + unat b"
proof -
  have b: "b \<noteq> 0" "n = uint ((sz + ucast b - 1) div ucast b)" using assms(1) by (auto simp: block_count_def split: if_splits)
  have "unat b < 2 ^ LENGTH(16)" by (rule unsigned_less)
  moreover have "0 < unat b" using b(1) by (simp add: unat_gt_0)
  moreover have ub: "unat (ucast b :: u32) = unat b" using \<open>unat b < 2 ^ LENGTH(16)\<close> by (simp add: unsigned_ucast_eq take_bit_nat_eq_self)
  ultimately have pos: "0 < unat b" "unat b < 65536" by simp_all
  have sum: "unat (sz + ucast b) = unat sz + unat b" using assms(2) pos ub by (simp add: unat_word_ariths)
  then have "sz + ucast b \<noteq> 0" using pos by (metis add_eq_0_iff_both_eq_0 less_irrefl unsigned_0)
  then have "unat (sz + ucast b - 1) = unat sz + unat b - 1" using sum by (simp add: unat_minus_one)
  then have n: "nat n = (unat sz + unat b - 1) div unat b" using b(2) ub by (simp add: unat_div flip: unat_eq_nat_uint)
  have "nat n * unat b + (unat sz + unat b - 1) mod unat b = unat sz + unat b - 1" unfolding n by simp
  moreover have "(unat sz + unat b - 1) mod unat b < unat b" using pos by simp
  ultimately show "unat sz \<le> nat n * unat b" "nat n * unat b < unat sz + unat b" using pos by linarith+
qed

lemma new_module_content:
  assumes "block_count (mi_ModuleSize m) (dii_BlockSize dii) = Some n" "faithful br (CarouselDII dii)" "m \<in> set (dii_Modules dii)"
    "mi_ModuleSize m \<noteq> 0"
  shows "content_ok br (new_module_state dii m n g)"
proof -
  obtain payload bs where br: "br = (payload, bs)" by (cases br)
  have u: "length (payload (dii_DownloadID dii) (mi_ModuleID m) (mi_Version m)) = unat (mi_ModuleSize m)"
    "uint (mi_ModuleSize m) + 65536 \<le> 2 ^ 32" "dii_BlockSize dii = bs (dii_DownloadID dii)"
    using assms(2,3) by (auto simp: br list_all_iff)
  have "int (unat (mi_ModuleSize m) + 65536) \<le> int (2 ^ 32)" using u(2) by simp
  then have "unat (mi_ModuleSize m) + 65536 \<le> 2 ^ 32" by (simp only: of_nat_le_iff)
  note m = u(1) this u(3)
  note b = block_count_bounds [OF assms(1) m(2)]
  have "0 < unat (mi_ModuleSize m)" using assms(4) by (simp add: unat_gt_0)
  then have "0 < nat n" using b by (cases "nat n") auto
  moreover have "j div unat (dii_BlockSize dii) < nat n" if "j < unat (mi_ModuleSize m)" for j
    using that b(1) by (simp add: less_mult_imp_div_less)
  ultimately show ?thesis
    using m b by (auto simp: content_ok_def new_module_state_def state_payload_def br)
qed

lemma takes_block_content:
  assumes content: "content_ok br st" and data: "length (mst_data st) = unat (mi_ModuleSize (mst_info st))"
    and bz: "mst_blockSize st \<noteq> 0" and hit: "hits ddb st" and mid: "ddb_ModuleID ddb = mi_ModuleID (mst_info st)" and t: "takes_block ddb st st1"
    and f: "faithful br (CarouselDDB ddb)"
  shows "if False \<in> set (mst_received st1) then content_ok br st1 else content_ok br (finished st1) \<and> mst_data st1 = state_payload br st1"
proof -
  define b where "b = unat (mst_blockSize st)"
  define n where "n = unat (ddb_BlockNumber ddb)"
  define p where "p = state_payload br st"
  have st1: "mst_received st1 = (mst_received st)[n := True]" "mst_completed st1 = mst_completed st" "mst_info st1 = mst_info st"
    "mst_downloadID st1 = mst_downloadID st" "mst_blockSize st1 = mst_blockSize st" "length (mst_data st1) = length (mst_data st)"
    "\<And>j. j < length (mst_data st) \<Longrightarrow>
      mst_data st1 ! j = (if n * b \<le> j \<and> j < n * b + length (ddb_Data ddb) then ddb_Data ddb ! (j - n * b) else mst_data st ! j)"
    using t by (auto simp: takes_block_def b_def n_def Let_def)
  have nc: "\<not> mst_completed st" "n < length (mst_received st)" "n * b < length (mst_data st)"
    using hit by (simp_all add: hits_def b_def n_def)
  have c: "mst_blockSize st = snd br (mst_downloadID st)" "length p = length (mst_data st)"
      "length (mst_data st) \<le> length (mst_received st) * b" "length (mst_received st) * b < length (mst_data st) + b"
      "\<And>j. j < length (mst_data st) \<Longrightarrow> mst_received st ! (j div b) \<Longrightarrow> mst_data st ! j = p ! j"
    using content nc(1) data by (auto simp: content_ok_def p_def b_def)
  have d: "ddb_Data ddb = take b (drop (n * b) p)"
    using f hit c(1) mid by (cases br) (simp add: Let_def hits_def b_def n_def p_def state_payload_def)
  have b: "0 < b" using bz by (simp add: b_def unat_gt_0)
  have at: "mst_data st1 ! j = p ! j" if j: "j < length (mst_data st)" "mst_received st1 ! (j div b)" for j
  proof (cases "j div b = n")
    case True
    then have "n * b \<le> j" "j < n * b + b" using b dividend_less_div_times [of b j] div_times_less_eq_dividend [of j b] by auto
    then show ?thesis using j st1(7) [of j] c(2) unfolding d by (auto simp: min_def)
  next
    case False
    have "\<not> (n * b \<le> j \<and> j < n * b + length (ddb_Data ddb))"
    proof
      assume "n * b \<le> j \<and> j < n * b + length (ddb_Data ddb)"
      then have "n * b \<le> j" "j < Suc n * b" unfolding d by (auto simp: min_def split: if_splits)
      then have "j div b = n" using b by (intro div_nat_eqI) (simp_all add: mult.commute)
      then show False using False by simp
    qed
    then show ?thesis using st1(7) [OF j(1)] c(5) [OF j(1)] j(2) False unfolding st1(1) by (auto simp: nth_list_update)
  qed
  have bb: "unat (snd br (mst_downloadID st)) = b" using c(1) by (simp add: b_def)
  have pay: "state_payload br st1 = p" "state_payload br (finished st1) = p" using st1 by (simp_all add: state_payload_def p_def finished_def)
  show ?thesis
  proof (cases "False \<in> set (mst_received st1)")
    case True
    then show ?thesis
      using st1(1-6) nc(1) c(1-4) at data pay bb by (simp add: content_ok_def)
  next
    case False
    have "mst_data st1 = p"
    proof (rule nth_equalityI)
      fix j assume j: "j < length (mst_data st1)"
      then have "j div b < length (mst_received st1)" using c(3) st1(1,6) by (simp add: less_mult_imp_div_less)
      then have "mst_received st1 ! (j div b)" using False by (metis nth_mem)
      then show "mst_data st1 ! j = p ! j" using at j st1(6) by simp
    qed (use st1 c in simp)
    then show ?thesis
      using False st1(1-6) c(1,2) data pay by (simp add: content_ok_def finished_def)
  qed
qed

lemma update_sums:
  assumes c: "dc_sums c" and st: "map_of (dc_modules c) mid = Some st" and st1: "mst_ok (dc_limits c) mid st1"
    and same: "in_flight st1 = in_flight st" "held st1 = held st"
  shows "dc_sums (c\<lparr> dc_modules := AList.update mid st1 (dc_modules c) \<rparr>)"
proof -
  have d: "distinct (map fst (dc_modules c))" using c by (simp add: dc_sums_def)
  have "\<forall>(k, s) \<in> set (AList.update mid st1 (dc_modules c)). mst_ok (dc_limits c) k s"
    using c st1 set_update_subset [of mid st1 "dc_modules c"] by (auto simp: dc_sums_def)
  then show ?thesis
    using in_flight_split(1,2) [OF c st] same c by (simp add: dc_sums_def distinct_update d msum_update)
qed

lemma takes_block_ok:
  assumes "mst_ok l mid st" "hits ddb st" "takes_block ddb st st1"
  shows "mst_ok l mid st1" "in_flight st1 = in_flight st" "held st1 = held st" "mst_info st1 = mst_info st"
    "mst_blockSize st1 = mst_blockSize st" "\<not> mst_completed st1" "length (mst_data st1) = unat (mi_ModuleSize (mst_info st))"
    "mst_downloadID st1 = mst_downloadID st" "mst_received st1 = (mst_received st)[unat (ddb_BlockNumber ddb) := True]"
  using assms by (auto simp: takes_block_def mst_ok_def hits_def in_flight_def held_def)

lemma ObserveDDB_step:
  fixes ddb :: DSMCCDDB
  assumes c: "dc_ok c"
  defines "mid \<equiv> ddb_ModuleID ddb"
  shows "\<exists>c' m done r e. ObserveDDBWithResult ddb c = Some (c', m, done, r, e) \<and> dc_ok c' \<and> dc_limits c' = dc_limits c
     \<and> (\<forall>k s. k \<noteq> mid \<and> map_of (dc_modules c) k = Some s \<and> \<not> mst_completed s \<longrightarrow> map_of (dc_modules c') k = Some s)
     \<and> (\<forall>k s. k \<noteq> mid \<and> map_of (dc_modules c') k = Some s \<longrightarrow> map_of (dc_modules c) k = Some s)
     \<and> (if \<exists>st. map_of (dc_modules c) mid = Some st \<and> hits ddb st
        then \<exists>st st1. map_of (dc_modules c) mid = Some st \<and> hits ddb st \<and> takes_block ddb st st1 \<and>
          (if False \<in> set (mst_received st1) then map_of (dc_modules c') mid = Some st1 \<and> m = None \<and> \<not> done
           else if ucast (mi_ModuleSize (mst_info st)) \<le> cl_MaxCompletedBytes (dc_limits c)
           then map_of (dc_modules c') mid = Some (finished st1) \<and> m = Some (state_module (finished st1)) \<and> done
           else map_of (dc_modules c') mid = None \<and> m = None \<and> \<not> done)
        else c' = c \<and> m = None \<and> \<not> done)"
proof (cases "\<exists>st. map_of (dc_modules c) mid = Some st \<and> hits ddb st")
  case False
  then have "ObserveDDBWithResult ddb c = Some (c, None, False, DSMCCDDBIgnored, None)"
    by (intro ObserveDDB_ignored [OF c]) (simp add: mid_def)
  then show ?thesis using False c by auto
next
  case True
  then obtain st where st: "map_of (dc_modules c) mid = Some st" "hits ddb st" by blast
  have sums: "dc_sums c" using c by (simp add: dc_ok_def)
  obtain st1 where st1: "takes_block ddb st st1" "ObserveDDBWithResult ddb c =
     (if False \<in> set (mst_received st1)
      then Some (c\<lparr> dc_modules := AList.update mid st1 (dc_modules c) \<rparr>, None, False,
                 if mst_received st ! unat (ddb_BlockNumber ddb) then DSMCCDDBDuplicate else DSMCCDDBBlock, None)
      else let (c, stays) = complete_module mid st1 c in
           if stays then Some (c, Some (state_module (finished st1)), True, DSMCCDDBCompleted, None)
           else Some (c, None, False, DSMCCDDBIgnored, Some ErrDSMCCCarouselBudgetExceeded))"
    using ObserveDDB_eq [OF c st [unfolded mid_def]] unfolding mid_def [symmetric] by blast
  note ok = in_flight_split(3) [OF sums st(1)]
  note t = takes_block_ok [OF ok st(2) st1(1)]
  show ?thesis
  proof (cases "False \<in> set (mst_received st1)")
    case miss: True
    have "dc_ok (c\<lparr> dc_modules := AList.update mid st1 (dc_modules c) \<rparr>)"
      using update_sums [OF sums st(1) t(1-3)] c by (simp add: dc_ok_def)
    then show ?thesis using st st1 miss by (auto simp: update_conv')
  next
    case full: False
    have nc: "\<not> mst_completed st" using st(2) by (simp add: hits_def)
    obtain c' where c': "complete_module mid st1 c = (c', ucast (mi_ModuleSize (mst_info st)) \<le> cl_MaxCompletedBytes (dc_limits c))"
      "dc_ok c'" "dc_limits c' = dc_limits c"
      "map_of (dc_modules c') mid = (if ucast (mi_ModuleSize (mst_info st)) \<le> cl_MaxCompletedBytes (dc_limits c) then Some (finished st1) else None)"
      "\<And>k s. k \<noteq> mid \<Longrightarrow> map_of (dc_modules c) k = Some s \<Longrightarrow> \<not> mst_completed s \<Longrightarrow> map_of (dc_modules c') k = Some s"
      "set (dc_modules c') \<subseteq> insert (mid, finished st1) (set (dc_modules c))"
      using complete_module_ok [OF c st(1) nc t(4,5,7)] unfolding finished_def by blast
    have old: "map_of (dc_modules c) k = Some s" if "k \<noteq> mid" "map_of (dc_modules c') k = Some s" for k s
      using map_of_SomeD [OF that(2)] c'(6) that(1) sums by (intro map_of_is_SomeI) (auto simp: dc_sums_def)
    define fits where "fits = (ucast (mi_ModuleSize (mst_info st)) \<le> cl_MaxCompletedBytes (dc_limits c))"
    define m where "m = (if fits then Some (state_module (finished st1)) else None)"
    obtain r e where run: "ObserveDDBWithResult ddb c = Some (c', m, fits, r, e)"
      using st1(2) full c'(1) by (cases fits) (simp_all add: fits_def m_def)
    have "\<exists>st s1. map_of (dc_modules c) mid = Some st \<and> hits ddb st \<and> takes_block ddb st s1 \<and>
          (if False \<in> set (mst_received s1) then map_of (dc_modules c') mid = Some s1 \<and> m = None \<and> \<not> fits
           else if ucast (mi_ModuleSize (mst_info st)) \<le> cl_MaxCompletedBytes (dc_limits c)
           then map_of (dc_modules c') mid = Some (finished s1) \<and> m = Some (state_module (finished s1)) \<and> fits
           else map_of (dc_modules c') mid = None \<and> m = None \<and> \<not> fits)"
      using st st1(1) full c'(4) by (intro exI [of _ st] exI [of _ st1]) (simp add: fits_def m_def)
    then show ?thesis
      unfolding if_P [OF True] using run c'(2,3,5) old
      by (intro exI [of _ c'] exI [of _ m] exI [of _ fits] exI [of _ r] exI [of _ e]) simp
  qed
qed

text \<open>Where a module after a DDB comes from.\<close>

lemma ObserveDDB_origin:
  assumes c: "dc_ok c" and run: "ObserveDDBWithResult ddb c = Some (c', m, d, r, e)" and s: "map_of (dc_modules c') k = Some s"
  obtains (kept) "map_of (dc_modules c) k = Some s"
    | (taken) st st1 where "k = ddb_ModuleID ddb" "map_of (dc_modules c) k = Some st" "hits ddb st" "takes_block ddb st st1"
        "s = (if False \<in> set (mst_received st1) then st1 else finished st1)"
proof -
  let ?mid = "ddb_ModuleID ddb"
  obtain c2 m2 d2 r2 e2 where o: "ObserveDDBWithResult ddb c = Some (c2, m2, d2, r2, e2)"
      "\<forall>k s. k \<noteq> ?mid \<and> map_of (dc_modules c2) k = Some s \<longrightarrow> map_of (dc_modules c) k = Some s"
      "if \<exists>st. map_of (dc_modules c) ?mid = Some st \<and> hits ddb st
        then \<exists>st st1. map_of (dc_modules c) ?mid = Some st \<and> hits ddb st \<and> takes_block ddb st st1 \<and>
          (if False \<in> set (mst_received st1) then map_of (dc_modules c2) ?mid = Some st1 \<and> m2 = None \<and> \<not> d2
           else if ucast (mi_ModuleSize (mst_info st)) \<le> cl_MaxCompletedBytes (dc_limits c)
           then map_of (dc_modules c2) ?mid = Some (finished st1) \<and> m2 = Some (state_module (finished st1)) \<and> d2
           else map_of (dc_modules c2) ?mid = None \<and> m2 = None \<and> \<not> d2)
        else c2 = c \<and> m2 = None \<and> \<not> d2"
    using ObserveDDB_step [OF c, of ddb] by blast
  have c2: "c2 = c'" using o(1) run by simp
  show thesis
  proof (cases "k = ?mid \<and> (\<exists>st. map_of (dc_modules c) ?mid = Some st \<and> hits ddb st)")
    case False
    then show thesis using o(2,3) s c2 kept by (cases "k = ?mid") (simp_all split: if_splits)
  next
    case True
    then obtain st st1 where st: "map_of (dc_modules c) ?mid = Some st" "hits ddb st" "takes_block ddb st st1"
        "if False \<in> set (mst_received st1) then map_of (dc_modules c2) ?mid = Some st1 \<and> m2 = None \<and> \<not> d2
           else if ucast (mi_ModuleSize (mst_info st)) \<le> cl_MaxCompletedBytes (dc_limits c)
           then map_of (dc_modules c2) ?mid = Some (finished st1) \<and> m2 = Some (state_module (finished st1)) \<and> d2
           else map_of (dc_modules c2) ?mid = None \<and> m2 = None \<and> \<not> d2"
      using o(3) unfolding if_P [OF conjunct2 [OF True]] by blast
    then have "s = (if False \<in> set (mst_received st1) then st1 else finished st1)"
      using s c2 True by (simp split: if_splits)
    then show thesis using taken st(1-3) True by blast
  qed
qed

section \<open>Release and restoration\<close>

lemma ReleaseCompletedPayload_step:
  assumes c: "dc_ok c"
  shows "dc_ok (fst (ReleaseCompletedPayload mid c))"
    and "map_of (dc_modules (fst (ReleaseCompletedPayload mid c))) k = Some s \<Longrightarrow>
       map_of (dc_modules c) k = Some s \<or> (\<exists>st. map_of (dc_modules c) k = Some st \<and> mst_completed st \<and> s = st\<lparr> mst_data := [] \<rparr>)"
proof -
  have sums: "dc_sums c" using c by (simp add: dc_ok_def)
  have "dc_ok (fst (ReleaseCompletedPayload mid c)) \<and> (map_of (dc_modules (fst (ReleaseCompletedPayload mid c))) k = Some s \<longrightarrow>
       map_of (dc_modules c) k = Some s \<or> (\<exists>st. map_of (dc_modules c) k = Some st \<and> mst_completed st \<and> s = st\<lparr> mst_data := [] \<rparr>))"
  proof (cases "\<exists>st. map_of (dc_modules c) mid = Some st \<and> has_payload st")
    case True
    then obtain st where st: "map_of (dc_modules c) mid = Some st" "has_payload st" by blast
    then have run: "fst (ReleaseCompletedPayload mid c) = c\<lparr> dc_completedBytes := dc_completedBytes c - word_of_nat (length (mst_data st)),
        dc_modules := AList.update mid (st\<lparr> mst_data := [] \<rparr>) (dc_modules c) \<rparr>" by (simp add: ReleaseCompletedPayload_def)
    note split = in_flight_split [OF sums st(1)]
    have dn: "mst_completed st" using st(2) by (simp add: has_payload_def)
    have d: "distinct (map fst (dc_modules c))" using sums by (simp add: dc_sums_def)
    have held: "held st = length (mst_data st)" using dn by (simp add: held_def)
    have "unat (word_of_nat (length (mst_data st)) :: u64) = length (mst_data st)"
      using mst_ok_small(2) [OF split(3)] unfolding held by (rule unat_u64_of_nat)
    then have sub: "unat (dc_completedBytes c - word_of_nat (length (mst_data st))) = msum held (AList.delete mid (dc_modules c))"
      using split(2) held by (simp add: unat_sub_if' del: unsigned_of_nat)
    have none: "in_flight st = 0" "in_flight (st\<lparr> mst_data := [] \<rparr>) = 0" "held (st\<lparr> mst_data := [] \<rparr>) = 0"
      using dn by (simp_all add: in_flight_def held_def)
    have "\<forall>(k, s) \<in> set (AList.update mid (st\<lparr> mst_data := [] \<rparr>) (dc_modules c)). mst_ok (dc_limits c) k s"
      using sums split(3) dn set_update_subset [of mid "st\<lparr> mst_data := [] \<rparr>" "dc_modules c"] by (auto simp: dc_sums_def mst_ok_def)
    then have "dc_sums (fst (ReleaseCompletedPayload mid c))"
      using split(1) sub none unfolding run
      by (simp add: dc_sums_def distinct_update d msum_update del: unsigned_of_nat)
    moreover have "dc_completedBytes c - word_of_nat (length (mst_data st)) \<le> dc_completedBytes c"
      using sub split(2) by (simp add: word_le_nat_alt del: unsigned_of_nat)
    ultimately show ?thesis using c st dn unfolding run by (auto simp: dc_ok_def update_conv' intro: order_trans)
  next
    case False
    then have "fst (ReleaseCompletedPayload mid c) = c" by (auto simp: ReleaseCompletedPayload_def split: option.splits)
    then show ?thesis using c by simp
  qed
  then show "dc_ok (fst (ReleaseCompletedPayload mid c))"
    and "map_of (dc_modules (fst (ReleaseCompletedPayload mid c))) k = Some s \<Longrightarrow>
       map_of (dc_modules c) k = Some s \<or> (\<exists>st. map_of (dc_modules c) k = Some st \<and> mst_completed st \<and> s = st\<lparr> mst_data := [] \<rparr>)" by simp_all
qed

text \<open>
  A payload whose length is the size modulo \<open>2^32\<close> is the right one when it is shorter than \<open>2^32\<close>,
  as every Go slice of a cached module is here.
\<close>

lemma Restore_step:
  assumes c: "dc_ok c" and len: "length (dm_Data m) < 2 ^ 32"
  shows "\<exists>c' r. Restore m c = Some (c', r) \<and> dc_ok c' \<and> dc_limits c' = dc_limits c
     \<and> (\<forall>k s. map_of (dc_modules c') k = Some s \<longrightarrow> map_of (dc_modules c) k = Some s
         \<or> (\<exists>st. k = dm_ModuleID m \<and> map_of (dc_modules c) k = Some st \<and> \<not> mst_completed st \<and> mst_downloadID st = dm_DownloadID m
              \<and> mi_Version (mst_info st) = dm_Version m \<and> mst_info s = mst_info st \<and> mst_downloadID s = mst_downloadID st
              \<and> mst_blockSize s = mst_blockSize st \<and> mst_completed s \<and> mst_data s = dm_Data m))"
proof (cases "\<exists>st. map_of (dc_modules c) (dm_ModuleID m) = Some st \<and> \<not> mst_completed st \<and> mst_downloadID st = dm_DownloadID m
    \<and> mi_Version (mst_info st) = dm_Version m \<and> mi_ModuleSize (mst_info st) = dm_Size m \<and> word_of_nat (length (dm_Data m)) = dm_Size m")
  case False
  then have "Restore m c = Some (c, False)" by (cases "map_of (dc_modules c) (dm_ModuleID m)") (auto simp: Restore_def)
  then show ?thesis using c by auto
next
  case True
  let ?mid = "dm_ModuleID m"
  obtain st where st: "map_of (dc_modules c) ?mid = Some st" "\<not> mst_completed st" "mst_downloadID st = dm_DownloadID m"
    "mi_Version (mst_info st) = dm_Version m" "mi_ModuleSize (mst_info st) = dm_Size m" "word_of_nat (length (dm_Data m)) = dm_Size m"
    using True by blast
  have sums: "dc_sums c" using c by (simp add: dc_ok_def)
  note ok = in_flight_split(3) [OF sums st(1)]
  obtain n where n: "block_count (mi_ModuleSize (mst_info st)) (mst_blockSize st) = Some n" using ok by (simp add: mst_ok_def block_count_def)
  have "unat (mi_ModuleSize (mst_info st)) = length (dm_Data m)"
    unfolding st(5) st(6) [symmetric] using len by (simp add: unsigned_of_nat take_bit_nat_eq_self)
  then have data: "length (mst_data (st\<lparr> mst_data := dm_Data m, mst_count := n \<rparr>)) = unat (mi_ModuleSize (mst_info st))" by simp
  obtain c' where c': "complete_module ?mid (st\<lparr> mst_data := dm_Data m, mst_count := n \<rparr>) c
        = (c', ucast (mi_ModuleSize (mst_info st)) \<le> cl_MaxCompletedBytes (dc_limits c))"
      "dc_ok c'" "dc_limits c' = dc_limits c"
      "set (dc_modules c') \<subseteq> insert (?mid, (st\<lparr> mst_data := dm_Data m, mst_count := n \<rparr>)\<lparr> mst_completed := True, mst_received := [] \<rparr>) (set (dc_modules c))"
    using complete_module_ok [OF c st(1,2) _ _ data] by auto
  have "map_of (dc_modules c) k = Some s \<or> (k = ?mid \<and> s = (st\<lparr> mst_data := dm_Data m, mst_count := n \<rparr>)\<lparr> mst_completed := True, mst_received := [] \<rparr>)"
    if "map_of (dc_modules c') k = Some s" for k s
    using map_of_SomeD [OF that] c'(4) sums by (auto simp: dc_sums_def intro: map_of_is_SomeI)
  moreover have "Restore m c = Some (c', ucast (mi_ModuleSize (mst_info st)) \<le> cl_MaxCompletedBytes (dc_limits c))"
    using st n c'(1) by (simp add: Restore_def)
  ultimately show ?thesis using c'(2,3) st by fastforce
qed

section \<open>The invariant is kept\<close>

fun carousel_enabled :: "carousel_op \<Rightarrow> bool" where
  "carousel_enabled (CarouselRestore m) \<longleftrightarrow> blen (dm_Data m) < 2 ^ 32"
| "carousel_enabled (CarouselDII dii) \<longleftrightarrow> True"
| "carousel_enabled (CarouselDDB ddb) \<longleftrightarrow> True"
| "carousel_enabled (CarouselRelease mid) \<longleftrightarrow> True"

lemma carousel_step:
  assumes c: "dc_ok c" and e: "carousel_enabled op"
  shows "\<exists>c'. carousel_exec op c = Some c' \<and> dc_ok c'"
proof (cases op)
  case (CarouselDII dii)
  obtain c' acc where "ObserveDII dii c = Some (c', acc)" "dc_ok c'" using ObserveDII_ok [OF c, of dii] by blast
  then show ?thesis using CarouselDII by simp
next
  case (CarouselDDB ddb)
  obtain c' r where "ObserveDDBWithResult ddb c = Some (c', r)" "dc_ok c'" using ObserveDDB_step [OF c, of ddb] by blast
  then show ?thesis using CarouselDDB by simp
next
  case (CarouselRelease mid)
  then show ?thesis using ReleaseCompletedPayload_step(1) [OF c, of mid] by simp
next
  case (CarouselRestore m)
  then show ?thesis using Restore_step [OF c, of m] e by auto
qed

lemma content_ok_release: "content_ok br st \<Longrightarrow> mst_completed st \<Longrightarrow> content_ok br (st\<lparr> mst_data := [] \<rparr>)"
  by (simp add: content_ok_def state_payload_def)

lemma content_ok_restore:
  assumes "content_ok br st" "faithful br (CarouselRestore m)" "mst_downloadID st = dm_DownloadID m" "mi_ModuleID (mst_info st) = dm_ModuleID m"
    "mi_Version (mst_info st) = dm_Version m" "mst_info s = mst_info st" "mst_downloadID s = mst_downloadID st"
    "mst_blockSize s = mst_blockSize st" "mst_completed s" "mst_data s = dm_Data m"
  shows "content_ok br s"
  using assms by (cases br) (simp add: content_ok_def state_payload_def)

lemma carousel_step_faithful:
  assumes c: "carousel_ok br c" and e: "carousel_enabled op" and f: "faithful br op"
  shows "\<exists>c'. carousel_exec op c = Some c' \<and> carousel_ok br c'"
proof -
  have ok: "dc_ok c" and content: "\<And>k s. map_of (dc_modules c) k = Some s \<Longrightarrow> content_ok br s" using c by (auto simp: carousel_ok_def)
  have mst: "mst_ok (dc_limits c) k s" if "map_of (dc_modules c) k = Some s" for k s
    using ok in_flight_split(3) [OF _ that] by (simp add: dc_ok_def)
  obtain c' where c': "carousel_exec op c = Some c'" "dc_ok c'" using carousel_step [OF ok e] by blast
  have "content_ok br s" if s: "map_of (dc_modules c') k = Some s" for k s
  proof (cases op)
    case (CarouselDII dii)
    consider "map_of (dc_modules c) k = Some s" | m n g where "m \<in> set (dii_Modules dii)" "k = mi_ModuleID m"
        "block_count (mi_ModuleSize m) (dii_BlockSize dii) = Some n" "s = new_module_state dii m n g"
    proof -
      obtain c2 acc where c2: "ObserveDII dii c = Some (c2, acc)" "\<And>k s. map_of (dc_modules c2) k = Some s \<Longrightarrow> map_of (dc_modules c) k = Some s
         \<or> (\<exists>m n g. m \<in> set (dii_Modules dii) \<and> k = mi_ModuleID m
           \<and> block_count (mi_ModuleSize m) (dii_BlockSize dii) = Some n \<and> s = new_module_state dii m n g)"
        using ObserveDII_ok [OF ok, of dii] by blast
      then have "c2 = c'" using c'(1) CarouselDII by simp
      then show thesis using c2(2) [of k s] s that by blast
    qed
    then show ?thesis
    proof cases
      case 2
      have "mst_ok (dc_limits c') k s" using c'(2) in_flight_split(3) [OF _ s] by (simp add: dc_ok_def)
      then have "mi_ModuleSize m \<noteq> 0" by (simp add: 2(4) mst_ok_def new_module_state_def)
      then show ?thesis using new_module_content [OF 2(3) _ 2(1)] f CarouselDII 2(4) by simp
    qed (rule content)
  next
    case (CarouselDDB ddb)
    obtain m d r e where run: "ObserveDDBWithResult ddb c = Some (c', m, d, r, e)" using c'(1) CarouselDDB by auto
    show ?thesis
    proof (cases rule: ObserveDDB_origin [OF ok run s])
      case (2 st st1)
      note taken = this
      note t = takes_block_ok [OF mst [OF taken(2)] taken(3,4)]
      have "mst_ok (dc_limits c) k st" "\<not> mst_completed st" using mst [OF taken(2)] taken(3) by (simp_all add: hits_def)
      then have "length (mst_data st) = unat (mi_ModuleSize (mst_info st))" "mst_blockSize st \<noteq> 0" "ddb_ModuleID ddb = mi_ModuleID (mst_info st)"
        using taken(1) by (auto simp: mst_ok_def)
      from takes_block_content [OF content [OF taken(2)] this(1,2) taken(3) this(3) taken(4)] show ?thesis
        using taken(5) f CarouselDDB by (simp split: if_splits)
    qed (rule content)
  next
    case (CarouselRelease mid)
    then have "map_of (dc_modules (fst (ReleaseCompletedPayload mid c))) k = Some s" using c'(1) s by simp
    from ReleaseCompletedPayload_step(2) [OF ok this] show ?thesis using content content_ok_release by blast
  next
    case (CarouselRestore m)
    have "length (dm_Data m) < 2 ^ 32" using e CarouselRestore by simp
    then obtain c2 r where c2: "Restore m c = Some (c2, r)" "\<forall>k s. map_of (dc_modules c2) k = Some s \<longrightarrow> map_of (dc_modules c) k = Some s
         \<or> (\<exists>st. k = dm_ModuleID m \<and> map_of (dc_modules c) k = Some st \<and> \<not> mst_completed st \<and> mst_downloadID st = dm_DownloadID m
              \<and> mi_Version (mst_info st) = dm_Version m \<and> mst_info s = mst_info st \<and> mst_downloadID s = mst_downloadID st
              \<and> mst_blockSize s = mst_blockSize st \<and> mst_completed s \<and> mst_data s = dm_Data m)"
      using Restore_step [OF ok, of m] by blast
    have "c2 = c'" using c2(1) c'(1) CarouselRestore by simp
    then consider "map_of (dc_modules c) k = Some s" | st where "k = dm_ModuleID m" "map_of (dc_modules c) k = Some st"
        "mst_downloadID st = dm_DownloadID m" "mi_Version (mst_info st) = dm_Version m" "mst_info s = mst_info st"
        "mst_downloadID s = mst_downloadID st" "mst_blockSize s = mst_blockSize st" "mst_completed s" "mst_data s = dm_Data m"
      using c2(2) s by blast
    then show ?thesis
    proof cases
      case (2 st)
      then have "mi_ModuleID (mst_info st) = dm_ModuleID m" using mst [OF 2(2)] by (simp add: mst_ok_def)
      with 2 show ?thesis using content_ok_restore [OF content [OF 2(2)], of m s] f CarouselRestore by simp
    qed (rule content)
  qed
  then show ?thesis using c' by (auto simp: carousel_ok_def)
qed

interpretation carousels: op_system "\<lambda>c. c = NewDSMCCCarousel limits" "\<lambda>op c. carousel_enabled op" carousel_exec dc_ok for limits
  by unfold_locales (use carousel_step in \<open>auto simp: NewDSMCCCarousel_ok go_ok_def\<close>)

interpretation faithful_carousels: op_system "\<lambda>c. c = NewDSMCCCarousel limits" "\<lambda>op c. carousel_enabled op \<and> faithful br op"
    carousel_exec "carousel_ok br" for limits br
  by unfold_locales
    (use carousel_step_faithful in \<open>auto simp: carousel_ok_def NewDSMCCCarousel_ok go_ok_def, simp add: NewDSMCCCarousel_def\<close>)

end
