(* ===== verification/DSMCC_Properties.thy ===== *)
theory DSMCC_Properties
  imports DSMCC_Carousel
begin

text \<open>
  The properties of the DSM-CC messages and of the data carousel: budgets, the content of what is
  delivered, that every module in flight is delivered once its blocks have come, and what
  happens when one DII announces more than the budget for modules in flight.
\<close>

text \<open>
  C20. The DSM-CC download messages are read back: a DII whose parts fit a section, and a DDB with a
  block of at most 3900 bytes, encoded as ISO/IEC 13818-6 has them in a section with length and
  CRC, parse to themselves.
\<close>

theorem DSMCC_messages_roundtrip:
  assumes "dii_ok dii" and "length (ddb_Data ddb) \<le> 3900"
  shows "ParseDSMCCDII (dsmcc_section 0x3B 0x1002 transaction (dii_body dii)) = Some (Inr dii)
    \<and> ParseDSMCCDDB (dsmcc_section 0x3C 0x1003 (ddb_DownloadID ddb) (ddb_body ddb)) = Some (Inr ddb)"
  using ParseDSMCCDII_encode [OF assms(1)] ParseDSMCCDDB_encode [OF assms(2)] by blast

definition demo_module :: "u16 \<Rightarrow> u32 \<Rightarrow> DSMCCModuleInfo" where
  "demo_module mid sz = \<lparr> mi_ModuleID = mid, mi_ModuleSize = sz, mi_Version = 1, mi_Info = [1, 2, 3] \<rparr>"

definition demo_dii :: "DSMCCDII" where
  "demo_dii = \<lparr> dii_DownloadID = 7, dii_BlockSize = 3, dii_Modules = [demo_module 1 6, demo_module 2 6], dii_PrivateData = [9] \<rparr>"

definition demo_ddb :: "u16 \<Rightarrow> u16 \<Rightarrow> bytes \<Rightarrow> DSMCCDDB" where
  "demo_ddb mid n data = \<lparr> ddb_DownloadID = 7, ddb_ModuleID = mid, ddb_ModuleVersion = 1, ddb_BlockNumber = n, ddb_Data = data \<rparr>"

theorem DSMCC_messages_roundtrip_witness:
  "ParseDSMCCDII (dsmcc_section 0x3B 0x1002 5 (dii_body demo_dii)) = Some (Inr demo_dii)"
proof -
  have "dii_ok demo_dii" "length (ddb_Data (demo_ddb 1 0 [1, 2, 3])) \<le> 3900"
    by (simp_all add: dii_ok_def dii_body_def demo_dii_def demo_module_def module_bytes_def demo_ddb_def)
  then show ?thesis using DSMCC_messages_roundtrip by blast
qed

text \<open>
  C19. Budgets of the data carousel: after any sequence of DIIs, DDBs, releases and restorations, with
  any content, no operation panics, the module ids are distinct, and the two \<open>uint64\<close> counters
  are exactly the bytes of the modules in flight and of the completed modules held, each within
  its budget.
\<close>

theorem DSMCCCarousel_within_budget:
  assumes "reach (\<lambda>c. c = NewDSMCCCarousel limits) (\<lambda>op c. carousel_enabled op) carousel_exec c"
  shows "distinct (map fst (dc_modules c))
    \<and> (\<Sum>(_, st) \<leftarrow> dc_modules c. if mst_completed st then 0 else unat (mi_ModuleSize (mst_info st))) = unat (dc_inFlightBytes c)
    \<and> (\<Sum>(_, st) \<leftarrow> dc_modules c. if mst_completed st then length (mst_data st) else 0) = unat (dc_completedBytes c)
    \<and> dc_inFlightBytes c \<le> cl_MaxInFlightBytes (dc_limits c) \<and> dc_completedBytes c \<le> cl_MaxCompletedBytes (dc_limits c)
    \<and> (carousel_enabled op \<longrightarrow> carousel_exec op c \<noteq> None)"
proof -
  have "dc_ok c" by (rule carousels.reach_inv [OF assms])
  then show ?thesis using carousels.reach_total [OF assms, of op]
    by (auto simp: dc_ok_def dc_sums_def msum_def in_flight_def [abs_def] held_def [abs_def])
qed

definition demo_limits :: DSMCCCarouselLimits where
  "demo_limits = \<lparr> cl_MaxModuleSize = 100, cl_MaxCompletedBytes = 20, cl_MaxInFlightBytes = 10 \<rparr>"

lemma demo_reach: "reach (\<lambda>c. c = NewDSMCCCarousel demo_limits) (\<lambda>op c. carousel_enabled op) carousel_exec (NewDSMCCCarousel demo_limits)"
  by (rule reach.start) simp

theorem DSMCCCarousel_within_budget_witness:
  "distinct (map fst (dc_modules (NewDSMCCCarousel demo_limits)))"
  using DSMCCCarousel_within_budget [OF demo_reach] by blast

text \<open>
  Which modules a DII accepts: in every reachable state \<open>ObserveDII\<close> returns, in the order of the
  DII, exactly the modules of nonzero size with a nonzero block size that exceed neither the module
  limit nor the whole budget for modules in flight; afterwards every module held is announced by
  the DII, and is the state from before or a fresh one without blocks.
\<close>

theorem ObserveDII_accepts:
  assumes "reach (\<lambda>c. c = NewDSMCCCarousel limits) (\<lambda>op c. carousel_enabled op) carousel_exec c"
  shows "\<exists>c'. ObserveDII dii c = Some (c', filter (\<lambda>m. mi_ModuleSize m \<noteq> 0 \<and> dii_BlockSize dii \<noteq> 0
           \<and> mi_ModuleSize m \<le> cl_MaxModuleSize (dc_limits c) \<and> ucast (mi_ModuleSize m) \<le> cl_MaxInFlightBytes (dc_limits c)) (dii_Modules dii))
     \<and> (\<forall>k s. map_of (dc_modules c') k = Some s \<longrightarrow> k \<in> set (map mi_ModuleID (dii_Modules dii))
           \<and> (map_of (dc_modules c) k = Some s \<or> (mst_count s = 0 \<and> \<not> mst_completed s \<and> True \<notin> set (mst_received s))))"
proof -
  have eq: "receivable l dii = (\<lambda>m. mi_ModuleSize m \<noteq> 0 \<and> dii_BlockSize dii \<noteq> 0 \<and> mi_ModuleSize m \<le> cl_MaxModuleSize l
      \<and> ucast (mi_ModuleSize m) \<le> cl_MaxInFlightBytes l)" for l by (simp add: receivable_def fun_eq_iff)
  obtain c' where c': "ObserveDII dii c = Some (c', filter (receivable (dc_limits c) dii) (dii_Modules dii))"
     "\<forall>k s. map_of (dc_modules c') k = Some s \<longrightarrow> k \<in> mi_ModuleID ` set (dii_Modules dii) \<and> (map_of (dc_modules c) k = Some s
         \<or> (\<exists>m n g. m \<in> set (dii_Modules dii) \<and> k = mi_ModuleID m \<and> dii_BlockSize dii \<noteq> 0
           \<and> block_count (mi_ModuleSize m) (dii_BlockSize dii) = Some n \<and> s = new_module_state dii m n g))"
    using ObserveDII_ok [OF carousels.reach_inv [OF assms], of dii] by blast
  have new: "mst_count s = 0 \<and> \<not> mst_completed s \<and> True \<notin> set (mst_received s)" if "s = new_module_state dii m n g" for s m n g
    by (simp add: that new_module_state_def)
  have "k \<in> set (map mi_ModuleID (dii_Modules dii))
       \<and> (map_of (dc_modules c) k = Some s \<or> (mst_count s = 0 \<and> \<not> mst_completed s \<and> True \<notin> set (mst_received s)))"
    if "map_of (dc_modules c') k = Some s" for k s
    using c'(2) [rule_format, OF that] new by (simp only: list.set_map) blast
  then show ?thesis using c'(1) unfolding eq by blast
qed

theorem ObserveDII_accepts_witness:
  "\<exists>c'. ObserveDII demo_dii (NewDSMCCCarousel demo_limits) = Some (c', [demo_module 1 6, demo_module 2 6])"
  using ObserveDII_accepts [OF demo_reach, of demo_dii]
  by (auto simp: demo_dii_def demo_module_def NewDSMCCCarousel_def withDefaults_def demo_limits_def)

lemma module_payload:
  assumes c: "carousel_ok br c" and m: "carousel_Module mid c = Some m"
  shows "dm_ModuleID m = mid \<and> dm_Data m = fst br (dm_DownloadID m) mid (dm_Version m) \<and> length (dm_Data m) = unat (dm_Size m)"
proof -
  obtain st where st: "map_of (dc_modules c) mid = Some st" "has_payload st" "m = state_module st"
    using m by (auto simp: carousel_Module_def split: option.splits if_splits)
  have "content_ok br st" "mst_ok (dc_limits c) mid st"
    using c st(1) in_flight_split(3) [OF _ st(1)] by (auto simp: carousel_ok_def dc_ok_def)
  then show ?thesis
    using st(2,3) by (auto simp: content_ok_def has_payload_def state_module_def state_payload_def mst_ok_def)
qed

lemma completed_payload:
  assumes c: "carousel_ok br c" and f: "faithful br (CarouselDDB ddb)" and run: "ObserveDDBWithResult ddb c = Some (c', Some m, d, r)"
  shows "d \<and> dm_DownloadID m = ddb_DownloadID ddb \<and> dm_ModuleID m = ddb_ModuleID ddb \<and> dm_Version m = ddb_ModuleVersion ddb
     \<and> dm_Data m = fst br (ddb_DownloadID ddb) (ddb_ModuleID ddb) (ddb_ModuleVersion ddb)"
proof -
  have ok: "dc_ok c" using c by (simp add: carousel_ok_def)
  have hit: "\<exists>st. map_of (dc_modules c) (ddb_ModuleID ddb) = Some st \<and> hits ddb st"
    using ObserveDDB_ignored [OF ok, of ddb] run by (metis option.inject option.simps(3) prod.inject)
  obtain c2 m2 d2 r2 e2 where o: "ObserveDDBWithResult ddb c = Some (c2, m2, d2, r2, e2)"
      "\<exists>st st1. map_of (dc_modules c) (ddb_ModuleID ddb) = Some st \<and> hits ddb st \<and> takes_block ddb st st1 \<and>
          (if False \<in> set (mst_received st1) then map_of (dc_modules c2) (ddb_ModuleID ddb) = Some st1 \<and> m2 = None \<and> \<not> d2
           else if ucast (mi_ModuleSize (mst_info st)) \<le> cl_MaxCompletedBytes (dc_limits c)
           then map_of (dc_modules c2) (ddb_ModuleID ddb) = Some (finished st1) \<and> m2 = Some (state_module (finished st1)) \<and> d2
           else map_of (dc_modules c2) (ddb_ModuleID ddb) = None \<and> m2 = None \<and> \<not> d2)"
    using ObserveDDB_step [OF ok, of ddb] unfolding if_P [OF hit] by blast
  have "m2 = Some m" "d2 = d" using o(1) run by simp_all
  then obtain st st1 where st: "map_of (dc_modules c) (ddb_ModuleID ddb) = Some st" "hits ddb st" "takes_block ddb st st1"
      "m = state_module (finished st1)" "d" "False \<notin> set (mst_received st1)"
    using o(2) by (auto split: if_splits)
  have mst: "mst_ok (dc_limits c) (ddb_ModuleID ddb) st" "content_ok br st"
    using c st(1) in_flight_split(3) [OF _ st(1)] by (auto simp: carousel_ok_def dc_ok_def)
  have "length (mst_data st) = unat (mi_ModuleSize (mst_info st))" "mst_blockSize st \<noteq> 0" "ddb_ModuleID ddb = mi_ModuleID (mst_info st)"
    using mst(1) st(2) by (auto simp: mst_ok_def hits_def)
  from takes_block_content [OF mst(2) this(1,2) st(2) this(3) st(3) f] have "mst_data st1 = state_payload br st1" using st(6) by simp
  then show ?thesis
    using takes_block_ok(4,8) [OF mst(1) st(2,3)] st(2,4,5) mst(1)
    by (simp add: state_module_def finished_def state_payload_def hits_def mst_ok_def)
qed

text \<open>
  C4. What is delivered is what was broadcast: when the DIIs, blocks and cached modules are those of a
  broadcast (a payload and block size for each download id, module id and version), in any order
  and with any repetitions and evictions, then a module \<open>ObserveDDB\<close> reports as complete, and a
  module \<open>Module\<close> returns, carries exactly the payload of its own id and version.
\<close>

theorem carousel_delivers_broadcast:
  assumes "reach (\<lambda>c. c = NewDSMCCCarousel limits) (\<lambda>op c. carousel_enabled op \<and> faithful (payload, bs) op) carousel_exec c"
  shows "(carousel_Module mid c = Some m \<longrightarrow> dm_ModuleID m = mid \<and> dm_Data m = payload (dm_DownloadID m) mid (dm_Version m)
            \<and> length (dm_Data m) = unat (dm_Size m))
    \<and> (faithful (payload, bs) (CarouselDDB ddb) \<and> ObserveDDB ddb c = Some (c', Some m', complete, err) \<longrightarrow>
        complete \<and> dm_ModuleID m' = ddb_ModuleID ddb \<and> dm_Version m' = ddb_ModuleVersion ddb
        \<and> dm_Data m' = payload (ddb_DownloadID ddb) (ddb_ModuleID ddb) (ddb_ModuleVersion ddb))"
proof -
  have c: "carousel_ok (payload, bs) c" by (rule faithful_carousels.reach_inv [OF assms])
  have "complete \<and> dm_ModuleID m' = ddb_ModuleID ddb \<and> dm_Version m' = ddb_ModuleVersion ddb
        \<and> dm_Data m' = payload (ddb_DownloadID ddb) (ddb_ModuleID ddb) (ddb_ModuleVersion ddb)"
    if f: "faithful (payload, bs) (CarouselDDB ddb)" and run: "ObserveDDB ddb c = Some (c', Some m', complete, err)"
  proof -
    obtain r where "ObserveDDBWithResult ddb c = Some (c', Some m', complete, r)" using run by (auto simp: ObserveDDB_def split: bind_splits)
    from completed_payload [OF c f this] show ?thesis by simp
  qed
  moreover have "carousel_Module mid c = Some m \<longrightarrow> dm_ModuleID m = mid \<and> dm_Data m = payload (dm_DownloadID m) mid (dm_Version m)
      \<and> length (dm_Data m) = unat (dm_Size m)"
    using module_payload [OF c, of mid m] unfolding fst_conv by blast
  ultimately show ?thesis by blast
qed

definition demo_payload :: "u32 \<Rightarrow> u16 \<Rightarrow> u8 \<Rightarrow> bytes" where
  "demo_payload did mid version = (if mid = 1 then [1, 2, 3, 4, 5, 6] else [7, 8, 9, 10, 11, 12])"

definition demo_ops :: "carousel_op list" where
  "demo_ops = [CarouselDII demo_dii, CarouselDII (demo_dii\<lparr> dii_Modules := [demo_module 1 6] \<rparr>),
     CarouselDDB (demo_ddb 1 1 [4, 5, 6]), CarouselDDB (demo_ddb 1 1 [4, 5, 6])]"

definition demo_carousel :: DSMCCCarousel where
  "demo_carousel = the (run_ops carousel_exec demo_ops (NewDSMCCCarousel demo_limits))"

lemma demo_carousel_reach:
  "reach (\<lambda>c. c = NewDSMCCCarousel demo_limits) (\<lambda>op c. carousel_enabled op \<and> faithful (demo_payload, \<lambda>_. 3) op) carousel_exec demo_carousel"
proof (rule run_ops_reach)
  show "reach (\<lambda>c. c = NewDSMCCCarousel demo_limits) (\<lambda>op c. carousel_enabled op \<and> faithful (demo_payload, \<lambda>_. 3) op) carousel_exec
      (NewDSMCCCarousel demo_limits)" by (rule reach.start) simp
  show "all_enabled (\<lambda>op c. carousel_enabled op \<and> faithful (demo_payload, \<lambda>_. 3) op) carousel_exec demo_ops (NewDSMCCCarousel demo_limits)"
    by code_simp
  have "run_ops carousel_exec demo_ops (NewDSMCCCarousel demo_limits) \<noteq> None" by code_simp
  then show "run_ops carousel_exec demo_ops (NewDSMCCCarousel demo_limits) = Some demo_carousel"
    by (simp add: demo_carousel_def)
qed

theorem carousel_delivers_broadcast_witness:
  "\<exists>c' m err. ObserveDDB (demo_ddb 1 0 [1, 2, 3]) demo_carousel = Some (c', Some m, True, err) \<and> dm_Data m = [1, 2, 3, 4, 5, 6]"
proof -
  have "case ObserveDDB (demo_ddb 1 0 [1, 2, 3]) demo_carousel of Some (_, Some m, _, _) \<Rightarrow> True | _ \<Rightarrow> False" by code_simp
  then obtain c' m complete err where run: "ObserveDDB (demo_ddb 1 0 [1, 2, 3]) demo_carousel = Some (c', Some m, complete, err)"
    by (auto split: option.splits)
  moreover have "faithful (demo_payload, \<lambda>_. 3) (CarouselDDB (demo_ddb 1 0 [1, 2, 3]))" by code_simp
  ultimately have "complete \<and> dm_Data m = demo_payload (ddb_DownloadID (demo_ddb 1 0 [1, 2, 3])) (ddb_ModuleID (demo_ddb 1 0 [1, 2, 3]))
      (ddb_ModuleVersion (demo_ddb 1 0 [1, 2, 3]))"
    using carousel_delivers_broadcast [OF demo_carousel_reach] by blast
  then show ?thesis using run by (simp add: demo_payload_def demo_ddb_def)
qed

lemma carousel_completes_from:
  assumes "carousel_ok br c" and "map_of (dc_modules c) mid = Some st" and "\<not> mst_completed st"
    and "ucast (mi_ModuleSize (mst_info st)) \<le> cl_MaxCompletedBytes (dc_limits c)"
    and "\<forall>d \<in> set ds. faithful br (CarouselDDB d)"
    and "\<And>n. n < length (mst_received st) \<Longrightarrow> \<not> mst_received st ! n \<Longrightarrow> \<exists>d \<in> set ds. ddb_ModuleID d = mid
       \<and> ddb_DownloadID d = mst_downloadID st \<and> ddb_ModuleVersion d = mi_Version (mst_info st) \<and> unat (ddb_BlockNumber d) = n"
  shows "\<exists>pre d post c1 c2 m err. ds = pre @ d # post \<and> run_ops carousel_exec (map CarouselDDB pre) c = Some c1
     \<and> ObserveDDB d c1 = Some (c2, Some m, True, err) \<and> dm_ModuleID m = mid
     \<and> dm_Data m = fst br (mst_downloadID st) mid (mi_Version (mst_info st))"
  using assms
proof (induction ds arbitrary: c st)
  case Nil
  then have "False \<in> set (mst_received st)" by (auto simp: carousel_ok_def content_ok_def)
  then show ?case using Nil.prems(6) by (auto simp: in_set_conv_nth)
next
  case (Cons d ds)
  note ok = Cons.prems(1)
  have dc: "dc_ok c" and content: "content_ok br st" using ok Cons.prems(2) by (auto simp: carousel_ok_def)
  have mst: "mst_ok (dc_limits c) mid st" using dc in_flight_split(3) [OF _ Cons.prems(2)] by (simp add: dc_ok_def)
  let ?mine = "ddb_ModuleID d = mid \<and> hits d st"
  obtain c' m dn r e where run: "ObserveDDBWithResult d c = Some (c', m, dn, r, e)" "dc_limits c' = dc_limits c"
      "\<forall>k s. k \<noteq> ddb_ModuleID d \<and> map_of (dc_modules c) k = Some s \<and> \<not> mst_completed s \<longrightarrow> map_of (dc_modules c') k = Some s"
      "if \<exists>st. map_of (dc_modules c) (ddb_ModuleID d) = Some st \<and> hits d st
        then \<exists>st st1. map_of (dc_modules c) (ddb_ModuleID d) = Some st \<and> hits d st \<and> takes_block d st st1 \<and>
          (if False \<in> set (mst_received st1) then map_of (dc_modules c') (ddb_ModuleID d) = Some st1 \<and> m = None \<and> \<not> dn
           else if ucast (mi_ModuleSize (mst_info st)) \<le> cl_MaxCompletedBytes (dc_limits c)
           then map_of (dc_modules c') (ddb_ModuleID d) = Some (finished st1) \<and> m = Some (state_module (finished st1)) \<and> dn
           else map_of (dc_modules c') (ddb_ModuleID d) = None \<and> m = None \<and> \<not> dn)
        else c' = c \<and> m = None \<and> \<not> dn"
    using ObserveDDB_step [OF dc, of d] by blast
  have exec: "carousel_exec (CarouselDDB d) c = Some c'" using run(1) by simp
  obtain c3 where "carousel_exec (CarouselDDB d) c = Some c3" "carousel_ok br c3"
    using carousel_step_faithful [OF ok, of "CarouselDDB d"] Cons.prems(5) by auto
  then have ok': "carousel_ok br c'" using run(1) by auto
  have later: ?case if st': "map_of (dc_modules c') mid = Some st'" "\<not> mst_completed st'" "mst_info st' = mst_info st"
      "mst_downloadID st' = mst_downloadID st"
      and rest: "\<And>n. n < length (mst_received st') \<Longrightarrow> \<not> mst_received st' ! n \<Longrightarrow> \<exists>d \<in> set ds. ddb_ModuleID d = mid
       \<and> ddb_DownloadID d = mst_downloadID st \<and> ddb_ModuleVersion d = mi_Version (mst_info st) \<and> unat (ddb_BlockNumber d) = n" for st'
  proof -
    obtain pre d' post c1 c2 m err where "ds = pre @ d' # post" "run_ops carousel_exec (map CarouselDDB pre) c' = Some c1"
     "ObserveDDB d' c1 = Some (c2, Some m, True, err)" "dm_ModuleID m = mid"
     "dm_Data m = fst br (mst_downloadID st) mid (mi_Version (mst_info st))"
      using Cons.IH [OF ok' st'(1,2)] Cons.prems(4,5) run(2) st'(3,4) rest by auto
    then show ?thesis using exec by (intro exI [of _ "d # pre"]) auto
  qed
  show ?case
  proof (cases "?mine")
    case False
    have same: "map_of (dc_modules c') mid = Some st"
      using run(3,4) Cons.prems(2,3) False by (cases "ddb_ModuleID d = mid") (auto split: if_splits)
    have "\<exists>x \<in> set ds. ddb_ModuleID x = mid \<and> ddb_DownloadID x = mst_downloadID st \<and> ddb_ModuleVersion x = mi_Version (mst_info st)
        \<and> unat (ddb_BlockNumber x) = n" if n: "n < length (mst_received st)" "\<not> mst_received st ! n" for n
    proof -
      have "n * unat (mst_blockSize st) < length (mst_data st)"
        using content Cons.prems(3) n(1) mult_le_mono1 [of "Suc n" "length (mst_received st)" "unat (mst_blockSize st)"]
        by (auto simp: content_ok_def)
      then have "\<not> (ddb_ModuleID d = mid \<and> ddb_DownloadID d = mst_downloadID st \<and> ddb_ModuleVersion d = mi_Version (mst_info st)
          \<and> unat (ddb_BlockNumber d) = n)" using False Cons.prems(3) n by (auto simp: hits_def)
      then show ?thesis using Cons.prems(6) [OF n] by auto
    qed
    then show ?thesis by (intro later [OF same Cons.prems(3)]) auto
  next
    case True
    then obtain st1 where st1: "takes_block d st st1" "if False \<in> set (mst_received st1)
        then map_of (dc_modules c') mid = Some st1 \<and> m = None \<and> \<not> dn
        else map_of (dc_modules c') mid = Some (finished st1) \<and> m = Some (state_module (finished st1)) \<and> dn"
      using run(4) Cons.prems(2,4) by auto
    note t = takes_block_ok [OF mst conjunct2 [OF True] st1(1)]
    show ?thesis
    proof (cases "False \<in> set (mst_received st1)")
      case miss: True
      show ?thesis
      proof (rule later [of st1])
        fix n assume n: "n < length (mst_received st1)" "\<not> mst_received st1 ! n"
        then have "n < length (mst_received st)" "\<not> mst_received st ! n" "unat (ddb_BlockNumber d) \<noteq> n"
          unfolding t(9) by (cases "n = unat (ddb_BlockNumber d)"; simp)+
        then show "\<exists>d \<in> set ds. ddb_ModuleID d = mid \<and> ddb_DownloadID d = mst_downloadID st
            \<and> ddb_ModuleVersion d = mi_Version (mst_info st) \<and> unat (ddb_BlockNumber d) = n"
          using Cons.prems(6) [of n] by auto
      qed (use st1(2) miss t in simp_all)
    next
      case full: False
      then have "ObserveDDBWithResult d c = Some (c', Some (state_module (finished st1)), True, r, e)"
        using run(1) st1(2) by simp
      from completed_payload [OF ok _ this] have "dm_ModuleID (state_module (finished st1)) = mid
          \<and> dm_Data (state_module (finished st1)) = fst br (mst_downloadID st) mid (mi_Version (mst_info st))"
        using Cons.prems(5) True by (simp add: hits_def)
      then show ?thesis using run(1) st1(2) full by (intro exI [of _ "[]"]) (auto simp: ObserveDDB_def)
    qed
  qed
qed

text \<open>
  C18. Every module in flight is delivered: in a reachable state of a broadcast, take a module in flight
  that fits the budget for completed modules, and feed any list of blocks of the broadcast, of this
  and of other modules, with repetitions, that has every block this module still lacks. Then some
  block of the list completes the module, with its payload, and nothing panics on the way.
\<close>

theorem carousel_completes:
  assumes "reach (\<lambda>c. c = NewDSMCCCarousel limits) (\<lambda>op c. carousel_enabled op \<and> faithful (payload, bs) op) carousel_exec c"
    and "map_of (dc_modules c) mid = Some st" and "\<not> mst_completed st"
    and "ucast (mi_ModuleSize (mst_info st)) \<le> cl_MaxCompletedBytes (dc_limits c)"
    and "\<forall>d \<in> set ds. faithful (payload, bs) (CarouselDDB d)"
    and "\<And>n. n < length (mst_received st) \<Longrightarrow> \<not> mst_received st ! n \<Longrightarrow> \<exists>d \<in> set ds. ddb_ModuleID d = mid
       \<and> ddb_DownloadID d = mst_downloadID st \<and> ddb_ModuleVersion d = mi_Version (mst_info st) \<and> unat (ddb_BlockNumber d) = n"
  shows "\<exists>pre d post c1 c2 m err. ds = pre @ d # post \<and> run_ops carousel_exec (map CarouselDDB pre) c = Some c1
     \<and> ObserveDDB d c1 = Some (c2, Some m, True, err) \<and> dm_ModuleID m = mid
     \<and> dm_Data m = payload (mst_downloadID st) mid (mi_Version (mst_info st))"
  using carousel_completes_from [OF faithful_carousels.reach_inv [OF assms(1)] assms(2-6)] by simp

theorem carousel_completes_witness:
  "\<exists>pre d post c1 c2 m err. [demo_ddb 2 0 [7, 8, 9], demo_ddb 1 0 [1, 2, 3]] = pre @ d # post
     \<and> run_ops carousel_exec (map CarouselDDB pre) demo_carousel = Some c1
     \<and> ObserveDDB d c1 = Some (c2, Some m, True, err) \<and> dm_ModuleID m = 1 \<and> dm_Data m = [1, 2, 3, 4, 5, 6]"
proof -
  let ?ds = "[demo_ddb 2 0 [7, 8, 9], demo_ddb 1 0 [1, 2, 3]]"
  define st where "st = the (map_of (dc_modules demo_carousel) 1)"
  have "map_of (dc_modules demo_carousel) 1 \<noteq> None" by code_simp
  then have st: "map_of (dc_modules demo_carousel) 1 = Some st" by (auto simp: st_def)
  have fields: "mst_received st = [False, True]" "\<not> mst_completed st" "mst_downloadID st = 7" "mi_Version (mst_info st) = 1"
    "ucast (mi_ModuleSize (mst_info st)) \<le> cl_MaxCompletedBytes (dc_limits demo_carousel)"
    unfolding st_def by code_simp+
  have faithful: "\<forall>d \<in> set ?ds. faithful (demo_payload, \<lambda>_. 3) (CarouselDDB d)" by code_simp
  have needs: "\<exists>d \<in> set ?ds. ddb_ModuleID d = 1 \<and> ddb_DownloadID d = mst_downloadID st
      \<and> ddb_ModuleVersion d = mi_Version (mst_info st) \<and> unat (ddb_BlockNumber d) = n"
    if "n < length (mst_received st)" "\<not> mst_received st ! n" for n
  proof -
    have "n = 0" using that by (cases n) (auto simp: fields)
    then show ?thesis by (simp add: fields demo_ddb_def)
  qed
  show ?thesis
    using carousel_completes [OF demo_carousel_reach st fields(2,5) faithful needs] by (simp add: fields demo_payload_def)
qed

text \<open>
  A DII whose modules do not fit the budget for modules in flight together. Every module of it is
  accepted, but a later one evicts an earlier one, so that a module reported as accepted is
  neither held nor rejected; and each repetition of the same DII evicts in turn what was being
  received, so that the blocks received since the last one are lost and no module that needs blocks
  from both sides of a repetition ever completes.
\<close>

theorem DII_over_budget_thrashes:
  "\<exists>c1 c2 c3. ObserveDII demo_dii (NewDSMCCCarousel demo_limits) = Some (c1, dii_Modules demo_dii)
     \<and> ModuleInfo 1 c1 = None \<and> dc_rejected c1 = [] \<and> ModuleInfo 2 c1 = Some (demo_module 2 6)
     \<and> map_option fst (ObserveDDBWithResult (demo_ddb 2 0 [7, 8, 9]) c1) = Some c2
     \<and> map an_ReceivedBlocks (Announcements c2) = [1]
     \<and> ObserveDII demo_dii c2 = Some (c3, dii_Modules demo_dii) \<and> map an_ReceivedBlocks (Announcements c3) = [0]"
proof -
  define c1 where "c1 = fst (the (ObserveDII demo_dii (NewDSMCCCarousel demo_limits)))"
  define c2 where "c2 = fst (the (ObserveDDBWithResult (demo_ddb 2 0 [7, 8, 9]) c1))"
  define c3 where "c3 = fst (the (ObserveDII demo_dii c2))"
  have 1: "ObserveDII demo_dii (NewDSMCCCarousel demo_limits) = Some (c1, dii_Modules demo_dii)" unfolding c1_def by code_simp
  have 2: "ModuleInfo 1 c1 = None" "dc_rejected c1 = []" "ModuleInfo 2 c1 = Some (demo_module 2 6)" unfolding c1_def by code_simp+
  have 3: "map_option fst (ObserveDDBWithResult (demo_ddb 2 0 [7, 8, 9]) c1) = Some c2" "map an_ReceivedBlocks (Announcements c2) = [1]"
    unfolding c2_def c1_def by code_simp+
  have 4: "ObserveDII demo_dii c2 = Some (c3, dii_Modules demo_dii)" "map an_ReceivedBlocks (Announcements c3) = [0]"
    unfolding c3_def c2_def c1_def by code_simp+
  show ?thesis by (intro exI [of _ c1] exI [of _ c2] exI [of _ c3] conjI 1 2 3 4)
qed

end
