(* ===== verification/TS_Logo.thy ===== *)
theory TS_Logo
  imports TS_DSMCC
begin

text \<open>
  Service logos: the descriptor, the common data table and its logo image of \<open>ts/logo.go\<close>, and from
  \<open>ts/logo_common.go\<close> the logo data module, the logo carousel that assembles such modules, and the
  announcements of the software download trigger table (SDTT).
\<close>

section \<open>The logo transmission descriptor\<close>

record LogoDescriptor =
  ld_TransmissionType :: u8
  ld_LogoID :: u16
  ld_LogoVersion :: u16
  ld_DownloadDataID :: u16

definition ParseLogoTransmissionDescriptor :: "Descriptor \<Rightarrow> LogoDescriptor res" where
  "ParseLogoTransmissionDescriptor d = do {
     tag \<leftarrow> Descriptor_Tag d;
     if tag \<noteq> 0xCF then res_err (ErrUnexpectedTag tag)
     else do {
       data \<leftarrow> Descriptor_Data d;
       if blen data < 1 then res_err ErrInvalidSection
       else do {
         ty \<leftarrow> idx data 0;
         if ty = 0x01 then
           if blen data < 7 then res_err ErrInvalidSection
           else do {
             d1 \<leftarrow> idx data 1; d2 \<leftarrow> idx data 2; d3 \<leftarrow> idx data 3; d4 \<leftarrow> idx data 4; did \<leftarrow> read_u16 data 5;
             res_ok \<lparr> ld_TransmissionType = ty, ld_LogoID = be16 (d1 AND 0x01) d2, ld_LogoVersion = be16 (d3 AND 0x0f) d4,
               ld_DownloadDataID = did \<rparr> }
         else if ty = 0x02 then
           if blen data < 3 then res_err ErrInvalidSection
           else do {
             d1 \<leftarrow> idx data 1; d2 \<leftarrow> idx data 2;
             res_ok \<lparr> ld_TransmissionType = ty, ld_LogoID = be16 (d1 AND 0x01) d2, ld_LogoVersion = 0, ld_DownloadDataID = 0 \<rparr> }
         else res_err ErrInvalidSection } } }"

fun LogoDescriptorFromDescriptors :: "Descriptor list \<Rightarrow> LogoDescriptor option go" where
  "LogoDescriptorFromDescriptors [] = Some None"
| "LogoDescriptorFromDescriptors (desc # ds) = do {
     tag \<leftarrow> Descriptor_Tag desc;
     if tag \<noteq> 0xCF then LogoDescriptorFromDescriptors ds
     else do {
       logo \<leftarrow> ParseLogoTransmissionDescriptor desc;
       (case logo of Inr l \<Rightarrow> Some (Some l) | Inl e \<Rightarrow> LogoDescriptorFromDescriptors ds) } }"

section \<open>The common data table\<close>

record CDT =
  cdt_DownloadDataID :: u16
  cdt_VersionNumber :: u8
  cdt_SectionNumber :: u8
  cdt_LastSectionNumber :: u8
  cdt_OriginalNetworkID :: u16
  cdt_DataType :: u8
  cdt_Descriptors :: "Descriptor list"
  cdt_DataModule :: bytes

definition ParseCDT :: "Section \<Rightarrow> CDT res" where
  "ParseCDT s = do {
     valid \<leftarrow> table_guard 17 (\<lambda>t. t = 0xC8) None s;
     if \<not> valid then res_err ErrInvalidSection
     else do {
       total \<leftarrow> Section_TotalLength s;
       let sectionEnd = total - 4;
       descriptorsLoopLen \<leftarrow> read_len12 s 11;
       let descEnd = 13 + descriptorsLoopLen;
       if descEnd > sectionEnd then res_err ErrInvalidSection
       else do {
         did \<leftarrow> read_u16 s 3; b5 \<leftarrow> idx s 5; b6 \<leftarrow> idx s 6; b7 \<leftarrow> idx s 7; onid \<leftarrow> read_u16 s 8; ty \<leftarrow> idx s 10;
         descriptors \<leftarrow> slice s 13 descEnd;
         module \<leftarrow> slice s descEnd sectionEnd;
         res_ok \<lparr> cdt_DownloadDataID = did, cdt_VersionNumber = drop_bit 1 b5 AND 0x1f, cdt_SectionNumber = b6,
           cdt_LastSectionNumber = b7, cdt_OriginalNetworkID = onid, cdt_DataType = ty,
           cdt_Descriptors = ParseDescriptors descriptors, cdt_DataModule = module \<rparr> } } }"

definition pngSignature :: bytes where
  "pngSignature = [0x89, 0x50, 0x4e, 0x47, 0x0d, 0x0a, 0x1a, 0x0a]"

record LogoImage =
  li_OriginalNetworkID :: u16
  li_LogoID :: u16
  li_LogoVersion :: u16
  li_DownloadDataID :: u16
  li_LogoType :: u8
  li_Data :: bytes
  li_IsDeleted :: bool

definition ParseCDTLogoImage :: "CDT \<Rightarrow> LogoImage res" where
  "ParseCDTLogoImage cdt = (
     let data = cdt_DataModule cdt in
     if blen data < 7 then res_err ErrInvalidSection
     else do {
       n \<leftarrow> read_u16 data 5;
       let size' = uint n;
       if blen data < 7 + size' then res_err ErrInvalidSection
       else do {
         img \<leftarrow> slice data 7 (7 + size');
         if size' > 0 \<and> \<not> HasPrefix img pngSignature then res_err ErrInvalidSection
         else do {
           d0 \<leftarrow> idx data 0; d1 \<leftarrow> idx data 1; d2 \<leftarrow> idx data 2; d3 \<leftarrow> idx data 3; d4 \<leftarrow> idx data 4;
           res_ok \<lparr> li_OriginalNetworkID = cdt_OriginalNetworkID cdt, li_LogoID = be16 (d1 AND 0x01) d2,
             li_LogoVersion = be16 (d3 AND 0x0f) d4, li_DownloadDataID = cdt_DownloadDataID cdt, li_LogoType = d0,
             li_Data = img, li_IsDeleted = (size' = 0) \<rparr> } } })"

section \<open>The logo data module\<close>

record CommonLogoService =
  cs_OriginalNetworkID :: u16
  cs_TransportStreamID :: u16
  cs_ServiceID :: u16

record CommonLogoImage =
  cl_LogoID :: u16
  cl_LogoType :: u8
  cl_LogoVersion :: u16
  cl_DownloadID :: u16
  cl_Services :: "CommonLogoService list"
  cl_Data :: bytes
  cl_IsDeleted :: bool
  cl_IsNetwork :: bool
  cl_SourceLabel :: bytes

definition is_wildcard :: "CommonLogoService \<Rightarrow> bool" where
  "is_wildcard service \<longleftrightarrow> cs_TransportStreamID service = 0xffff \<and> cs_ServiceID service = 0xffff"

text \<open>The services of a logo: what has been read, the network flag, and the offset behind them.\<close>

fun logo_services :: "bytes \<Rightarrow> int \<Rightarrow> nat \<Rightarrow> CommonLogoService list \<Rightarrow> bool \<Rightarrow> (CommonLogoService list \<times> bool \<times> int) res" where
  "logo_services module off 0 services isNetwork = res_ok (services, isNetwork, off)"
| "logo_services module off (Suc n) services isNetwork =
     (if off + 6 > blen module then res_err ErrInvalidSection
      else do {
        onid \<leftarrow> read_u16 module off; tsid \<leftarrow> read_u16 module (off + 2); sid \<leftarrow> read_u16 module (off + 4);
        let service = \<lparr> cs_OriginalNetworkID = onid, cs_TransportStreamID = tsid, cs_ServiceID = sid \<rparr>;
        logo_services module (off + 6) n (services @ [service]) (if is_wildcard service then True else isNetwork) })"

fun logo_loop :: "bytes \<Rightarrow> u8 \<Rightarrow> int \<Rightarrow> nat \<Rightarrow> CommonLogoImage list \<Rightarrow> CommonLogoImage list res" where
  "logo_loop module logoType off 0 result = (if off \<noteq> blen module then res_err ErrInvalidSection else res_ok result)"
| "logo_loop module logoType off (Suc n) result =
     (if off + 3 > blen module then res_err ErrInvalidSection
      else do {
        raw \<leftarrow> read_u16 module off;
        count \<leftarrow> idx module (off + 2);
        res_bind (logo_services module (off + 3) (unat count) [] False) (\<lambda>(services, isNetwork, off).
          if off + 2 > blen module then res_err ErrInvalidSection
          else do {
            size' \<leftarrow> read_u16 module off;
            if off + 2 + uint size' > blen module then res_err ErrInvalidSection
            else do {
              data \<leftarrow> slice module (off + 2) (off + 2 + uint size');
              if uint size' > 0 \<and> \<not> HasPrefix data pngSignature then res_err ErrInvalidSection
              else logo_loop module logoType (off + 2 + uint size') n
                (result @ [\<lparr> cl_LogoID = raw AND 0x01ff, cl_LogoType = logoType, cl_LogoVersion = 0, cl_DownloadID = 0,
                   cl_Services = services, cl_Data = data, cl_IsDeleted = (size' = 0), cl_IsNetwork = isNetwork,
                   cl_SourceLabel = [] \<rparr>]) } }) })"

definition ParseLogoDataModule :: "bytes \<Rightarrow> CommonLogoImage list res" where
  "ParseLogoDataModule module =
     (if blen module < 3 then res_err ErrInvalidSection
      else do {
        logoType \<leftarrow> idx module 0; loops \<leftarrow> read_u16 module 1;
        logo_loop module logoType 3 (unat loops) [] })"

section \<open>The logo carousel\<close>

record dsmccLogoModuleState =
  lm_info :: DSMCCModuleInfo
  lm_downloadID :: u32
  lm_blockSize :: u16
  lm_blocks :: "(u16, bytes) gomap"
  lm_emitted :: bool

type_synonym DSMCCLogoCarousel = "(u16, dsmccLogoModuleState) gomap"

definition logo_observe_module :: "DSMCCDII \<Rightarrow> DSMCCModuleInfo \<Rightarrow> DSMCCLogoCarousel \<times> bool \<Rightarrow> DSMCCLogoCarousel \<times> bool" where
  "logo_observe_module dii module = (\<lambda>(c, accepted).
     if \<not> IsLogoModule module then (c, accepted)
     else if (case map_of c (mi_ModuleID module) of
                None \<Rightarrow> True
              | Some current \<Rightarrow> lm_downloadID current \<noteq> dii_DownloadID dii \<or> mi_Version (lm_info current) \<noteq> mi_Version module
                  \<or> mi_ModuleSize (lm_info current) \<noteq> mi_ModuleSize module)
     then (AList.update (mi_ModuleID module)
             \<lparr> lm_info = module, lm_downloadID = dii_DownloadID dii, lm_blockSize = dii_BlockSize dii, lm_blocks = [],
               lm_emitted = False \<rparr> c, True)
     else (c, True))"

definition logo_observeDII :: "DSMCCDII \<Rightarrow> DSMCCLogoCarousel \<Rightarrow> DSMCCLogoCarousel \<times> bool" where
  "logo_observeDII dii c = fold (logo_observe_module dii) (dii_Modules dii) (c, False)"

definition AcceptsSection :: "Section \<Rightarrow> DSMCCLogoCarousel \<Rightarrow> (DSMCCLogoCarousel \<times> bool) go" where
  "AcceptsSection section' c = do {
     tid \<leftarrow> Section_TableID section';
     if tid = 0x3B then do {
       r \<leftarrow> ParseDSMCCDII section';
       Some (case r of Inl e \<Rightarrow> (c, False) | Inr dii \<Rightarrow> logo_observeDII dii c) }
     else if tid = 0x3C then do {
       r \<leftarrow> ParseDSMCCDDB section';
       Some (case r of
         Inl e \<Rightarrow> (c, False)
       | Inr ddb \<Rightarrow> (c, case map_of c (ddb_ModuleID ddb) of
            None \<Rightarrow> False
          | Some module \<Rightarrow> lm_downloadID module = ddb_DownloadID ddb \<and> mi_Version (lm_info module) = ddb_ModuleVersion ddb)) }
     else Some (c, False) }"

text \<open>
  \<open>assemble\<close>: the blocks in order, truncated to the module size, when there are enough. The number
  of blocks is computed in \<open>uint32\<close>, and a block number is taken modulo \<open>2^16\<close>.
\<close>

fun assemble_blocks :: "(u16, bytes) gomap \<Rightarrow> nat \<Rightarrow> nat \<Rightarrow> bytes \<Rightarrow> bytes option" where
  "assemble_blocks blocks i 0 data = Some data"
| "assemble_blocks blocks i (Suc n) data =
     (case map_of blocks (word_of_nat i) of None \<Rightarrow> None | Some block \<Rightarrow> assemble_blocks blocks (Suc i) n (data @ block))"

definition assemble :: "dsmccLogoModuleState \<Rightarrow> bytes option go" where
  "assemble m =
     (if lm_blockSize m = 0 then Some None
      else
        let sz = mi_ModuleSize (lm_info m);
            blockCount = (sz + ucast (lm_blockSize m) - 1) div ucast (lm_blockSize m)
        in if blen (lm_blocks m) < uint blockCount then Some None
           else (case assemble_blocks (lm_blocks m) 0 (unat blockCount) [] of
                   None \<Rightarrow> Some None
                 | Some data \<Rightarrow>
                     if (word_of_nat (length data) :: u32) < sz then Some None
                     else do { payload \<leftarrow> slice data 0 (uint sz); Some (Some payload) }))"

text \<open>What \<open>ObserveDDB\<close> adds to the images of a module whose information names the logo type.\<close>

definition label_image :: "dsmccLogoModuleState \<Rightarrow> u8 option \<Rightarrow> CommonLogoImage \<Rightarrow> CommonLogoImage" where
  "label_image m logoType img =
     (case logoType of
        None \<Rightarrow> img
      | Some ty \<Rightarrow> img\<lparr> cl_LogoType := ty, cl_LogoVersion := ucast (mi_Version (lm_info m)),
                          cl_DownloadID := ucast (lm_downloadID m), cl_SourceLabel := mi_Info (lm_info m) \<rparr>)"

definition logo_ObserveDDB :: "DSMCCDDB \<Rightarrow> DSMCCLogoCarousel \<Rightarrow> (DSMCCLogoCarousel \<times> (ts_error + CommonLogoImage list)) go" where
  "logo_ObserveDDB ddb c =
     (case map_of c (ddb_ModuleID ddb) of
        None \<Rightarrow> Some (c, Inr [])
      | Some module \<Rightarrow>
          if lm_emitted module \<or> lm_downloadID module \<noteq> ddb_DownloadID ddb \<or> mi_Version (lm_info module) \<noteq> ddb_ModuleVersion ddb
          then Some (c, Inr [])
          else do {
            let module = module\<lparr> lm_blocks := AList.update (ddb_BlockNumber ddb) (ddb_Data ddb) (lm_blocks module) \<rparr>;
            let c = AList.update (ddb_ModuleID ddb) module c;
            r \<leftarrow> assemble module;
            (case r of
               None \<Rightarrow> Some (c, Inr [])
             | Some data \<Rightarrow> do {
                 images \<leftarrow> ParseLogoDataModule data;
                 (case images of
                    Inl e \<Rightarrow> Some (c, Inl e)
                  | Inr images \<Rightarrow> do {
                      logoType \<leftarrow> LogoType (lm_info module);
                      Some (AList.update (ddb_ModuleID ddb) (module\<lparr> lm_emitted := True \<rparr>) c,
                            Inr (map (label_image module logoType) images)) }) }) })"

section \<open>Announcements of common data\<close>

record CommonDataAnnouncement =
  ca_OriginalNetworkID :: u16
  ca_TransportStreamID :: u16
  ca_ServiceID :: u16
  ca_DownloadID :: u32
  ca_VersionID :: u16

definition isSatelliteCommonDataTableIDExt :: "u16 \<Rightarrow> bool" where
  "isSatelliteCommonDataTableIDExt tableIDExt \<longleftrightarrow> tableIDExt = 0xfffe \<or> tableIDExt = 0xfffc"

definition IsSatelliteOriginalNetworkID :: "u16 \<Rightarrow> bool" where
  "IsSatelliteOriginalNetworkID onid \<longleftrightarrow> onid = 0x0004 \<or> onid = 0x0006 \<or> onid = 0x0007"

definition DefaultCommonDataAnnouncement :: CommonDataAnnouncement where
  "DefaultCommonDataAnnouncement = \<lparr> ca_OriginalNetworkID = 0x0004, ca_TransportStreamID = 0x40f1, ca_ServiceID = 929,
     ca_DownloadID = 0, ca_VersionID = 0 \<rparr>"

text \<open>The module information loop of a download content descriptor: the position behind it.\<close>

fun skip_module_infos :: "bytes \<Rightarrow> int \<Rightarrow> nat \<Rightarrow> int res" where
  "skip_module_infos data pos 0 = res_ok pos"
| "skip_module_infos data pos (Suc n) =
     (if pos + 7 > blen data then res_err ErrInvalidSection
      else do {
        infoLen \<leftarrow> idx data (pos + 6);
        let pos = pos + 7 + len8 infoLen;
        if pos > blen data then res_err ErrInvalidSection else skip_module_infos data pos n })"

text \<open>The position after the compatibility descriptor, after the module information, and the check of the rest.\<close>

definition skip_compatibility :: "bytes \<Rightarrow> u8 \<Rightarrow> int res" where
  "skip_compatibility data flags =
     (if flags AND 0x20 \<noteq> 0
      then if 18 + 2 > blen data then res_err ErrInvalidSection
           else do {
             len \<leftarrow> read_u16 data 18;
             let pos = 18 + 2 + uint len;
             if pos > blen data then res_err ErrInvalidSection else res_ok pos }
      else res_ok 18)"

definition skip_modules :: "bytes \<Rightarrow> u8 \<Rightarrow> int \<Rightarrow> int res" where
  "skip_modules data flags pos =
     (if flags AND 0x10 \<noteq> 0
      then if pos + 1 > blen data then res_err ErrInvalidSection
           else do { count \<leftarrow> idx data pos; skip_module_infos data (pos + 1) (unat count) }
      else res_ok pos)"

definition skip_private_text :: "bytes \<Rightarrow> u8 \<Rightarrow> int \<Rightarrow> int res" where
  "skip_private_text data flags pos =
     (if pos + 1 > blen data then res_err ErrInvalidSection
      else do {
        privateLen \<leftarrow> idx data pos;
        let pos = pos + 1 + len8 privateLen;
        if pos > blen data then res_err ErrInvalidSection
        else if flags AND 0x08 \<noteq> 0
        then if pos + 4 > blen data then res_err ErrInvalidSection
             else do {
               textLen \<leftarrow> idx data (pos + 3);
               let pos = pos + 4 + len8 textLen;
               if pos > blen data then res_err ErrInvalidSection else res_ok pos }
        else res_ok pos })"

definition download_content :: "bytes \<Rightarrow> u32 res" where
  "download_content data =
     (if blen data < 18 then res_err ErrInvalidSection
      else do {
        flags \<leftarrow> idx data 0;
        downloadID \<leftarrow> read_u32 data 5;
        res_bind (skip_compatibility data flags) (\<lambda>pos.
        res_bind (skip_modules data flags pos) (\<lambda>pos.
        res_bind (skip_private_text data flags pos) (\<lambda>_. res_ok downloadID))) })"

text \<open>\<open>None\<close> as a result is \<open>ok = false\<close>.\<close>

function sdttDownloadContentID :: "bytes \<Rightarrow> int \<Rightarrow> u32 option res" where
  "sdttDownloadContentID descriptors off =
     (if off < blen descriptors
      then if off + 2 > blen descriptors then res_err ErrInvalidSection
           else do {
             tag \<leftarrow> idx descriptors off;
             len \<leftarrow> idx descriptors (off + 1);
             if off + 2 + len8 len > blen descriptors then res_err ErrInvalidSection
             else do {
               data \<leftarrow> slice descriptors (off + 2) (off + 2 + len8 len);
               if tag \<noteq> 0xC9 then sdttDownloadContentID descriptors (off + 2 + len8 len)
               else res_bind (download_content data) (\<lambda>did. res_ok (Some did)) } }
      else res_ok None)"
  by pat_completeness auto
termination
proof (relation "measure (\<lambda>(d, off). nat (blen d - off))", simp)
  fix d :: bytes and off :: int and len :: u8
  assume "off < blen d"
  then show "((d, off + 2 + len8 len), d, off) \<in> measure (\<lambda>(d, off). nat (blen d - off))"
    by simp (use len8_bounds(1) [of len] in linarith)
qed

declare sdttDownloadContentID.simps [simp del]

text \<open>A 12-bit length that starts at a byte: \<open>uint16(a)<<4 | uint16(b>>4)\<close>.\<close>

definition high12 :: "u8 \<Rightarrow> u8 \<Rightarrow> u16" where
  "high12 a b = push_bit 4 (ucast a) OR ucast (drop_bit 4 b)"

fun sdtt_contents :: "Section \<Rightarrow> int \<Rightarrow> u16 \<times> u16 \<times> u16 \<Rightarrow> int \<Rightarrow> nat \<Rightarrow> CommonDataAnnouncement list \<Rightarrow> CommonDataAnnouncement list res" where
  "sdtt_contents s end' ids off 0 result = res_ok result"
| "sdtt_contents s end' ids off (Suc n) result =
     (if off + 8 > end' then res_err ErrInvalidSection
      else do {
        b2 \<leftarrow> idx s (off + 2); b3 \<leftarrow> idx s (off + 3); b4 \<leftarrow> idx s (off + 4); b5 \<leftarrow> idx s (off + 5);
        b6 \<leftarrow> idx s (off + 6); b7 \<leftarrow> idx s (off + 7);
        let scheduleLen = uint (high12 b6 b7);
        let descriptorOff = off + 8 + scheduleLen;
        let contentEnd = off + 8 + uint (high12 b4 b5);
        if contentEnd > end' then res_err ErrInvalidSection
        else if descriptorOff > contentEnd then res_err ErrInvalidSection
        else do {
          descriptors \<leftarrow> slice s descriptorOff contentEnd;
          res_bind (sdttDownloadContentID descriptors 0) (\<lambda>found.
            (case ids of (onid, tsid, sid) \<Rightarrow>
               sdtt_contents s end' ids contentEnd n
                 (case found of
                    Some downloadID \<Rightarrow>
                      if scheduleLen = 0 \<and> sid \<noteq> 0 \<and> sid \<noteq> 0xffff
                      then result @ [\<lparr> ca_OriginalNetworkID = onid, ca_TransportStreamID = tsid, ca_ServiceID = sid,
                                       ca_DownloadID = downloadID, ca_VersionID = high12 b2 b3 \<rparr>]
                      else result
                  | None \<Rightarrow> result))) } })"

definition ParseSDTTCommonDataAnnouncements :: "Section \<Rightarrow> CommonDataAnnouncement list res" where
  "ParseSDTTCommonDataAnnouncements s = do {
     valid \<leftarrow> table_guard 12 (\<lambda>t. t = 0xC3) None s;
     if \<not> valid then res_err ErrInvalidSection
     else res_bind (ParseSectionHeader s) (\<lambda>header.
       if \<not> sh_CurrentNextIndicator header \<or> sh_SectionNumber header \<noteq> 0 \<or> sh_TableID header \<noteq> 0xC3 then res_ok []
       else do {
         ext \<leftarrow> read_u16 s 3;
         if \<not> isSatelliteCommonDataTableIDExt ext then res_ok []
         else do {
           total \<leftarrow> Section_TotalLength s;
           let end' = total - 4;
           if end' < 17 then res_err ErrInvalidSection
           else do {
             tsid \<leftarrow> read_u16 s 8; onid \<leftarrow> read_u16 s 10; sid \<leftarrow> read_u16 s 12;
             if \<not> IsSatelliteOriginalNetworkID onid then res_ok []
             else do {
               count \<leftarrow> idx s 14;
               sdtt_contents s end' (onid, tsid, sid) 15 (unat count) [] } } } }) }"

section \<open>Totality\<close>

lemma ParseLogoTransmissionDescriptor_total:
  assumes "descr_ok d"
  shows "go_ok (ParseLogoTransmissionDescriptor d) (\<lambda>_. True)"
  by (auto simp: ParseLogoTransmissionDescriptor_def descriptor_accessors [OF assms] go_wp Let_def)

lemma LogoDescriptorFromDescriptors_total: "list_all descr_ok ds \<Longrightarrow> go_ok (LogoDescriptorFromDescriptors ds) (\<lambda>_. True)"
proof (induction ds)
  case (Cons d ds)
  then have d: "descr_ok d" and ds: "go_ok (LogoDescriptorFromDescriptors ds) (\<lambda>_. True)" by simp_all
  obtain r where r: "ParseLogoTransmissionDescriptor d = Some r" using ParseLogoTransmissionDescriptor_total [OF d] by (auto simp: go_ok_def)
  then show ?case using ds by (cases r) (simp_all add: descriptor_accessors(1) [OF d])
qed simp

lemma ParseCDT_total: "go_ok (ParseCDT s) (\<lambda>_. True)"
proof (cases "guard_holds 17 (\<lambda>t. t = 0xC8) None s")
  case True
  note g = guard_holdsD [OF True]
  show ?thesis using True g by (auto simp: ParseCDT_def go_wp Let_def)
qed (simp add: ParseCDT_def)

lemma ParseCDTLogoImage_total: "go_ok (ParseCDTLogoImage cdt) (\<lambda>_. True)"
  by (auto simp: ParseCDTLogoImage_def go_wp Let_def)

lemma logo_services_total:
  "0 \<le> off \<Longrightarrow> go_ok (logo_services m off n acc w) (\<lambda>r. \<forall>ss f off'. r = Inr (ss, f, off') \<longrightarrow> 0 \<le> off')"
  by (induction n arbitrary: off acc w) (auto simp: go_wp Let_def)

lemma logo_loop_total: "0 \<le> off \<Longrightarrow> go_ok (logo_loop m ty off n acc) (\<lambda>_. True)"
proof (induction n arbitrary: off acc)
  case (Suc n)
  then show ?case by (auto simp: go_wp Let_def intro!: go_ok_mono [OF logo_services_total])
qed simp

lemma ParseLogoDataModule_total: "go_ok (ParseLogoDataModule m) (\<lambda>_. True)"
  by (auto simp: ParseLogoDataModule_def go_wp logo_loop_total)

lemma assemble_total: "go_ok (assemble m) (\<lambda>_. True)"
proof -
  have "uint sz \<le> blen data" if "\<not> (word_of_nat (length data) :: u32) < sz" for data :: bytes and sz
  proof -
    have "unat sz \<le> unat (word_of_nat (length data) :: u32)" using that by (simp add: not_less word_le_nat_alt)
    also have "\<dots> \<le> length data" by (simp add: unsigned_of_nat)
    finally have "int (unat sz) \<le> blen data" by (simp only: of_nat_le_iff)
    then show ?thesis by simp
  qed
  then show ?thesis by (auto simp: assemble_def go_wp Let_def not_less split: option.split)
qed

lemma logo_ObserveDDB_total: "go_ok (logo_ObserveDDB ddb c) (\<lambda>_. True)"
proof (cases "map_of c (ddb_ModuleID ddb)")
  case (Some m)
  let ?m = "m\<lparr> lm_blocks := AList.update (ddb_BlockNumber ddb) (ddb_Data ddb) (lm_blocks m) \<rparr>"
  obtain r where r: "assemble ?m = Some r" using assemble_total [of ?m] by (auto simp: go_ok_def)
  show ?thesis
  proof (cases r)
    case None
    then show ?thesis using Some r by (simp add: logo_ObserveDDB_def Let_def)
  next
    case (Some data)
    obtain img where img: "ParseLogoDataModule data = Some img" using ParseLogoDataModule_total [of data] by (auto simp: go_ok_def)
    obtain ty where "LogoType (lm_info ?m) = Some ty" using LogoType_total [of "lm_info ?m"] by auto
    then show ?thesis using \<open>map_of c _ = Some m\<close> r Some img by (cases img) (simp_all add: logo_ObserveDDB_def Let_def)
  qed
qed (simp add: logo_ObserveDDB_def)

lemma AcceptsSection_total: "s \<noteq> [] \<Longrightarrow> go_ok (AcceptsSection s c) (\<lambda>_. True)"
  using dii.total [of s] ddb.total [of s] by (auto simp: AcceptsSection_def Section_TableID_def go_wp go_ok_def)

lemma skip_module_infos_total: "0 \<le> pos \<Longrightarrow> go_ok (skip_module_infos data pos n) (\<lambda>r. \<forall>p. r = Inr p \<longrightarrow> 0 \<le> p)"
  by (induction n arbitrary: pos) (auto simp: go_wp Let_def)

lemma skip_compatibility_total: "go_ok (skip_compatibility data flags) (\<lambda>r. \<forall>p. r = Inr p \<longrightarrow> 0 \<le> p)"
  by (auto simp: skip_compatibility_def go_wp Let_def)

lemma skip_modules_total: "0 \<le> pos \<Longrightarrow> go_ok (skip_modules data flags pos) (\<lambda>r. \<forall>p. r = Inr p \<longrightarrow> 0 \<le> p)"
  by (auto simp: skip_modules_def go_wp skip_module_infos_total)

lemma skip_private_text_total: "0 \<le> pos \<Longrightarrow> go_ok (skip_private_text data flags pos) (\<lambda>_. True)"
  by (auto simp: skip_private_text_def go_wp Let_def)

lemma download_content_total: "go_ok (download_content data) (\<lambda>_. True)"
proof -
  have "go_ok (res_bind (skip_modules data flags pos) (\<lambda>pos. res_bind (skip_private_text data flags pos) (\<lambda>_. res_ok d))) (\<lambda>_. True)"
    if "0 \<le> pos" for flags pos d
    using skip_modules_total [OF that, of data flags] by (auto simp: go_wp elim!: go_ok_mono intro!: go_ok_mono [OF skip_private_text_total])
  then show ?thesis
    using skip_compatibility_total by (auto simp: download_content_def go_wp intro!: go_ok_mono [OF skip_compatibility_total])
qed

lemma sdttDownloadContentID_total: "0 \<le> off \<Longrightarrow> go_ok (sdttDownloadContentID d off) (\<lambda>_. True)"
proof (induction d off rule: sdttDownloadContentID.induct)
  case (1 d off)
  then show ?case
    by (subst sdttDownloadContentID.simps) (auto simp: go_wp intro!: go_ok_mono [OF download_content_total])
qed

lemma sdtt_contents_total: "0 \<le> off \<Longrightarrow> e \<le> blen s \<Longrightarrow> go_ok (sdtt_contents s e ids off n acc) (\<lambda>_. True)"
proof (induction n arbitrary: off acc)
  case (Suc n)
  then show ?case
    by (auto simp: go_wp Let_def uint_ge_0 intro!: go_ok_mono [OF sdttDownloadContentID_total] split: prod.splits)
qed simp

lemma ParseSDTT_total: "go_ok (ParseSDTTCommonDataAnnouncements s) (\<lambda>_. True)"
proof (cases "guard_holds 12 (\<lambda>t. t = 0xC3) None s")
  case True
  note g = guard_holdsD [OF True]
  then have l: "8 \<le> length s" by simp
  show ?thesis using True g l by (auto simp: ParseSDTTCommonDataAnnouncements_def go_wp Let_def sdtt_contents_total)
qed (simp add: ParseSDTTCommonDataAnnouncements_def)

interpretation cdt: table_parser ParseCDT "\<lambda>t. t = 0xC8"
  by unfold_locales (rule ParseCDT_total, unfold ParseCDT_def, erule table_guard_accepts, simp)

interpretation sdtt: table_parser ParseSDTTCommonDataAnnouncements "\<lambda>t. t = 0xC3"
  by unfold_locales (rule ParseSDTT_total, unfold ParseSDTTCommonDataAnnouncements_def, erule table_guard_accepts, simp)

section \<open>Reading back a logo data module\<close>

definition service_bytes :: "CommonLogoService \<Rightarrow> bytes" where
  "service_bytes s = [hi8 (cs_OriginalNetworkID s), lo8 (cs_OriginalNetworkID s), hi8 (cs_TransportStreamID s),
     lo8 (cs_TransportStreamID s), hi8 (cs_ServiceID s), lo8 (cs_ServiceID s)]"

definition logo_bytes :: "CommonLogoImage \<Rightarrow> bytes" where
  "logo_bytes l = [hi8 (cl_LogoID l), lo8 (cl_LogoID l), word_of_nat (length (cl_Services l))]
     @ concat (map service_bytes (cl_Services l))
     @ [hi8 (word_of_nat (length (cl_Data l))), lo8 (word_of_nat (length (cl_Data l)))] @ cl_Data l"

definition logo_module_bytes :: "u8 \<Rightarrow> CommonLogoImage list \<Rightarrow> bytes" where
  "logo_module_bytes ty ls = [ty, hi8 (word_of_nat (length ls)), lo8 (word_of_nat (length ls))] @ concat (map logo_bytes ls)"

text \<open>A logo as \<open>ParseLogoDataModule\<close> returns it, whose parts fit their length fields.\<close>

definition logo_ok :: "u8 \<Rightarrow> CommonLogoImage \<Rightarrow> bool" where
  "logo_ok ty l \<longleftrightarrow> cl_LogoType l = ty \<and> cl_LogoID l AND 0x01ff = cl_LogoID l \<and> length (cl_Services l) < 256
     \<and> length (cl_Data l) < 65536 \<and> (cl_Data l \<noteq> [] \<longrightarrow> HasPrefix (cl_Data l) pngSignature)
     \<and> cl_IsDeleted l = (cl_Data l = []) \<and> cl_IsNetwork l = list_ex is_wildcard (cl_Services l)
     \<and> cl_LogoVersion l = 0 \<and> cl_DownloadID l = 0 \<and> cl_SourceLabel l = []"

lemma logo_services_encode:
  "logo_services (pre @ concat (map service_bytes ss) @ post) (blen pre) (length ss) acc w
     = Some (Inr (acc @ ss, w \<or> list_ex is_wildcard ss, blen pre + blen (concat (map service_bytes ss))))"
proof (induction ss arbitrary: pre acc w)
  case (Cons x ss)
  define s where "s = pre @ concat (map service_bytes (x # ss)) @ post"
  have s: "s = pre @ service_bytes x @ concat (map service_bytes ss) @ post" by (simp add: s_def)
  have l: "length (service_bytes x) = 6" by (simp add: service_bytes_def)
  have at: "idx s (blen pre + int i) = Some (service_bytes x ! i)" if "i < 6" for i
    unfolding s using that l by (simp add: nat_add_distrib nth_append)
  note at = at [of 0, simplified] at [of 1, simplified] at [of 2, simplified] at [of 3, simplified]
    at [of 4, simplified] at [of 5, simplified]
  have v: "be16 (service_bytes x ! 0) (service_bytes x ! 1) = cs_OriginalNetworkID x"
    "be16 (service_bytes x ! 2) (service_bytes x ! 3) = cs_TransportStreamID x"
    "be16 (service_bytes x ! 4) (service_bytes x ! 5) = cs_ServiceID x"
    by (simp_all add: service_bytes_def)
  have len: "blen pre + 6 \<le> blen s" unfolding s using l by simp
  have "read_u16 s (blen pre) = Some (cs_OriginalNetworkID x)" "read_u16 s (blen pre + 2) = Some (cs_TransportStreamID x)"
    "read_u16 s (blen pre + 4) = Some (cs_ServiceID x)"
    using at v len by (simp_all add: read_u16_def add.assoc)
  then have "logo_services s (blen pre) (length (x # ss)) acc w = logo_services s (blen pre + 6) (length ss) (acc @ [x]) (if is_wildcard x then True else w)"
    using len by (cases x) simp
  also have "\<dots> = Some (Inr ((acc @ [x]) @ ss, (if is_wildcard x then True else w) \<or> list_ex is_wildcard ss,
      blen pre + 6 + blen (concat (map service_bytes ss))))"
    using Cons.IH [of "pre @ service_bytes x" "acc @ [x]"] l unfolding s by (simp add: algebra_simps)
  also have "\<dots> = Some (Inr (acc @ x # ss, w \<or> list_ex is_wildcard (x # ss), blen pre + blen (concat (map service_bytes (x # ss)))))"
    using l by auto
  finally show ?case by (simp only: s_def)
qed simp

lemma logo_loop_encode:
  "list_all (logo_ok ty) ls \<Longrightarrow> logo_loop (pre @ concat (map logo_bytes ls)) ty (blen pre) (length ls) acc = Some (Inr (acc @ ls))"
proof (induction ls arbitrary: pre acc)
  case (Cons l ls)
  define m where "m = pre @ concat (map logo_bytes (l # ls))"
  define n where "n = length (cl_Data l)"
  define hdr where "hdr = [hi8 (cl_LogoID l), lo8 (cl_LogoID l), word_of_nat (length (cl_Services l)) :: u8]"
  define ss where "ss = concat (map service_bytes (cl_Services l))"
  define rest where "rest = concat (map logo_bytes ls)"
  have ok: "logo_ok ty l" using Cons.prems by simp
  have m: "m = (pre @ hdr) @ ss @ ([hi8 (word_of_nat n), lo8 (word_of_nat n)] @ cl_Data l @ rest)"
    by (simp add: m_def logo_bytes_def hdr_def ss_def rest_def n_def)
  have n: "uint (word_of_nat n :: u16) = int n" using ok by (simp add: logo_ok_def n_def uint_nat unsigned_of_nat take_bit_nat_eq_self)
  have count: "unat (word_of_nat (length (cl_Services l)) :: u8) = length (cl_Services l)"
    using ok by (simp add: logo_ok_def unsigned_of_nat take_bit_nat_eq_self)
  have hd: "length hdr = 3" "read_u16 m (blen pre) = Some (cl_LogoID l)" "idx m (blen pre + 2) = Some (word_of_nat (length (cl_Services l)))"
    unfolding m by (simp_all add: hdr_def read_u16_def nth_append nat_add_distrib)
  have serv: "logo_services m (blen pre + 3) (length (cl_Services l)) [] False
      = Some (Inr (cl_Services l, cl_IsNetwork l, blen pre + 3 + blen ss))"
    using logo_services_encode [of "pre @ hdr" "cl_Services l" "[hi8 (word_of_nat n), lo8 (word_of_nat n)] @ cl_Data l @ rest" "[]" False]
      ok hd(1) unfolding m ss_def by (simp add: logo_ok_def)
  define off where "off = blen pre + 3 + blen ss"
  define before where "before = pre @ hdr @ ss"
  have off: "off = blen before" "m = before @ [hi8 (word_of_nat n), lo8 (word_of_nat n)] @ cl_Data l @ rest"
    using hd(1) by (simp_all add: off_def before_def m)
  have sz: "read_u16 m off = Some (word_of_nat n)" unfolding off by (simp add: read_u16_def nth_append nat_add_distrib)
  have data: "slice m (off + 2) (off + 2 + int n) = Some (cl_Data l)" unfolding off by (simp add: n_def nat_add_distrib)
  have len: "off + 2 + int n \<le> blen m" "blen pre + 3 \<le> blen m" "0 \<le> off"
    unfolding off using hd(1) by (simp_all add: n_def before_def)
  have zero: "(word_of_nat n :: u16) = 0 \<longleftrightarrow> n = 0" using n by (metis of_nat_eq_0_iff uint_0_iff)
  have png: "\<not> (int n > 0 \<and> \<not> HasPrefix (cl_Data l) pngSignature)" using ok by (auto simp: logo_ok_def n_def)
  have rec: "\<lparr> cl_LogoID = cl_LogoID l AND 0x01ff, cl_LogoType = ty, cl_LogoVersion = 0, cl_DownloadID = 0, cl_Services = cl_Services l,
      cl_Data = cl_Data l, cl_IsDeleted = (n = 0), cl_IsNetwork = cl_IsNetwork l, cl_SourceLabel = [] \<rparr> = l"
    using ok by (cases l) (simp add: logo_ok_def n_def)
  have "logo_loop m ty (blen pre) (length (l # ls)) acc = logo_loop m ty (off + 2 + int n) (length ls) (acc @ [l])"
    using hd(2,3) count serv sz data len png zero unfolding off_def [symmetric] by (simp add: n rec) auto
  also have "\<dots> = Some (Inr ((acc @ [l]) @ ls))"
    using Cons.IH [of "before @ [hi8 (word_of_nat n), lo8 (word_of_nat n)] @ cl_Data l" "acc @ [l]"] Cons.prems
    unfolding off by (simp add: rest_def n_def algebra_simps)
  finally show ?case by (simp add: m_def)
qed simp

text \<open>
  C26. Reading back a logo data module: a module written in the wire format (logo type, number of logos,
  then each logo with its identifier, its services and its PNG) is read by \<open>ParseLogoDataModule\<close> as
  exactly those logos, in order: an empty image is a deletion, and a logo is a network logo exactly
  when one of its services is the wildcard \<open>0xffff/0xffff\<close>.
\<close>

theorem ParseLogoDataModule_roundtrip:
  assumes "list_all (logo_ok ty) ls" and "length ls < 65536"
  shows "ParseLogoDataModule (logo_module_bytes ty ls) = Some (Inr ls)"
proof -
  let ?h = "[ty, hi8 (word_of_nat (length ls)), lo8 (word_of_nat (length ls))]"
  have n: "unat (word_of_nat (length ls) :: u16) = length ls" using assms(2) by (simp add: unsigned_of_nat take_bit_nat_eq_self)
  have "logo_loop (?h @ concat (map logo_bytes ls)) ty 3 (length ls) [] = Some (Inr ls)"
    using logo_loop_encode [OF assms(1), of ?h "[]"] by simp
  then show ?thesis by (simp add: ParseLogoDataModule_def logo_module_bytes_def read_u16_def n)
qed

definition sample_logos :: "CommonLogoImage list" where
  "sample_logos =
     [\<lparr> cl_LogoID = 0x101, cl_LogoType = 5, cl_LogoVersion = 0, cl_DownloadID = 0,
        cl_Services = [\<lparr> cs_OriginalNetworkID = 4, cs_TransportStreamID = 0x40f1, cs_ServiceID = 101 \<rparr>,
                       \<lparr> cs_OriginalNetworkID = 4, cs_TransportStreamID = 0xffff, cs_ServiceID = 0xffff \<rparr>],
        cl_Data = pngSignature @ [1, 2], cl_IsDeleted = False, cl_IsNetwork = True, cl_SourceLabel = [] \<rparr>,
      \<lparr> cl_LogoID = 7, cl_LogoType = 5, cl_LogoVersion = 0, cl_DownloadID = 0, cl_Services = [], cl_Data = [],
        cl_IsDeleted = True, cl_IsNetwork = False, cl_SourceLabel = [] \<rparr>]"

theorem ParseLogoDataModule_roundtrip_witness:
  "ParseLogoDataModule (logo_module_bytes 5 sample_logos) = Some (Inr sample_logos)"
  by (rule ParseLogoDataModule_roundtrip) (simp_all add: sample_logos_def logo_ok_def is_wildcard_def pngSignature_def HasPrefix_def)

text \<open>
  The logo parsers and the logo carousel never panic: the logo descriptor of any descriptor list of
  \<open>ParseDescriptors\<close>, the common data table and the SDTT of any section, the logo image of any common
  data table, any module as a logo data module, and any data block in any carousel state give a
  result or an error value.
\<close>

theorem logo_parsers_never_panic:
  "LogoDescriptorFromDescriptors (ParseDescriptors data) \<noteq> None \<and> ParseCDT s \<noteq> None \<and> ParseCDTLogoImage cdt \<noteq> None
     \<and> ParseSDTTCommonDataAnnouncements s \<noteq> None \<and> ParseLogoDataModule m \<noteq> None \<and> logo_ObserveDDB ddb c \<noteq> None"
  using LogoDescriptorFromDescriptors_total [of "ParseDescriptors data"] ParseDescriptors_ok [of _ data] ParseCDT_total [of s] ParseCDTLogoImage_total [of cdt]
    ParseSDTT_total [of s] ParseLogoDataModule_total [of m] logo_ObserveDDB_total [of ddb c] by (auto simp: go_ok_def list_all_iff)

end
