(* ===== verification/Logo_Carousel.thy ===== *)
theory Logo_Carousel
  imports TS_Logo
begin

text \<open>
  The logo carousel of \<open>ts/logo_common.go\<close> as a machine: the sequences of announcements and data blocks
  it is fed, what it emits for a module, and the proof that a broadcast module is emitted exactly once.
\<close>

section \<open>Assembling the blocks\<close>

lemma concat_chunks:
  fixes p :: "'a list"
  assumes "length p \<le> n * b"
  shows "concat (map (\<lambda>i. take b (drop (i * b) p)) [0..<n]) = p"
proof -
  have "concat (map (\<lambda>i. take b (drop (i * b) p)) [0..<n]) = take (n * b) p"
    by (induction n) (simp_all add: take_add [symmetric] add.commute)
  then show ?thesis using assms by simp
qed

lemma assemble_blocks_eq:
  "assemble_blocks blocks i n data =
     (if \<forall>j < n. map_of blocks (word_of_nat (i + j)) \<noteq> None
      then Some (data @ concat (map (\<lambda>j. the (map_of blocks (word_of_nat (i + j)))) [0..<n])) else None)"
proof (induction n arbitrary: i data)
  case (Suc n)
  have all: "(\<forall>j < Suc n. P j) \<longleftrightarrow> P 0 \<and> (\<forall>j < n. P (Suc j))" for P :: "nat \<Rightarrow> bool" by (metis Suc_less_eq gr0_conv_Suc not0_implies_Suc zero_less_Suc)
  have upt: "[0..<Suc n] = 0 # map Suc [0..<n]" by (simp add: upt_conv_Cons map_Suc_upt del: upt_Suc)
  show ?case unfolding all upt
    by (cases "map_of blocks (word_of_nat i)") (simp_all add: Suc.IH comp_def ac_simps)
qed simp

lemma keys_bound:
  fixes blocks :: "(u16, bytes) gomap"
  assumes d: "distinct (map fst blocks)" and all: "\<forall>j < n. map_of blocks (word_of_nat j) \<noteq> None" and n: "n \<le> 65536"
  shows "n \<le> length blocks"
proof -
  have inj: "inj_on (\<lambda>j. word_of_nat j :: u16) {..<n}"
    using n by (intro inj_on_inverseI [of _ unat]) (simp add: unsigned_of_nat take_bit_nat_eq_self)
  have "n = card ((\<lambda>j. word_of_nat j :: u16) ` {..<n})" using card_image [OF inj] by simp
  also have "\<dots> \<le> card (set (map fst blocks))"
    using all by (intro card_mono) (auto simp: map_of_eq_None_iff)
  also have "\<dots> \<le> length blocks" by (metis card_length length_map)
  finally show ?thesis .
qed

section \<open>The machine\<close>

datatype logo_event = LogoDII DSMCCDII | LogoDDB DSMCCDDB

fun logo_step :: "logo_event \<Rightarrow> DSMCCLogoCarousel \<Rightarrow> (DSMCCLogoCarousel \<times> CommonLogoImage list) go" where
  "logo_step (LogoDII dii) c = Some (fst (logo_observeDII dii c), [])"
| "logo_step (LogoDDB ddb) c = do {
     (c, r) \<leftarrow> logo_ObserveDDB ddb c;
     Some (c, case r of Inl e \<Rightarrow> [] | Inr images \<Rightarrow> images) }"

text \<open>The images that data blocks of module \<open>mid\<close> release.\<close>

fun of_module :: "u16 \<Rightarrow> logo_event \<Rightarrow> bool" where
  "of_module mid (LogoDII dii) \<longleftrightarrow> False"
| "of_module mid (LogoDDB ddb) \<longleftrightarrow> ddb_ModuleID ddb = mid"

fun logo_run :: "u16 \<Rightarrow> logo_event list \<Rightarrow> DSMCCLogoCarousel \<Rightarrow> CommonLogoImage list go" where
  "logo_run mid [] c = Some []"
| "logo_run mid (e # es) c = do {
     (c, out) \<leftarrow> logo_step e c;
     outs \<leftarrow> logo_run mid es c;
     Some ((if of_module mid e then out else []) @ outs) }"

text \<open>The broadcast of a module: its data \<open>p\<close> in blocks of the size the DII announces.\<close>

definition logo_block_count :: "DSMCCDII \<Rightarrow> bytes \<Rightarrow> nat" where
  "logo_block_count dii p = (length p + unat (dii_BlockSize dii) - 1) div unat (dii_BlockSize dii)"

definition logo_hit :: "DSMCCDII \<Rightarrow> DSMCCModuleInfo \<Rightarrow> DSMCCDDB \<Rightarrow> bool" where
  "logo_hit dii mi ddb \<longleftrightarrow> ddb_ModuleID ddb = mi_ModuleID mi \<and> ddb_DownloadID ddb = dii_DownloadID dii
     \<and> ddb_ModuleVersion ddb = mi_Version mi"

definition logo_block :: "DSMCCDII \<Rightarrow> bytes \<Rightarrow> u16 \<Rightarrow> bytes" where
  "logo_block dii p k = take (unat (dii_BlockSize dii)) (drop (unat k * unat (dii_BlockSize dii)) p)"

fun logo_faithful :: "DSMCCDII \<Rightarrow> DSMCCModuleInfo \<Rightarrow> bytes \<Rightarrow> logo_event \<Rightarrow> bool" where
  "logo_faithful dii mi p (LogoDII d) \<longleftrightarrow> d = dii"
| "logo_faithful dii mi p (LogoDDB ddb) \<longleftrightarrow> (logo_hit dii mi ddb \<longrightarrow>
     unat (ddb_BlockNumber ddb) < logo_block_count dii p \<and> ddb_Data ddb = logo_block dii p (ddb_BlockNumber ddb))"

text \<open>The numbers of the blocks of the module in a sequence of events.\<close>

definition logo_received :: "DSMCCDII \<Rightarrow> DSMCCModuleInfo \<Rightarrow> logo_event list \<Rightarrow> u16 set" where
  "logo_received dii mi es = {ddb_BlockNumber ddb | ddb. LogoDDB ddb \<in> set es \<and> logo_hit dii mi ddb}"

lemma logo_received_simps [simp]:
  "logo_received dii mi [] = {}"
  "logo_received dii mi (LogoDII d # es) = logo_received dii mi es"
  "logo_received dii mi (LogoDDB ddb # es) =
     (if logo_hit dii mi ddb then insert (ddb_BlockNumber ddb) (logo_received dii mi es) else logo_received dii mi es)"
  by (auto simp: logo_received_def)

definition logo_complete :: "DSMCCDII \<Rightarrow> bytes \<Rightarrow> u16 set \<Rightarrow> bool" where
  "logo_complete dii p K \<longleftrightarrow> word_of_nat ` {..<logo_block_count dii p} \<subseteq> K"

definition logo_announced :: "DSMCCDII \<Rightarrow> DSMCCModuleInfo \<Rightarrow> bytes \<Rightarrow> bool" where
  "logo_announced dii mi p \<longleftrightarrow> mi \<in> set (dii_Modules dii) \<and> distinct (map mi_ModuleID (dii_Modules dii)) \<and> IsLogoModule mi
     \<and> length p = unat (mi_ModuleSize mi) \<and> dii_BlockSize dii \<noteq> 0 \<and> uint (mi_ModuleSize mi) + 65536 \<le> 2 ^ 32
     \<and> logo_block_count dii p \<le> 65536"

definition logo_state :: "DSMCCDII \<Rightarrow> DSMCCModuleInfo \<Rightarrow> dsmccLogoModuleState" where
  "logo_state dii mi = \<lparr> lm_info = mi, lm_downloadID = dii_DownloadID dii, lm_blockSize = dii_BlockSize dii, lm_blocks = [], lm_emitted = False \<rparr>"

definition logo_state_ok :: "DSMCCDII \<Rightarrow> DSMCCModuleInfo \<Rightarrow> bytes \<Rightarrow> dsmccLogoModuleState \<Rightarrow> bool" where
  "logo_state_ok dii mi p st \<longleftrightarrow> lm_info st = mi \<and> lm_downloadID st = dii_DownloadID dii \<and> lm_blockSize st = dii_BlockSize dii
     \<and> distinct (map fst (lm_blocks st))
     \<and> (\<forall>(k, b) \<in> set (lm_blocks st). unat k < logo_block_count dii p \<and> b = logo_block dii p k)
     \<and> (lm_emitted st \<longleftrightarrow> logo_complete dii p (fst ` set (lm_blocks st)))"

lemma assemble_complete:
  assumes a: "logo_announced dii mi p" and st: "lm_info st = mi" "lm_blockSize st = dii_BlockSize dii" "distinct (map fst (lm_blocks st))"
    and blocks: "\<forall>(k, b) \<in> set (lm_blocks st). unat k < logo_block_count dii p \<and> b = logo_block dii p k"
  shows "assemble st = Some (if logo_complete dii p (fst ` set (lm_blocks st)) then Some p else None)"
proof -
  define b where "b = unat (dii_BlockSize dii)"
  define n where "n = logo_block_count dii p"
  let ?sz = "mi_ModuleSize mi" and ?bs = "ucast (dii_BlockSize dii) :: u32"
  have small: "b < 65536" using unsigned_less [of "dii_BlockSize dii"] by (simp add: b_def)
  then have b: "0 < b" "unat ?bs = b" "b < 65536"
    using a by (simp_all add: b_def logo_announced_def unat_gt_0 unsigned_ucast_eq take_bit_nat_eq_self)
  have len: "length p = unat ?sz" using a by (simp add: logo_announced_def)
  have "int (length p + 65536) \<le> int (2 ^ 32)" using a by (simp add: logo_announced_def)
  then have sz: "length p + 65536 \<le> 2 ^ 32" by (simp only: of_nat_le_iff)
  have "unat (?sz + ?bs - 1) = length p + b - 1"
  proof -
    have "unat (?sz + ?bs) = length p + b" using sz b len by (simp add: unat_word_ariths)
    moreover have "?sz + ?bs \<noteq> 0" using calculation b(1) by (metis add_eq_0_iff_both_eq_0 less_irrefl unsigned_0)
    ultimately show ?thesis by (simp add: unat_minus_one)
  qed
  then have count: "unat ((?sz + ?bs - 1) div ?bs) = n" by (simp add: unat_div b n_def logo_block_count_def b_def [symmetric])
  have ucount: "uint ((?sz + ?bs - 1) div ?bs) = int n" unfolding count [symmetric] by simp
  have n: "n \<le> 65536" using a by (simp add: logo_announced_def n_def)
  have mem: "map_of (lm_blocks st) k \<noteq> None \<longleftrightarrow> k \<in> fst ` set (lm_blocks st)" for k by (simp add: map_of_eq_None_iff)
  have compl: "logo_complete dii p (fst ` set (lm_blocks st)) \<longleftrightarrow> (\<forall>j < n. map_of (lm_blocks st) (word_of_nat j) \<noteq> None)"
    unfolding logo_complete_def n_def [symmetric] mem by auto
  show ?thesis
  proof (cases "logo_complete dii p (fst ` set (lm_blocks st))")
    case True
    then have all: "\<forall>j < n. map_of (lm_blocks st) (word_of_nat j) \<noteq> None" by (simp add: compl)
    have chunk: "the (map_of (lm_blocks st) (word_of_nat j)) = take b (drop (j * b) p)" if "j < n" for j
    proof -
      have "map_of (lm_blocks st) (word_of_nat j) \<noteq> None" using all \<open>j < n\<close> by simp
      then obtain x where x: "map_of (lm_blocks st) (word_of_nat j) = Some x" by (auto simp: not_None_eq)
      then have "x = logo_block dii p (word_of_nat j)" using blocks map_of_SomeD by fast
      moreover have "unat (word_of_nat j :: u16) = j" using that n by (simp add: unsigned_of_nat take_bit_nat_eq_self)
      ultimately show ?thesis using x by (simp add: logo_block_def b_def)
    qed
    have chunks: "map (\<lambda>j. the (map_of (lm_blocks st) (word_of_nat j))) [0..<n] = map (\<lambda>j. take b (drop (j * b) p)) [0..<n]"
      by (rule map_cong) (simp_all add: chunk)
    have "length p \<le> n * b"
    proof -
      have "n * b + (length p + b - 1) mod b = length p + b - 1" unfolding n_def logo_block_count_def b_def by simp
      moreover have "(length p + b - 1) mod b < b" using b(1) by simp
      ultimately show ?thesis by linarith
    qed
    then have "assemble_blocks (lm_blocks st) 0 n [] = Some p"
      using all by (simp only: assemble_blocks_eq add_0 chunks concat_chunks) simp
    moreover have "n \<le> length (lm_blocks st)" by (rule keys_bound [OF st(3) all n])
    moreover have "(word_of_nat (length p) :: u32) = ?sz" by (simp add: len)
    moreover have "dii_BlockSize dii \<noteq> 0" using a by (simp add: logo_announced_def)
    ultimately show ?thesis using True count ucount st by (simp add: assemble_def Let_def len not_less)
  next
    case False
    then have "\<not> (\<forall>j < n. map_of (lm_blocks st) (word_of_nat j) \<noteq> None)" by (simp add: compl)
    then have "assemble_blocks (lm_blocks st) 0 n [] = None" by (simp only: assemble_blocks_eq add_0 if_False)
    then show ?thesis using False count st by (simp add: assemble_def Let_def)
  qed
qed


section \<open>One step\<close>

lemma logo_observe_fold:
  assumes "distinct (map mi_ModuleID ms)" "mi \<in> set ms" "IsLogoModule mi"
  shows "map_of (fst (fold (logo_observe_module dii) ms (c, a))) (mi_ModuleID mi)
    = map_of (fst (logo_observe_module dii mi (c, a))) (mi_ModuleID mi)"
proof -
  have other: "map_of (fst (logo_observe_module dii m ca)) k = map_of (fst ca) k" if "mi_ModuleID m \<noteq> k" for m ca k
    using that by (cases ca) (simp add: logo_observe_module_def update_conv')
  have others: "map_of (fst (fold (logo_observe_module dii) ms ca)) k = map_of (fst ca) k" if "k \<notin> mi_ModuleID ` set ms" for ms ca k
    using that by (induction ms arbitrary: ca) (auto simp: other)
  have same: "map_of (fst (logo_observe_module dii mi ca)) k = map_of (fst (logo_observe_module dii mi cb)) k"
    if "map_of (fst ca) (mi_ModuleID mi) = map_of (fst cb) (mi_ModuleID mi)" "k = mi_ModuleID mi" for ca cb k
    using that by (cases ca; cases cb) (auto simp: logo_observe_module_def update_conv' split: option.splits)
  obtain xs ys where ms: "ms = xs @ mi # ys" using assms(2) by (auto simp: in_set_conv_decomp)
  then have "mi_ModuleID mi \<notin> mi_ModuleID ` set xs" "mi_ModuleID mi \<notin> mi_ModuleID ` set ys" using assms(1) by auto
  then show ?thesis using others same unfolding ms by simp
qed

lemma logo_observeDII_at:
  assumes "logo_announced dii mi p"
  shows "map_of c (mi_ModuleID mi) = None \<Longrightarrow> map_of (fst (logo_observeDII dii c)) (mi_ModuleID mi) = Some (logo_state dii mi)"
    and "map_of c (mi_ModuleID mi) = Some st \<Longrightarrow> logo_state_ok dii mi p st \<Longrightarrow>
      map_of (fst (logo_observeDII dii c)) (mi_ModuleID mi) = Some st"
  using assms logo_observe_fold [of "dii_Modules dii" mi dii c False]
  by (simp_all add: logo_observeDII_def logo_announced_def logo_observe_module_def update_conv' logo_state_def logo_state_ok_def)

lemma logo_ObserveDDB_other:
  "ddb_ModuleID ddb \<noteq> k \<Longrightarrow> \<exists>c' r. logo_ObserveDDB ddb c = Some (c', r) \<and> map_of c' k = map_of c k"
  using logo_ObserveDDB_total [of ddb c]
  by (auto simp: logo_ObserveDDB_def go_ok_def update_conv' Let_def split: option.splits bind_splits sum.splits if_splits)

lemma logo_ObserveDDB_miss:
  assumes "map_of c (mi_ModuleID mi) = Some st" "logo_state_ok dii mi p st" "ddb_ModuleID ddb = mi_ModuleID mi"
    "\<not> logo_hit dii mi ddb \<or> lm_emitted st"
  shows "logo_ObserveDDB ddb c = Some (c, Inr [])"
  using assms by (auto simp: logo_ObserveDDB_def logo_state_ok_def logo_hit_def)

lemma logo_ObserveDDB_hit:
  assumes a: "logo_announced dii mi p" and c: "map_of c (mi_ModuleID mi) = Some st" and ok: "logo_state_ok dii mi p st"
    and hit: "logo_hit dii mi ddb" "\<not> lm_emitted st" and f: "logo_faithful dii mi p (LogoDDB ddb)"
    and images: "ParseLogoDataModule p = Some (Inr images)" and ty: "LogoType mi = Some ty"
  shows "\<exists>c' st'. logo_ObserveDDB ddb c = Some (c', Inr (if lm_emitted st' then map (label_image (logo_state dii mi) ty) images else []))
    \<and> map_of c' (mi_ModuleID mi) = Some st' \<and> logo_state_ok dii mi p st'
    \<and> fst ` set (lm_blocks st') = insert (ddb_BlockNumber ddb) (fst ` set (lm_blocks st))"
proof -
  define st1 where "st1 = st\<lparr> lm_blocks := AList.update (ddb_BlockNumber ddb) (ddb_Data ddb) (lm_blocks st) \<rparr>"
  note ok = ok [unfolded logo_state_ok_def]
  have keys: "fst ` set (lm_blocks st1) = insert (ddb_BlockNumber ddb) (fst ` set (lm_blocks st))"
    unfolding st1_def using dom_update [of "ddb_BlockNumber ddb" "ddb_Data ddb" "lm_blocks st"] by simp
  have b: "\<forall>(k, b) \<in> set (lm_blocks st1). unat k < logo_block_count dii p \<and> b = logo_block dii p k"
  proof -
    have "set (lm_blocks st1) \<subseteq> insert (ddb_BlockNumber ddb, ddb_Data ddb) (set (lm_blocks st))"
      by (simp add: st1_def set_update_subset)
    then show ?thesis using ok f hit(1) by fastforce
  qed
  have st1: "lm_info st1 = mi" "lm_downloadID st1 = dii_DownloadID dii" "lm_blockSize st1 = dii_BlockSize dii"
    "distinct (map fst (lm_blocks st1))" "\<not> lm_emitted st1"
    using ok hit(2) by (simp_all add: st1_def distinct_update)
  note asm = assemble_complete [OF a st1(1,3,4) b]
  have guard: "ddb_ModuleID ddb = mi_ModuleID mi" "lm_downloadID st = ddb_DownloadID ddb" "mi_Version (lm_info st) = ddb_ModuleVersion ddb"
    using hit(1) ok by (simp_all add: logo_hit_def)
  show ?thesis
  proof (cases "logo_complete dii p (fst ` set (lm_blocks st1))")
    case False
    then have "logo_ObserveDDB ddb c = Some (AList.update (mi_ModuleID mi) st1 c, Inr [])"
      using c hit(2) guard asm by (simp add: logo_ObserveDDB_def st1_def Let_def)
    moreover have "logo_state_ok dii mi p st1" unfolding logo_state_ok_def using st1 b False by simp
    ultimately show ?thesis using st1(5) keys by (intro exI [of _ "AList.update (mi_ModuleID mi) st1 c"] exI [of _ st1]) (simp add: update_conv')
  next
    case True
    define st2 where "st2 = st1\<lparr> lm_emitted := True \<rparr>"
    have label: "label_image st1 ty = label_image (logo_state dii mi) ty"
      by (rule ext) (simp add: label_image_def st1 logo_state_def split: option.split)
    have "logo_ObserveDDB ddb c = Some (AList.update (mi_ModuleID mi) st2 (AList.update (mi_ModuleID mi) st1 c), Inr (map (label_image st1 ty) images))"
      using c hit(2) guard asm True images ty st1(1) by (simp add: logo_ObserveDDB_def st1_def [symmetric] st2_def Let_def)
    moreover have "logo_state_ok dii mi p st2" unfolding logo_state_ok_def using st1 b True by (simp add: st2_def)
    moreover have "lm_emitted st2" "fst ` set (lm_blocks st2) = insert (ddb_BlockNumber ddb) (fst ` set (lm_blocks st))"
      using keys by (simp_all add: st2_def)
    ultimately show ?thesis unfolding label
      by (intro exI [of _ "AList.update (mi_ModuleID mi) st2 (AList.update (mi_ModuleID mi) st1 c)"] exI [of _ st2]) (simp add: update_conv')
  qed
qed


section \<open>Exactly once\<close>

text \<open>
  From a state of the module, the images released by faithful events: none when it has been emitted or
  stays incomplete, and the images of the module, labelled, when it becomes complete.
\<close>

lemma logo_run_from:
  assumes a: "logo_announced dii mi p" and images: "ParseLogoDataModule p = Some (Inr images)" and ty: "LogoType mi = Some ty"
  shows "list_all (logo_faithful dii mi p) es \<Longrightarrow> map_of c (mi_ModuleID mi) = Some st \<Longrightarrow> logo_state_ok dii mi p st \<Longrightarrow>
    logo_run (mi_ModuleID mi) es c = Some (if \<not> lm_emitted st \<and> logo_complete dii p (fst ` set (lm_blocks st) \<union> logo_received dii mi es)
      then map (label_image (logo_state dii mi) ty) images else [])"
proof (induction es arbitrary: c st)
  case Nil
  then show ?case by (simp add: logo_state_ok_def)
next
  case (Cons e es)
  define k where "k = mi_ModuleID mi"
  have es: "list_all (logo_faithful dii mi p) es" and e: "logo_faithful dii mi p e" using Cons.prems(1) by simp_all
  note c = Cons.prems(2) [folded k_def] and ok = Cons.prems(3) and IH = Cons.IH [OF es, folded k_def]
  show ?case
  proof (cases e)
    case (LogoDII d)
    have "map_of (fst (logo_observeDII dii c)) k = Some st" using logo_observeDII_at(2) [OF a c [unfolded k_def] ok] by (simp add: k_def)
    then show ?thesis using IH ok e by (simp add: LogoDII k_def [symmetric] split: prod.split)
  next
    case (LogoDDB ddb)
    consider (other) "ddb_ModuleID ddb \<noteq> k" | (miss) "ddb_ModuleID ddb = k" "\<not> logo_hit dii mi ddb"
      | (late) "logo_hit dii mi ddb" "lm_emitted st" | (hit) "logo_hit dii mi ddb" "\<not> lm_emitted st" by blast
    then show ?thesis
    proof cases
      case other
      then obtain c' r where "logo_ObserveDDB ddb c = Some (c', r)" "map_of c' k = Some st" using logo_ObserveDDB_other [OF other, of c] c by auto
      moreover have "\<not> logo_hit dii mi ddb" using other by (simp add: logo_hit_def k_def)
      ultimately show ?thesis using IH [OF _ ok] other by (simp add: LogoDDB k_def [symmetric])
    next
      case miss
      then have "logo_ObserveDDB ddb c = Some (c, Inr [])" using logo_ObserveDDB_miss [OF c [unfolded k_def] ok] by (simp add: k_def)
      then show ?thesis using IH [OF c ok] miss by (simp add: LogoDDB k_def [symmetric])
    next
      case late
      then have "logo_ObserveDDB ddb c = Some (c, Inr [])"
        using logo_ObserveDDB_miss [OF c [unfolded k_def] ok] by (simp add: logo_hit_def)
      then show ?thesis using IH [OF c ok] late by (simp add: LogoDDB k_def [symmetric])
    next
      case hit
      from hit(1) have k: "ddb_ModuleID ddb = k" by (simp add: logo_hit_def k_def)
      obtain c' st' where step: "logo_ObserveDDB ddb c = Some (c', Inr (if lm_emitted st' then map (label_image (logo_state dii mi) ty) images else []))"
          "map_of c' k = Some st'" "logo_state_ok dii mi p st'"
          "fst ` set (lm_blocks st') = insert (ddb_BlockNumber ddb) (fst ` set (lm_blocks st))"
        using logo_ObserveDDB_hit [OF a c [unfolded k_def] ok hit e [unfolded LogoDDB] images ty] unfolding k_def by blast
      have em: "lm_emitted st' \<Longrightarrow> logo_complete dii p (insert (ddb_BlockNumber ddb) (fst ` set (lm_blocks st) \<union> logo_received dii mi es))"
        using step(3) by (auto simp: logo_state_ok_def step(4) logo_complete_def)
      show ?thesis using IH [OF step(2,3)] em hit
        by (simp add: LogoDDB step(1) step(4) k k_def [symmetric])
    qed
  qed
qed


text \<open>
  C25. A logo module is emitted exactly once. Announce a logo module with a DII and feed the carousel any
  sequence of events after it, where the DII may be repeated, blocks of other modules, downloads and
  versions may carry anything, and the blocks of the module carry its data, in any order and with any
  repetitions. Then the images released for the module are the logos of its data with the type,
  version, download and label of the announcement, once, when every block has occurred, and none otherwise.
\<close>

theorem logo_carousel_emits_once:
  assumes "logo_announced dii mi p" and "ParseLogoDataModule p = Some (Inr images)" and "LogoType mi = Some ty"
    and "list_all (logo_faithful dii mi p) es"
  shows "logo_run (mi_ModuleID mi) (LogoDII dii # es) [] =
    Some (if logo_complete dii p (logo_received dii mi es) then map (label_image (logo_state dii mi) ty) images else [])"
proof -
  have "0 < length p" using assms(2) by (auto simp: ParseLogoDataModule_def)
  moreover have "0 < unat (dii_BlockSize dii)" using assms(1) by (simp add: logo_announced_def unat_gt_0)
  ultimately have "0 < logo_block_count dii p" unfolding logo_block_count_def div_greater_zero_iff by linarith
  then have ok: "logo_state_ok dii mi p (logo_state dii mi)" by (auto simp: logo_state_ok_def logo_state_def logo_complete_def)
  have "map_of (fst (logo_observeDII dii [])) (mi_ModuleID mi) = Some (logo_state dii mi)" by (rule logo_observeDII_at(1) [OF assms(1)]) simp
  from logo_run_from [OF assms(1-3) assms(4) this ok]
  show ?thesis by (simp add: logo_state_def)
qed

definition demo_logo_info :: DSMCCModuleInfo where
  "demo_logo_info = \<lparr> mi_ModuleID = 3, mi_ModuleSize = 8, mi_Version = 2, mi_Info = LOGO_0 @ [0x35] \<rparr>"

definition demo_logo_dii :: DSMCCDII where
  "demo_logo_dii = \<lparr> dii_DownloadID = 9, dii_BlockSize = 5, dii_Modules = [demo_logo_info], dii_PrivateData = [] \<rparr>"

definition demo_logo_bytes :: bytes where
  "demo_logo_bytes = [5, 0, 1, 0, 7, 0, 0, 0]"

definition demo_logo_block :: "u16 \<Rightarrow> u8 \<Rightarrow> bytes \<Rightarrow> logo_event" where
  "demo_logo_block n v data = LogoDDB \<lparr> ddb_DownloadID = 9, ddb_ModuleID = 3, ddb_ModuleVersion = v, ddb_BlockNumber = n, ddb_Data = data \<rparr>"

definition demo_logo_events :: "logo_event list" where
  "demo_logo_events = [demo_logo_block 1 2 [0, 0, 0], demo_logo_block 0 1 [9], LogoDII demo_logo_dii, demo_logo_block 0 2 [5, 0, 1, 0, 7],
     demo_logo_block 0 2 [5, 0, 1, 0, 7], demo_logo_block 1 2 [0, 0, 0]]"

theorem logo_carousel_emits_once_witness:
  "logo_run 3 (LogoDII demo_logo_dii # demo_logo_events) [] =
    Some [\<lparr> cl_LogoID = 7, cl_LogoType = 5, cl_LogoVersion = 2, cl_DownloadID = 9, cl_Services = [], cl_Data = [],
      cl_IsDeleted = True, cl_IsNetwork = False, cl_SourceLabel = LOGO_0 @ [0x35] \<rparr>]"
proof -
  define logo where "logo = \<lparr> cl_LogoID = 7, cl_LogoType = 5, cl_LogoVersion = 0, cl_DownloadID = 0, cl_Services = [], cl_Data = [],
      cl_IsDeleted = True, cl_IsNetwork = False, cl_SourceLabel = [] \<rparr>"
  have parse: "ParseLogoDataModule demo_logo_bytes = Some (Inr [logo])"
    unfolding logo_def by code_simp
  have ty: "LogoType demo_logo_info = Some (Some 5)" by code_simp
  have count: "logo_block_count demo_logo_dii demo_logo_bytes = 2"
    by (simp add: logo_block_count_def demo_logo_dii_def demo_logo_bytes_def)
  have "IsLogoModule demo_logo_info" by code_simp
  then have ann: "logo_announced demo_logo_dii demo_logo_info demo_logo_bytes"
    by (simp add: logo_announced_def count) (simp add: demo_logo_dii_def demo_logo_info_def demo_logo_bytes_def)
  have f: "list_all (logo_faithful demo_logo_dii demo_logo_info demo_logo_bytes) demo_logo_events"
    by (simp add: demo_logo_events_def demo_logo_block_def count)
      (simp add: logo_hit_def logo_block_def demo_logo_dii_def demo_logo_info_def demo_logo_bytes_def)
  have "logo_received demo_logo_dii demo_logo_info demo_logo_events \<supseteq> {0, 1}"
    by (auto simp: demo_logo_events_def demo_logo_block_def logo_hit_def demo_logo_info_def demo_logo_dii_def)
  then have "logo_complete demo_logo_dii demo_logo_bytes (logo_received demo_logo_dii demo_logo_info demo_logo_events)"
    by (auto simp: logo_complete_def count lessThan_def less_Suc_eq numeral_2_eq_2)
  then show ?thesis using logo_carousel_emits_once [OF ann parse ty f]
    by (simp add: logo_def label_image_def logo_state_def demo_logo_info_def demo_logo_dii_def)
qed

end
