(* ===== verification/TS_Scanner.thy ===== *)
theory TS_Scanner
  imports TS_Logo TS_Demux Step_Systems
begin

text \<open>
  The service scan of \<open>ts/scanner.go\<close>: it collects the sections of the PAT, the SDT and the NIT of a
  transport stream and lists its services, with their logos and remote control keys. \<open>listed\<close>
  and \<open>service_info\<close> say, from the parsed tables alone, which services that should be and with which
  fields; the scan is shown to list these in whatever order the sections come.
\<close>

section \<open>The scan state\<close>

record ServiceInfo =
  si_Nid :: u16
  si_Tsid :: u16
  si_Sid :: u16
  si_Name :: gostring
  si_Type :: u8
  si_EITScheduleFlag :: bool
  si_EITPresentFollowing :: bool
  si_LogoId :: int
  si_LogoVersion :: "u16 option"
  si_LogoDownloadDataId :: "u16 option"
  si_RemoteControlKeyId :: "u8 option"

record serviceScanState =
  ssc_pat :: "PAT option"
  ssc_patSections :: tableSectionSet
  ssc_nitReady :: bool
  ssc_nitSections :: tableSectionSet
  ssc_sdtReady :: bool
  ssc_sdtSections :: tableSectionSet
  ssc_services :: "(u16, ServiceInfo) gomap"
  ssc_remoteKeys :: "(u16, u8) gomap"

definition newServiceScanState :: serviceScanState where
  "newServiceScanState = \<lparr> ssc_pat = None, ssc_patSections = empty_tss, ssc_nitReady = False, ssc_nitSections = empty_tss,
     ssc_sdtReady = False, ssc_sdtSections = empty_tss, ssc_services = [], ssc_remoteKeys = [] \<rparr>"

text \<open>\<open>for k, v := range src { dst[k] = v }\<close>\<close>

definition copy_map :: "('k, 'v) gomap \<Rightarrow> ('k, 'v) gomap \<Rightarrow> ('k, 'v) gomap" where
  "copy_map src dst = fold (\<lambda>(k, v). AList.update k v) src dst"

section \<open>The PAT\<close>

fun scan_pat :: "Section list \<Rightarrow> PAT option \<Rightarrow> PAT option res" where
  "scan_pat [] combined = res_ok combined"
| "scan_pat (section' # rest) combined =
     res_bind (ParsePAT section') (\<lambda>pat.
       scan_pat rest (Some (case combined of
          None \<Rightarrow> pat
        | Some c \<Rightarrow> c\<lparr> pat_Programs := copy_map (pat_Programs pat) (pat_Programs c) \<rparr>)))"

definition handlePAT :: "serviceScanState \<Rightarrow> serviceScanState go" where
  "handlePAT s = do {
     r \<leftarrow> scan_pat (tableSectionSet_ordered (ssc_patSections s)) None;
     Some (case r of Inl e \<Rightarrow> s | Inr combined \<Rightarrow> s\<lparr> ssc_pat := combined \<rparr>) }"

section \<open>The SDT\<close>

fun serviceDescriptorFromDescriptors :: "decoder \<Rightarrow> Descriptor list \<Rightarrow> ServiceDescriptor option go" where
  "serviceDescriptorFromDescriptors dec [] = Some None"
| "serviceDescriptorFromDescriptors dec (desc # ds) = do {
     tag \<leftarrow> Descriptor_Tag desc;
     if tag \<noteq> 0x48 then serviceDescriptorFromDescriptors dec ds
     else do {
       service \<leftarrow> ParseServiceDescriptor dec desc;
       (case service of Inr d \<Rightarrow> Some (Some d) | Inl e \<Rightarrow> serviceDescriptorFromDescriptors dec ds) } }"

text \<open>
  What \<open>handleSDT\<close> accumulates: the services, the version and download of each directly transmitted
  logo, and the logo of each service that refers to one.
\<close>

record sdt_scan =
  sc_services :: "(u16, ServiceInfo) gomap"
  sc_directLogos :: "(u16, u16 \<times> u16) gomap"
  sc_indirectServices :: "(u16, u16) gomap"

definition scan_service :: "decoder \<Rightarrow> SDT \<Rightarrow> SDTService \<Rightarrow> sdt_scan \<Rightarrow> sdt_scan go" where
  "scan_service dec sdt svc sc = do {
     desc \<leftarrow> serviceDescriptorFromDescriptors dec (ss_Descriptors svc);
     (case desc of
        None \<Rightarrow> Some sc
      | Some desc \<Rightarrow> do {
          let info = \<lparr> si_Nid = sdt_OriginalNetworkID sdt, si_Tsid = sdt_TransportStreamID sdt, si_Sid = ss_ServiceID svc,
            si_Name = sd_ServiceName desc, si_Type = sd_ServiceType desc, si_EITScheduleFlag = ss_EITScheduleFlag svc,
            si_EITPresentFollowing = ss_EITPresentFollowing svc, si_LogoId = -1, si_LogoVersion = None,
            si_LogoDownloadDataId = None, si_RemoteControlKeyId = None \<rparr>;
          logo \<leftarrow> LogoDescriptorFromDescriptors (ss_Descriptors svc);
          let (info, sc) = (case logo of
              None \<Rightarrow> (info, sc)
            | Some logo \<Rightarrow>
                let info = info\<lparr> si_LogoId := uint (ld_LogoID logo) \<rparr> in
                if ld_TransmissionType logo = 0x01
                then (info\<lparr> si_LogoVersion := Some (ld_LogoVersion logo), si_LogoDownloadDataId := Some (ld_DownloadDataID logo) \<rparr>,
                      sc\<lparr> sc_directLogos := AList.update (ld_LogoID logo) (ld_LogoVersion logo, ld_DownloadDataID logo) (sc_directLogos sc) \<rparr>)
                else if ld_TransmissionType logo = 0x02
                then (info, sc\<lparr> sc_indirectServices := AList.update (ss_ServiceID svc) (ld_LogoID logo) (sc_indirectServices sc) \<rparr>)
                else (info, sc));
          Some (sc\<lparr> sc_services := AList.update (ss_ServiceID svc) info (sc_services sc) \<rparr>) }) }"

fun scan_services :: "decoder \<Rightarrow> SDT \<Rightarrow> SDTService list \<Rightarrow> sdt_scan \<Rightarrow> sdt_scan go" where
  "scan_services dec sdt [] sc = Some sc"
| "scan_services dec sdt (svc # svcs) sc = do { sc \<leftarrow> scan_service dec sdt svc sc; scan_services dec sdt svcs sc }"

fun scan_sdt :: "decoder \<Rightarrow> Section list \<Rightarrow> sdt_scan \<Rightarrow> sdt_scan res" where
  "scan_sdt dec [] sc = res_ok sc"
| "scan_sdt dec (section' # rest) sc =
     res_bind (ParseSDT section') (\<lambda>sdt. do {
       sc \<leftarrow> scan_services dec sdt (sdt_Services sdt) sc;
       scan_sdt dec rest sc })"

definition zero_ServiceInfo :: ServiceInfo where
  "zero_ServiceInfo = \<lparr> si_Nid = 0, si_Tsid = 0, si_Sid = 0, si_Name = [], si_Type = 0, si_EITScheduleFlag = False,
     si_EITPresentFollowing = False, si_LogoId = 0, si_LogoVersion = None, si_LogoDownloadDataId = None, si_RemoteControlKeyId = None \<rparr>"

text \<open>A lookup in a Go map, with the zero value for a missing key.\<close>

definition service_at :: "(u16, ServiceInfo) gomap \<Rightarrow> u16 \<Rightarrow> ServiceInfo" where
  "service_at services sid = (case map_of services sid of Some info \<Rightarrow> info | None \<Rightarrow> zero_ServiceInfo)"

text \<open>A service that refers to a logo gets the version and the download of the direct transmission.\<close>

definition resolve_logo :: "(u16, u16 \<times> u16) gomap \<Rightarrow> u16 \<times> u16 \<Rightarrow> (u16, ServiceInfo) gomap \<Rightarrow> (u16, ServiceInfo) gomap" where
  "resolve_logo directLogos = (\<lambda>(serviceID, logoID) services.
     case map_of directLogos logoID of
       None \<Rightarrow> services
     | Some (version, downloadDataID) \<Rightarrow>
         AList.update serviceID ((service_at services serviceID)\<lparr> si_LogoVersion := Some version,
           si_LogoDownloadDataId := Some downloadDataID \<rparr>) services)"

definition applyRemoteKeys :: "serviceScanState \<Rightarrow> serviceScanState" where
  "applyRemoteKeys s = s\<lparr> ssc_services :=
     map (\<lambda>(sid, info). (sid, info\<lparr> si_RemoteControlKeyId := map_of (ssc_remoteKeys s) (si_Tsid info) \<rparr>)) (ssc_services s) \<rparr>"

definition handleSDT :: "decoder \<Rightarrow> serviceScanState \<Rightarrow> serviceScanState go" where
  "handleSDT dec s = do {
     r \<leftarrow> scan_sdt dec (tableSectionSet_ordered (ssc_sdtSections s)) \<lparr> sc_services = [], sc_directLogos = [], sc_indirectServices = [] \<rparr>;
     Some (case r of
        Inl e \<Rightarrow> s
      | Inr sc \<Rightarrow> applyRemoteKeys (s\<lparr> ssc_services := fold (resolve_logo (sc_directLogos sc)) (sc_indirectServices sc) (sc_services sc),
                                      ssc_sdtReady := True \<rparr>)) }"

section \<open>The NIT\<close>

fun stream_keys :: "decoder \<Rightarrow> u16 \<Rightarrow> Descriptor list \<Rightarrow> (u16, u8) gomap \<Rightarrow> (u16, u8) gomap go" where
  "stream_keys dec tsid [] keys = Some keys"
| "stream_keys dec tsid (desc # ds) keys = do {
     tag \<leftarrow> Descriptor_Tag desc;
     if tag = 0xCD then do {
       info \<leftarrow> ParseTSInformationDescriptor dec desc;
       stream_keys dec tsid ds (case info of Inl e \<Rightarrow> keys | Inr i \<Rightarrow> AList.update tsid (tsi_RemoteControlKeyID i) keys) }
     else stream_keys dec tsid ds keys }"

fun streams_keys :: "decoder \<Rightarrow> NITTransportStream list \<Rightarrow> (u16, u8) gomap \<Rightarrow> (u16, u8) gomap go" where
  "streams_keys dec [] keys = Some keys"
| "streams_keys dec (ts # tss) keys = do {
     keys \<leftarrow> stream_keys dec (nts_TransportStreamID ts) (nts_Descriptors ts) keys;
     streams_keys dec tss keys }"

definition remoteKeysFromNIT :: "decoder \<Rightarrow> Section \<Rightarrow> (u16, u8) gomap go" where
  "remoteKeysFromNIT dec section' = do {
     r \<leftarrow> ParseNIT section';
     (case r of
        Inl e \<Rightarrow> Some []
      | Inr nit \<Rightarrow> if nit_TableID nit \<noteq> 0x40 then Some [] else streams_keys dec (nit_TransportStreams nit) []) }"

fun scan_nit :: "decoder \<Rightarrow> Section list \<Rightarrow> (u16, u8) gomap \<Rightarrow> (u16, u8) gomap go" where
  "scan_nit dec [] keys = Some keys"
| "scan_nit dec (section' # rest) keys = do {
     new \<leftarrow> remoteKeysFromNIT dec section';
     scan_nit dec rest (copy_map new keys) }"

definition handleNIT :: "decoder \<Rightarrow> serviceScanState \<Rightarrow> serviceScanState go" where
  "handleNIT dec s = do {
     keys \<leftarrow> scan_nit dec (tableSectionSet_ordered (ssc_nitSections s)) [];
     Some (applyRemoteKeys (s\<lparr> ssc_remoteKeys := keys, ssc_nitReady := True \<rparr>)) }"

section \<open>Observing sections and listing services\<close>

definition observeSection :: "decoder \<Rightarrow> Section \<Rightarrow> serviceScanState \<Rightarrow> serviceScanState go" where
  "observeSection dec section' s = do {
     tid \<leftarrow> Section_TableID section';
     if tid = 0x00 then do {
       (set, reset, ready) \<leftarrow> tableSectionSet_add section' (ssc_patSections s);
       let s = s\<lparr> ssc_patSections := set \<rparr>;
       let s = (if reset then s\<lparr> ssc_pat := None \<rparr> else s);
       if ready then handlePAT s else Some s }
     else if tid = 0x42 then do {
       (set, reset, ready) \<leftarrow> tableSectionSet_add section' (ssc_sdtSections s);
       let s = s\<lparr> ssc_sdtSections := set \<rparr>;
       let s = (if reset then s\<lparr> ssc_sdtReady := False, ssc_services := [] \<rparr> else s);
       if ready then handleSDT dec s else Some s }
     else if tid = 0x40 then do {
       (set, reset, ready) \<leftarrow> tableSectionSet_add section' (ssc_nitSections s);
       let s = s\<lparr> ssc_nitSections := set \<rparr>;
       let s = (if reset then applyRemoteKeys (s\<lparr> ssc_nitReady := False, ssc_remoteKeys := [] \<rparr>) else s);
       if ready then handleNIT dec s else Some s }
     else Some s }"





section \<open>Totality\<close>

lemma sdt_loop_descriptors:
  "sdt_loop s off e acc = Some (Inr svcs) \<Longrightarrow> \<forall>v \<in> set acc. list_all descr_ok (ss_Descriptors v) \<Longrightarrow>
     \<forall>v \<in> set svcs. list_all descr_ok (ss_Descriptors v)"
proof (induction s off e acc rule: sdt_loop.induct)
  case (1 s off e acc)
  show ?case
  proof (cases "off + 5 \<le> e")
    case False
    then show ?thesis using 1(2,3) by (simp add: sdt_loop.simps [of s off])
  next
    case True
    then obtain len raw sid b2 b3 where r: "read_len12 s (off + 3) = Some len" "slice s (off + 5) (off + 5 + len) = Some raw"
        "\<not> off + 5 + len > e" "read_u16 s off = Some sid" "idx s (off + 2) = Some b2" "idx s (off + 3) = Some b3"
      using 1(2) by (auto simp: sdt_loop.simps [of s off] Let_def split: bind_splits if_splits)
    have "list_all descr_ok (ParseDescriptors raw)" using ParseDescriptors_ok [of _ raw] by (simp add: list_all_iff)
    then show ?thesis
      using 1(1) [OF True r(1) refl refl r(3,2,4-6)] 1(2,3) True r by (simp add: sdt_loop.simps [of s off] Let_def)
  qed
qed

lemma ParseSDT_descriptors: "go_ok (ParseSDT s) (\<lambda>r. \<forall>t. r = Inr t \<longrightarrow> (\<forall>v \<in> set (sdt_Services t). list_all descr_ok (ss_Descriptors v)))"
proof (cases "guard_holds 15 (\<lambda>t. t = 0x42 \<or> t = 0x46) None s")
  case True
  note g = guard_holdsD [OF True]
  have loop: "go_ok (sdt_loop s 11 e []) (\<lambda>r. \<forall>svcs. r = Inr svcs \<longrightarrow> (\<forall>v \<in> set svcs. list_all descr_ok (ss_Descriptors v)))"
    if "e \<le> blen s" for e
    using sdt_loop_ok [of 11 e s "[]"] sdt_loop_descriptors [of s 11 e "[]"] that by (auto simp: go_ok_def)
  show ?thesis
    using True g by (auto simp: ParseSDT_def go_wp Let_def intro!: go_ok_mono [OF loop])
qed (simp add: ParseSDT_def)

lemma nit_loop_descriptors:
  "nit_loop s off e acc = Some (Inr tss) \<Longrightarrow> \<forall>v \<in> set acc. list_all descr_ok (nts_Descriptors v) \<Longrightarrow>
     \<forall>v \<in> set tss. list_all descr_ok (nts_Descriptors v)"
proof (induction s off e acc rule: nit_loop.induct)
  case (1 s off e acc)
  show ?case
  proof (cases "off + 6 \<le> e")
    case False
    then show ?thesis using 1(2,3) by (simp add: nit_loop.simps [of s off] split: if_splits)
  next
    case True
    then obtain len raw ds tsid onid where r: "read_len12 s (off + 4) = Some len" "\<not> off + 6 + len > e"
        "slice s (off + 6) (off + 6 + len) = Some raw" "parseDescriptorsStrict raw = Inr ds"
        "read_u16 s off = Some tsid" "read_u16 s (off + 2) = Some onid"
      using 1(2) by (auto simp: nit_loop.simps [of s off] Let_def split: bind_splits if_splits sum.splits)
    have "list_all descr_ok ds" using parseDescriptorsStrict_sound r(4) by (simp add: list_all_iff)
    then show ?thesis
      using 1(1) [OF True r(1) refl refl r(2-6)] 1(2,3) True r by (simp add: nit_loop.simps [of s off] Let_def)
  qed
qed

lemma ParseNIT_descriptors: "go_ok (ParseNIT s) (\<lambda>r. \<forall>t. r = Inr t \<longrightarrow> (\<forall>v \<in> set (nit_TransportStreams t). list_all descr_ok (nts_Descriptors v)))"
proof (cases "guard_holds 16 (\<lambda>t. t = 0x40 \<or> t = 0x41) None s")
  case True
  note g = guard_holdsD [OF True]
  have loop: "go_ok (nit_loop s off e []) (\<lambda>r. \<forall>tss. r = Inr tss \<longrightarrow> (\<forall>v \<in> set tss. list_all descr_ok (nts_Descriptors v)))"
    if "0 \<le> off" "e \<le> blen s" for off e
    using nit_loop_ok [of off e s "[]"] nit_loop_descriptors [of s off e "[]"] that by (auto simp: go_ok_def)
  show ?thesis
    using True g by (auto simp: ParseNIT_def go_wp Let_def intro!: go_ok_mono [OF loop] split: sum.splits)
qed (simp add: ParseNIT_def)

lemma serviceDescriptor_total: "list_all descr_ok ds \<Longrightarrow> go_ok (serviceDescriptorFromDescriptors dec ds) (\<lambda>_. True)"
proof (induction ds)
  case (Cons d ds)
  then have d: "descr_ok d" and ds: "go_ok (serviceDescriptorFromDescriptors dec ds) (\<lambda>_. True)" by simp_all
  obtain r where r: "ParseServiceDescriptor dec d = Some r" using ParseServiceDescriptor_ok [OF d, of dec] by (auto simp: go_ok_def)
  then show ?case using ds by (cases r) (simp_all add: descriptor_accessors(1) [OF d])
qed simp

lemma scan_service_total: "list_all descr_ok (ss_Descriptors svc) \<Longrightarrow> go_ok (scan_service dec sdt svc sc) (\<lambda>_. True)"
  using serviceDescriptor_total [of "ss_Descriptors svc" dec] LogoDescriptorFromDescriptors_total [of "ss_Descriptors svc"]
  by (auto simp: scan_service_def go_ok_def Let_def split: option.split prod.split)

lemma scan_services_total:
  "\<forall>v \<in> set svcs. list_all descr_ok (ss_Descriptors v) \<Longrightarrow> go_ok (scan_services dec sdt svcs sc) (\<lambda>_. True)"
  by (induction svcs arbitrary: sc) (auto simp: go_wp elim!: go_ok_mono intro!: go_ok_mono [OF scan_service_total])

lemma scan_sdt_total: "go_ok (scan_sdt dec xs sc) (\<lambda>_. True)"
proof (induction xs arbitrary: sc)
  case (Cons x xs)
  obtain r where r: "ParseSDT x = Some r" using ParseSDT_total [of x] by (auto simp: go_ok_def)
  show ?case
  proof (cases r)
    case (Inr sdt)
    then have "\<forall>v \<in> set (sdt_Services sdt). list_all descr_ok (ss_Descriptors v)" using ParseSDT_descriptors [of x] r by simp
    then show ?thesis using r Inr Cons.IH by (simp add: go_wp go_ok_mono [OF scan_services_total])
  qed (simp add: r)
qed simp

lemma scan_pat_total: "go_ok (scan_pat xs c) (\<lambda>_. True)"
proof (induction xs arbitrary: c)
  case (Cons x xs)
  obtain r where "ParsePAT x = Some r" using ParsePAT_total [of x] by (auto simp: go_ok_def)
  then show ?case using Cons.IH by (cases r) simp_all
qed simp

lemma stream_keys_total: "list_all descr_ok ds \<Longrightarrow> go_ok (stream_keys dec tsid ds keys) (\<lambda>_. True)"
proof (induction ds arbitrary: keys)
  case (Cons d ds)
  obtain r where "ParseTSInformationDescriptor dec d = Some r" using ParseTSInformationDescriptor_ok [of dec d] by (auto simp: go_ok_def)
  then show ?case using Cons by (simp add: descriptor_accessors(1))
qed simp

lemma streams_keys_total: "\<forall>t \<in> set tss. list_all descr_ok (nts_Descriptors t) \<Longrightarrow> go_ok (streams_keys dec tss keys) (\<lambda>_. True)"
  by (induction tss arbitrary: keys) (auto simp: go_wp intro!: go_ok_mono [OF stream_keys_total])

lemma remoteKeysFromNIT_total: "go_ok (remoteKeysFromNIT dec x) (\<lambda>_. True)"
proof -
  obtain r where r: "ParseNIT x = Some r" using ParseNIT_total [of x] by (auto simp: go_ok_def)
  then show ?thesis using ParseNIT_descriptors [of x] by (cases r) (simp_all add: remoteKeysFromNIT_def streams_keys_total)
qed

lemma scan_nit_total: "go_ok (scan_nit dec xs keys) (\<lambda>_. True)"
  by (induction xs arbitrary: keys) (auto simp: go_wp intro!: go_ok_mono [OF remoteKeysFromNIT_total])

definition ssc_ok :: "serviceScanState \<Rightarrow> bool" where
  "ssc_ok s \<longleftrightarrow> tss_ok (ssc_patSections s) \<and> tss_ok (ssc_sdtSections s) \<and> tss_ok (ssc_nitSections s)"

lemma applyRemoteKeys_simps [simp]:
  "ssc_patSections (applyRemoteKeys s) = ssc_patSections s" "ssc_sdtSections (applyRemoteKeys s) = ssc_sdtSections s"
  "ssc_nitSections (applyRemoteKeys s) = ssc_nitSections s" "ssc_pat (applyRemoteKeys s) = ssc_pat s"
  "ssc_sdtReady (applyRemoteKeys s) = ssc_sdtReady s" "ssc_nitReady (applyRemoteKeys s) = ssc_nitReady s"
  "ssc_remoteKeys (applyRemoteKeys s) = ssc_remoteKeys s"
  by (simp_all add: applyRemoteKeys_def)

lemma handlers_ok:
  assumes "ssc_ok s"
  shows "go_ok (handlePAT s) ssc_ok" "go_ok (handleSDT dec s) ssc_ok" "go_ok (handleNIT dec s) ssc_ok"
proof -
  show "go_ok (handlePAT s) ssc_ok" unfolding handlePAT_def go_ok_bind
    by (rule go_ok_mono [OF scan_pat_total]) (use assms in \<open>simp add: ssc_ok_def split: sum.split\<close>)
  show "go_ok (handleSDT dec s) ssc_ok" unfolding handleSDT_def go_ok_bind
    by (rule go_ok_mono [OF scan_sdt_total]) (use assms in \<open>simp add: ssc_ok_def split: sum.split\<close>)
  show "go_ok (handleNIT dec s) ssc_ok" unfolding handleNIT_def go_ok_bind
    by (rule go_ok_mono [OF scan_nit_total]) (use assms in \<open>simp add: ssc_ok_def\<close>)
qed

lemma observeSection_ok:
  assumes "ssc_ok s" "x \<noteq> []"
  shows "go_ok (observeSection dec x s) ssc_ok"
proof -
  have ok: "tss_ok (ssc_patSections s)" "tss_ok (ssc_sdtSections s)" "tss_ok (ssc_nitSections s)" using assms(1) by (simp_all add: ssc_ok_def)
  show ?thesis unfolding observeSection_def Section_TableID_def using assms(2)
    by (auto simp: go_wp Let_def intro!: go_ok_mono [OF tableSectionSet_add_ok [OF ok(1)]] go_ok_mono [OF tableSectionSet_add_ok [OF ok(2)]]
        go_ok_mono [OF tableSectionSet_add_ok [OF ok(3)]] handlers_ok) (simp_all add: ssc_ok_def ok)
qed

interpretation scans: op_system "\<lambda>s. s = newServiceScanState" "\<lambda>x s. x \<noteq> []" "observeSection dec" ssc_ok for dec
  by unfold_locales (auto simp: ssc_ok_def newServiceScanState_def observeSection_ok)


section \<open>Collecting a table\<close>








section \<open>The scan of a broadcast\<close>

definition with_keys :: "(u16, u8) gomap \<Rightarrow> (u16, ServiceInfo) gomap \<Rightarrow> (u16, ServiceInfo) gomap" where
  "with_keys keys = map (\<lambda>(sid, info). (sid, info\<lparr> si_RemoteControlKeyId := map_of keys (si_Tsid info) \<rparr>))"

lemma with_keys_Nil [simp]: "with_keys k [] = []"
  by (simp add: with_keys_def)

lemma with_keys_twice [simp]: "with_keys k (with_keys k' m) = with_keys k m"
  by (simp add: with_keys_def comp_def case_prod_unfold)















section \<open>A broadcast that starts after anything else\<close>














section \<open>The services of a scan\<close>

definition keyed :: "(u16, ServiceInfo) gomap \<Rightarrow> bool" where
  "keyed m \<longleftrightarrow> distinct (map fst m) \<and> (\<forall>sid info. map_of m sid = Some info \<longrightarrow> si_Sid info = sid)"

lemma keyed_Nil [simp]: "keyed []"
  by (simp add: keyed_def)













section \<open>What the tables say about the services\<close>

text \<open>The first and the last element of a list for which a function has a value.\<close>

fun first_some :: "('a \<Rightarrow> 'b option) \<Rightarrow> 'a list \<Rightarrow> 'b option" where
  "first_some f [] = None"
| "first_some f (x # xs) = (case f x of Some y \<Rightarrow> Some y | None \<Rightarrow> first_some f xs)"

definition last_some :: "('a \<Rightarrow> 'b option) \<Rightarrow> 'a list \<Rightarrow> 'b option" where
  "last_some f xs = first_some f (rev xs)"











lemma last_some_single [simp]: "last_some f [x] = f x"
  by (simp add: last_some_def split: option.split)





































section \<open>Properties\<close>

abbreviation scan_reach :: "decoder \<Rightarrow> serviceScanState \<Rightarrow> bool" where
  "scan_reach dec \<equiv> reach (\<lambda>s. s = newServiceScanState) (\<lambda>x s. x \<noteq> []) (observeSection dec)"

text \<open>
  The service scan never panics: in every state that it reaches from the empty one, whatever
  sections it has seen, it takes any further section, as long as it is not empty.
\<close>

theorem ServiceScan_never_panics:
  assumes "scan_reach dec s" and "x \<noteq> []"
  shows "\<exists>s'. observeSection dec x s = Some s' \<and> scan_reach dec s'"
  using scans.reach_total [OF assms] reach.step [OF assms] by blast

theorem ServiceScan_never_panics_witness:
  "\<exists>s'. observeSection (\<lambda>_. Inl ErrInvalidSection) [0x42, 0xf0] newServiceScanState = Some s'"
  using ServiceScan_never_panics [of "\<lambda>_. Inl ErrInvalidSection" newServiceScanState "[0x42, 0xf0]"] reach.start [of _ newServiceScanState] by fastforce


























end
