(* ===== verification/Service_Store.thy ===== *)
theory Service_Store
  imports Configuration TS_Scanner "HOL-Library.Char_ord" "HOL-Library.List_Lexorder" "HOL-Library.Product_Lexorder"
begin

text \<open>
  The store of services: \<open>internal/service/service.go\<close> and \<open>sqlite_store.go\<close> with the statements of
  \<open>internal/db/queries/services.sql\<close> on the tables of \<open>schema.sql\<close>. A table is the list of its rows in
  the order in which the database returns them when a statement does not order them; the primary key
  of a table makes an upsert replace the row with its key. Statements succeed: an error of the database
  is passed on by the code, and a transaction that fails leaves the tables unchanged.
\<close>

section \<open>Services\<close>

record EPGStatus =
  ep_LastAttemptAt :: "int option"
  ep_LastSuccessAt :: "int option"
  ep_LastError :: string

record Service =
  sv_Id :: string
  sv_ServiceId :: u16
  sv_NetworkId :: u16
  sv_TransportStreamId :: u16
  sv_Name :: gostring
  sv_Type :: u8
  sv_EITScheduleFlag :: bool
  sv_EITPresentFollowing :: bool
  sv_LogoId :: "int option"
  sv_LogoVersion :: "int option"
  sv_LogoDownloadDataId :: "int option"
  sv_HasLogoData :: bool
  sv_RemoteControlKeyId :: u8
  sv_ChannelType :: string
  sv_ChannelId :: string
  sv_EPG :: EPGStatus

record LogoTarget =
  lt_NetworkId :: u16
  lt_ServiceId :: u16
  lt_TransportStreamId :: u16
  lt_ChannelType :: string
  lt_ChannelId :: string
  lt_LogoId :: int
  lt_LogoVersion :: int
  lt_LogoDownloadDataId :: int
  lt_IsCommonData :: bool
  lt_IsSDTTProbe :: bool

record StoredAnnouncement =
  sa_OriginalNetworkID :: u16
  sa_TransportStreamID :: u16
  sa_ServiceID :: u16
  sa_DownloadID :: u32
  sa_VersionID :: u16
  sa_ObservedChannelType :: string
  sa_ObservedChannelID :: string
  sa_SeenAt :: int

definition ItemId :: "Service \<Rightarrow> int" where
  "ItemId s = uint (sv_NetworkId s) * 100000 + uint (sv_ServiceId s)"

section \<open>Tables\<close>

record services_row =
  row_id :: string
  row_service_id :: int
  row_network_id :: int
  row_transport_stream_id :: int
  row_name :: gostring
  row_type :: int
  row_eit_schedule_flag :: int
  row_eit_present_following :: int
  row_logo_id :: "int option"
  row_logo_version :: "int option"
  row_logo_download_data_id :: "int option"
  row_remote_control_key_id :: int
  row_channel_type :: string
  row_channel_id :: string

record service_logos_row =
  logo_network_id :: int
  logo_transport_stream_id :: int
  logo_service_id :: int
  logo_logo_id :: int
  logo_logo_type :: int
  logo_logo_version :: int
  logo_download_data_id :: int
  logo_data :: bytes
  logo_updated_at :: int

record common_data_row =
  cd_original_network_id :: int
  cd_transport_stream_id :: int
  cd_service_id :: int
  cd_download_id :: int
  cd_version_id :: int
  cd_observed_channel_type :: string
  cd_observed_channel_id :: string
  cd_seen_at :: int

record epg_status_row =
  epg_network_id :: int
  epg_service_id :: int
  epg_last_attempt_at :: "int option"
  epg_last_success_at :: "int option"
  epg_last_error :: "string option"

record database =
  db_services :: "services_row list"
  db_service_logos :: "service_logos_row list"
  db_common_data_announcements :: "common_data_row list"
  db_epg_service_status :: "epg_status_row list"

text \<open>\<open>INSERT \<dots> ON CONFLICT(key) DO UPDATE\<close>\<close>

definition upsert :: "('r \<Rightarrow> 'k) \<Rightarrow> ('r \<Rightarrow> 'r) \<Rightarrow> 'r \<Rightarrow> 'r list \<Rightarrow> 'r list" where
  "upsert key update row table =
     (if list_ex (\<lambda>r. key r = key row) table then map (\<lambda>r. if key r = key row then update r else r) table else table @ [row])"

section \<open>Reading services\<close>

definition fromServiceRow :: "services_row \<Rightarrow> bool \<Rightarrow> epg_status_row option \<Rightarrow> Service" where
  "fromServiceRow s has_logo_data epg =
     \<lparr> sv_Id = row_id s, sv_ServiceId = word_of_int (row_service_id s), sv_NetworkId = word_of_int (row_network_id s),
       sv_TransportStreamId = word_of_int (row_transport_stream_id s), sv_Name = row_name s, sv_Type = word_of_int (row_type s),
       sv_EITScheduleFlag = (row_eit_schedule_flag s \<noteq> 0), sv_EITPresentFollowing = (row_eit_present_following s \<noteq> 0),
       sv_LogoId = row_logo_id s, sv_LogoVersion = row_logo_version s, sv_LogoDownloadDataId = row_logo_download_data_id s,
       sv_HasLogoData = has_logo_data, sv_RemoteControlKeyId = word_of_int (row_remote_control_key_id s),
       sv_ChannelType = row_channel_type s, sv_ChannelId = row_channel_id s,
       sv_EPG = \<lparr> ep_LastAttemptAt = Option.bind epg epg_last_attempt_at, ep_LastSuccessAt = Option.bind epg epg_last_success_at,
                 ep_LastError = (case Option.bind epg epg_last_error of Some e \<Rightarrow> e | None \<Rightarrow> []) \<rparr> \<rparr>"

definition logo_matches :: "services_row \<Rightarrow> service_logos_row \<Rightarrow> bool" where
  "logo_matches s l \<longleftrightarrow> logo_network_id l = row_network_id s \<and> logo_transport_stream_id l = row_transport_stream_id s
     \<and> logo_service_id l = row_service_id s \<and> row_logo_id s = Some (logo_logo_id l)
     \<and> row_logo_version s = Some (logo_logo_version l) \<and> row_logo_download_data_id s = Some (logo_download_data_id l)"

definition epg_of :: "database \<Rightarrow> services_row \<Rightarrow> epg_status_row option" where
  "epg_of db s = find (\<lambda>e. epg_network_id e = row_network_id s \<and> epg_service_id e = row_service_id s) (db_epg_service_status db)"

definition joined :: "database \<Rightarrow> services_row \<Rightarrow> Service" where
  "joined db s = fromServiceRow s (list_ex (logo_matches s) (db_service_logos db)) (epg_of db s)"

definition select_services :: "(services_row \<Rightarrow> bool) \<Rightarrow> database \<Rightarrow> Service list" where
  "select_services p db = map (joined db) (filter p (db_services db))"

definition first_row :: "'a list \<Rightarrow> 'a option" where
  "first_row rows = (case rows of [] \<Rightarrow> None | r # rs \<Rightarrow> Some r)"

definition store_List :: "database \<Rightarrow> Service list" where
  "store_List db = select_services (\<lambda>s. True) db"

definition store_Count :: "database \<Rightarrow> int" where
  "store_Count db = blen (db_services db)"

definition store_GetByID :: "string \<Rightarrow> database \<Rightarrow> Service option" where
  "store_GetByID sid db = first_row (select_services (\<lambda>s. row_id s = sid) db)"

definition row_item_id :: "services_row \<Rightarrow> int" where
  "row_item_id s = row_network_id s * 100000 + row_service_id s"

definition store_GetByItemID :: "int \<Rightarrow> database \<Rightarrow> Service option" where
  "store_GetByItemID itemID db = first_row (select_services (\<lambda>s. row_item_id s = itemID) db)"

definition store_GetByNetworkServiceID :: "u16 \<Rightarrow> u16 \<Rightarrow> database \<Rightarrow> Service option" where
  "store_GetByNetworkServiceID networkID serviceID db =
     first_row (select_services (\<lambda>s. row_network_id s = uint networkID \<and> row_service_id s = uint serviceID) db)"

definition in_channel :: "string \<Rightarrow> string \<Rightarrow> services_row \<Rightarrow> bool" where
  "in_channel channelType channelId s \<longleftrightarrow> row_channel_type s = channelType \<and> row_channel_id s = channelId"

definition store_GetByChannel :: "string \<Rightarrow> string \<Rightarrow> database \<Rightarrow> Service list" where
  "store_GetByChannel channelType channelId db = select_services (in_channel channelType channelId) db"

definition store_GetByChannelAndID :: "string \<Rightarrow> string \<Rightarrow> string \<Rightarrow> int \<Rightarrow> database \<Rightarrow> Service option" where
  "store_GetByChannelAndID channelType channelId sid itemID db =
     first_row (select_services (\<lambda>s. in_channel channelType channelId s \<and> row_id s = sid) db
       @ select_services (\<lambda>s. in_channel channelType channelId s \<and> row_id s \<noteq> sid \<and> row_item_id s = itemID) db)"

definition store_GetByTriplet :: "u16 \<Rightarrow> u16 \<Rightarrow> u16 \<Rightarrow> database \<Rightarrow> Service option" where
  "store_GetByTriplet networkID transportStreamID serviceID db =
     first_row (select_services (\<lambda>s. row_network_id s = uint networkID \<and> row_transport_stream_id s = uint transportStreamID
       \<and> row_service_id s = uint serviceID) db)"

section \<open>Logos and announcements\<close>

definition logo_rank :: "int \<Rightarrow> int" where
  "logo_rank logo_type = (if logo_type = 5 then 0 else if logo_type = 3 then 1 else if logo_type = 4 then 2 else if logo_type = 2 then 3
     else if logo_type = 0 then 4 else if logo_type = 1 then 5 else 6)"

definition store_GetLogoByServiceItemID :: "int \<Rightarrow> database \<Rightarrow> bytes option" where
  "store_GetLogoByServiceItemID itemID db =
     map_option logo_data (first_row (sort_key (\<lambda>l. (logo_rank (logo_logo_type l), logo_logo_type l))
       (concat (map (\<lambda>s. filter (logo_matches s) (db_service_logos db)) (filter (\<lambda>s. row_item_id s = itemID) (db_services db))))))"

definition logo_target :: "services_row \<Rightarrow> LogoTarget" where
  "logo_target s = \<lparr> lt_NetworkId = word_of_int (row_network_id s), lt_ServiceId = word_of_int (row_service_id s),
     lt_TransportStreamId = word_of_int (row_transport_stream_id s), lt_ChannelType = row_channel_type s, lt_ChannelId = row_channel_id s,
     lt_LogoId = the (row_logo_id s), lt_LogoVersion = the (row_logo_version s), lt_LogoDownloadDataId = the (row_logo_download_data_id s),
     lt_IsCommonData = False, lt_IsSDTTProbe = False \<rparr>"

definition target_order :: "services_row list \<Rightarrow> services_row list" where
  "target_order = sort_key (\<lambda>s. (row_channel_type s, row_channel_id s, row_network_id s, row_service_id s))"

definition has_logo_fields :: "services_row \<Rightarrow> bool" where
  "has_logo_fields s \<longleftrightarrow> (case row_logo_id s of Some v \<Rightarrow> v \<ge> 0 | None \<Rightarrow> False) \<and> row_logo_version s \<noteq> None \<and> row_logo_download_data_id s \<noteq> None"

definition store_KnownLogoTargets :: "database \<Rightarrow> LogoTarget list" where
  "store_KnownLogoTargets db = map logo_target (target_order (filter has_logo_fields (db_services db)))"

definition store_MissingLogoTargets :: "database \<Rightarrow> LogoTarget list" where
  "store_MissingLogoTargets db = map logo_target (target_order
     (filter (\<lambda>s. has_logo_fields s \<and> \<not> list_ex (logo_matches s) (db_service_logos db)) (db_services db)))"

definition stored_announcement :: "common_data_row \<Rightarrow> StoredAnnouncement" where
  "stored_announcement r = \<lparr> sa_OriginalNetworkID = word_of_int (cd_original_network_id r),
     sa_TransportStreamID = word_of_int (cd_transport_stream_id r), sa_ServiceID = word_of_int (cd_service_id r),
     sa_DownloadID = word_of_int (cd_download_id r), sa_VersionID = word_of_int (cd_version_id r),
     sa_ObservedChannelType = cd_observed_channel_type r, sa_ObservedChannelID = cd_observed_channel_id r, sa_SeenAt = cd_seen_at r \<rparr>"

definition store_ListCommonDataAnnouncements :: "database \<Rightarrow> StoredAnnouncement list" where
  "store_ListCommonDataAnnouncements db = map stored_announcement
     (sort_key (\<lambda>r. (- cd_seen_at r, cd_original_network_id r, cd_transport_stream_id r, cd_service_id r)) (db_common_data_announcements db))"

definition store_UpsertCommonDataAnnouncement :: "StoredAnnouncement \<Rightarrow> database \<Rightarrow> database" where
  "store_UpsertCommonDataAnnouncement a db =
     (let row = \<lparr> cd_original_network_id = uint (sa_OriginalNetworkID a), cd_transport_stream_id = uint (sa_TransportStreamID a),
            cd_service_id = uint (sa_ServiceID a), cd_download_id = uint (sa_DownloadID a), cd_version_id = uint (sa_VersionID a),
            cd_observed_channel_type = sa_ObservedChannelType a, cd_observed_channel_id = sa_ObservedChannelID a, cd_seen_at = sa_SeenAt a \<rparr>
      in db\<lparr> db_common_data_announcements :=
           upsert (\<lambda>r. (cd_original_network_id r, cd_transport_stream_id r, cd_service_id r)) (\<lambda>r. row) row (db_common_data_announcements db) \<rparr>)"

definition store_UpsertLogo :: "u16 \<Rightarrow> u16 \<Rightarrow> u16 \<Rightarrow> int \<Rightarrow> int \<Rightarrow> int \<Rightarrow> int \<Rightarrow> bytes \<Rightarrow> int \<Rightarrow> database \<Rightarrow> database" where
  "store_UpsertLogo networkID transportStreamID serviceID logoID logoType logoVersion downloadDataID data updatedAt db =
     (let row = \<lparr> logo_network_id = uint networkID, logo_transport_stream_id = uint transportStreamID, logo_service_id = uint serviceID,
            logo_logo_id = logoID, logo_logo_type = logoType, logo_logo_version = logoVersion, logo_download_data_id = downloadDataID,
            logo_data = data, logo_updated_at = updatedAt \<rparr>
      in db\<lparr> db_service_logos :=
           upsert (\<lambda>r. (logo_network_id r, logo_transport_stream_id r, logo_service_id r, logo_logo_id r, logo_logo_type r)) (\<lambda>r. row) row
             (db_service_logos db) \<rparr>)"

definition store_DeleteLogo :: "u16 \<Rightarrow> u16 \<Rightarrow> u16 \<Rightarrow> int \<Rightarrow> int \<Rightarrow> int \<Rightarrow> int \<Rightarrow> database \<Rightarrow> database" where
  "store_DeleteLogo networkID transportStreamID serviceID logoID logoType logoVersion downloadDataID db =
     db\<lparr> db_service_logos := filter (\<lambda>r. \<not> (logo_network_id r = uint networkID \<and> logo_transport_stream_id r = uint transportStreamID
        \<and> logo_service_id r = uint serviceID \<and> logo_logo_id r = logoID \<and> logo_logo_type r = logoType
        \<and> logo_logo_version r = logoVersion \<and> logo_download_data_id r = downloadDataID)) (db_service_logos db) \<rparr>"

definition store_UpdateServiceLogoMetadata :: "u16 \<Rightarrow> u16 \<Rightarrow> u16 \<Rightarrow> int \<Rightarrow> int \<Rightarrow> int \<Rightarrow> database \<Rightarrow> database \<times> bool" where
  "store_UpdateServiceLogoMetadata networkID transportStreamID serviceID logoID logoVersion downloadDataID db =
     (let hit = (\<lambda>s. row_network_id s = uint networkID \<and> row_transport_stream_id s = uint transportStreamID \<and> row_service_id s = uint serviceID)
      in (db\<lparr> db_services := map (\<lambda>s. if hit s then s\<lparr> row_logo_id := Some logoID, row_logo_version := Some logoVersion,
              row_logo_download_data_id := Some downloadDataID \<rparr> else s) (db_services db) \<rparr>,
          list_ex hit (db_services db)))"

section \<open>EPG status\<close>

definition nullableString :: "string \<Rightarrow> string option" where
  "nullableString value = (if value = [] then None else Some value)"

definition epg_key :: "epg_status_row \<Rightarrow> int \<times> int" where
  "epg_key r = (epg_network_id r, epg_service_id r)"

definition store_SetEPGAttempt :: "u16 \<Rightarrow> u16 \<Rightarrow> int \<Rightarrow> string \<Rightarrow> database \<Rightarrow> database" where
  "store_SetEPGAttempt networkID serviceID attemptedAt lastError db =
     db\<lparr> db_epg_service_status := upsert epg_key
       (\<lambda>r. r\<lparr> epg_last_attempt_at := Some attemptedAt, epg_last_error := nullableString lastError \<rparr>)
       \<lparr> epg_network_id = uint networkID, epg_service_id = uint serviceID, epg_last_attempt_at = Some attemptedAt,
         epg_last_success_at = None, epg_last_error = nullableString lastError \<rparr> (db_epg_service_status db) \<rparr>"

definition store_SetEPGSuccess :: "u16 \<Rightarrow> u16 \<Rightarrow> int \<Rightarrow> database \<Rightarrow> database" where
  "store_SetEPGSuccess networkID serviceID succeededAt db =
     db\<lparr> db_epg_service_status := upsert epg_key
       (\<lambda>r. r\<lparr> epg_last_attempt_at := Some succeededAt, epg_last_success_at := Some succeededAt, epg_last_error := None \<rparr>)
       \<lparr> epg_network_id = uint networkID, epg_service_id = uint serviceID, epg_last_attempt_at = Some succeededAt,
         epg_last_success_at = Some succeededAt, epg_last_error = None \<rparr> (db_epg_service_status db) \<rparr>"

definition store_EPGSummary :: "int \<Rightarrow> int \<Rightarrow> database \<Rightarrow> int \<times> int \<times> int option" where
  "store_EPGSummary staleAfter now db =
     (let status = map (epg_of db) (db_services db);
          success = map (\<lambda>e. Option.bind e epg_last_success_at) status;
          failure = map (\<lambda>e. Option.bind e epg_last_error) status
      in (blen (filter (\<lambda>t. case t of None \<Rightarrow> True | Some t \<Rightarrow> now - t > staleAfter) success),
          blen (filter (\<lambda>e. case e of None \<Rightarrow> False | Some e \<Rightarrow> e \<noteq> []) failure),
          fold (\<lambda>t best. case (t, best) of (None, _) \<Rightarrow> best | (Some t, None) \<Rightarrow> Some t | (Some t, Some b) \<Rightarrow> Some (max t b)) success None))"

section \<open>Replacing the services of a channel\<close>

type_synonym serviceTriplet = "u16 \<times> u16 \<times> u16"

record logoMetadata =
  lmd_logoID :: int
  lmd_logoVersion :: int
  lmd_downloadDataID :: int

definition existing_logos :: "services_row list \<Rightarrow> (serviceTriplet, logoMetadata) gomap" where
  "existing_logos rows = fold (\<lambda>row m.
     case (row_logo_id row, row_logo_version row, row_logo_download_data_id row) of
       (Some l, Some v, Some d) \<Rightarrow>
         AList.update (word_of_int (row_network_id row), word_of_int (row_transport_stream_id row), word_of_int (row_service_id row))
           \<lparr> lmd_logoID = l, lmd_logoVersion = v, lmd_downloadDataID = d \<rparr> m
     | _ \<Rightarrow> m) rows []"

definition preserveServiceLogoMetadata :: "(serviceTriplet, logoMetadata) gomap \<Rightarrow> Service \<Rightarrow> Service" where
  "preserveServiceLogoMetadata existing svc =
     (if sv_LogoId svc \<noteq> None \<and> sv_LogoVersion svc \<noteq> None \<and> sv_LogoDownloadDataId svc \<noteq> None then svc
      else case map_of existing (sv_NetworkId svc, sv_TransportStreamId svc, sv_ServiceId svc) of
        None \<Rightarrow> svc
      | Some metadata \<Rightarrow> svc\<lparr> sv_LogoId := default_to (lmd_logoID metadata) (sv_LogoId svc),
          sv_LogoVersion := default_to (lmd_logoVersion metadata) (sv_LogoVersion svc),
          sv_LogoDownloadDataId := default_to (lmd_downloadDataID metadata) (sv_LogoDownloadDataId svc) \<rparr>)"

definition service_row :: "string \<Rightarrow> string \<Rightarrow> Service \<Rightarrow> services_row" where
  "service_row channelType channelId svc =
     \<lparr> row_id = sv_Id svc, row_service_id = uint (sv_ServiceId svc), row_network_id = uint (sv_NetworkId svc),
       row_transport_stream_id = uint (sv_TransportStreamId svc), row_name = sv_Name svc, row_type = uint (sv_Type svc),
       row_eit_schedule_flag = (if sv_EITScheduleFlag svc then 1 else 0), row_eit_present_following = (if sv_EITPresentFollowing svc then 1 else 0),
       row_logo_id = sv_LogoId svc, row_logo_version = sv_LogoVersion svc, row_logo_download_data_id = sv_LogoDownloadDataId svc,
       row_remote_control_key_id = uint (sv_RemoteControlKeyId svc), row_channel_type = channelType, row_channel_id = channelId \<rparr>"

definition upsert_service :: "services_row \<Rightarrow> services_row list \<Rightarrow> services_row list" where
  "upsert_service row table = upsert row_id (\<lambda>r. row) row table"

text \<open>The result holds the services, whose logo fields the store has completed in place.\<close>

definition store_ReplaceChannelServices :: "string \<Rightarrow> string \<Rightarrow> Service list \<Rightarrow> database \<Rightarrow> database \<times> Service list" where
  "store_ReplaceChannelServices channelType channelId services db =
     (let existingLogos = existing_logos (filter (in_channel channelType channelId) (db_services db));
          kept = filter (\<lambda>s. \<not> in_channel channelType channelId s) (db_services db);
          services = map (preserveServiceLogoMetadata existingLogos) services
      in (db\<lparr> db_services := fold (\<lambda>svc. upsert_service (service_row channelType channelId svc)) services kept \<rparr>, services))"

definition store_PruneChannels :: "(string \<times> string) list \<Rightarrow> database \<Rightarrow> database" where
  "store_PruneChannels active db =
     (let stale = remdups (filter (\<lambda>key. key \<notin> set active) (map (\<lambda>s. (row_channel_type s, row_channel_id s)) (db_services db)))
      in db\<lparr> db_services := fold (\<lambda>key. filter (\<lambda>s. \<not> in_channel (fst key) (snd key) s)) stale (db_services db) \<rparr>)"

end
