(* ===== verification/Event_Sources.thy ===== *)
theory Event_Sources
  imports Go_Prelude
begin

text \<open>
  Components whose operations publish events. Each operation gives a new state and the events it
  publishes, in order. A subscriber that applies every event to what it knows must end up with a
  view of the final state.
\<close>

text \<open>The data of an event, a \<open>map[string]any\<close>. \<open>EvName\<close> is a string of decoded characters.\<close>

datatype event_value =
    EvInt int
  | EvBool bool
  | EvString string
  | EvName "int list"
  | EvMap "(string \<times> event_value) list"
  | EvList "event_value list"

type_synonym event_data = "(string, event_value) gomap"

text \<open>A subscriber that keeps the data of the last event of each id, without the removed ones.\<close>

definition apply_id_event :: "string \<times> event_data \<Rightarrow> (int \<Rightarrow> event_data option) \<Rightarrow> int \<Rightarrow> event_data option" where
  "apply_id_event e m =
     (case map_of (snd e) ''id'' of Some (EvInt i) \<Rightarrow> if fst e = ''remove'' then m(i := None) else m(i \<mapsto> snd e) | _ \<Rightarrow> m)"

definition run_events :: "('op \<Rightarrow> 's \<Rightarrow> 's \<times> 'e list) \<Rightarrow> 'op list \<Rightarrow> 's \<Rightarrow> 's \<times> 'e list" where
  "run_events exec ops s = fold (\<lambda>op (s, es). let r = exec op s in (fst r, es @ snd r)) ops (s, [])"

fun ops_enabled :: "('op \<Rightarrow> 's \<Rightarrow> bool) \<Rightarrow> ('op \<Rightarrow> 's \<Rightarrow> 's \<times> 'e list) \<Rightarrow> 'op list \<Rightarrow> 's \<Rightarrow> bool" where
  "ops_enabled enabled exec [] s = True"
| "ops_enabled enabled exec (op # ops) s = (enabled op s \<and> ops_enabled enabled exec ops (fst (exec op s)))"

text \<open>An action that keeps the invariant and publishes what takes the old view to the new one.\<close>

definition mirrored :: "('s \<Rightarrow> bool) \<Rightarrow> ('s \<Rightarrow> 'm) \<Rightarrow> ('e \<Rightarrow> 'm \<Rightarrow> 'm) \<Rightarrow> ('s \<Rightarrow> 's \<times> 'e list) \<Rightarrow> bool" where
  "mirrored ok view apply_event f \<longleftrightarrow>
     (\<forall>s. ok s \<longrightarrow> ok (fst (f s)) \<and> fold apply_event (snd (f s)) (view s) = view (fst (f s)))"

locale event_source =
  fixes inv :: "'s \<Rightarrow> bool"
    and view :: "'s \<Rightarrow> 'm"
    and apply_event :: "'e \<Rightarrow> 'm \<Rightarrow> 'm"
    and enabled :: "'op \<Rightarrow> 's \<Rightarrow> bool"
    and exec :: "'op \<Rightarrow> 's \<Rightarrow> 's \<times> 'e list"
  assumes exec_inv: "inv s \<Longrightarrow> enabled op s \<Longrightarrow> inv (fst (exec op s))"
    and exec_view: "inv s \<Longrightarrow> enabled op s \<Longrightarrow> fold apply_event (snd (exec op s)) (view s) = view (fst (exec op s))"
begin

lemma run_mirror_from:
  assumes "inv s" "ops_enabled enabled exec ops s" "fold apply_event es v = view s"
  shows "inv (fst (fold (\<lambda>op (s, es). let r = exec op s in (fst r, es @ snd r)) ops (s, es)))
    \<and> fold apply_event (snd (fold (\<lambda>op (s, es). let r = exec op s in (fst r, es @ snd r)) ops (s, es))) v
      = view (fst (fold (\<lambda>op (s, es). let r = exec op s in (fst r, es @ snd r)) ops (s, es)))"
  using assms
proof (induction ops arbitrary: s es)
  case (Cons op ops)
  have "fold apply_event (es @ snd (exec op s)) v = view (fst (exec op s))"
    using Cons.prems exec_view [of s op] by simp
  then show ?case using Cons.IH [of "fst (exec op s)" "es @ snd (exec op s)"] Cons.prems exec_inv [of s op] by (simp add: Let_def)
qed simp

lemma run_mirror:
  assumes "inv s" "ops_enabled enabled exec ops s"
  shows "inv (fst (run_events exec ops s))" "fold apply_event (snd (run_events exec ops s)) (view s) = view (fst (run_events exec ops s))"
  using run_mirror_from [OF assms, of "[]"] by (simp_all add: run_events_def)

end

end
