(* ===== verification/Service_Manager.thy ===== *)
theory Service_Manager
  imports Service_Store Step_Systems Event_Sources "HOL-Library.Multiset"
begin

text \<open>
  The service manager of \<open>internal/service\<close>: \<open>manager.go\<close> on top of the store, with the order of services
  of \<open>order.go\<close> and the event data of \<open>service.go\<close>. The events that an operation publishes are part of
  its result, in their order. The clock and the conversion of a logo image (\<open>ts.NormalizeARIBLogoPNG\<close>)
  are arguments.
\<close>

section \<open>The order of services\<close>

definition compareInts :: "int \<Rightarrow> int \<Rightarrow> int" where
  "compareInts a b = (if a < b then -1 else if a > b then 1 else 0)"

definition compareInt64s :: "int \<Rightarrow> int \<Rightarrow> int" where
  "compareInt64s a b = (if a < b then -1 else if a > b then 1 else 0)"

definition compareUint16s :: "u16 \<Rightarrow> u16 \<Rightarrow> int" where
  "compareUint16s a b = (if a < b then -1 else if a > b then 1 else 0)"

definition compareStrings :: "string \<Rightarrow> string \<Rightarrow> int" where
  "compareStrings a b = (if a < b then -1 else if a > b then 1 else 0)"

definition compareRemoteControlKeys :: "u8 \<Rightarrow> u8 \<Rightarrow> int" where
  "compareRemoteControlKeys a b =
     (if a = 0 \<and> b = 0 then 0 else if a = 0 then 1 else if b = 0 then -1 else compareInts (uint a) (uint b))"

text \<open>\<open>strconv.ParseInt(s, 10, 64)\<close>: an optional sign, decimal digits, a result of 64 bits.\<close>

definition digit_value :: "char \<Rightarrow> int" where
  "digit_value c = int (of_char c) - 48"

definition is_digit :: "char \<Rightarrow> bool" where
  "is_digit c \<longleftrightarrow> 0 \<le> digit_value c \<and> digit_value c \<le> 9"

definition ParseInt10 :: "string \<Rightarrow> int option" where
  "ParseInt10 s =
     (let neg = (case s of c # _ \<Rightarrow> c = CHR ''-'' | [] \<Rightarrow> False);
          digits = (case s of c # cs \<Rightarrow> if c = CHR ''-'' \<or> c = CHR ''+'' then cs else s | [] \<Rightarrow> []);
          n = foldl (\<lambda>n c. 10 * n + digit_value c) 0 digits;
          v = (if neg then - n else n)
      in if digits = [] \<or> \<not> list_all is_digit digits \<or> v < - (2 ^ 63) \<or> v \<ge> 2 ^ 63 then None else Some v)"

definition serviceSortID :: "Service \<Rightarrow> int" where
  "serviceSortID s = (case ParseInt10 (sv_Id s) of Some n \<Rightarrow> n | None \<Rightarrow> ItemId s)"

type_synonym serviceDisplayOrder = "(string, int) gomap"

definition serviceOrder :: "ChannelConfig list \<Rightarrow> serviceDisplayOrder" where
  "serviceOrder channels = fold (\<lambda>channel m.
     if IsChannelDisabled channel then m
     else if map_of m (cc_Type channel) = None then AList.update (cc_Type channel) (blen m) m
     else m) channels []"

definition MaxInt :: int where
  "MaxInt = 2 ^ 63 - 1"

definition channelTypeSortNumber :: "serviceDisplayOrder \<Rightarrow> Service \<Rightarrow> int" where
  "channelTypeSortNumber ord service = (case map_of ord (sv_ChannelType service) of Some n \<Rightarrow> n | None \<Rightarrow> MaxInt)"

definition order_less :: "serviceDisplayOrder \<Rightarrow> Service \<Rightarrow> Service \<Rightarrow> bool" where
  "order_less ord a b =
     (let cmp = compareInts (channelTypeSortNumber ord a) (channelTypeSortNumber ord b) in if cmp \<noteq> 0 then cmp < 0
      else let cmp = compareStrings (sv_ChannelType a) (sv_ChannelType b) in if cmp \<noteq> 0 then cmp < 0
      else let cmp = compareRemoteControlKeys (sv_RemoteControlKeyId a) (sv_RemoteControlKeyId b) in if cmp \<noteq> 0 then cmp < 0
      else let cmp = compareUint16s (sv_ServiceId a) (sv_ServiceId b) in if cmp \<noteq> 0 then cmp < 0
      else let cmp = compareUint16s (sv_NetworkId a) (sv_NetworkId b) in if cmp \<noteq> 0 then cmp < 0
      else let cmp = compareUint16s (sv_TransportStreamId a) (sv_TransportStreamId b) in if cmp \<noteq> 0 then cmp < 0
      else let cmp = compareInt64s (serviceSortID a) (serviceSortID b) in if cmp \<noteq> 0 then cmp < 0
      else sv_Id a < sv_Id b)"

text \<open>
  \<open>sort.SliceStable\<close>: elements in increasing order, an element after those that it is not less than and
  that come before it. For a strict weak order, such as this one, these determine the result.
\<close>

fun insert_stable :: "('a \<Rightarrow> 'a \<Rightarrow> bool) \<Rightarrow> 'a \<Rightarrow> 'a list \<Rightarrow> 'a list" where
  "insert_stable lt x [] = [x]"
| "insert_stable lt x (y # ys) = (if lt y x then y # insert_stable lt x ys else x # y # ys)"

definition SliceStable :: "('a \<Rightarrow> 'a \<Rightarrow> bool) \<Rightarrow> 'a list \<Rightarrow> 'a list" where
  "SliceStable lt xs = foldr (insert_stable lt) xs []"

definition orderServices :: "ChannelConfig list \<Rightarrow> Service list \<Rightarrow> Service list" where
  "orderServices channels services = SliceStable (order_less (serviceOrder channels)) services"




lemma compare_zero [simp]: "compareInts a b = 0 \<longleftrightarrow> a = b" "compareInts a b < 0 \<longleftrightarrow> a < b"
    "compareStrings s t = 0 \<longleftrightarrow> s = t" "compareStrings s t < 0 \<longleftrightarrow> s < t"
  by (auto simp: compareInts_def compareStrings_def)









section \<open>Events\<close>

type_synonym service_event = "string \<times> event_data"

definition EventData :: "ChannelConfig option \<Rightarrow> Service \<Rightarrow> event_data" where
  "EventData channel s =
     [(''id'', EvInt (ItemId s)), (''serviceId'', EvInt (uint (sv_ServiceId s))), (''networkId'', EvInt (uint (sv_NetworkId s))),
      (''transportStreamId'', EvInt (uint (sv_TransportStreamId s))), (''name'', EvName (sv_Name s)), (''type'', EvInt (uint (sv_Type s))),
      (''eitScheduleFlag'', EvBool (sv_EITScheduleFlag s)), (''eitPresentFollowing'', EvBool (sv_EITPresentFollowing s)),
      (''hasLogoData'', EvBool (sv_HasLogoData s)), (''remoteControlKeyId'', EvInt (uint (sv_RemoteControlKeyId s)))]
     @ (case sv_LogoId s of Some v \<Rightarrow> [(''logoId'', EvInt v)] | None \<Rightarrow> [])
     @ (case ep_LastSuccessAt (sv_EPG s) of
          Some t \<Rightarrow> [(''epgReady'', EvBool True), (''epgUpdatedAt'', EvInt t)]
        | None \<Rightarrow> [(''epgReady'', EvBool False)])
     @ (case ep_LastAttemptAt (sv_EPG s) of Some t \<Rightarrow> [(''epgLastAttemptAt'', EvInt t)] | None \<Rightarrow> [])
     @ (if ep_LastError (sv_EPG s) \<noteq> [] then [(''epgLastError'', EvString (ep_LastError (sv_EPG s)))] else [])
     @ (case channel of
          Some c \<Rightarrow> [(''channel'', EvMap ([(''type'', EvString (cc_Type c)), (''channel'', EvString (cc_Channel c)), (''name'', EvString (cc_Name c))]
                       @ (case cc_TsmfRelTs c of Some r \<Rightarrow> [(''tsmfRelTs'', EvInt (uint r))] | None \<Rightarrow> [])))]
        | None \<Rightarrow> [])"

record ServiceManager =
  sm_channels :: "ChannelConfig list"
  sm_publishes :: bool

definition service_GetChannels :: "ServiceManager \<Rightarrow> ChannelConfig list" where
  "service_GetChannels sm = filter (\<lambda>c. \<not> IsChannelDisabled c) (sm_channels sm)"

definition service_GetChannel :: "ServiceManager \<Rightarrow> string \<Rightarrow> string \<Rightarrow> ChannelConfig option" where
  "service_GetChannel sm channelType channelId =
     find (\<lambda>c. cc_Type c = channelType \<and> cc_Channel c = channelId \<and> \<not> IsChannelDisabled c) (sm_channels sm)"

definition service_event_data :: "ServiceManager \<Rightarrow> Service \<Rightarrow> event_data" where
  "service_event_data sm svc = EventData (service_GetChannel sm (sv_ChannelType svc) (sv_ChannelId svc)) svc"

definition publishService :: "ServiceManager \<Rightarrow> string \<Rightarrow> Service option \<Rightarrow> service_event list" where
  "publishService sm typ svc = (if \<not> sm_publishes sm then [] else case svc of None \<Rightarrow> [] | Some s \<Rightarrow> [(typ, service_event_data sm s)])"

definition publishServiceByKey :: "ServiceManager \<Rightarrow> string \<Rightarrow> u16 \<Rightarrow> u16 \<Rightarrow> database \<Rightarrow> service_event list" where
  "publishServiceByKey sm typ networkID serviceID db = publishService sm typ (store_GetByNetworkServiceID networkID serviceID db)"

section \<open>Operations\<close>

definition GetServices :: "ServiceManager \<Rightarrow> database \<Rightarrow> Service list" where
  "GetServices sm db = orderServices (sm_channels sm) (store_List db)"

definition GetServicesByChannel :: "ServiceManager \<Rightarrow> string \<Rightarrow> string \<Rightarrow> database \<Rightarrow> Service list" where
  "GetServicesByChannel sm channelType channelId db = orderServices (sm_channels sm) (store_GetByChannel channelType channelId db)"

definition GetServiceById :: "string \<Rightarrow> database \<Rightarrow> Service option" where
  "GetServiceById sid db =
     (case store_GetByID sid db of
        Some svc \<Rightarrow> Some svc
      | None \<Rightarrow> (case ParseInt10 sid of None \<Rightarrow> None | Some n \<Rightarrow> store_GetByItemID n db))"

definition GetServiceByChannelAndId :: "string \<Rightarrow> string \<Rightarrow> string \<Rightarrow> database \<Rightarrow> Service option" where
  "GetServiceByChannelAndId channelType channelId sid db =
     store_GetByChannelAndID channelType channelId sid (case ParseInt10 sid of None \<Rightarrow> 0 | Some n \<Rightarrow> n) db"

definition SetEPGAttempt :: "ServiceManager \<Rightarrow> u16 \<Rightarrow> u16 \<Rightarrow> int \<Rightarrow> string \<Rightarrow> database \<Rightarrow> database \<times> service_event list" where
  "SetEPGAttempt sm networkID serviceID attemptedAt lastError db =
     (let db = store_SetEPGAttempt networkID serviceID attemptedAt lastError db
      in (db, publishServiceByKey sm ''update'' networkID serviceID db))"

definition SetEPGSuccess :: "ServiceManager \<Rightarrow> u16 \<Rightarrow> u16 \<Rightarrow> int \<Rightarrow> database \<Rightarrow> database \<times> service_event list" where
  "SetEPGSuccess sm networkID serviceID succeededAt db =
     (let db = store_SetEPGSuccess networkID serviceID succeededAt db
      in (db, publishServiceByKey sm ''update'' networkID serviceID db))"

definition prunedServices :: "(string \<times> string) list \<Rightarrow> database \<Rightarrow> Service list" where
  "prunedServices active db = filter (\<lambda>svc. (sv_ChannelType svc, sv_ChannelId svc) \<notin> set active) (store_List db)"

definition ReconcileChannels :: "ServiceManager \<Rightarrow> database \<Rightarrow> database \<times> service_event list" where
  "ReconcileChannels sm db =
     (let active = map (\<lambda>c. (cc_Type c, cc_Channel c)) (filter (\<lambda>c. \<not> IsChannelDisabled c) (sm_channels sm));
          removed = prunedServices active db;
          db = store_PruneChannels active db
      in (db, concat (map (\<lambda>svc. publishService sm ''remove'' (Some svc)) removed)))"

definition by_id :: "Service list \<Rightarrow> (string, Service) gomap" where
  "by_id services = fold (\<lambda>svc. AList.update (sv_Id svc) svc) services []"

definition sameServiceCore :: "Service \<Rightarrow> Service \<Rightarrow> bool" where
  "sameServiceCore a b \<longleftrightarrow> (let none = \<lparr> ep_LastAttemptAt = None, ep_LastSuccessAt = None, ep_LastError = [] \<rparr> in a\<lparr> sv_EPG := none \<rparr> = b\<lparr> sv_EPG := none \<rparr>)"

text \<open>The loop over the new services: the events, and the old services that are left.\<close>

fun replace_events :: "ServiceManager \<Rightarrow> (string, Service) gomap \<Rightarrow> (string, Service) gomap \<Rightarrow> Service list
    \<Rightarrow> service_event list \<times> (string, Service) gomap" where
  "replace_events sm after before [] = ([], before)"
| "replace_events sm after before (svc # services) =
     (let existing = map_of before (sv_Id svc);
          before = AList.delete (sv_Id svc) before;
          current = (case map_of after (sv_Id svc) of None \<Rightarrow> svc | Some c \<Rightarrow> c);
          event = (case existing of
              None \<Rightarrow> publishService sm ''create'' (Some current)
            | Some e \<Rightarrow> if \<not> sameServiceCore e current then publishService sm ''update'' (Some current) else []);
          rest = replace_events sm after before services
      in (event @ fst rest, snd rest))"

definition ReplaceChannelServices :: "ServiceManager \<Rightarrow> string \<Rightarrow> string \<Rightarrow> Service list \<Rightarrow> database \<Rightarrow> database \<times> service_event list" where
  "ReplaceChannelServices sm channelType channelId services db =
     (let before = by_id (store_GetByChannel channelType channelId db);
          replaced = store_ReplaceChannelServices channelType channelId services db;
          db = fst replaced;
          services = snd replaced;
          after = by_id (store_GetByChannel channelType channelId db);
          events = replace_events sm after before services
      in (db, fst events @ concat (map (\<lambda>(k, svc). publishService sm ''remove'' (Some svc)) (snd events))))"

definition SeedEventLog :: "ServiceManager \<Rightarrow> database \<Rightarrow> service_event list" where
  "SeedEventLog sm db = concat (map (\<lambda>svc. publishService sm ''create'' (Some svc)) (store_List db))"

section \<open>Logos\<close>

definition commonLogoTargetForService :: "Service \<Rightarrow> (string \<times> string) option \<Rightarrow> LogoTarget" where
  "commonLogoTargetForService svc commonChannel =
     (let channel = (case commonChannel of None \<Rightarrow> (sv_ChannelType svc, sv_ChannelId svc) | Some c \<Rightarrow> c)
      in \<lparr> lt_NetworkId = sv_NetworkId svc, lt_ServiceId = sv_ServiceId svc, lt_TransportStreamId = sv_TransportStreamId svc,
           lt_ChannelType = fst channel, lt_ChannelId = snd channel, lt_LogoId = 0, lt_LogoVersion = 0, lt_LogoDownloadDataId = 0,
           lt_IsCommonData = True, lt_IsSDTTProbe = (commonChannel = None) \<rparr>)"

definition commonDataServiceKeys :: "database \<Rightarrow> (u16 \<times> u16 \<times> u16) list" where
  "commonDataServiceKeys db =
     map (\<lambda>a. (sa_OriginalNetworkID a, sa_TransportStreamID a, sa_ServiceID a)) (store_ListCommonDataAnnouncements db)
     @ [(ca_OriginalNetworkID DefaultCommonDataAnnouncement, ca_TransportStreamID DefaultCommonDataAnnouncement,
         ca_ServiceID DefaultCommonDataAnnouncement)]"

fun announced_channel :: "database \<Rightarrow> StoredAnnouncement list \<Rightarrow> (string \<times> string) option" where
  "announced_channel db [] = map_option (\<lambda>svc. (sv_ChannelType svc, sv_ChannelId svc))
     (store_GetByTriplet (ca_OriginalNetworkID DefaultCommonDataAnnouncement) (ca_TransportStreamID DefaultCommonDataAnnouncement)
       (ca_ServiceID DefaultCommonDataAnnouncement) db)"
| "announced_channel db (a # as) =
     (if \<not> IsSatelliteOriginalNetworkID (sa_OriginalNetworkID a) then announced_channel db as
      else case store_GetByTriplet (sa_OriginalNetworkID a) (sa_TransportStreamID a) (sa_ServiceID a) db of
        None \<Rightarrow> announced_channel db as
      | Some svc \<Rightarrow> Some (sv_ChannelType svc, sv_ChannelId svc))"

definition commonDataChannel :: "database \<Rightarrow> (string \<times> string) option" where
  "commonDataChannel db = announced_channel db (store_ListCommonDataAnnouncements db)"

text \<open>
  The key is the text of these values with slashes between them; the numbers and truth values contain no
  slash, so two keys are equal if these are and the texts of the channel are.
\<close>

definition commonLogoTargetKey :: "LogoTarget \<Rightarrow> u16 \<times> u16 \<times> u16 \<times> bool \<times> bool \<times> string" where
  "commonLogoTargetKey t = (lt_NetworkId t, lt_TransportStreamId t, lt_ServiceId t, lt_IsCommonData t, lt_IsSDTTProbe t,
     lt_ChannelType t @ ''/'' @ lt_ChannelId t)"

fun common_targets :: "(u16 \<times> u16 \<times> u16) list \<Rightarrow> (string \<times> string) option \<Rightarrow> Service list
    \<Rightarrow> LogoTarget list \<times> (u16 \<times> u16 \<times> u16 \<times> bool \<times> bool \<times> string) list \<times> LogoTarget option
    \<Rightarrow> LogoTarget list \<times> (u16 \<times> u16 \<times> u16 \<times> bool \<times> bool \<times> string) list \<times> LogoTarget option" where
  "common_targets commonServices commonChannel [] (targets, seen, refreshTarget) = (targets, seen, refreshTarget)"
| "common_targets commonServices commonChannel (svc # services) (targets, seen, refreshTarget) =
     (if \<not> IsSatelliteOriginalNetworkID (sv_NetworkId svc) \<or> (sv_NetworkId svc, sv_TransportStreamId svc, sv_ServiceId svc) \<in> set commonServices
      then common_targets commonServices commonChannel services (targets, seen, refreshTarget)
      else
        let target = commonLogoTargetForService svc commonChannel;
            refreshTarget = (if commonChannel \<noteq> None \<and> refreshTarget = None then Some target else refreshTarget);
            key = commonLogoTargetKey target
        in if sv_HasLogoData svc \<or> key \<in> set seen then common_targets commonServices commonChannel services (targets, seen, refreshTarget)
           else common_targets commonServices commonChannel services (targets @ [target], key # seen, refreshTarget))"

definition appendCommonLogoTargets :: "database \<Rightarrow> LogoTarget list \<Rightarrow> LogoTarget list" where
  "appendCommonLogoTargets db targets =
     (let result = common_targets (commonDataServiceKeys db) (commonDataChannel db) (store_List db) (targets, map commonLogoTargetKey targets, None);
          targets = fst result;
          seen = fst (snd result)
      in case snd (snd result) of
           None \<Rightarrow> targets
         | Some refreshTarget \<Rightarrow> if commonLogoTargetKey refreshTarget \<in> set seen then targets else targets @ [refreshTarget])"

fun add_known :: "LogoTarget list \<Rightarrow> LogoTarget list \<Rightarrow> LogoTarget list \<Rightarrow> LogoTarget list" where
  "add_known [] seen targets = targets"
| "add_known (t # known) seen targets =
     (if t \<in> set seen then add_known known seen targets else add_known known (t # seen) (targets @ [t]))"

definition LogoGatherTargets :: "database \<Rightarrow> LogoTarget list" where
  "LogoGatherTargets db =
     (let targets = store_MissingLogoTargets db
      in appendCommonLogoTargets db (add_known (store_KnownLogoTargets db) targets targets))"

definition UpsertLogo :: "ServiceManager \<Rightarrow> u16 \<Rightarrow> u16 \<Rightarrow> u16 \<Rightarrow> int \<Rightarrow> int \<Rightarrow> int \<Rightarrow> int \<Rightarrow> bytes \<Rightarrow> int \<Rightarrow> database \<Rightarrow> database \<times> service_event list" where
  "UpsertLogo sm networkID transportStreamID serviceID logoID logoType logoVersion downloadDataID data updatedAt db =
     (let db = store_UpsertLogo networkID transportStreamID serviceID logoID logoType logoVersion downloadDataID data updatedAt db
      in (db, publishServiceByKey sm ''update'' networkID serviceID db))"

definition DeleteLogo :: "ServiceManager \<Rightarrow> u16 \<Rightarrow> u16 \<Rightarrow> u16 \<Rightarrow> int \<Rightarrow> int \<Rightarrow> int \<Rightarrow> int \<Rightarrow> database \<Rightarrow> database \<times> service_event list" where
  "DeleteLogo sm networkID transportStreamID serviceID logoID logoType logoVersion downloadDataID db =
     (let db = store_DeleteLogo networkID transportStreamID serviceID logoID logoType logoVersion downloadDataID db
      in (db, publishServiceByKey sm ''update'' networkID serviceID db))"

text \<open>One operation after the other, with the events of both.\<close>

definition then_publish :: "database \<times> service_event list \<Rightarrow> (database \<Rightarrow> database \<times> service_event list) \<Rightarrow> database \<times> service_event list" where
  "then_publish r f = (let r' = f (fst r) in (fst r', snd r @ snd r'))"

definition image_target :: "LogoImage \<Rightarrow> LogoTarget \<Rightarrow> bool" where
  "image_target img t \<longleftrightarrow> lt_NetworkId t = li_OriginalNetworkID img \<and> lt_LogoId t = uint (li_LogoID img)
     \<and> lt_LogoVersion t = uint (li_LogoVersion img) \<and> lt_LogoDownloadDataId t = uint (li_DownloadDataID img)"

definition UpsertLogoImage :: "(bytes \<Rightarrow> string + bytes) \<Rightarrow> int \<Rightarrow> ServiceManager \<Rightarrow> LogoImage \<Rightarrow> database \<Rightarrow> string + (database \<times> service_event list)" where
  "UpsertLogoImage NormalizeARIBLogoPNG now sm img db =
     (let targets = filter (image_target img) (store_KnownLogoTargets db)
      in if targets = [] then Inr (db, [])
         else if li_IsDeleted img
         then Inr (fold (\<lambda>t r. then_publish r (DeleteLogo sm (lt_NetworkId t) (lt_TransportStreamId t) (lt_ServiceId t) (lt_LogoId t)
                (uint (li_LogoType img)) (uint (li_LogoVersion img)) (uint (li_DownloadDataID img)))) targets (db, []))
         else case NormalizeARIBLogoPNG (li_Data img) of
             Inl e \<Rightarrow> Inl e
           | Inr data \<Rightarrow> Inr (fold (\<lambda>t r. then_publish r (UpsertLogo sm (lt_NetworkId t) (lt_TransportStreamId t) (lt_ServiceId t) (lt_LogoId t)
                (uint (li_LogoType img)) (uint (li_LogoVersion img)) (uint (li_DownloadDataID img)) data now)) targets (db, [])))"

definition common_logo_service :: "ServiceManager \<Rightarrow> CommonLogoImage \<Rightarrow> bytes \<Rightarrow> int \<Rightarrow> CommonLogoService \<Rightarrow> database \<Rightarrow> database \<times> service_event list" where
  "common_logo_service sm img data now t db =
     (let onid = cs_OriginalNetworkID t; tsid = cs_TransportStreamID t; sid = cs_ServiceID t;
          logoID = uint (cl_LogoID img); logoType = uint (cl_LogoType img); logoVersion = uint (cl_LogoVersion img);
          downloadID = uint (cl_DownloadID img)
      in if tsid = 0xffff \<or> sid = 0xffff \<or> store_GetByTriplet onid tsid sid db = None then (db, [])
         else if cl_IsDeleted img then DeleteLogo sm onid tsid sid logoID logoType logoVersion downloadID db
         else then_publish (UpsertLogo sm onid tsid sid logoID logoType logoVersion downloadID data now db) (\<lambda>db.
           let updated = store_UpdateServiceLogoMetadata onid tsid sid logoID logoVersion downloadID db
           in (fst updated, if snd updated then publishServiceByKey sm ''update'' onid sid (fst updated) else [])))"

definition UpsertCommonLogoImage :: "(bytes \<Rightarrow> string + bytes) \<Rightarrow> int \<Rightarrow> ServiceManager \<Rightarrow> CommonLogoImage \<Rightarrow> database \<Rightarrow> string + (database \<times> service_event list)" where
  "UpsertCommonLogoImage NormalizeARIBLogoPNG now sm img db =
     (if cl_IsNetwork img then Inr (db, [])
      else case (if cl_IsDeleted img then Inr [] else NormalizeARIBLogoPNG (cl_Data img)) of
        Inl e \<Rightarrow> Inl e
      | Inr data \<Rightarrow> Inr (fold (\<lambda>t r. then_publish r (common_logo_service sm img data now t)) (cl_Services img) (db, [])))"

definition UpsertCommonDataAnnouncement :: "int \<Rightarrow> CommonDataAnnouncement \<Rightarrow> string \<Rightarrow> string \<Rightarrow> database \<Rightarrow> database" where
  "UpsertCommonDataAnnouncement now a channelType channelID db =
     store_UpsertCommonDataAnnouncement \<lparr> sa_OriginalNetworkID = ca_OriginalNetworkID a, sa_TransportStreamID = ca_TransportStreamID a,
       sa_ServiceID = ca_ServiceID a, sa_DownloadID = ca_DownloadID a, sa_VersionID = ca_VersionID a,
       sa_ObservedChannelType = channelType, sa_ObservedChannelID = channelID, sa_SeenAt = now \<rparr> db"

section \<open>Ids of services\<close>

text \<open>A scanned service has the id \<open>fmt.Sprintf("%05d%05d", networkId, serviceId)\<close>.\<close>

definition decimal_digit :: "int \<Rightarrow> char" where
  "decimal_digit d = char_of (nat (48 + d))"

definition decimal5 :: "u16 \<Rightarrow> string" where
  "decimal5 w = (let n = uint w in map decimal_digit [n div 10000, n div 1000 mod 10, n div 100 mod 10, n div 10 mod 10, n mod 10])"

definition scan_id :: "u16 \<Rightarrow> u16 \<Rightarrow> string" where
  "scan_id networkId serviceId = decimal5 networkId @ decimal5 serviceId"

lemma digit_value_digit: "0 \<le> d \<Longrightarrow> d \<le> 9 \<Longrightarrow> digit_value (decimal_digit d) = d"
  by (simp add: digit_value_def decimal_digit_def of_char_of)

lemma is_digit_digit: "0 \<le> d \<Longrightarrow> d \<le> 9 \<Longrightarrow> is_digit (decimal_digit d)"
  by (simp add: is_digit_def digit_value_digit)

lemma digit_not_sign: "is_digit c \<Longrightarrow> c \<noteq> CHR ''-'' \<and> c \<noteq> CHR ''+''"
  by (auto simp: is_digit_def digit_value_def)

lemma decimal5_range: "0 \<le> uint (w :: u16) div 10000 \<and> uint w div 10000 \<le> 9"
proof -
  have "uint w \<le> 65535" using uint_bounded [of w] by simp
  then have "uint w div 10000 \<le> 65535 div 10000" by (rule zdiv_mono1) simp
  then show ?thesis by (simp add: pos_imp_zdiv_nonneg_iff)
qed

lemma mod_10_digit: "0 \<le> x mod (10 :: int) \<and> x mod 10 \<le> 9"
  using pos_mod_bound [of 10 x] by simp

lemma decimal5_digits: "list_all is_digit (decimal5 w)"
proof -
  have "is_digit (decimal_digit (x mod 10))" for x using mod_10_digit [of x] is_digit_digit [of "x mod 10"] by simp
  moreover have "is_digit (decimal_digit (uint w div 10000))" using decimal5_range [of w] by (intro is_digit_digit) simp_all
  ultimately show ?thesis by (simp add: decimal5_def Let_def)
qed

lemma horner5:
  fixes n :: int
  assumes "10 * a1 + d0 = n" "10 * a2 + d1 = a1" "10 * a3 + d2 = a2" "10 * a4 + d3 = a3"
  shows "10 * (10 * (10 * (10 * (10 * k + a4) + d3) + d2) + d1) + d0 = 100000 * k + n"
  using assms by simp

lemma decimal5_value: "foldl (\<lambda>n c. 10 * n + digit_value c) k (decimal5 w) = 100000 * k + uint w"
proof -
  define n where "n = uint w"
  have d: "digit_value (decimal_digit (n div 10000)) = n div 10000" using decimal5_range [of w] by (simp add: digit_value_digit n_def)
  have m: "digit_value (decimal_digit (x mod 10)) = x mod 10" for x :: int
    by (rule digit_value_digit) (use mod_10_digit [of x] in simp_all)
  have div: "n div 100 = n div 10 div 10" "n div 1000 = n div 100 div 10" "n div 10000 = n div 1000 div 10"
    using zdiv_zmult2_eq [of 10 n 10] zdiv_zmult2_eq [of 10 n 100] zdiv_zmult2_eq [of 10 n 1000] by simp_all
  have "10 * (10 * (10 * (10 * (10 * k + n div 10000) + n div 1000 mod 10) + n div 100 mod 10) + n div 10 mod 10) + n mod 10 = 100000 * k + n"
    by (rule horner5 [where ?a1.0 = "n div 10" and ?a2.0 = "n div 100" and ?a3.0 = "n div 1000"]) (simp_all only: div mult_div_mod_eq)
  then show ?thesis unfolding decimal5_def Let_def n_def [symmetric] list.map foldl.simps d m .
qed

lemma ParseInt10_digits:
  assumes "list_all is_digit ds" "ds \<noteq> []" "foldl (\<lambda>n c. 10 * n + digit_value c) 0 ds = v" "0 \<le> v" "v < 2 ^ 63"
  shows "ParseInt10 ds = Some v"
proof -
  obtain c cs where "ds = c # cs" using assms(2) by (cases ds) auto
  then have "c \<noteq> CHR ''-''" "c \<noteq> CHR ''+''" using assms(1) digit_not_sign by auto
  then show ?thesis using assms \<open>ds = c # cs\<close> by (simp add: ParseInt10_def Let_def)
qed

lemma ParseInt10_scan_id: "ParseInt10 (scan_id n s) = Some (uint n * 100000 + uint s)"
proof (rule ParseInt10_digits)
  show "foldl (\<lambda>n c. 10 * n + digit_value c) 0 (scan_id n s) = uint n * 100000 + uint s"
    by (simp add: scan_id_def decimal5_value)
  show "uint n * 100000 + uint s < 2 ^ 63" using uint_bounded [of n] uint_bounded [of s] by simp
qed (simp_all add: scan_id_def decimal5_digits, simp add: decimal5_def Let_def)

lemma item_id_inject:
  assumes "uint n * 100000 + uint s = uint n' * 100000 + uint (s' :: u16)"
  shows "n = n' \<and> s = (s' :: u16)"
proof -
  have "uint s < 65536" "uint s' < 65536" using uint_bounded [of s] uint_bounded [of s'] by simp_all
  moreover have "0 \<le> uint s" "0 \<le> uint s'" by simp_all
  ultimately have "uint n = uint n'" using assms by linarith
  then show ?thesis using assms by (simp add: word_uint_eq_iff)
qed

lemma scan_id_inject: "scan_id n s = scan_id n' s' \<longleftrightarrow> n = n' \<and> s = s'"
  using ParseInt10_scan_id [of n s] ParseInt10_scan_id [of n' s'] item_id_inject [of n s n' s'] by auto

end
