(* ===== verification/Service_Events.thy ===== *)
theory Service_Events
  imports Service_Manager Event_Sources
begin

text \<open>
  The events of the service manager mirror the table of services: a subscriber that keeps, by item id, the
  data of the last event of a service knows what the database holds, whatever operations are performed.
\<close>

section \<open>Well-formed tables\<close>

definition row_ok :: "services_row \<Rightarrow> bool" where
  "row_ok r \<longleftrightarrow> 0 \<le> row_network_id r \<and> row_network_id r < 65536 \<and> 0 \<le> row_service_id r \<and> row_service_id r < 65536
     \<and> row_id r = scan_id (word_of_int (row_network_id r)) (word_of_int (row_service_id r))"

definition db_ok :: "database \<Rightarrow> bool" where
  "db_ok db \<longleftrightarrow> list_all row_ok (db_services db) \<and> distinct (map row_id (db_services db))"

definition service_ok :: "Service \<Rightarrow> bool" where
  "service_ok svc \<longleftrightarrow> sv_Id svc = scan_id (sv_NetworkId svc) (sv_ServiceId svc)"

lemma row_ok_words:
  assumes "row_ok r"
  obtains n s :: u16 where "row_network_id r = uint n" "row_service_id r = uint s" "row_id r = scan_id n s"
proof
  have "uint (word_of_int x :: u16) = x" if "0 \<le> x" "x < 65536" for x using that by (simp add: uint_word_of_int)
  then show "row_network_id r = uint (word_of_int (row_network_id r) :: u16)" "row_service_id r = uint (word_of_int (row_service_id r) :: u16)"
    using assms by (simp_all add: row_ok_def)
qed (use assms in \<open>simp add: row_ok_def\<close>)

lemma row_ids_agree: "row_ok r \<Longrightarrow> row_ok r' \<Longrightarrow> row_id r = row_id r' \<longleftrightarrow> row_item_id r = row_item_id r'"
  by (elim row_ok_words) (auto simp: scan_id_inject row_item_id_def dest: item_id_inject)

lemma row_key_agree:
  "row_ok r \<Longrightarrow> row_network_id r = uint (n :: u16) \<and> row_service_id r = uint s \<longleftrightarrow> row_item_id r = uint n * 100000 + uint (s :: u16)"
  by (elim row_ok_words) (auto simp: row_item_id_def dest: item_id_inject)

section \<open>The view of a subscriber\<close>

definition row_at :: "int \<Rightarrow> services_row list \<Rightarrow> services_row option" where
  "row_at i rows = find (\<lambda>r. row_item_id r = i) rows"

definition service_view :: "ServiceManager \<Rightarrow> database \<Rightarrow> int \<Rightarrow> event_data option" where
  "service_view sm db i = map_option (service_event_data sm) (store_GetByItemID i db)"

lemma first_row_select: "first_row (select_services p db) = map_option (joined db) (find p (db_services db))"
proof -
  have "first_row (map f (filter p xs)) = map_option f (find p xs)" for f :: "services_row \<Rightarrow> Service" and xs
    by (induction xs) (simp_all add: first_row_def)
  then show ?thesis by (simp add: select_services_def)
qed

lemma service_view_row: "service_view sm db i = map_option (service_event_data sm \<circ> joined db) (row_at i (db_services db))"
  by (simp add: service_view_def store_GetByItemID_def first_row_select row_at_def option.map_comp comp_def)

lemma event_data_id: "map_of (service_event_data sm svc) ''id'' = Some (EvInt (ItemId svc))"
  by (simp add: service_event_data_def EventData_def)

lemma apply_event_simps:
  "apply_id_event (''create'', service_event_data sm svc) m = m(ItemId svc \<mapsto> service_event_data sm svc)"
  "apply_id_event (''update'', service_event_data sm svc) m = m(ItemId svc \<mapsto> service_event_data sm svc)"
  "apply_id_event (''remove'', service_event_data sm svc) m = m(ItemId svc := None)"
  by (simp_all add: apply_id_event_def event_data_id)

lemma joined_item_id: "row_ok r \<Longrightarrow> ItemId (joined db r) = row_item_id r"
  by (elim row_ok_words) (simp add: ItemId_def joined_def fromServiceRow_def row_item_id_def)

lemma row_at_Some: "row_at i rows = Some r \<Longrightarrow> r \<in> set rows \<and> row_item_id r = i"
  by (auto simp: row_at_def find_Some_iff)

lemma row_at_None: "row_at i rows = None \<longleftrightarrow> i \<notin> row_item_id ` set rows"
  by (auto simp: row_at_def find_None_iff)

lemma db_ok_row: "db_ok db \<Longrightarrow> r \<in> set (db_services db) \<Longrightarrow> row_ok r"
  by (simp add: db_ok_def list_all_iff)

lemma GetByNetworkServiceID_row:
  assumes "db_ok db"
  shows "store_GetByNetworkServiceID n s db = map_option (joined db) (row_at (uint n * 100000 + uint s) (db_services db))"
proof -
  have "find (\<lambda>r. row_network_id r = uint n \<and> row_service_id r = uint s) (db_services db)
      = find (\<lambda>r. row_item_id r = uint n * 100000 + uint s) (db_services db)"
    by (rule find_cong_set) (simp add: row_key_agree db_ok_row [OF assms])
  then show ?thesis by (simp add: store_GetByNetworkServiceID_def first_row_select row_at_def)
qed

text \<open>An operation that only changes what is known of one service publishes its new data.\<close>

lemma publish_key_mirror:
  assumes sm: "sm_publishes sm" and ok: "db_ok db'"
    and same: "\<And>i. i \<noteq> uint n * 100000 + uint s \<Longrightarrow> service_view sm db' i = service_view sm db i"
    and exists: "service_view sm db' (uint n * 100000 + uint s) = None \<longleftrightarrow> service_view sm db (uint n * 100000 + uint s) = None"
  shows "fold apply_id_event (publishServiceByKey sm ''update'' n s db') (service_view sm db) = service_view sm db'"
proof (cases "row_at (uint n * 100000 + uint s) (db_services db')")
  case None
  then have "service_view sm db' i = service_view sm db i" for i
    using same [of i] exists by (cases "i = uint n * 100000 + uint s") (auto simp: service_view_row)
  then show ?thesis using None
    by (simp add: fun_eq_iff publishServiceByKey_def publishService_def GetByNetworkServiceID_row [OF ok])
next
  case (Some r)
  then have "ItemId (joined db' r) = uint n * 100000 + uint s"
    using row_at_Some [OF Some] joined_item_id db_ok_row [OF ok] by metis
  then have "fold apply_id_event (publishServiceByKey sm ''update'' n s db') (service_view sm db)
      = (service_view sm db)(uint n * 100000 + uint s \<mapsto> service_event_data sm (joined db' r))"
    using sm Some by (simp add: publishServiceByKey_def publishService_def GetByNetworkServiceID_row [OF ok] apply_event_simps)
  then show ?thesis using same Some by (auto simp: fun_eq_iff service_view_row)
qed

section \<open>Operations on one service\<close>

abbreviation service_mirrored :: "ServiceManager \<Rightarrow> (database \<Rightarrow> database \<times> service_event list) \<Rightarrow> bool" where
  "service_mirrored sm \<equiv> mirrored db_ok (service_view sm) apply_id_event"

lemma mirrored_skip: "service_mirrored sm (\<lambda>db. (db, []))"
  by (simp add: mirrored_def)

lemma mirrored_then: "service_mirrored sm f \<Longrightarrow> service_mirrored sm g \<Longrightarrow> service_mirrored sm (\<lambda>db. then_publish (f db) g)"
  by (simp add: mirrored_def then_publish_def Let_def)

lemma mirrored_fold:
  "(\<And>t. t \<in> set ts \<Longrightarrow> service_mirrored sm (f t)) \<Longrightarrow> service_mirrored sm g
    \<Longrightarrow> service_mirrored sm (\<lambda>db. fold (\<lambda>t r. then_publish r (f t)) ts (g db))"
proof (induction ts arbitrary: g)
  case (Cons t ts)
  then show ?case using Cons.IH [of "\<lambda>db. then_publish (g db) (f t)"] mirrored_then [of sm g "f t"] by simp
qed simp

text \<open>The tables next to that of the services only matter for the service whose key they hold.\<close>

lemma joined_tables_mirror:
  assumes sm: "sm_publishes sm" and ok: "db_ok db" and services: "db_services db' = db_services db"
    and same: "\<And>r. r \<in> set (db_services db) \<Longrightarrow> \<not> (row_network_id r = uint n \<and> row_service_id r = uint s) \<Longrightarrow> joined db' r = joined db r"
  shows "db_ok db' \<and> fold apply_id_event (publishServiceByKey sm ''update'' n s db') (service_view sm db) = service_view sm db'"
proof
  show ok': "db_ok db'" using ok services by (simp add: db_ok_def)
  show "fold apply_id_event (publishServiceByKey sm ''update'' n s db') (service_view sm db) = service_view sm db'"
  proof (rule publish_key_mirror [OF sm ok'])
    fix i assume other: "i \<noteq> uint n * 100000 + uint s"
    show "service_view sm db' i = service_view sm db i"
    proof (cases "row_at i (db_services db)")
      case (Some r)
      then have "r \<in> set (db_services db)" "row_item_id r = i" by (auto dest: row_at_Some)
      with other have "joined db' r = joined db r" using row_key_agree [OF db_ok_row [OF ok]] by (intro same) auto
      then show ?thesis using Some services by (simp add: service_view_row)
    qed (simp add: service_view_row services)
  qed (simp add: service_view_row services)
qed

lemma find_upsert_other:
  assumes "\<And>r. key (update r) = key r" "\<And>r. key r = key row \<Longrightarrow> \<not> p r \<and> \<not> p (update r)"
  shows "find p (upsert key update row table) = find p table"
proof -
  have "\<not> p row" using assms(2) [of row] by simp
  moreover have "find p (map (\<lambda>r. if key r = key row then update r else r) table) = find p table"
    using assms(2) by (induction table) auto
  ultimately show ?thesis by (auto simp: upsert_def find_append split: option.splits)
qed

lemma list_ex_upsert_other:
  assumes "\<And>r. key r = key row \<Longrightarrow> \<not> p r \<and> \<not> p (update r)"
  shows "list_ex p (upsert key update row table) = list_ex p table"
  using assms [of row] assms by (auto simp: upsert_def list_ex_iff)

lemma SetEPG_mirrored:
  assumes "sm_publishes sm"
  shows "service_mirrored sm (SetEPGAttempt sm n s t e)" "service_mirrored sm (SetEPGSuccess sm n s t)"
proof -
  have "joined (store_SetEPGAttempt n s t e db) r = joined db r" "joined (store_SetEPGSuccess n s t db) r = joined db r"
    if "\<not> (row_network_id r = uint n \<and> row_service_id r = uint s)" for db r
    using that by (simp_all add: joined_def epg_of_def store_SetEPGAttempt_def store_SetEPGSuccess_def epg_key_def)
      (subst find_upsert_other; auto simp: epg_key_def)+
  then show "service_mirrored sm (SetEPGAttempt sm n s t e)" "service_mirrored sm (SetEPGSuccess sm n s t)"
    using joined_tables_mirror [OF assms, of _ "store_SetEPGAttempt n s t e _" n s] joined_tables_mirror [OF assms, of _ "store_SetEPGSuccess n s t _" n s]
    by (simp_all add: mirrored_def SetEPGAttempt_def SetEPGSuccess_def Let_def store_SetEPGAttempt_def store_SetEPGSuccess_def)
qed

section \<open>Logos\<close>

lemma Logo_mirrored:
  assumes "sm_publishes sm"
  shows "service_mirrored sm (UpsertLogo sm n ts s l ty v d data t)" "service_mirrored sm (DeleteLogo sm n ts s l ty v d)"
proof -
  have "joined (store_UpsertLogo n ts s l ty v d data t db) r = joined db r"
    if "\<not> (row_network_id r = uint n \<and> row_service_id r = uint s)" for db r
    using that by (simp add: joined_def epg_of_def store_UpsertLogo_def Let_def)
      (subst list_ex_upsert_other; auto simp: logo_matches_def)
  moreover have "joined (store_DeleteLogo n ts s l ty v d db) r = joined db r"
    if "\<not> (row_network_id r = uint n \<and> row_service_id r = uint s)" for db r
  proof -
    have "list_ex (logo_matches r) (db_service_logos (store_DeleteLogo n ts s l ty v d db)) = list_ex (logo_matches r) (db_service_logos db)"
      using that by (auto simp: store_DeleteLogo_def list_ex_iff logo_matches_def)
    then show ?thesis by (simp add: joined_def epg_of_def store_DeleteLogo_def)
  qed
  ultimately show "service_mirrored sm (UpsertLogo sm n ts s l ty v d data t)" "service_mirrored sm (DeleteLogo sm n ts s l ty v d)"
    using joined_tables_mirror [OF assms, of _ "store_UpsertLogo n ts s l ty v d data t _" n s]
      joined_tables_mirror [OF assms, of _ "store_DeleteLogo n ts s l ty v d _" n s]
    by (simp_all add: mirrored_def UpsertLogo_def DeleteLogo_def Let_def store_UpsertLogo_def store_DeleteLogo_def)
qed

lemma row_at_map:
  "(\<And>r. row_item_id (f r) = row_item_id r) \<Longrightarrow> row_at i (map f rows) = map_option f (row_at i rows)"
  by (induction rows) (simp_all add: row_at_def)

lemma UpdateServiceLogoMetadata_mirrored:
  assumes sm: "sm_publishes sm"
  shows "service_mirrored sm (\<lambda>db. let updated = store_UpdateServiceLogoMetadata n ts s l v d db
           in (fst updated, if snd updated then publishServiceByKey sm ''update'' n s (fst updated) else []))"
  unfolding mirrored_def Let_def fst_conv snd_conv
proof (intro allI impI)
  fix db assume ok: "db_ok db"
  define hit where "hit = (\<lambda>r :: services_row. row_network_id r = uint n \<and> row_transport_stream_id r = uint ts \<and> row_service_id r = uint s)"
  define f where "f = (\<lambda>r. if hit r then r\<lparr> row_logo_id := Some l, row_logo_version := Some v, row_logo_download_data_id := Some d \<rparr> else r)"
  define db' where "db' = db\<lparr> db_services := map f (db_services db) \<rparr>"
  have upd: "store_UpdateServiceLogoMetadata n ts s l v d db = (db', list_ex hit (db_services db))"
    by (simp add: store_UpdateServiceLogoMetadata_def db'_def f_def hit_def)
  have "row_ok r \<Longrightarrow> row_ok (f r)" "row_id (f r) = row_id r" "row_item_id (f r) = row_item_id r" for r
    by (simp_all add: f_def row_ok_def row_item_id_def)
  note f = this
  have ok': "db_ok db'" using ok f(1) by (simp add: db_ok_def db'_def list_all_iff comp_def f(2))
  have "fold apply_id_event (if list_ex hit (db_services db) then publishServiceByKey sm ''update'' n s db' else []) (service_view sm db)
      = service_view sm db'"
  proof (cases "list_ex hit (db_services db)")
    case True
    have "service_view sm db' i = service_view sm db i" if "i \<noteq> uint n * 100000 + uint s" for i
    proof (cases "row_at i (db_services db)")
      case (Some r)
      then have "\<not> hit r" using that row_at_Some [OF Some] row_key_agree [OF db_ok_row [OF ok]] by (auto simp: hit_def)
      then show ?thesis using Some by (simp add: service_view_row db'_def row_at_map f(3)) (simp add: f_def joined_def epg_of_def)
    qed (simp add: service_view_row db'_def row_at_map f(3))
    then show ?thesis using True publish_key_mirror [OF sm ok', of n s db] by (simp add: service_view_row db'_def row_at_map f(3))
  next
    case False
    then have "map f (db_services db) = db_services db" by (auto simp: f_def list_ex_iff intro!: map_idI)
    then show ?thesis using False by (simp add: db'_def)
  qed
  then show "db_ok (fst (store_UpdateServiceLogoMetadata n ts s l v d db))
    \<and> fold apply_id_event (if snd (store_UpdateServiceLogoMetadata n ts s l v d db)
          then publishServiceByKey sm ''update'' n s (fst (store_UpdateServiceLogoMetadata n ts s l v d db)) else []) (service_view sm db)
      = service_view sm (fst (store_UpdateServiceLogoMetadata n ts s l v d db))"
    using ok' unfolding upd fst_conv snd_conv by blast
qed

lemma common_logo_service_mirrored:
  assumes "sm_publishes sm"
  shows "service_mirrored sm (common_logo_service sm img data now t)"
proof -
  have "service_mirrored sm (\<lambda>db. then_publish (UpsertLogo sm n ts s l ty v d data now db) (\<lambda>db.
           let updated = store_UpdateServiceLogoMetadata n ts s l v d db
           in (fst updated, if snd updated then publishServiceByKey sm ''update'' n s (fst updated) else [])))" for n ts s l ty v d
    by (intro mirrored_then Logo_mirrored UpdateServiceLogoMetadata_mirrored assms)
  then show ?thesis using Logo_mirrored(2) [OF assms]
    unfolding mirrored_def common_logo_service_def Let_def by (auto simp: Let_def)
qed

definition or_unchanged :: "('e \<Rightarrow> string + ('e \<times> 'v list)) \<Rightarrow> 'e \<Rightarrow> 'e \<times> 'v list" where
  "or_unchanged f s = (case f s of Inl e \<Rightarrow> (s, []) | Inr r \<Rightarrow> r)"

lemma mirrored_cases: "(\<And>db. \<exists>g. service_mirrored sm g \<and> f db = g db) \<Longrightarrow> service_mirrored sm f"
  unfolding mirrored_def by metis

lemma UpsertLogoImage_mirrored:
  assumes "sm_publishes sm"
  shows "service_mirrored sm (or_unchanged (UpsertLogoImage convert now sm img))"
proof (rule mirrored_cases)
  fix db
  define ts where "ts = filter (image_target img) (store_KnownLogoTargets db)"
  let ?del = "\<lambda>db. fold (\<lambda>t r. then_publish r (DeleteLogo sm (lt_NetworkId t) (lt_TransportStreamId t) (lt_ServiceId t) (lt_LogoId t)
    (uint (li_LogoType img)) (uint (li_LogoVersion img)) (uint (li_DownloadDataID img)))) ts (db, [])"
  let ?ins = "\<lambda>data db. fold (\<lambda>t r. then_publish r (UpsertLogo sm (lt_NetworkId t) (lt_TransportStreamId t) (lt_ServiceId t) (lt_LogoId t)
    (uint (li_LogoType img)) (uint (li_LogoVersion img)) (uint (li_DownloadDataID img)) data now)) ts (db, [])"
  have del: "service_mirrored sm ?del" and ins: "\<And>data. service_mirrored sm (?ins data)"
    by (intro mirrored_fold Logo_mirrored assms mirrored_skip)+
  have "or_unchanged (UpsertLogoImage convert now sm img) db = (if ts = [] then (db, []) else if li_IsDeleted img then ?del db
      else case convert (li_Data img) of Inl e \<Rightarrow> (db, []) | Inr data \<Rightarrow> ?ins data db)"
    unfolding or_unchanged_def UpsertLogoImage_def Let_def ts_def by (simp split: sum.split)
  then show "\<exists>g. service_mirrored sm g \<and> or_unchanged (UpsertLogoImage convert now sm img) db = g db"
    using del ins mirrored_skip [of sm] by (auto split: if_splits sum.splits)
qed

lemma UpsertCommonLogoImage_mirrored:
  assumes "sm_publishes sm"
  shows "service_mirrored sm (or_unchanged (UpsertCommonLogoImage convert now sm img))"
proof (rule mirrored_cases)
  fix db
  let ?all = "\<lambda>data db. fold (\<lambda>t r. then_publish r (common_logo_service sm img data now t)) (cl_Services img) (db, [])"
  have all: "service_mirrored sm (?all data)" for data
    by (intro mirrored_fold common_logo_service_mirrored assms mirrored_skip)
  have "or_unchanged (UpsertCommonLogoImage convert now sm img) db = (if cl_IsNetwork img then (db, []) else if cl_IsDeleted img then ?all [] db
      else case convert (cl_Data img) of Inl e \<Rightarrow> (db, []) | Inr data \<Rightarrow> ?all data db)"
    by (simp add: or_unchanged_def UpsertCommonLogoImage_def split: sum.split)
  then show "\<exists>g. service_mirrored sm g \<and> or_unchanged (UpsertCommonLogoImage convert now sm img) db = g db"
    using all mirrored_skip [of sm] by (auto split: if_splits sum.splits)
qed

lemma announcement_mirrored: "service_mirrored sm (\<lambda>db. (UpsertCommonDataAnnouncement now a ty ch db, []))"
proof -
  have "joined (UpsertCommonDataAnnouncement now a ty ch db) = joined db" "db_services (UpsertCommonDataAnnouncement now a ty ch db) = db_services db" for db
    by (simp_all add: fun_eq_iff joined_def epg_of_def UpsertCommonDataAnnouncement_def store_UpsertCommonDataAnnouncement_def Let_def)
  then show ?thesis by (simp add: mirrored_def db_ok_def service_view_row [abs_def])
qed

section \<open>Channels\<close>

lemma fold_remove_services:
  assumes "sm_publishes sm"
  shows "fold apply_id_event (concat (map (\<lambda>svc. publishService sm ''remove'' (Some svc)) svcs)) m
    = (\<lambda>i. if i \<in> ItemId ` set svcs then None else m i)"
  using assms by (induction svcs arbitrary: m) (auto simp: publishService_def apply_event_simps fun_eq_iff)

lemma db_ok_filter: "db_ok db \<Longrightarrow> db_ok (db\<lparr> db_services := filter p (db_services db) \<rparr>)"
  by (auto simp: db_ok_def list_all_iff distinct_map_filter)

lemma distinct_item_ids:
  assumes "list_all row_ok rows" "distinct (map row_id rows)"
  shows "distinct (map row_item_id rows)"
  using assms by (auto simp: distinct_map inj_on_def list_all_iff row_ids_agree)

lemma row_at_unique:
  assumes "distinct (map row_item_id rows)"
  shows "row_at i rows = Some r \<longleftrightarrow> r \<in> set rows \<and> row_item_id r = i"
  unfolding row_at_def by (rule find_row_Some [OF assms])

lemma row_at_filter:
  assumes "distinct (map row_item_id rows)"
  shows "row_at i (filter p rows) = (case row_at i rows of None \<Rightarrow> None | Some r \<Rightarrow> if p r then Some r else None)"
  unfolding row_at_def by (rule find_row_filter [OF assms])

lemma fold_filter: "fold (\<lambda>k. filter (\<lambda>x. \<not> q k x)) ks xs = filter (\<lambda>x. \<forall>k \<in> set ks. \<not> q k x) xs"
  by (induction ks arbitrary: xs) (simp_all add: conj_commute cong: conj_cong)

lemma ReconcileChannels_mirrored:
  assumes sm: "sm_publishes sm"
  shows "service_mirrored sm (ReconcileChannels sm)"
  unfolding mirrored_def
proof (intro allI impI)
  fix db assume ok: "db_ok db"
  define active where "active = map (\<lambda>c. (cc_Type c, cc_Channel c)) (filter (\<lambda>c. \<not> IsChannelDisabled c) (sm_channels sm))"
  define keep where "keep = (\<lambda>r :: services_row. (row_channel_type r, row_channel_id r) \<in> set active)"
  have pruned: "store_PruneChannels active db = db\<lparr> db_services := filter keep (db_services db) \<rparr>"
  proof -
    have "fold (\<lambda>key. filter (\<lambda>s. \<not> in_channel (fst key) (snd key) s)) ks rows = filter (\<lambda>r. \<forall>key \<in> set ks. \<not> in_channel (fst key) (snd key) r) rows"
      for ks and rows :: "services_row list" by (rule fold_filter)
    moreover have "filter (\<lambda>r. \<forall>key \<in> set (remdups (filter (\<lambda>key. key \<notin> set active) (map (\<lambda>s. (row_channel_type s, row_channel_id s)) (db_services db)))).
        \<not> in_channel (fst key) (snd key) r) (db_services db) = filter keep (db_services db)"
      by (rule filter_cong) (auto simp: keep_def in_channel_def)
    ultimately show ?thesis by (simp add: store_PruneChannels_def Let_def)
  qed
  have removed: "set (prunedServices active db) = joined db ` {r \<in> set (db_services db). \<not> keep r}"
    by (auto simp: prunedServices_def store_List_def select_services_def keep_def joined_def fromServiceRow_def)
  have ids: "ItemId ` set (prunedServices active db) = row_item_id ` {r \<in> set (db_services db). \<not> keep r}"
    unfolding removed image_image by (rule image_cong) (auto simp: joined_item_id db_ok_row [OF ok])
  have distinct: "distinct (map row_item_id (db_services db))" using ok distinct_item_ids by (simp add: db_ok_def)
  have "(if i \<in> row_item_id ` {r \<in> set (db_services db). \<not> keep r} then None else service_view sm db i)
      = service_view sm (db\<lparr> db_services := filter keep (db_services db) \<rparr>) i" for i
  proof (cases "row_at i (db_services db)")
    case None
    then show ?thesis by (auto simp: service_view_row row_at_filter [OF distinct])
  next
    case (Some r)
    have "r' = r" if "r' \<in> set (db_services db)" "row_item_id r' = i" for r'
      using that Some row_at_unique [OF distinct, of i r'] by simp
    then have "i \<in> row_item_id ` {r \<in> set (db_services db). \<not> keep r} \<longleftrightarrow> \<not> keep r"
      using row_at_Some [OF Some] by blast
    then show ?thesis using Some by (simp add: service_view_row row_at_filter [OF distinct] joined_def epg_of_def)
  qed
  then show "db_ok (fst (ReconcileChannels sm db))
    \<and> fold apply_id_event (snd (ReconcileChannels sm db)) (service_view sm db) = service_view sm (fst (ReconcileChannels sm db))"
    using db_ok_filter [OF ok, of keep]
    by (simp add: ReconcileChannels_def Let_def pruned fold_remove_services [OF sm] ids fun_eq_iff flip: active_def)
qed

section \<open>Replacing the services of a channel\<close>

lemma map_of_by_id: "map_of (by_id svcs) k = find (\<lambda>s. sv_Id s = k) (rev svcs)"
proof -
  have "map_of (fold (\<lambda>svc. AList.update (sv_Id svc) svc) svcs m) k
      = (case find (\<lambda>s. sv_Id s = k) (rev svcs) of None \<Rightarrow> map_of m k | Some s \<Rightarrow> Some s)" for m
    by (induction svcs arbitrary: m) (auto simp: find_append update_conv' split: option.splits)
  then show ?thesis by (simp add: by_id_def split: option.split)
qed

lemma by_id_entries: "distinct (map fst (by_id svcs)) \<and> (\<forall>(k, s) \<in> set (by_id svcs). s \<in> set svcs \<and> k = sv_Id s)"
proof -
  have "distinct (map fst m) \<Longrightarrow> \<forall>(k, s) \<in> set m. s \<in> S \<and> k = sv_Id s \<Longrightarrow> set svcs \<subseteq> S \<Longrightarrow>
      distinct (map fst (fold (\<lambda>svc. AList.update (sv_Id svc) svc) svcs m))
      \<and> (\<forall>(k, s) \<in> set (fold (\<lambda>svc. AList.update (sv_Id svc) svc) svcs m). s \<in> S \<and> k = sv_Id s)" for m S
  proof (induction svcs arbitrary: m)
    case (Cons svc svcs)
    have "\<forall>(k, s) \<in> set (AList.update (sv_Id svc) svc m). s \<in> S \<and> k = sv_Id s"
      using Cons.prems by (auto dest!: set_AList_update)
    from Cons.IH [OF distinct_update [OF Cons.prems(1)] this] Cons.prems(3) show ?case by simp
  qed simp
  from this [of "[]" "set svcs"] show ?thesis by (simp add: by_id_def)
qed

lemma find_unique: "distinct (map f xs) \<Longrightarrow> x \<in> set xs \<Longrightarrow> find (\<lambda>y. f y = f x) xs = Some x"
  by (induction xs) auto

lemma row_of_service:
  assumes "service_ok svc"
  shows "row_ok (service_row ty ch svc)" "row_item_id (service_row ty ch svc) = ItemId svc" "row_id (service_row ty ch svc) = sv_Id svc"
  using assms uint_bounded [of "sv_NetworkId svc"] uint_bounded [of "sv_ServiceId svc"]
  by (simp_all add: row_ok_def service_row_def row_item_id_def ItemId_def service_ok_def)

lemma upsert_service_ok:
  assumes "list_all row_ok rows" "distinct (map row_id rows)" "row_ok row"
  shows "list_all row_ok (upsert_service row rows) \<and> distinct (map row_id (upsert_service row rows))
    \<and> row_at i (upsert_service row rows) = (if i = row_item_id row then Some row else row_at i rows)"
proof -
  have ids: "row_id \<circ> (\<lambda>r. if row_id r = row_id row then row else r) = row_id" by (simp add: fun_eq_iff)
  have at: "row_at i (map (\<lambda>r. if row_id r = row_id row then row else r) rows) = (if i = row_item_id row then Some row else row_at i rows)"
    if "\<exists>r \<in> set rows. row_id r = row_id row"
  proof (cases "i = row_item_id row")
    case True
    then show ?thesis using assms(1) that by (induction rows) (auto simp: row_at_def row_ids_agree [OF _ assms(3)])
  next
    case False
    then show ?thesis using assms(1) by (induction rows) (auto simp: row_at_def row_ids_agree [OF _ assms(3)])
  qed
  have at_end: "row_at i (rows @ [row]) = (if i = row_item_id row then Some row else row_at i rows)" if "\<forall>r \<in> set rows. row_id r \<noteq> row_id row"
    using assms(1) that by (induction rows) (auto simp: row_at_def row_ids_agree [OF _ assms(3)])
  show ?thesis
  proof (cases "\<exists>r \<in> set rows. row_id r = row_id row")
    case True
    then have "upsert_service row rows = map (\<lambda>r. if row_id r = row_id row then row else r) rows" by (simp add: upsert_service_def upsert_def list_ex_iff)
    then show ?thesis using assms at [OF True] by (auto simp add: list_all_iff ids)
  next
    case False
    then have "upsert_service row rows = rows @ [row]" by (auto simp: upsert_service_def upsert_def list_ex_iff)
    then show ?thesis using assms at_end False by auto
  qed
qed

lemma upsert_services_ok:
  assumes "list_all row_ok rows" "distinct (map row_id rows)" "list_all service_ok svcs"
  shows "list_all row_ok (fold (\<lambda>svc. upsert_service (service_row ty ch svc)) svcs rows)
    \<and> distinct (map row_id (fold (\<lambda>svc. upsert_service (service_row ty ch svc)) svcs rows))
    \<and> row_at i (fold (\<lambda>svc. upsert_service (service_row ty ch svc)) svcs rows)
      = (case find (\<lambda>svc. ItemId svc = i) (rev svcs) of None \<Rightarrow> row_at i rows | Some svc \<Rightarrow> Some (service_row ty ch svc))"
  using assms
proof (induction svcs arbitrary: rows)
  case (Cons svc svcs)
  have row: "row_ok (service_row ty ch svc)" "row_item_id (service_row ty ch svc) = ItemId svc"
    using Cons.prems row_of_service by simp_all
  note up = upsert_service_ok [OF Cons.prems(1,2) row(1)]
  show ?case using Cons.IH [of "upsert_service (service_row ty ch svc) rows"] Cons.prems up [of i] row(2)
    by (simp add: find_append split: option.splits)
qed simp

lemma preserve_same:
  "sv_Id (preserveServiceLogoMetadata m svc) = sv_Id svc" "ItemId (preserveServiceLogoMetadata m svc) = ItemId svc"
  "service_ok (preserveServiceLogoMetadata m svc) = service_ok svc"
  by (simp_all add: preserveServiceLogoMetadata_def ItemId_def service_ok_def split: option.split)

lemma service_ids_agree: "service_ok a \<Longrightarrow> service_ok b \<Longrightarrow> sv_Id a = sv_Id b \<longleftrightarrow> ItemId a = ItemId b"
  using item_id_inject [of "sv_NetworkId a" "sv_ServiceId a" "sv_NetworkId b" "sv_ServiceId b"]
  by (auto simp: service_ok_def scan_id_inject ItemId_def)

lemma joined_service_ok: "row_ok r \<Longrightarrow> service_ok (joined db r)"
  by (simp add: row_ok_def service_ok_def joined_def fromServiceRow_def)

text \<open>The events of the loop: the services of the list get the data of the new table, the others stay.\<close>

lemma replace_events_mirror:
  assumes sm: "sm_publishes sm"
  shows "list_all service_ok svcs \<Longrightarrow> distinct (map fst before) \<Longrightarrow> \<forall>(k, e) \<in> set before. service_ok e \<and> k = sv_Id e \<and> m (ItemId e) = Some (service_event_data sm e)
    \<Longrightarrow> (\<And>svc. svc \<in> set svcs \<Longrightarrow> map_of after (sv_Id svc) = Some (cur (ItemId svc)) \<and> ItemId (cur (ItemId svc)) = ItemId svc)
    \<Longrightarrow> (\<And>k e. (k, e) \<in> set before \<Longrightarrow> k \<in> sv_Id ` set svcs \<Longrightarrow> sameServiceCore e (cur (ItemId e)) \<Longrightarrow> service_event_data sm e = service_event_data sm (cur (ItemId e)))
    \<Longrightarrow> fold apply_id_event (fst (replace_events sm after before svcs)) m
        = (\<lambda>i. if i \<in> ItemId ` set svcs then Some (service_event_data sm (cur i)) else m i)
      \<and> set (snd (replace_events sm after before svcs)) = {(k, e) \<in> set before. k \<notin> sv_Id ` set svcs}"
proof (induction svcs arbitrary: before m)
  case (Cons svc svcs)
  define before' where "before' = AList.delete (sv_Id svc) before"
  define m' where "m' = m(ItemId svc \<mapsto> service_event_data sm (cur (ItemId svc)))"
  have current: "map_of after (sv_Id svc) = Some (cur (ItemId svc))" "ItemId (cur (ItemId svc)) = ItemId svc" using Cons.prems(4) by simp_all
  have before': "set before' = {(k, e) \<in> set before. k \<noteq> sv_Id svc}" "distinct (map fst before')"
    using Cons.prems(2) by (auto simp: before'_def AList.delete_eq distinct_map_filter)
  define E where "E = (case map_of before (sv_Id svc) of
        None \<Rightarrow> publishService sm ''create'' (Some (cur (ItemId svc)))
      | Some e \<Rightarrow> if \<not> sameServiceCore e (cur (ItemId svc)) then publishService sm ''update'' (Some (cur (ItemId svc))) else [])"
  have event: "fold apply_id_event E m = m'"
  proof (cases "map_of before (sv_Id svc)")
    case None
    then show ?thesis using sm current by (simp add: E_def publishService_def apply_event_simps m'_def)
  next
    case (Some e)
    then have e: "(sv_Id svc, e) \<in> set before" by (rule map_of_SomeD)
    then have "service_ok e" "sv_Id svc = sv_Id e" "m (ItemId e) = Some (service_event_data sm e)" using Cons.prems(3) by auto
    moreover from this have id: "ItemId e = ItemId svc" using service_ids_agree [of e svc] Cons.prems(1) by simp
    ultimately show ?thesis using Some sm current Cons.prems(5) [OF e]
      by (auto simp: E_def publishService_def apply_event_simps m'_def fun_eq_iff)
  qed
  have m': "m' (ItemId e) = Some (service_event_data sm e)" if "(k, e) \<in> set before'" for k e
  proof -
    have "service_ok e" "k = sv_Id e" "k \<noteq> sv_Id svc" "m (ItemId e) = Some (service_event_data sm e)" using that Cons.prems(3) before'(1) by auto
    then show ?thesis using service_ids_agree [of e svc] Cons.prems(1) by (simp add: m'_def)
  qed
  have rest: "fold apply_id_event (fst (replace_events sm after before' svcs)) m'
        = (\<lambda>i. if i \<in> ItemId ` set svcs then Some (service_event_data sm (cur i)) else m' i)
      \<and> set (snd (replace_events sm after before' svcs)) = {(k, e) \<in> set before'. k \<notin> sv_Id ` set svcs}"
  proof (rule Cons.IH)
    show "\<forall>(k, e) \<in> set before'. service_ok e \<and> k = sv_Id e \<and> m' (ItemId e) = Some (service_event_data sm e)"
      using Cons.prems(3) before'(1) m' by auto
  qed (use Cons.prems before' in auto)
  have split: "replace_events sm after before (svc # svcs) = (E @ fst (replace_events sm after before' svcs), snd (replace_events sm after before' svcs))"
    by (simp add: Let_def before'_def E_def current)
  show ?case unfolding split fst_conv snd_conv fold_append comp_apply event
    using rest before'(1) by (auto simp: m'_def fun_eq_iff)
qed auto

lemma sameServiceCore_joined:
  assumes "row_ok r" "row_ok r'" "db_service_logos db' = db_service_logos db" "db_epg_service_status db' = db_epg_service_status db"
    and same: "sameServiceCore (joined db r) (joined db' r')"
  shows "joined db r = joined db' r'"
proof -
  have "sv_NetworkId (joined db r) = sv_NetworkId (joined db' r')" "sv_ServiceId (joined db r) = sv_ServiceId (joined db' r')"
    using same by (auto simp: sameServiceCore_def Let_def elim!: Service.equality) (metis Service.surjective Service.update_convs(16) Service.select_convs)+
  then have "row_network_id r = row_network_id r'" "row_service_id r = row_service_id r'"
    using assms(1,2) by (auto elim!: row_ok_words simp: joined_def fromServiceRow_def)
  then have "sv_EPG (joined db r) = sv_EPG (joined db' r')" using assms(4) by (simp add: joined_def fromServiceRow_def epg_of_def)
  then show ?thesis using same by (cases "joined db r"; cases "joined db' r'") (simp add: sameServiceCore_def)
qed

lemma joined_id: "sv_Id (joined db r) = row_id r"
  by (simp add: joined_def fromServiceRow_def)

lemma by_channel_lookup:
  assumes "db_ok db" "r \<in> set (db_services db)" "in_channel ty ch r"
  shows "map_of (by_id (store_GetByChannel ty ch db)) (row_id r) = Some (joined db r)"
proof -
  have "distinct (map sv_Id (rev (store_GetByChannel ty ch db)))"
    using assms(1) by (simp add: store_GetByChannel_def select_services_def db_ok_def comp_def joined_id distinct_map_filter flip: rev_map)
  moreover have "joined db r \<in> set (rev (store_GetByChannel ty ch db))"
    using assms by (simp add: store_GetByChannel_def select_services_def)
  ultimately have "find (\<lambda>s. sv_Id s = sv_Id (joined db r)) (rev (store_GetByChannel ty ch db)) = Some (joined db r)" by (rule find_unique)
  then show ?thesis by (simp add: map_of_by_id joined_id)
qed

lemma by_channel_entries:
  assumes "db_ok db"
  shows "(k, e) \<in> set (by_id (store_GetByChannel ty ch db)) \<longleftrightarrow> (\<exists>r \<in> set (db_services db). in_channel ty ch r \<and> e = joined db r \<and> k = row_id r)"
proof
  assume "(k, e) \<in> set (by_id (store_GetByChannel ty ch db))"
  then show "\<exists>r \<in> set (db_services db). in_channel ty ch r \<and> e = joined db r \<and> k = row_id r"
    using by_id_entries [of "store_GetByChannel ty ch db"] by (fastforce simp: store_GetByChannel_def select_services_def joined_id)
next
  assume "\<exists>r \<in> set (db_services db). in_channel ty ch r \<and> e = joined db r \<and> k = row_id r"
  then show "(k, e) \<in> set (by_id (store_GetByChannel ty ch db))" using by_channel_lookup [OF assms] map_of_SomeD by fastforce
qed

lemma view_at_row:
  assumes "db_ok db" "r \<in> set (db_services db)"
  shows "service_view sm db (row_item_id r) = Some (service_event_data sm (joined db r))"
proof -
  have "distinct (map row_item_id (db_services db))" using assms(1) distinct_item_ids by (simp add: db_ok_def)
  then have "row_at (row_item_id r) (db_services db) = Some r" using row_at_unique assms(2) by blast
  then show ?thesis by (simp add: service_view_row)
qed

text \<open>The database after the replacement, and the services the store has completed.\<close>

definition replaced_db :: "string \<Rightarrow> string \<Rightarrow> Service list \<Rightarrow> database \<Rightarrow> database" where
  "replaced_db ty ch services db = fst (store_ReplaceChannelServices ty ch services db)"

definition replaced_services :: "string \<Rightarrow> string \<Rightarrow> Service list \<Rightarrow> database \<Rightarrow> Service list" where
  "replaced_services ty ch services db = snd (store_ReplaceChannelServices ty ch services db)"

lemma replaced_tables:
  "db_service_logos (replaced_db ty ch services db) = db_service_logos db"
  "db_epg_service_status (replaced_db ty ch services db) = db_epg_service_status db"
  by (simp_all add: replaced_db_def store_ReplaceChannelServices_def Let_def)

lemma replaced_services_ok:
  assumes "list_all service_ok services"
  shows "list_all service_ok (replaced_services ty ch services db)" "map sv_Id (replaced_services ty ch services db) = map sv_Id services"
  using assms by (simp_all add: replaced_services_def store_ReplaceChannelServices_def Let_def list_all_iff preserve_same)

lemma replaced_rows:
  assumes "db_ok db" "list_all service_ok services"
  shows "db_ok (replaced_db ty ch services db)"
    "row_at i (db_services (replaced_db ty ch services db)) =
      (case find (\<lambda>svc. ItemId svc = i) (rev (replaced_services ty ch services db)) of
         None \<Rightarrow> row_at i (filter (\<lambda>s. \<not> in_channel ty ch s) (db_services db))
       | Some svc \<Rightarrow> Some (service_row ty ch svc))"
proof -
  define kept where "kept = filter (\<lambda>s. \<not> in_channel ty ch s) (db_services db)"
  have kept: "list_all row_ok kept" "distinct (map row_id kept)" using assms(1) by (auto simp: db_ok_def kept_def list_all_iff distinct_map_filter)
  have rows: "db_services (replaced_db ty ch services db) = fold (\<lambda>svc. upsert_service (service_row ty ch svc)) (replaced_services ty ch services db) kept"
    by (simp add: replaced_db_def replaced_services_def store_ReplaceChannelServices_def Let_def kept_def)
  note up = upsert_services_ok [OF kept replaced_services_ok(1) [OF assms(2)], of ty ch ty ch db, folded rows]
  show "db_ok (replaced_db ty ch services db)" using up by (simp add: db_ok_def)
  show "row_at i (db_services (replaced_db ty ch services db)) =
      (case find (\<lambda>svc. ItemId svc = i) (rev (replaced_services ty ch services db)) of
         None \<Rightarrow> row_at i (filter (\<lambda>s. \<not> in_channel ty ch s) (db_services db))
       | Some svc \<Rightarrow> Some (service_row ty ch svc))"
    using up [of i] unfolding kept_def by blast
qed

lemma replaced_row:
  assumes "db_ok db" "list_all service_ok services" "svc \<in> set (replaced_services ty ch services db)"
  obtains r where "row_at (ItemId svc) (db_services (replaced_db ty ch services db)) = Some r" "r \<in> set (db_services (replaced_db ty ch services db))"
    "row_ok r" "row_id r = sv_Id svc" "row_item_id r = ItemId svc" "in_channel ty ch r"
proof -
  let ?svcs = "replaced_services ty ch services db"
  have "find (\<lambda>s. ItemId s = ItemId svc) (rev ?svcs) \<noteq> None" using assms(3) by (simp add: find_None_iff) blast
  then obtain s where s: "find (\<lambda>s. ItemId s = ItemId svc) (rev ?svcs) = Some s" by blast
  have ok: "service_ok s" "service_ok svc" "ItemId s = ItemId svc"
    using find_prop [OF s] assms(3) replaced_services_ok(1) [OF assms(2), of ty ch db] by (auto simp: list_all_iff)
  have at: "row_at (ItemId svc) (db_services (replaced_db ty ch services db)) = Some (service_row ty ch s)"
    using replaced_rows(2) [OF assms(1,2)] s by simp
  show thesis
    by (rule that [OF at]) (use row_of_service [OF ok(1)] service_ids_agree [OF ok(1,2)] ok(3) row_at_Some [OF at] in \<open>simp_all add: in_channel_def service_row_def\<close>)
qed

lemma ReplaceChannelServices_events:
  "ReplaceChannelServices sm ty ch services db = (replaced_db ty ch services db,
     fst (replace_events sm (by_id (store_GetByChannel ty ch (replaced_db ty ch services db))) (by_id (store_GetByChannel ty ch db)) (replaced_services ty ch services db))
     @ concat (map (\<lambda>svc. publishService sm ''remove'' (Some svc))
         (map snd (snd (replace_events sm (by_id (store_GetByChannel ty ch (replaced_db ty ch services db))) (by_id (store_GetByChannel ty ch db)) (replaced_services ty ch services db))))))"
  by (simp add: ReplaceChannelServices_def replaced_db_def replaced_services_def Let_def comp_def case_prod_unfold)

text \<open>The service with an item id, as the database has it.\<close>

definition service_at_item :: "database \<Rightarrow> int \<Rightarrow> Service" where
  "service_at_item db i = joined db (the (row_at i (db_services db)))"

lemma replaced_current:
  assumes "db_ok db" "list_all service_ok services" "svc \<in> set (replaced_services ty ch services db)"
  shows "map_of (by_id (store_GetByChannel ty ch (replaced_db ty ch services db))) (sv_Id svc) = Some (service_at_item (replaced_db ty ch services db) (ItemId svc))
    \<and> ItemId (service_at_item (replaced_db ty ch services db) (ItemId svc)) = ItemId svc
    \<and> service_view sm (replaced_db ty ch services db) (ItemId svc) = Some (service_event_data sm (service_at_item (replaced_db ty ch services db) (ItemId svc)))"
proof -
  obtain r where r: "row_at (ItemId svc) (db_services (replaced_db ty ch services db)) = Some r" "r \<in> set (db_services (replaced_db ty ch services db))"
    "row_ok r" "row_id r = sv_Id svc" "row_item_id r = ItemId svc" "in_channel ty ch r" by (rule replaced_row [OF assms])
  then show ?thesis using by_channel_lookup [OF replaced_rows(1) [OF assms(1,2), of ty ch] r(2,6)]
    by (simp add: service_at_item_def service_view_row joined_item_id)
qed

lemma replaced_same_core:
  assumes "db_ok db" "list_all service_ok services" "svc \<in> set (replaced_services ty ch services db)" "row_ok r" "row_id r = sv_Id svc"
    and same: "sameServiceCore (joined db r) (service_at_item (replaced_db ty ch services db) (row_item_id r))"
  shows "joined db r = service_at_item (replaced_db ty ch services db) (row_item_id r)"
proof -
  obtain r' where r': "row_at (ItemId svc) (db_services (replaced_db ty ch services db)) = Some r'" "row_ok r'" "row_id r' = sv_Id svc" "row_item_id r' = ItemId svc"
    by (rule replaced_row [OF assms(1-3)])
  have "row_item_id r = ItemId svc" using row_ids_agree [OF assms(4) r'(2)] assms(5) r'(3,4) by simp
  then have at: "service_at_item (replaced_db ty ch services db) (row_item_id r) = joined (replaced_db ty ch services db) r'"
    using r'(1) by (simp add: service_at_item_def)
  show ?thesis using same unfolding at by (rule sameServiceCore_joined [OF assms(4) r'(2) replaced_tables])
qed

lemma replace_loop:
  assumes sm: "sm_publishes sm" and services: "list_all service_ok services" and ok: "db_ok db"
  shows "fold apply_id_event (fst (replace_events sm (by_id (store_GetByChannel ty ch (replaced_db ty ch services db)))
        (by_id (store_GetByChannel ty ch db)) (replaced_services ty ch services db))) (service_view sm db)
      = (\<lambda>i. if i \<in> ItemId ` set (replaced_services ty ch services db) then service_view sm (replaced_db ty ch services db) i else service_view sm db i)
    \<and> set (snd (replace_events sm (by_id (store_GetByChannel ty ch (replaced_db ty ch services db)))
        (by_id (store_GetByChannel ty ch db)) (replaced_services ty ch services db)))
      = {(k, e) \<in> set (by_id (store_GetByChannel ty ch db)). k \<notin> sv_Id ` set (replaced_services ty ch services db)}"
proof -
  define svcs where "svcs = replaced_services ty ch services db"
  define cur where "cur = service_at_item (replaced_db ty ch services db)"
  have current: "map_of (by_id (store_GetByChannel ty ch (replaced_db ty ch services db))) (sv_Id svc) = Some (cur (ItemId svc))
      \<and> ItemId (cur (ItemId svc)) = ItemId svc" if "svc \<in> set svcs" for svc
    using replaced_current [OF ok services that [unfolded svcs_def]] by (simp add: cur_def)
  have core: "service_event_data sm e = service_event_data sm (cur (ItemId e))"
    if before: "(k, e) \<in> set (by_id (store_GetByChannel ty ch db))" and k: "k \<in> sv_Id ` set svcs" and same: "sameServiceCore e (cur (ItemId e))" for k e
  proof -
    obtain r svc where r: "r \<in> set (db_services db)" "e = joined db r" "svc \<in> set svcs" "sv_Id svc = row_id r"
      using before k unfolding by_channel_entries [OF ok] by fastforce
    then have id: "ItemId e = row_item_id r" by (simp add: joined_item_id db_ok_row [OF ok r(1)])
    have "e = cur (row_item_id r)" unfolding r(2) cur_def
      by (rule replaced_same_core [OF ok services r(3) [unfolded svcs_def] db_ok_row [OF ok r(1)]])
        (use r same id in \<open>simp_all add: cur_def\<close>)
    then show ?thesis using id by simp
  qed
  have entries: "\<forall>(k, e) \<in> set (by_id (store_GetByChannel ty ch db)). service_ok e \<and> k = sv_Id e \<and> service_view sm db (ItemId e) = Some (service_event_data sm e)"
    using view_at_row [OF ok] joined_service_ok db_ok_row [OF ok] by (auto simp: by_channel_entries [OF ok] joined_id joined_item_id)
  have "service_view sm (replaced_db ty ch services db) i = Some (service_event_data sm (cur i))" if "i \<in> ItemId ` set svcs" for i
    using that replaced_current [OF ok services, of _ ty ch sm] by (auto simp: svcs_def cur_def)
  then have "(\<lambda>i. if i \<in> ItemId ` set svcs then Some (service_event_data sm (cur i)) else service_view sm db i)
      = (\<lambda>i. if i \<in> ItemId ` set svcs then service_view sm (replaced_db ty ch services db) i else service_view sm db i)"
    by (simp add: fun_eq_iff)
  moreover have "list_all service_ok svcs" using replaced_services_ok(1) [OF services] by (simp add: svcs_def)
  note replace_events_mirror [OF sm this by_id_entries [THEN conjunct1] entries current core]
  ultimately show ?thesis by (simp add: svcs_def)
qed

lemma ReplaceChannelServices_mirrored:
  assumes sm: "sm_publishes sm" and services: "list_all service_ok services" and ok: "db_ok db"
  shows "db_ok (fst (ReplaceChannelServices sm ty ch services db))
    \<and> fold apply_id_event (snd (ReplaceChannelServices sm ty ch services db)) (service_view sm db)
      = service_view sm (fst (ReplaceChannelServices sm ty ch services db))"
proof -
  let ?db = "replaced_db ty ch services db" and ?svcs = "replaced_services ty ch services db"
  define left where "left = {(k, e) \<in> set (by_id (store_GetByChannel ty ch db)). k \<notin> sv_Id ` set ?svcs}"
  have distinct: "distinct (map row_item_id (db_services db))" using ok distinct_item_ids by (simp add: db_ok_def)
  have svcs: "list_all service_ok ?svcs" by (rule replaced_services_ok(1) [OF services])
  have gone: "i \<in> ItemId ` snd ` left \<longleftrightarrow> i \<notin> ItemId ` set ?svcs \<and> (\<exists>r. row_at i (db_services db) = Some r \<and> in_channel ty ch r)" for i
  proof -
    have "row_id r \<in> sv_Id ` set ?svcs \<longleftrightarrow> row_item_id r \<in> ItemId ` set ?svcs" if "r \<in> set (db_services db)" for r
      using svcs service_ids_agree [OF joined_service_ok [OF db_ok_row [OF ok that], of db]] joined_item_id [OF db_ok_row [OF ok that]]
      by (auto simp: list_all_iff joined_id image_iff)
    then show ?thesis using joined_item_id db_ok_row [OF ok]
      by (auto simp: left_def by_channel_entries [OF ok] row_at_unique [OF distinct] image_iff) (metis+)
  qed
  have "(\<lambda>i. if i \<in> ItemId ` snd ` left then None else if i \<in> ItemId ` set ?svcs then service_view sm ?db i else service_view sm db i)
      = service_view sm ?db"
  proof
    fix i
    have "find (\<lambda>svc. ItemId svc = i) (rev ?svcs) = None" if "i \<notin> ItemId ` set ?svcs"
      using that by (auto simp: find_None_iff)
    then show "(if i \<in> ItemId ` snd ` left then None else if i \<in> ItemId ` set ?svcs then service_view sm ?db i else service_view sm db i)
        = service_view sm ?db i"
      unfolding gone
      by (auto simp: service_view_row replaced_rows(2) [OF ok services] row_at_filter [OF distinct] joined_def epg_of_def replaced_tables
          split: option.splits)
  qed
  moreover note loop = replace_loop [OF sm services ok, of ty ch, THEN conjunct1]
    and rest = replace_loop [OF sm services ok, of ty ch, THEN conjunct2, folded left_def]
  have "fold apply_id_event (snd (ReplaceChannelServices sm ty ch services db)) (service_view sm db)
      = (\<lambda>i. if i \<in> ItemId ` snd ` left then None else if i \<in> ItemId ` set ?svcs then service_view sm ?db i else service_view sm db i)"
    unfolding ReplaceChannelServices_events snd_conv fold_append comp_apply loop fold_remove_services [OF sm] set_map rest ..
  ultimately show ?thesis using replaced_rows(1) [OF ok services, of ty ch] by (simp add: ReplaceChannelServices_events)
qed

section \<open>Histories\<close>

datatype service_op =
    DoSetEPGAttempt u16 u16 int string
  | DoSetEPGSuccess u16 u16 int
  | DoReconcileChannels
  | DoReplaceChannelServices string string "Service list"
  | DoUpsertLogo u16 u16 u16 int int int int bytes int
  | DoDeleteLogo u16 u16 u16 int int int int
  | DoUpsertLogoImage int LogoImage
  | DoUpsertCommonLogoImage int CommonLogoImage
  | DoUpsertCommonDataAnnouncement int CommonDataAnnouncement string string

definition service_exec :: "ServiceManager \<Rightarrow> (bytes \<Rightarrow> string + bytes) \<Rightarrow> service_op \<Rightarrow> database \<Rightarrow> database \<times> service_event list" where
  "service_exec sm convert op = (case op of
       DoSetEPGAttempt n s t e \<Rightarrow> SetEPGAttempt sm n s t e
     | DoSetEPGSuccess n s t \<Rightarrow> SetEPGSuccess sm n s t
     | DoReconcileChannels \<Rightarrow> ReconcileChannels sm
     | DoReplaceChannelServices ty ch services \<Rightarrow> ReplaceChannelServices sm ty ch services
     | DoUpsertLogo n ts s l ty v d data t \<Rightarrow> UpsertLogo sm n ts s l ty v d data t
     | DoDeleteLogo n ts s l ty v d \<Rightarrow> DeleteLogo sm n ts s l ty v d
     | DoUpsertLogoImage now img \<Rightarrow> or_unchanged (UpsertLogoImage convert now sm img)
     | DoUpsertCommonLogoImage now img \<Rightarrow> or_unchanged (UpsertCommonLogoImage convert now sm img)
     | DoUpsertCommonDataAnnouncement now a ty ch \<Rightarrow> (\<lambda>db. (UpsertCommonDataAnnouncement now a ty ch db, [])))"

text \<open>Services are replaced by scanned ones, whose id is that of their network and service.\<close>

definition service_enabled :: "ServiceManager \<Rightarrow> service_op \<Rightarrow> database \<Rightarrow> bool" where
  "service_enabled sm op db \<longleftrightarrow> (case op of DoReplaceChannelServices ty ch services \<Rightarrow> list_all service_ok services | _ \<Rightarrow> True)"

lemma service_exec_mirrored:
  assumes "sm_publishes sm" "db_ok db" "service_enabled sm op db"
  shows "db_ok (fst (service_exec sm convert op db))
    \<and> fold apply_id_event (snd (service_exec sm convert op db)) (service_view sm db) = service_view sm (fst (service_exec sm convert op db))"
proof (cases "\<exists>ty ch services. op = DoReplaceChannelServices ty ch services")
  case True
  then show ?thesis using ReplaceChannelServices_mirrored [OF assms(1) _ assms(2)] assms(3) by (auto simp: service_exec_def service_enabled_def)
next
  case False
  then have "service_mirrored sm (service_exec sm convert op)"
    by (cases op) (simp_all add: service_exec_def SetEPG_mirrored Logo_mirrored ReconcileChannels_mirrored UpsertLogoImage_mirrored
      UpsertCommonLogoImage_mirrored announcement_mirrored assms(1))
  then show ?thesis using assms(2) by (simp add: mirrored_def)
qed

interpretation services: event_source "\<lambda>db. sm_publishes sm \<and> db_ok db" "service_view sm" apply_id_event "service_enabled sm" "service_exec sm convert"
  for sm convert
  by unfold_locales (simp_all add: service_exec_mirrored)

lemma SeedEventLog_view:
  assumes "sm_publishes sm" "db_ok db"
  shows "fold apply_id_event (SeedEventLog sm db) (\<lambda>_. None) = service_view sm db"
proof -
  have fold: "fold apply_id_event (concat (map (\<lambda>svc. publishService sm ''create'' (Some svc)) svcs)) m
      = (\<lambda>i. case find (\<lambda>s. ItemId s = i) (rev svcs) of None \<Rightarrow> m i | Some s \<Rightarrow> Some (service_event_data sm s))" for svcs m
    using assms(1) by (induction svcs arbitrary: m) (auto simp: publishService_def apply_event_simps find_append fun_eq_iff split: option.splits)
  have distinct: "distinct (map row_item_id (db_services db))" using assms(2) distinct_item_ids by (simp add: db_ok_def)
  have found: "find (\<lambda>s. ItemId s = i) (rev (map (joined db) rows)) = map_option (joined db) (row_at i rows)"
    if "list_all row_ok rows" "distinct (map row_item_id rows)" for i rows
    using that by (induction rows) (auto simp: row_at_def find_append joined_item_id find_None_iff dest!: find_prop split: option.splits)
  have rows: "list_all row_ok (db_services db)" using assms(2) by (simp add: db_ok_def)
  have services: "store_List db = map (joined db) (db_services db)" by (simp add: store_List_def select_services_def)
  show ?thesis unfolding SeedEventLog_def fold services fun_eq_iff found [OF rows distinct] service_view_row
    by (simp add: option.map_comp comp_def split: option.split)
qed

text \<open>
  C6. The event log is a faithful mirror of the database. A client that reads the events from the start
  (the seed of the log, and then what the operations publish) and keeps, by item id, the data of the last
  create or update event, without the removed ones, knows at every moment exactly the services the database
  holds, with their EPG status, their logo flag and their channel, whatever operations are performed: scans
  that add, change, drop or move services, EPG gathering, logos, and the removal of disabled channels.
\<close>

theorem service_events_mirror_database:
  assumes "sm_publishes sm" "db_ok db" "ops_enabled (service_enabled sm) (service_exec sm convert) ops db"
  shows "fold apply_id_event (SeedEventLog sm db @ snd (run_events (service_exec sm convert) ops db)) (\<lambda>_. None)
      = service_view sm (fst (run_events (service_exec sm convert) ops db))
    \<and> db_ok (fst (run_events (service_exec sm convert) ops db))"
  using services.run_mirror [of sm db convert ops] assms by (simp add: SeedEventLog_view)

definition demo_service :: "u16 \<Rightarrow> string \<Rightarrow> Service" where
  "demo_service sid ch = \<lparr> sv_Id = scan_id 4 sid, sv_ServiceId = sid, sv_NetworkId = 4, sv_TransportStreamId = 1, sv_Name = [65], sv_Type = 1,
     sv_EITScheduleFlag = True, sv_EITPresentFollowing = True, sv_LogoId = None, sv_LogoVersion = None, sv_LogoDownloadDataId = None,
     sv_HasLogoData = False, sv_RemoteControlKeyId = 0, sv_ChannelType = ''BS'', sv_ChannelId = ch,
     sv_EPG = \<lparr> ep_LastAttemptAt = None, ep_LastSuccessAt = None, ep_LastError = [] \<rparr> \<rparr>"

definition empty_database :: database where
  "empty_database = \<lparr> db_services = [], db_service_logos = [], db_common_data_announcements = [], db_epg_service_status = [] \<rparr>"

definition demo_ops :: "service_op list" where
  "demo_ops = [DoReplaceChannelServices ''BS'' ''1'' [demo_service 101 ''1'', demo_service 102 ''1''],
     DoSetEPGSuccess 4 101 1000, DoReplaceChannelServices ''BS'' ''1'' [demo_service 101 ''1'']]"

theorem service_events_mirror_database_witness:
  "fold apply_id_event (SeedEventLog \<lparr> sm_channels = [], sm_publishes = True \<rparr> empty_database
       @ snd (run_events (service_exec \<lparr> sm_channels = [], sm_publishes = True \<rparr> Inr) demo_ops empty_database)) (\<lambda>_. None)
     = service_view \<lparr> sm_channels = [], sm_publishes = True \<rparr>
         (fst (run_events (service_exec \<lparr> sm_channels = [], sm_publishes = True \<rparr> Inr) demo_ops empty_database))"
  by (rule service_events_mirror_database [THEN conjunct1])
    (simp_all add: db_ok_def empty_database_def demo_ops_def service_enabled_def service_ok_def demo_service_def)

end
