(* ===== verification/Service_Scan.thy ===== *)
theory Service_Scan
  imports Service_Events
begin

text \<open>
  The service scan of \<open>internal/servicescan/service.go\<close>: it scans a channel, keeps the services that the
  configuration allows, and replaces those the database has of the channel. What the stream scanner
  returns is an argument; \<open>TS_Scanner\<close> models how it finds the services of a transport stream.
\<close>

type_synonym scan_channel = "string \<times> string"

fun distinct_channels :: "scan_channel list \<Rightarrow> ChannelConfig list \<Rightarrow> scan_channel list" where
  "distinct_channels seen [] = []"
| "distinct_channels seen (c # cs) =
     (if IsChannelDisabled c \<or> (cc_Type c, cc_Channel c) \<in> set seen then distinct_channels seen cs
      else (cc_Type c, cc_Channel c) # distinct_channels ((cc_Type c, cc_Channel c) # seen) cs)"

definition scan_Channels :: "ChannelConfig list \<Rightarrow> scan_channel list" where
  "scan_Channels channels = distinct_channels [] channels"

text \<open>The service ids that are configured for a channel, or \<open>None\<close> if scans of it are not filtered.\<close>

fun allowed_loop :: "string \<Rightarrow> string \<Rightarrow> u32 list \<Rightarrow> bool \<Rightarrow> ChannelConfig list \<Rightarrow> u32 list option" where
  "allowed_loop channelType channelID allowed matched [] = (if \<not> matched then None else Some allowed)"
| "allowed_loop channelType channelID allowed matched (c # cs) =
     (if cc_Type c \<noteq> channelType \<or> cc_Channel c \<noteq> channelID \<or> IsChannelDisabled c then allowed_loop channelType channelID allowed matched cs
      else case cc_ServiceId c of
        None \<Rightarrow> None
      | Some sid \<Rightarrow> allowed_loop channelType channelID (sid # allowed) True cs)"

definition allowedServiceIDs :: "ChannelConfig list \<Rightarrow> string \<Rightarrow> string \<Rightarrow> u32 list option" where
  "allowedServiceIDs channels channelType channelID = allowed_loop channelType channelID [] False channels"

definition filter_allowed :: "u32 list option \<Rightarrow> ServiceInfo list \<Rightarrow> ServiceInfo list" where
  "filter_allowed allowed infos = (case allowed of None \<Rightarrow> infos | Some ids \<Rightarrow> filter (\<lambda>info. ucast (si_Sid info) \<in> set ids) infos)"

definition scanned_service :: "string \<Rightarrow> string \<Rightarrow> ServiceInfo \<Rightarrow> Service" where
  "scanned_service channelType channelID info =
     \<lparr> sv_Id = scan_id (si_Nid info) (si_Sid info), sv_ServiceId = si_Sid info, sv_NetworkId = si_Nid info,
       sv_TransportStreamId = si_Tsid info, sv_Name = si_Name info, sv_Type = si_Type info,
       sv_EITScheduleFlag = si_EITScheduleFlag info, sv_EITPresentFollowing = si_EITPresentFollowing info,
       sv_LogoId = (if si_LogoId info \<ge> 0 then Some (si_LogoId info) else None),
       sv_LogoVersion = map_option uint (si_LogoVersion info), sv_LogoDownloadDataId = map_option uint (si_LogoDownloadDataId info),
       sv_HasLogoData = False, sv_RemoteControlKeyId = (case si_RemoteControlKeyId info of None \<Rightarrow> 0 | Some k \<Rightarrow> k),
       sv_ChannelType = channelType, sv_ChannelId = channelID,
       sv_EPG = \<lparr> ep_LastAttemptAt = None, ep_LastSuccessAt = None, ep_LastError = [] \<rparr> \<rparr>"

fun new_networks :: "string list \<Rightarrow> u16 list \<Rightarrow> Service list \<Rightarrow> u16 list" where
  "new_networks before seen [] = []"
| "new_networks before seen (svc # services) =
     (if sv_Id svc \<in> set before \<or> sv_NetworkId svc \<in> set seen then new_networks before seen services
      else sv_NetworkId svc # new_networks before (sv_NetworkId svc # seen) services)"

definition newNetworkIDsFromDiff :: "string list \<Rightarrow> Service list \<Rightarrow> u16 list" where
  "newNetworkIDsFromDiff before scanned = new_networks before [] scanned"

text \<open>The result of a scan: an item is a service and its change.\<close>

record scan_result =
  sr_items :: "(Service \<times> string) list"
  sr_services :: int
  sr_addedServices :: int
  sr_existingServices :: int
  sr_removedServices :: int
  sr_newNetworks :: int

definition serviceScanResult :: "Service list \<Rightarrow> (string, Service) gomap \<Rightarrow> u16 list \<Rightarrow> scan_result" where
  "serviceScanResult scanned before newNIDs =
     (let known = (\<lambda>svc. map_of before (sv_Id svc) \<noteq> None);
          removed = filter (\<lambda>(k, svc). k \<notin> sv_Id ` set scanned) before
      in \<lparr> sr_items = map (\<lambda>svc. (svc, if known svc then ''unchanged'' else ''added'')) scanned @ map (\<lambda>(k, svc). (svc, ''removed'')) removed,
           sr_services = blen scanned, sr_addedServices = blen (filter (\<lambda>svc. \<not> known svc) scanned),
           sr_existingServices = blen (filter known scanned), sr_removedServices = blen removed, sr_newNetworks = blen newNIDs \<rparr>)"

text \<open>
  \<open>ScanChannel\<close>: the result of the scanner is an error or the services of the channel. The result has the
  completed services, as the store completes their logo fields in place.
\<close>

definition ScanChannel :: "ServiceManager \<Rightarrow> ChannelConfig list \<Rightarrow> string \<Rightarrow> string \<Rightarrow> string + ServiceInfo list \<Rightarrow> database
    \<Rightarrow> database \<times> service_event list \<times> (string + (u16 list \<times> scan_result))" where
  "ScanChannel sm channels channelType channelID result db =
     (let before = by_id (GetServicesByChannel sm channelType channelID db)
      in case result of
           Inl e \<Rightarrow> (db, [], Inl e)
         | Inr infos \<Rightarrow>
             let scanned = map (scanned_service channelType channelID) (filter_allowed (allowedServiceIDs channels channelType channelID) infos);
                 stored = replaced_services channelType channelID scanned db;
                 r = ReplaceChannelServices sm channelType channelID scanned db;
                 newNIDs = newNetworkIDsFromDiff (map fst before) stored
             in (fst r, snd r, Inr (newNIDs, serviceScanResult stored before newNIDs)))"

section \<open>What a scan leaves\<close>

lemma scanned_service_ok: "service_ok (scanned_service ty ch info)"
  by (simp add: service_ok_def scanned_service_def)

text \<open>A scan is an operation of the service manager that its histories allow.\<close>

lemma ScanChannel_enabled:
  "ScanChannel sm channels ty ch (Inr infos) db = (fst r, snd r, snd (snd (ScanChannel sm channels ty ch (Inr infos) db)))
    \<and> service_enabled sm (DoReplaceChannelServices ty ch (map (scanned_service ty ch) (filter_allowed (allowedServiceIDs channels ty ch) infos))) db"
  if "r = service_exec sm convert (DoReplaceChannelServices ty ch (map (scanned_service ty ch) (filter_allowed (allowedServiceIDs channels ty ch) infos))) db"
  using that by (simp add: ScanChannel_def Let_def service_exec_def service_enabled_def scanned_service_ok list_all_iff)



lemma allowed_loop_Some:
  "allowed_loop ty ch allowed matched cs = Some ids \<Longrightarrow>
    set ids = set allowed \<union> {sid. \<exists>c \<in> set cs. cc_Type c = ty \<and> cc_Channel c = ch \<and> \<not> IsChannelDisabled c \<and> cc_ServiceId c = Some sid}"
  by (induction cs arbitrary: allowed matched) (fastforce split: if_splits option.splits)+











end
