(* ===== verification/Program_Store.thy ===== *)
theory Program_Store
  imports Service_Store Event_Sources
begin

text \<open>
  Programs: \<open>internal/program/program.go\<close> (data, event data), \<open>sqlite_store.go\<close> with
  \<open>internal/db/queries/programs.sql\<close> (the table), \<open>manager.go\<close> (upserts, replacement, events).
  A Go string is the list of its characters, a nil slice or map is an empty one. Encoding a value as JSON
  for a column and decoding it again gives the value. Programs of a list are not nil. As in
  \<open>Service_Store\<close>, statements of the database succeed.
\<close>

section \<open>Data\<close>

record Genre =
  gn_Lv1 :: int
  gn_Lv2 :: int
  gn_Un1 :: int
  gn_Un2 :: int

record Video =
  vd_StreamContent :: int
  vd_ComponentType :: int

record Audio =
  au_ComponentType :: int
  au_ComponentTag :: "int option"
  au_IsMain :: "bool option"
  au_SamplingRate :: "int option"
  au_Langs :: "gostring list"

datatype RelatedItemType = RelatedItemTypeNone | RelatedItemTypeShared | RelatedItemTypeRelay | RelatedItemTypeMovement

record RelatedItem =
  ri_Type :: RelatedItemType
  ri_NetworkID :: "u16 option"
  ri_TransportStreamID :: "u16 option"
  ri_ServiceID :: u16
  ri_EventID :: u16

record Series =
  sn_ID :: int
  sn_Repeat :: int
  sn_Pattern :: int
  sn_ExpiresAt :: "int option"
  sn_Episode :: int
  sn_LastEpisode :: int
  sn_Name :: gostring

record Program =
  pg_ID :: int
  pg_EventID :: u16
  pg_ServiceID :: u16
  pg_NetworkID :: u16
  pg_StartAt :: int
  pg_Duration :: int
  pg_IsFree :: bool
  pg_Name :: gostring
  pg_Description :: gostring
  pg_Genres :: "Genre list"
  pg_Video :: "Video option"
  pg_Audios :: "Audio list"
  pg_Extended :: "(gostring, gostring) gomap"
  pg_RelatedItems :: "RelatedItem list"
  pg_Series :: "Series option"

record Query =
  qr_ID :: "int option"
  qr_NetworkID :: "u16 option"
  qr_ServiceID :: "u16 option"
  qr_EventID :: "u16 option"

definition ProgramID :: "u16 \<Rightarrow> u16 \<Rightarrow> u16 \<Rightarrow> int" where
  "ProgramID networkID serviceID eventID = uint networkID * 10000000000 + uint serviceID * 100000 + uint eventID"

section \<open>Event data\<close>

definition VideoType :: "int \<Rightarrow> string option" where
  "VideoType streamContent =
     (if streamContent = 0x1 then Some ''mpeg2'' else if streamContent = 0x5 then Some ''h.264''
      else if streamContent = 0x9 then Some ''h.265'' else None)"

definition VideoResolution :: "int \<Rightarrow> string option" where
  "VideoResolution t =
     (if t \<ge> 0x01 \<and> t \<le> 0x04 then Some ''480i'' else if t = 0x83 then Some ''4320p''
      else if t \<ge> 0x91 \<and> t \<le> 0x94 then Some ''2160p'' else if t \<ge> 0xa1 \<and> t \<le> 0xa4 then Some ''480p''
      else if t \<ge> 0xb1 \<and> t \<le> 0xb4 then Some ''1080i'' else if t \<ge> 0xc1 \<and> t \<le> 0xc4 then Some ''720p''
      else if t \<ge> 0xd1 \<and> t \<le> 0xd4 then Some ''240p'' else if t \<ge> 0xe1 \<and> t \<le> 0xe4 then Some ''1080p'' else None)"

definition genreListEventData :: "Genre list \<Rightarrow> event_value" where
  "genreListEventData genres = EvList (map (\<lambda>g. EvMap [(''lv1'', EvInt (gn_Lv1 g)), (''lv2'', EvInt (gn_Lv2 g)),
     (''un1'', EvInt (gn_Un1 g)), (''un2'', EvInt (gn_Un2 g))]) genres)"

definition opt_entry :: "string \<Rightarrow> ('a \<Rightarrow> event_value) \<Rightarrow> 'a option \<Rightarrow> event_data" where
  "opt_entry k f v = (case v of None \<Rightarrow> [] | Some x \<Rightarrow> [(k, f x)])"

definition audioListEventData :: "Audio list \<Rightarrow> event_value" where
  "audioListEventData audios = EvList (map (\<lambda>a. EvMap ([(''componentType'', EvInt (au_ComponentType a))]
     @ opt_entry ''componentTag'' EvInt (au_ComponentTag a) @ opt_entry ''isMain'' EvBool (au_IsMain a)
     @ opt_entry ''samplingRate'' EvInt (au_SamplingRate a)
     @ (if au_Langs a \<noteq> [] then [(''langs'', EvList (map EvName (au_Langs a)))] else []))) audios)"

definition related_type :: "RelatedItemType \<Rightarrow> string" where
  "related_type t = (case t of RelatedItemTypeNone \<Rightarrow> [] | RelatedItemTypeShared \<Rightarrow> ''shared''
     | RelatedItemTypeRelay \<Rightarrow> ''relay'' | RelatedItemTypeMovement \<Rightarrow> ''movement'')"

definition relatedItemListEventData :: "RelatedItem list \<Rightarrow> event_value" where
  "relatedItemListEventData items = EvList (map (\<lambda>r. EvMap (
       (if related_type (ri_Type r) \<noteq> [] then [(''type'', EvString (related_type (ri_Type r)))] else [])
     @ opt_entry ''networkId'' (\<lambda>v. EvInt (uint v)) (ri_NetworkID r)
     @ opt_entry ''transportStreamId'' (\<lambda>v. EvInt (uint v)) (ri_TransportStreamID r)
     @ (if ri_ServiceID r \<noteq> 0 then [(''serviceId'', EvInt (uint (ri_ServiceID r)))] else [])
     @ (if ri_EventID r \<noteq> 0 then [(''eventId'', EvInt (uint (ri_EventID r)))] else []))) items)"

definition video_event_data :: "Video \<Rightarrow> event_value" where
  "video_event_data v = EvMap ([(''streamContent'', EvInt (vd_StreamContent v)), (''componentType'', EvInt (vd_ComponentType v))]
     @ opt_entry ''type'' EvString (VideoType (vd_StreamContent v))
     @ opt_entry ''resolution'' EvString (VideoResolution (vd_ComponentType v)))"

definition series_event_data :: "Series \<Rightarrow> event_value" where
  "series_event_data s = EvMap ([(''id'', EvInt (sn_ID s)), (''repeat'', EvInt (sn_Repeat s)), (''pattern'', EvInt (sn_Pattern s)),
     (''episode'', EvInt (sn_Episode s)), (''lastEpisode'', EvInt (sn_LastEpisode s))]
     @ opt_entry ''expiresAt'' EvInt (sn_ExpiresAt s)
     @ (if sn_Name s \<noteq> [] then [(''name'', EvName (sn_Name s))] else []))"

definition Program_EventData :: "Program \<Rightarrow> event_data" where
  "Program_EventData p =
     [(''id'', EvInt (pg_ID p)), (''eventId'', EvInt (uint (pg_EventID p))), (''serviceId'', EvInt (uint (pg_ServiceID p))),
      (''networkId'', EvInt (uint (pg_NetworkID p))), (''startAt'', EvInt (pg_StartAt p)), (''duration'', EvInt (pg_Duration p)),
      (''isFree'', EvBool (pg_IsFree p)), (''genres'', genreListEventData (pg_Genres p)), (''audios'', audioListEventData (pg_Audios p)),
      (''relatedItems'', relatedItemListEventData (pg_RelatedItems p))]
     @ (if pg_Name p \<noteq> [] then [(''name'', EvName (pg_Name p))] else [])
     @ (if pg_Description p \<noteq> [] then [(''description'', EvName (pg_Description p))] else [])
     @ opt_entry ''video'' video_event_data (pg_Video p)
     @ (if pg_Extended p \<noteq> [] then [(''extended'', EvList (map (\<lambda>(k, v). EvList [EvName k, EvName v]) (pg_Extended p)))] else [])
     @ opt_entry ''series'' series_event_data (pg_Series p)"

section \<open>The table\<close>

record programs_row =
  pr_id :: int
  pr_event_id :: int
  pr_service_id :: int
  pr_network_id :: int
  pr_start_at :: int
  pr_duration :: int
  pr_is_free :: int
  pr_name :: "gostring option"
  pr_description :: "gostring option"
  pr_genres :: "Genre list option"
  pr_video :: "Video option"
  pr_audios :: "Audio list option"
  pr_extended :: "(gostring, gostring) gomap option"
  pr_related_items :: "RelatedItem list option"
  pr_series :: "Series option"

text \<open>\<open>encodeJSON\<close> of a slice or map, and the handling of strings: an empty value is \<open>NULL\<close>.\<close>

definition encodeJSON :: "'a list \<Rightarrow> 'a list option" where
  "encodeJSON v = (if v = [] then None else Some v)"

definition decodeJSON :: "'a list option \<Rightarrow> 'a list" where
  "decodeJSON s = (case s of None \<Rightarrow> [] | Some v \<Rightarrow> v)"

definition toUpsertProgramParams :: "Program \<Rightarrow> programs_row" where
  "toUpsertProgramParams p =
     \<lparr> pr_id = pg_ID p, pr_event_id = uint (pg_EventID p), pr_service_id = uint (pg_ServiceID p), pr_network_id = uint (pg_NetworkID p),
       pr_start_at = pg_StartAt p, pr_duration = pg_Duration p, pr_is_free = (if pg_IsFree p then 1 else 0),
       pr_name = encodeJSON (pg_Name p), pr_description = encodeJSON (pg_Description p), pr_genres = encodeJSON (pg_Genres p),
       pr_video = pg_Video p, pr_audios = encodeJSON (pg_Audios p), pr_extended = encodeJSON (pg_Extended p),
       pr_related_items = encodeJSON (pg_RelatedItems p), pr_series = pg_Series p \<rparr>"

definition fromGenProgram :: "programs_row \<Rightarrow> Program" where
  "fromGenProgram r =
     \<lparr> pg_ID = pr_id r, pg_EventID = word_of_int (pr_event_id r), pg_ServiceID = word_of_int (pr_service_id r),
       pg_NetworkID = word_of_int (pr_network_id r), pg_StartAt = pr_start_at r, pg_Duration = pr_duration r, pg_IsFree = (pr_is_free r \<noteq> 0),
       pg_Name = decodeJSON (pr_name r), pg_Description = decodeJSON (pr_description r), pg_Genres = decodeJSON (pr_genres r),
       pg_Video = pr_video r, pg_Audios = decodeJSON (pr_audios r), pg_Extended = decodeJSON (pr_extended r),
       pg_RelatedItems = decodeJSON (pr_related_items r), pg_Series = pr_series r \<rparr>"

definition coalesce :: "'a option \<Rightarrow> 'a option \<Rightarrow> 'a option" where
  "coalesce a b = (case a of None \<Rightarrow> b | Some x \<Rightarrow> Some x)"

text \<open>\<open>upsertProgramSQL\<close>: what the conflict clause makes of the old row.\<close>

definition coalesce_row :: "programs_row \<Rightarrow> programs_row \<Rightarrow> programs_row" where
  "coalesce_row new old = new\<lparr>
     pr_name := coalesce (pr_name new) (pr_name old), pr_description := coalesce (pr_description new) (pr_description old),
     pr_genres := coalesce (pr_genres new) (pr_genres old), pr_video := coalesce (pr_video new) (pr_video old),
     pr_audios := coalesce (pr_audios new) (pr_audios old), pr_extended := coalesce (pr_extended new) (pr_extended old),
     pr_related_items := coalesce (pr_related_items new) (pr_related_items old), pr_series := coalesce (pr_series new) (pr_series old) \<rparr>"

definition execUpsertProgram :: "programs_row \<Rightarrow> programs_row list \<Rightarrow> programs_row list" where
  "execUpsertProgram row table = upsert pr_id (coalesce_row row) row table"

definition upsertPrograms :: "Program list \<Rightarrow> programs_row list \<Rightarrow> programs_row list" where
  "upsertPrograms programs table = fold (\<lambda>p. execUpsertProgram (toUpsertProgramParams p)) programs table"

definition by_start :: "programs_row list \<Rightarrow> programs_row list" where
  "by_start = sort_key (\<lambda>r. (pr_start_at r, pr_id r))"

definition pstore_Get :: "int \<Rightarrow> programs_row list \<Rightarrow> Program option" where
  "pstore_Get i table = map_option fromGenProgram (find (\<lambda>r. pr_id r = i) table)"

definition matches :: "'a option \<Rightarrow> 'a \<Rightarrow> bool" where
  "matches q v \<longleftrightarrow> (case q of None \<Rightarrow> True | Some x \<Rightarrow> v = x)"

definition pstore_List :: "Query \<Rightarrow> programs_row list \<Rightarrow> Program list" where
  "pstore_List q table = map fromGenProgram (by_start (filter (\<lambda>r. matches (qr_ID q) (pr_id r)
     \<and> matches (map_option uint (qr_NetworkID q)) (pr_network_id r) \<and> matches (map_option uint (qr_ServiceID q)) (pr_service_id r)
     \<and> matches (map_option uint (qr_EventID q)) (pr_event_id r)) table))"

definition pstore_ListByIDs :: "int list \<Rightarrow> programs_row list \<Rightarrow> Program list" where
  "pstore_ListByIDs ids table = (if ids = [] then [] else map fromGenProgram (by_start (filter (\<lambda>r. pr_id r \<in> set ids) table)))"

definition pstore_ListByServiceFrom :: "u16 \<Rightarrow> u16 \<Rightarrow> int \<Rightarrow> programs_row list \<Rightarrow> Program list" where
  "pstore_ListByServiceFrom networkID serviceID start table =
     map fromGenProgram (by_start (filter (\<lambda>r. pr_network_id r = uint networkID \<and> pr_service_id r = uint serviceID \<and> pr_start_at r \<ge> start) table))"

definition ended_before :: "int \<Rightarrow> programs_row \<Rightarrow> bool" where
  "ended_before cutoff r \<longleftrightarrow> pr_start_at r + pr_duration r < cutoff"

definition pstore_ListEndedIDsBefore :: "int \<Rightarrow> programs_row list \<Rightarrow> int list" where
  "pstore_ListEndedIDsBefore cutoff table = sort (map pr_id (filter (ended_before cutoff) table))"

definition pstore_DeleteEndedBefore :: "int \<Rightarrow> programs_row list \<Rightarrow> programs_row list" where
  "pstore_DeleteEndedBefore cutoff table = filter (\<lambda>r. \<not> ended_before cutoff r) table"

definition pstore_ReplaceServicePrograms :: "u16 \<Rightarrow> u16 \<Rightarrow> int \<Rightarrow> Program list \<Rightarrow> programs_row list \<Rightarrow> programs_row list" where
  "pstore_ReplaceServicePrograms networkID serviceID start programs table =
     upsertPrograms programs (filter (\<lambda>r. \<not> (pr_network_id r = uint networkID \<and> pr_service_id r = uint serviceID
       \<and> pr_start_at r + pr_duration r \<ge> start)) table)"

definition pstore_Count :: "programs_row list \<Rightarrow> int" where
  "pstore_Count table = blen table"

section \<open>The manager\<close>

datatype programEvent = ProgramEvent string Program | ProgramRemoveEvent int

text \<open>What \<open>flushEvents\<close> publishes for a queued event.\<close>

definition published :: "programEvent \<Rightarrow> string \<times> event_data" where
  "published e = (case e of ProgramRemoveEvent i \<Rightarrow> (''remove'', [(''id'', EvInt i)]) | ProgramEvent typ p \<Rightarrow> (typ, Program_EventData p))"

definition or_existing :: "'a list \<Rightarrow> 'a list \<Rightarrow> 'a list" where
  "or_existing merged existing = (if merged = [] then existing else merged)"

definition mergeUpsertProgram :: "Program option \<Rightarrow> Program \<Rightarrow> Program" where
  "mergeUpsertProgram existing incoming =
     (case existing of
        None \<Rightarrow> incoming
      | Some e \<Rightarrow> incoming\<lparr> pg_Name := or_existing (pg_Name incoming) (pg_Name e), pg_Description := or_existing (pg_Description incoming) (pg_Description e),
          pg_Genres := or_existing (pg_Genres incoming) (pg_Genres e), pg_Video := coalesce (pg_Video incoming) (pg_Video e),
          pg_Audios := or_existing (pg_Audios incoming) (pg_Audios e), pg_Extended := or_existing (pg_Extended incoming) (pg_Extended e),
          pg_RelatedItems := or_existing (pg_RelatedItems incoming) (pg_RelatedItems e), pg_Series := coalesce (pg_Series incoming) (pg_Series e) \<rparr>)"

definition programs_by_id :: "Program list \<Rightarrow> (int, Program) gomap" where
  "programs_by_id programs = fold (\<lambda>p. AList.update (pg_ID p) p) programs []"

definition upsert_event :: "Program option \<Rightarrow> Program \<Rightarrow> programEvent list" where
  "upsert_event existing p =
     (let after = mergeUpsertProgram existing p
      in case existing of
           None \<Rightarrow> [ProgramEvent ''create'' after]
         | Some e \<Rightarrow> if e \<noteq> after then [ProgramEvent ''update'' after] else [])"

definition UpsertPrograms :: "Program list \<Rightarrow> programs_row list \<Rightarrow> programs_row list \<times> programEvent list" where
  "UpsertPrograms programs table =
     (let pending = programs_by_id programs;
          ids = map fst pending;
          before = programs_by_id (pstore_ListByIDs ids table)
      in (upsertPrograms programs table, concat (map (\<lambda>(k, p). upsert_event (map_of before (pg_ID p)) p) pending)))"

definition DeleteEndedBefore :: "int \<Rightarrow> programs_row list \<Rightarrow> programs_row list \<times> programEvent list" where
  "DeleteEndedBefore cutoff table =
     (pstore_DeleteEndedBefore cutoff table, map ProgramRemoveEvent (pstore_ListEndedIDsBefore cutoff table))"

fun replaced_program_events :: "(int, Program) gomap \<Rightarrow> Program list \<Rightarrow> programEvent list \<times> (int, Program) gomap" where
  "replaced_program_events before [] = ([], before)"
| "replaced_program_events before (p # programs) =
     (let existing = map_of before (pg_ID p);
          event = (case existing of
              None \<Rightarrow> [ProgramEvent ''create'' p]
            | Some e \<Rightarrow> if e \<noteq> p then [ProgramEvent ''update'' p] else []);
          rest = replaced_program_events (AList.delete (pg_ID p) before) programs
      in (event @ fst rest, snd rest))"

definition ReplaceServicePrograms :: "u16 \<Rightarrow> u16 \<Rightarrow> int \<Rightarrow> Program list \<Rightarrow> programs_row list \<Rightarrow> programs_row list \<times> programEvent list" where
  "ReplaceServicePrograms networkID serviceID start programs table =
     (let before = programs_by_id (pstore_ListByServiceFrom networkID serviceID start table);
          events = replaced_program_events before programs
      in (pstore_ReplaceServicePrograms networkID serviceID start programs table,
          fst events @ map (\<lambda>(k, p). ProgramRemoveEvent k) (snd events)))"

end
