(* ===== verification/Program_Events.thy ===== *)
theory Program_Events
  imports Program_Store
begin

text \<open>
  The events of the program manager mirror the table of programs, as those of the service manager mirror
  the services. For upserts and deletions this holds; for the replacement of the programs of a service it
  holds when the rows that the statement deletes are those that the manager has looked up.
\<close>

section \<open>Rows and programs\<close>

lemma decode_encode [simp]: "decodeJSON (encodeJSON v) = v"
  by (simp add: decodeJSON_def encodeJSON_def)

text \<open>
  A program survives the database: the columns written for it give the program back.
\<close>

theorem program_row_roundtrip: "fromGenProgram (toUpsertProgramParams p) = p"
  by (cases p) (simp add: fromGenProgram_def toUpsertProgramParams_def)

lemma decode_coalesce: "decodeJSON (coalesce (encodeJSON v) old) = or_existing v (decodeJSON old)"
  by (simp add: decodeJSON_def encodeJSON_def coalesce_def or_existing_def)

lemma row_merge: "fromGenProgram (coalesce_row (toUpsertProgramParams p) old) = mergeUpsertProgram (Some (fromGenProgram old)) p"
  by (cases p) (simp add: fromGenProgram_def toUpsertProgramParams_def coalesce_row_def mergeUpsertProgram_def decode_coalesce)

definition table_ok :: "programs_row list \<Rightarrow> bool" where
  "table_ok table \<longleftrightarrow> distinct (map pr_id table)"

definition program_at :: "programs_row list \<Rightarrow> int \<Rightarrow> Program option" where
  "program_at table i = map_option fromGenProgram (find (\<lambda>r. pr_id r = i) table)"

definition program_view :: "programs_row list \<Rightarrow> int \<Rightarrow> event_data option" where
  "program_view table i = map_option Program_EventData (program_at table i)"

lemma program_at_Get: "program_at table i = pstore_Get i table"
  by (simp add: program_at_def pstore_Get_def)

lemma params_id [simp]: "pr_id (toUpsertProgramParams p) = pg_ID p" "pr_id (coalesce_row new old) = pr_id new"
  by (simp_all add: toUpsertProgramParams_def coalesce_row_def)

lemma execUpsertProgram_ok:
  assumes "table_ok table"
  shows "table_ok (execUpsertProgram (toUpsertProgramParams p) table)"
    and "program_at (execUpsertProgram (toUpsertProgramParams p) table) i
      = (if i = pg_ID p then Some (mergeUpsertProgram (program_at table i) p) else program_at table i)"
proof -
  let ?row = "toUpsertProgramParams p"
  let ?f = "\<lambda>r. if pr_id r = pg_ID p then coalesce_row ?row r else r"
  have ids: "pr_id \<circ> ?f = pr_id" by (auto simp: fun_eq_iff)
  have found: "find (\<lambda>r. pr_id r = k) (map ?f table) = map_option ?f (find (\<lambda>r. pr_id r = k) table)" for k
    by (induction table) auto
  show "table_ok (execUpsertProgram ?row table)"
    using assms by (auto simp: table_ok_def execUpsertProgram_def upsert_def ids list_ex_iff)
  show "program_at (execUpsertProgram ?row table) i
      = (if i = pg_ID p then Some (mergeUpsertProgram (program_at table i) p) else program_at table i)"
  proof (cases "list_ex (\<lambda>r. pr_id r = pr_id ?row) table")
    case True
    then have "find (\<lambda>r. pr_id r = pg_ID p) table \<noteq> None" by (auto simp: list_ex_iff find_None_iff)
    then obtain old where "find (\<lambda>r. pr_id r = pg_ID p) table = Some old" by blast
    then have old: "find (\<lambda>r. pr_id r = pg_ID p) table = Some old" "pr_id old = pg_ID p" by (auto dest: find_prop)
    show ?thesis
    proof (cases "i = pg_ID p")
      case True
      then show ?thesis using \<open>list_ex _ table\<close> old by (simp add: program_at_def execUpsertProgram_def upsert_def found row_merge)
    next
      case False
      then have "map_option ?f (find (\<lambda>r. pr_id r = i) table) = find (\<lambda>r. pr_id r = i) table"
        by (cases "find (\<lambda>r. pr_id r = i) table") (auto dest: find_prop)
      then show ?thesis using \<open>list_ex _ table\<close> False by (simp add: program_at_def execUpsertProgram_def upsert_def found)
    qed
  next
    case False
    then have "find (\<lambda>r. pr_id r = pg_ID p) table = None" by (auto simp: list_ex_iff find_row_None)
    then show ?thesis using False
      by (auto simp: program_at_def execUpsertProgram_def upsert_def find_append mergeUpsertProgram_def program_row_roundtrip
          simp del: params_id(2) split: option.splits)
  qed
qed

lemma upsertPrograms_ok:
  assumes "table_ok table" "distinct (map pg_ID programs)"
  shows "table_ok (upsertPrograms programs table)
    \<and> program_at (upsertPrograms programs table) i = (case find (\<lambda>p. pg_ID p = i) programs of
        None \<Rightarrow> program_at table i | Some p \<Rightarrow> Some (mergeUpsertProgram (program_at table i) p))"
  using assms
proof (induction programs arbitrary: table)
  case (Cons p programs)
  note up = execUpsertProgram_ok [OF Cons.prems(1), of p]
  have "find (\<lambda>q. pg_ID q = pg_ID p) programs = None" using Cons.prems(2) by (simp add: find_row_None)
  then show ?case using Cons.IH [OF up(1)] Cons.prems(2) up(2) by (auto simp: upsertPrograms_def split: option.splits)
qed (simp add: upsertPrograms_def)

section \<open>Looking programs up\<close>

lemma find_rev: "distinct (map f xs) \<Longrightarrow> find (\<lambda>x. f x = k) (rev xs) = find (\<lambda>x. f x = k) xs"
proof (cases "find (\<lambda>x. f x = k) xs")
  case None
  then have "find (\<lambda>x. f x = k) (rev xs) = None" by (simp add: find_row_None)
  then show "distinct (map f xs) \<Longrightarrow> find (\<lambda>x. f x = k) (rev xs) = find (\<lambda>x. f x = k) xs" using None by simp
next
  case (Some r)
  then show "distinct (map f xs) \<Longrightarrow> find (\<lambda>x. f x = k) (rev xs) = find (\<lambda>x. f x = k) xs"
    using find_row_Some [of f "rev xs" k r] find_row_Some [of f xs k r] by (simp flip: rev_map)
qed

lemma map_of_programs_by_id: "map_of (programs_by_id ps) k = find (\<lambda>p. pg_ID p = k) (rev ps)"
proof -
  have "map_of (fold (\<lambda>p. AList.update (pg_ID p) p) ps m) k = (case find (\<lambda>p. pg_ID p = k) (rev ps) of None \<Rightarrow> map_of m k | Some p \<Rightarrow> Some p)" for m
    by (induction ps arbitrary: m) (auto simp: find_append update_conv' split: option.splits)
  then show ?thesis by (simp add: programs_by_id_def split: option.split)
qed

lemma programs_by_id_distinct: "distinct (map fst (programs_by_id ps))"
proof -
  have "distinct (map fst m) \<Longrightarrow> distinct (map fst (fold (\<lambda>p. AList.update (pg_ID p) p) ps m))" for m
    by (induction ps arbitrary: m) (simp_all add: distinct_update)
  then show ?thesis by (simp add: programs_by_id_def)
qed

lemma programs_by_id_set: "distinct (map pg_ID ps) \<Longrightarrow> (k, p) \<in> set (programs_by_id ps) \<longleftrightarrow> p \<in> set ps \<and> k = pg_ID p"
  using map_of_eq_Some_iff [OF programs_by_id_distinct, of ps k p] by (auto simp: map_of_programs_by_id find_rev find_row_Some)

lemma looked_up:
  assumes "table_ok table"
  shows "map_of (programs_by_id (map fromGenProgram (by_start (filter q table)))) k
    = (case find (\<lambda>r. pr_id r = k) table of None \<Rightarrow> None | Some r \<Rightarrow> if q r then Some (fromGenProgram r) else None)"
proof -
  have ids: "pg_ID (fromGenProgram r) = pr_id r" for r by (simp add: fromGenProgram_def)
  have "distinct (map pr_id (by_start (filter q table)))"
    using assms by (simp add: table_ok_def by_start_def distinct_map distinct_filter inj_on_def)
  then have "distinct (map pg_ID (map fromGenProgram (by_start (filter q table))))" by (simp add: comp_def ids)
  then have "map_of (programs_by_id (map fromGenProgram (by_start (filter q table)))) k
      = map_option fromGenProgram (find (\<lambda>r. pr_id r = k) (by_start (filter q table)))"
    by (simp add: map_of_programs_by_id find_rev) (simp add: ids find_row_map)
  moreover have "find (\<lambda>r. pr_id r = k) (by_start (filter q table)) = (case find (\<lambda>r. pr_id r = k) table of None \<Rightarrow> None | Some r \<Rightarrow> if q r then Some r else None)"
  proof (cases "find (\<lambda>r. pr_id r = k) (by_start (filter q table))")
    case None
    then have "k \<notin> pr_id ` set (filter q table)" by (simp add: find_row_None by_start_def)
    then show ?thesis using None assms find_row_Some [of pr_id table k] by (auto simp: table_ok_def split: option.splits)
  next
    case (Some r)
    then have "r \<in> set table \<and> q r \<and> pr_id r = k" using find_row_Some [OF \<open>distinct (map pr_id (by_start (filter q table)))\<close>] by (simp add: by_start_def)
    then show ?thesis using Some assms find_row_Some [of pr_id table k r] by (simp add: table_ok_def)
  qed
  ultimately show ?thesis by (simp split: option.split)
qed

section \<open>Events\<close>

definition apply_programs :: "programEvent list \<Rightarrow> (int \<Rightarrow> event_data option) \<Rightarrow> int \<Rightarrow> event_data option" where
  "apply_programs es = fold apply_id_event (map published es)"

lemma apply_programs_simps [simp]:
  "apply_programs [] m = m"
  "apply_programs (es @ fs) m = apply_programs fs (apply_programs es m)"
  "apply_programs [ProgramEvent ''create'' p] m = m(pg_ID p \<mapsto> Program_EventData p)"
  "apply_programs [ProgramEvent ''update'' p] m = m(pg_ID p \<mapsto> Program_EventData p)"
  "apply_programs [ProgramRemoveEvent i] m = m(i := None)"
  by (simp_all add: apply_programs_def published_def apply_id_event_def Program_EventData_def)

lemma apply_removes: "apply_programs (map ProgramRemoveEvent ids) m = (\<lambda>i. if i \<in> set ids then None else m i)"
proof (induction ids arbitrary: m)
  case (Cons i ids)
  have "apply_programs (map ProgramRemoveEvent (i # ids)) m = apply_programs (map ProgramRemoveEvent ids) (apply_programs [ProgramRemoveEvent i] m)"
    by (metis apply_programs_simps(2) append_Cons append_Nil list.simps(9))
  then show ?case using Cons by (auto simp: fun_eq_iff)
qed simp

text \<open>The loop of \<open>UpsertPrograms\<close> over the pending programs.\<close>

lemma merge_id [simp]: "pg_ID (mergeUpsertProgram e p) = pg_ID p"
  by (simp add: mergeUpsertProgram_def split: option.split)

lemma apply_upsert_event:
  assumes "\<And>e. existing = Some e \<Longrightarrow> m (pg_ID p) = Some (Program_EventData e)"
  shows "apply_programs (upsert_event existing p) m = m(pg_ID p \<mapsto> Program_EventData (mergeUpsertProgram existing p))"
  using assms by (auto simp: upsert_event_def Let_def fun_eq_iff split: option.split)

lemma apply_upserts:
  assumes "distinct (map pg_ID ps)" "\<And>p e. p \<in> set ps \<Longrightarrow> before (pg_ID p) = Some e \<Longrightarrow> m (pg_ID p) = Some (Program_EventData e)"
  shows "apply_programs (concat (map (\<lambda>p. upsert_event (before (pg_ID p)) p) ps)) m
    = (\<lambda>i. case find (\<lambda>p. pg_ID p = i) ps of None \<Rightarrow> m i | Some p \<Rightarrow> Some (Program_EventData (mergeUpsertProgram (before i) p)))"
  using assms
proof (induction ps arbitrary: m)
  case (Cons p ps)
  define m' where "m' = m(pg_ID p \<mapsto> Program_EventData (mergeUpsertProgram (before (pg_ID p)) p))"
  have none: "find (\<lambda>q. pg_ID q = pg_ID p) ps = None" using Cons.prems(1) by (simp add: find_row_None)
  have other: "pg_ID q \<noteq> pg_ID p" if "q \<in> set ps" for q
    using Cons.prems(1) that by (metis distinct.simps(2) image_eqI list.set_map list.simps(9))
  have first: "apply_programs (upsert_event (before (pg_ID p)) p) m = m'"
    unfolding m'_def by (rule apply_upsert_event) (use Cons.prems(2) in simp)
  have rest: "apply_programs (concat (map (\<lambda>p. upsert_event (before (pg_ID p)) p) ps)) m'
    = (\<lambda>i. case find (\<lambda>p. pg_ID p = i) ps of None \<Rightarrow> m' i | Some p \<Rightarrow> Some (Program_EventData (mergeUpsertProgram (before i) p)))"
    by (rule Cons.IH) (use Cons.prems other in \<open>auto simp: m'_def\<close>)
  show ?case unfolding list.map concat.simps apply_programs_simps(2) first rest
    using none by (auto simp: m'_def fun_eq_iff split: option.split)
qed simp

lemma UpsertPrograms_mirror:
  assumes "table_ok table" "distinct (map pg_ID programs)"
  shows "table_ok (fst (UpsertPrograms programs table))
    \<and> apply_programs (snd (UpsertPrograms programs table)) (program_view table) = program_view (fst (UpsertPrograms programs table))"
proof -
  let ?pending = "programs_by_id programs"
  define before where "before = map_of (programs_by_id (pstore_ListByIDs (map fst ?pending) table))"
  have pending: "(k, p) \<in> set ?pending \<longleftrightarrow> p \<in> set programs \<and> k = pg_ID p" for k p
    using programs_by_id_set [OF assms(2)] .
  have before: "before (pg_ID p) = program_at table (pg_ID p)" if "p \<in> set programs" for p
  proof -
    have "pg_ID p \<in> fst ` set ?pending" using that pending [of "pg_ID p" p] by (auto simp: image_iff intro!: bexI [of _ "(pg_ID p, p)"])
    then have member: "pg_ID p \<in> set (map fst ?pending)" by simp
    then have "map fst ?pending \<noteq> []" by auto
    then have "before (pg_ID p) = map_of (programs_by_id (map fromGenProgram (by_start (filter (\<lambda>r. pr_id r \<in> set (map fst ?pending)) table)))) (pg_ID p)"
      unfolding before_def pstore_ListByIDs_def by (simp only: if_False)
    also have "\<dots> = (case find (\<lambda>r. pr_id r = pg_ID p) table of None \<Rightarrow> None
        | Some r \<Rightarrow> if pr_id r \<in> set (map fst ?pending) then Some (fromGenProgram r) else None)"
      by (rule looked_up [OF assms(1)])
    also have "\<dots> = program_at table (pg_ID p)"
    proof (cases "find (\<lambda>r. pr_id r = pg_ID p) table")
      case (Some r)
      then have "pr_id r = pg_ID p" by (auto dest: find_prop)
      then show ?thesis using Some member by (simp add: program_at_def)
    qed (simp add: program_at_def)
    finally show ?thesis .
  qed
  have ids: "distinct (map pg_ID (map snd ?pending))"
  proof -
    have "map pg_ID (map snd ?pending) = map fst ?pending" using pending by (auto simp: comp_def intro!: map_cong)
    then show ?thesis using programs_by_id_distinct [of programs] by (simp only:)
  qed
  have set: "set (map snd ?pending) = set programs"
  proof -
    have "set (map snd ?pending) = {p. \<exists>k. (k, p) \<in> set ?pending}" by force
    then show ?thesis by (simp add: pending)
  qed
  have find: "find (\<lambda>p. pg_ID p = i) (map snd ?pending) = find (\<lambda>p. pg_ID p = i) programs" for i
  proof (cases "find (\<lambda>p. pg_ID p = i) programs")
    case None
    then have "find (\<lambda>p. pg_ID p = i) (map snd ?pending) = None" unfolding find_row_None set .
    then show ?thesis using None by simp
  next
    case (Some p)
    then have "p \<in> set (map snd ?pending) \<and> pg_ID p = i" unfolding set find_row_Some [OF assms(2)] .
    then show ?thesis using Some find_row_Some [OF ids, of i p] by simp
  qed
  have "snd (UpsertPrograms programs table) = concat (map (\<lambda>p. upsert_event (before (pg_ID p)) p) (map snd ?pending))"
    by (simp add: UpsertPrograms_def Let_def before_def comp_def case_prod_unfold)
  moreover have "apply_programs (concat (map (\<lambda>p. upsert_event (before (pg_ID p)) p) (map snd ?pending))) (program_view table)
    = (\<lambda>i. case find (\<lambda>p. pg_ID p = i) (map snd ?pending) of None \<Rightarrow> program_view table i
         | Some p \<Rightarrow> Some (Program_EventData (mergeUpsertProgram (before i) p)))"
    by (rule apply_upserts [OF ids]) (use before pending in \<open>auto simp: program_view_def\<close>)
  moreover have "(case find (\<lambda>p. pg_ID p = i) programs of None \<Rightarrow> program_view table i
         | Some p \<Rightarrow> Some (Program_EventData (mergeUpsertProgram (before i) p))) = program_view (upsertPrograms programs table) i" for i
    using upsertPrograms_ok [OF assms, of i] before
    by (cases "find (\<lambda>p. pg_ID p = i) programs") (auto simp: program_view_def dest!: find_prop)
  moreover have "fst (UpsertPrograms programs table) = upsertPrograms programs table" by (simp add: UpsertPrograms_def Let_def)
  ultimately show ?thesis using upsertPrograms_ok [OF assms] by (simp add: find fun_eq_iff)
qed

lemma DeleteEndedBefore_mirror:
  assumes "table_ok table"
  shows "table_ok (fst (DeleteEndedBefore cutoff table))
    \<and> apply_programs (snd (DeleteEndedBefore cutoff table)) (program_view table) = program_view (fst (DeleteEndedBefore cutoff table))"
proof -
  have "(if i \<in> pr_id ` {r \<in> set table. ended_before cutoff r} then None else program_view table i)
      = program_view (filter (\<lambda>r. \<not> ended_before cutoff r) table) i" for i
  proof (cases "find (\<lambda>r. pr_id r = i) table")
    case None
    then show ?thesis using assms by (simp add: program_view_def program_at_def find_row_filter table_ok_def)
  next
    case (Some r)
    have "i \<in> pr_id ` {r \<in> set table. ended_before cutoff r} \<longleftrightarrow> ended_before cutoff r"
    proof
      assume "i \<in> pr_id ` {r \<in> set table. ended_before cutoff r}"
      then obtain x where "x \<in> set table" "pr_id x = i" "ended_before cutoff x" by auto
      then show "ended_before cutoff r" using find_row_Some [OF assms [unfolded table_ok_def], of i x] Some by simp
    next
      assume "ended_before cutoff r"
      then show "i \<in> pr_id ` {r \<in> set table. ended_before cutoff r}" using find_prop [OF Some] by blast
    qed
    then show ?thesis using Some assms by (simp add: program_view_def program_at_def find_row_filter table_ok_def)
  qed
  then have "apply_programs (map ProgramRemoveEvent (pstore_ListEndedIDsBefore cutoff table)) (program_view table)
      = program_view (pstore_DeleteEndedBefore cutoff table)"
    by (simp add: apply_removes pstore_ListEndedIDsBefore_def pstore_DeleteEndedBefore_def fun_eq_iff)
  moreover have "table_ok (pstore_DeleteEndedBefore cutoff table)"
    using assms by (simp add: table_ok_def pstore_DeleteEndedBefore_def distinct_map_filter)
  ultimately show ?thesis by (simp add: DeleteEndedBefore_def)
qed

section \<open>Replacing the programs of a service\<close>

text \<open>
  The statement deletes the programs of the service that end at \<open>start\<close> or later, the manager looks up those
  that begin then; the two agree on a table without programs that run at \<open>start\<close>.
\<close>

definition deleted_row :: "u16 \<Rightarrow> u16 \<Rightarrow> int \<Rightarrow> programs_row \<Rightarrow> bool" where
  "deleted_row n s start r \<longleftrightarrow> pr_network_id r = uint n \<and> pr_service_id r = uint s \<and> pr_start_at r + pr_duration r \<ge> start"

definition looked_up_row :: "u16 \<Rightarrow> u16 \<Rightarrow> int \<Rightarrow> programs_row \<Rightarrow> bool" where
  "looked_up_row n s start r \<longleftrightarrow> pr_network_id r = uint n \<and> pr_service_id r = uint s \<and> pr_start_at r \<ge> start"

definition replace_agrees :: "u16 \<Rightarrow> u16 \<Rightarrow> int \<Rightarrow> Program list \<Rightarrow> programs_row list \<Rightarrow> bool" where
  "replace_agrees n s start programs table \<longleftrightarrow> distinct (map pg_ID programs)
     \<and> (\<forall>r \<in> set table. deleted_row n s start r = looked_up_row n s start r)
     \<and> (\<forall>r \<in> set table. pr_id r \<in> pg_ID ` set programs \<longrightarrow> deleted_row n s start r)"

lemma replaced_program_events_mirror:
  assumes "distinct (map pg_ID ps)" "distinct (map fst before)"
    "\<And>k e. (k, e) \<in> set before \<Longrightarrow> m k = Some (Program_EventData e)"
  shows "apply_programs (fst (replaced_program_events before ps)) m
      = (\<lambda>i. case find (\<lambda>p. pg_ID p = i) ps of None \<Rightarrow> m i | Some p \<Rightarrow> Some (Program_EventData p))
    \<and> set (snd (replaced_program_events before ps)) = {(k, e) \<in> set before. k \<notin> pg_ID ` set ps}"
  using assms
proof (induction ps arbitrary: before m)
  case (Cons p ps)
  define m' where "m' = m(pg_ID p \<mapsto> Program_EventData p)"
  define before' where "before' = AList.delete (pg_ID p) before"
  define event where "event = (case map_of before (pg_ID p) of None \<Rightarrow> [ProgramEvent ''create'' p]
      | Some e \<Rightarrow> if e \<noteq> p then [ProgramEvent ''update'' p] else [])"
  have before': "set before' = {(k, e) \<in> set before. k \<noteq> pg_ID p}" "distinct (map fst before')"
    using Cons.prems(2) by (auto simp: before'_def AList.delete_eq distinct_map_filter)
  have "map_of before (pg_ID p) = Some e \<Longrightarrow> m (pg_ID p) = Some (Program_EventData e)" for e
    using Cons.prems(3) by (blast dest: map_of_SomeD)
  then have first: "apply_programs event m = m'" by (auto simp: event_def m'_def fun_eq_iff split: option.split)
  have other: "pg_ID q \<noteq> pg_ID p" if "q \<in> set ps" for q
    using Cons.prems(1) that by (metis distinct.simps(2) image_eqI list.set_map list.simps(9))
  have none: "find (\<lambda>q. pg_ID q = pg_ID p) ps = None" using other by (auto simp: find_None_iff)
  have rest: "apply_programs (fst (replaced_program_events before' ps)) m'
      = (\<lambda>i. case find (\<lambda>p. pg_ID p = i) ps of None \<Rightarrow> m' i | Some p \<Rightarrow> Some (Program_EventData p))
    \<and> set (snd (replaced_program_events before' ps)) = {(k, e) \<in> set before'. k \<notin> pg_ID ` set ps}"
    by (rule Cons.IH) (use Cons.prems before' in \<open>auto simp: m'_def\<close>)
  have "replaced_program_events before (p # ps) = (event @ fst (replaced_program_events before' ps), snd (replaced_program_events before' ps))"
    by (simp add: Let_def event_def before'_def)
  note step = this
  show ?case unfolding step fst_conv snd_conv apply_programs_simps(2) first
    using rest before'(1) none by (auto simp: m'_def fun_eq_iff split: option.split)
qed auto

lemma ReplaceServicePrograms_mirror:
  assumes ok: "table_ok table" and agrees: "replace_agrees n s start programs table"
  shows "table_ok (fst (ReplaceServicePrograms n s start programs table))
    \<and> apply_programs (snd (ReplaceServicePrograms n s start programs table)) (program_view table)
      = program_view (fst (ReplaceServicePrograms n s start programs table))"
proof -
  define before where "before = programs_by_id (pstore_ListByServiceFrom n s start table)"
  define kept where "kept = filter (\<lambda>r. \<not> deleted_row n s start r) table"
  have ids: "distinct (map pg_ID programs)" using agrees by (simp add: replace_agrees_def)
  have table: "fst (ReplaceServicePrograms n s start programs table) = upsertPrograms programs kept"
    by (simp add: ReplaceServicePrograms_def Let_def pstore_ReplaceServicePrograms_def kept_def deleted_row_def)
  have kept: "table_ok kept" using ok by (simp add: table_ok_def kept_def distinct_map_filter)
  have before_of: "map_of before k = (case find (\<lambda>r. pr_id r = k) table of None \<Rightarrow> None
      | Some r \<Rightarrow> if looked_up_row n s start r then Some (fromGenProgram r) else None)" for k
    unfolding before_def pstore_ListByServiceFrom_def looked_up_row_def by (rule looked_up [OF ok])
  have distinct: "distinct (map fst before)" by (simp add: before_def programs_by_id_distinct)
  then have before_set: "(k, e) \<in> set before \<longleftrightarrow> map_of before k = Some e" for k e by simp
  have entries: "program_view table k = Some (Program_EventData e)" if "(k, e) \<in> set before" for k e
    using that unfolding before_set before_of by (auto simp: program_view_def program_at_def split: option.splits if_splits)
  have loop1: "apply_programs (fst (replaced_program_events before programs)) (program_view table)
      = (\<lambda>i. case find (\<lambda>p. pg_ID p = i) programs of None \<Rightarrow> program_view table i | Some p \<Rightarrow> Some (Program_EventData p))"
    by (rule replaced_program_events_mirror [THEN conjunct1]) (fact ids distinct entries)+
  have loop2: "set (snd (replaced_program_events before programs)) = {(k, e) \<in> set before. k \<notin> pg_ID ` set programs}"
    by (rule replaced_program_events_mirror [where m = "program_view table", THEN conjunct2]) (fact ids distinct entries)+
  have keys: "i \<in> fst ` {(k, e) \<in> set before. k \<notin> pg_ID ` set programs} \<longleftrightarrow> map_of before i \<noteq> None \<and> i \<notin> pg_ID ` set programs" for i
    by (force simp: before_set image_iff)
  have removes: "map (\<lambda>(k, p). ProgramRemoveEvent k) (snd (replaced_program_events before programs))
      = map ProgramRemoveEvent (map fst (snd (replaced_program_events before programs)))" by (simp add: case_prod_unfold comp_def)
  have "apply_programs (snd (ReplaceServicePrograms n s start programs table)) (program_view table) i
      = program_view (upsertPrograms programs kept) i" for i
  proof -
    have "apply_programs (snd (ReplaceServicePrograms n s start programs table)) (program_view table) i
        = (if map_of before i \<noteq> None \<and> i \<notin> pg_ID ` set programs then None
           else case find (\<lambda>p. pg_ID p = i) programs of None \<Rightarrow> program_view table i | Some p \<Rightarrow> Some (Program_EventData p))"
      unfolding ReplaceServicePrograms_def Let_def before_def [symmetric] removes snd_conv apply_programs_simps(2) apply_removes
        set_map loop1 loop2 keys ..
    also have "\<dots> = program_view (upsertPrograms programs kept) i"
    proof (cases "find (\<lambda>p. pg_ID p = i) programs")
      case None
      then have "i \<notin> pg_ID ` set programs" by (simp add: find_row_None)
      have at: "program_view (upsertPrograms programs kept) i = program_view kept i"
        using upsertPrograms_ok [OF kept ids, of i] None by (simp add: program_view_def)
      show ?thesis
      proof (cases "find (\<lambda>r. pr_id r = i) table")
        case None: None
        then have "program_view table i = None" "program_view kept i = None"
          using ok by (simp_all add: program_view_def program_at_def kept_def find_row_filter table_ok_def)
        then show ?thesis using \<open>find _ programs = None\<close> at by simp
      next
        case (Some r)
        then have "r \<in> set table" by (auto dest: find_prop)
        then have "deleted_row n s start r = looked_up_row n s start r" using agrees by (simp add: replace_agrees_def)
        moreover have "program_view kept i = (if deleted_row n s start r then None else program_view table i)"
          using Some ok by (simp add: program_view_def program_at_def kept_def find_row_filter table_ok_def)
        ultimately show ?thesis using \<open>find _ programs = None\<close> \<open>i \<notin> pg_ID ` set programs\<close> at Some by (simp add: before_of)
      qed
    next
      case (Some p)
      then have "i \<in> pg_ID ` set programs" by (auto dest: find_prop)
      then have "find (\<lambda>r. pr_id r = i) kept = None" using agrees by (auto simp: find_None_iff kept_def replace_agrees_def)
      then have "program_at kept i = None" by (simp add: program_at_def)
      then show ?thesis using Some \<open>i \<in> pg_ID ` set programs\<close> upsertPrograms_ok [OF kept ids, of i]
        by (simp add: program_view_def mergeUpsertProgram_def)
    qed
    finally show ?thesis .
  qed
  then show ?thesis using upsertPrograms_ok [OF kept ids] by (simp add: table fun_eq_iff)
qed

section \<open>Histories\<close>

datatype program_op =
    DoUpsertPrograms "Program list"
  | DoDeleteEndedBefore int
  | DoReplaceServicePrograms u16 u16 int "Program list"

text \<open>An operation, and what \<open>flushEvents\<close> publishes of its events.\<close>

definition program_exec :: "program_op \<Rightarrow> programs_row list \<Rightarrow> programs_row list \<times> (string \<times> event_data) list" where
  "program_exec op table =
     (let r = (case op of DoUpsertPrograms programs \<Rightarrow> UpsertPrograms programs table
          | DoDeleteEndedBefore cutoff \<Rightarrow> DeleteEndedBefore cutoff table
          | DoReplaceServicePrograms n s start programs \<Rightarrow> ReplaceServicePrograms n s start programs table)
      in (fst r, map published (snd r)))"

definition program_enabled :: "program_op \<Rightarrow> programs_row list \<Rightarrow> bool" where
  "program_enabled op table \<longleftrightarrow> (case op of DoUpsertPrograms programs \<Rightarrow> distinct (map pg_ID programs)
     | DoDeleteEndedBefore cutoff \<Rightarrow> True | DoReplaceServicePrograms n s start programs \<Rightarrow> replace_agrees n s start programs table)"

lemma program_exec_mirrored:
  assumes "table_ok table" "program_enabled op table"
  shows "table_ok (fst (program_exec op table))
    \<and> fold apply_id_event (snd (program_exec op table)) (program_view table) = program_view (fst (program_exec op table))"
  using assms UpsertPrograms_mirror [of table] DeleteEndedBefore_mirror [of table] ReplaceServicePrograms_mirror [of table]
  by (cases op) (simp_all add: program_exec_def program_enabled_def apply_programs_def Let_def)

interpretation programs: event_source table_ok program_view apply_id_event program_enabled program_exec
  by unfold_locales (simp_all add: program_exec_mirrored)


definition demo_program :: "u16 \<Rightarrow> int \<Rightarrow> int \<Rightarrow> Program" where
  "demo_program eid start dur = \<lparr> pg_ID = ProgramID 4 101 eid, pg_EventID = eid, pg_ServiceID = 101, pg_NetworkID = 4, pg_StartAt = start,
     pg_Duration = dur, pg_IsFree = True, pg_Name = [65], pg_Description = [], pg_Genres = [], pg_Video = None, pg_Audios = [],
     pg_Extended = [], pg_RelatedItems = [], pg_Series = None \<rparr>"


text \<open>
  A replacement with a start after a running program's deletes the running program without an event:
  the client goes on to show a program that the database no longer has.
\<close>

theorem replace_loses_remove_event:
  "\<exists>table start. table_ok table \<and> snd (ReplaceServicePrograms 4 101 start [] table) = []
     \<and> program_view table \<noteq> program_view (fst (ReplaceServicePrograms 4 101 start [] table))"
proof (intro exI conjI)
  let ?table = "[toUpsertProgramParams (demo_program 1 0 10)]"
  show "table_ok ?table" by (simp add: table_ok_def)
  show "snd (ReplaceServicePrograms 4 101 5 [] ?table) = []"
    by (simp add: ReplaceServicePrograms_def pstore_ListByServiceFrom_def toUpsertProgramParams_def demo_program_def by_start_def programs_by_id_def)
  have "program_view ?table (ProgramID 4 101 1) \<noteq> None" by (simp add: program_view_def program_at_def demo_program_def)
  moreover have "program_view (fst (ReplaceServicePrograms 4 101 5 [] ?table)) (ProgramID 4 101 1) = None"
    by (simp add: ReplaceServicePrograms_def pstore_ReplaceServicePrograms_def upsertPrograms_def toUpsertProgramParams_def demo_program_def
        program_view_def program_at_def)
  ultimately show "program_view ?table \<noteq> program_view (fst (ReplaceServicePrograms 4 101 5 [] ?table))" by metis
qed

end
