(* ===== verification/EPG_Peers.thy ===== *)
theory EPG_Peers
  imports Program_Store "HOL-Library.Multiset"
begin

text \<open>
  Shared programs: \<open>internal/epg/program_merge.go\<close>. Programs that are linked by "shared" related items
  form groups, found with a map of parents (union-find with path compression), and every program takes
  the fields it has not from its group. Programs of a list are not nil and distinct objects, so that a
  program is its position in the list. The map of groups is visited in any order: the parameter \<open>visit\<close>.
\<close>

section \<open>Groups of programs\<close>

record programPeerKey =
  pk_NetworkID :: u16
  pk_ServiceID :: u16
  pk_EventID :: u16

type_synonym parents = "(programPeerKey, programPeerKey) gomap"

definition programKey :: "Program \<Rightarrow> programPeerKey" where
  "programKey item = \<lparr> pk_NetworkID = pg_NetworkID item, pk_ServiceID = pg_ServiceID item, pk_EventID = pg_EventID item \<rparr>"

text \<open>
  \<open>find\<close> recurses along the parents and has no bound of its own: \<open>None\<close> is a recursion that does
  not end.
\<close>

partial_function (option) find_root :: "parents \<Rightarrow> programPeerKey \<Rightarrow> (programPeerKey \<times> parents) option" where
  "find_root parent key =
     (case map_of parent key of
        None \<Rightarrow> Some (key, AList.update key key parent)
      | Some current \<Rightarrow>
          if current = key then Some (key, parent)
          else do {
            (root, parent) \<leftarrow> find_root parent current;
            Some (root, AList.update key root parent)
          })"

declare find_root.simps [code]

definition union_keys :: "programPeerKey \<Rightarrow> programPeerKey \<Rightarrow> parents \<Rightarrow> parents option" where
  "union_keys a b parent = do {
     (rootA, parent) \<leftarrow> find_root parent a;
     (rootB, parent) \<leftarrow> find_root parent b;
     Some (if rootA = rootB then parent else AList.update rootB rootA parent)
   }"

definition skipped_related :: "RelatedItem \<Rightarrow> bool" where
  "skipped_related r \<longleftrightarrow> ri_Type r \<noteq> RelatedItemTypeShared \<or> ri_ServiceID r = 0 \<or> ri_EventID r = 0"

definition related_key :: "Program \<Rightarrow> RelatedItem \<Rightarrow> programPeerKey" where
  "related_key item r = \<lparr> pk_NetworkID = (case ri_NetworkID r of None \<Rightarrow> pg_NetworkID item | Some n \<Rightarrow> n),
     pk_ServiceID = ri_ServiceID r, pk_EventID = ri_EventID r \<rparr>"

fun union_related :: "Program \<Rightarrow> RelatedItem list \<Rightarrow> parents \<Rightarrow> parents option" where
  "union_related item [] parent = Some parent"
| "union_related item (r # rs) parent =
     (if skipped_related r then union_related item rs parent
      else do {
        parent \<leftarrow> union_keys (programKey item) (related_key item r) parent;
        union_related item rs parent
      })"

fun union_programs :: "Program list \<Rightarrow> parents \<Rightarrow> parents option" where
  "union_programs [] parent = Some parent"
| "union_programs (item # items) parent = do {
     (source, parent) \<leftarrow> find_root parent (programKey item);
     parent \<leftarrow> union_related item (pg_RelatedItems item) parent;
     union_programs items parent
   }"

text \<open>\<open>peers[root] = append(peers[root], item)\<close> for every program.\<close>

fun group_peers :: "Program list \<Rightarrow> nat \<Rightarrow> parents \<Rightarrow> (programPeerKey, nat list) gomap \<Rightarrow> (programPeerKey, nat list) gomap option" where
  "group_peers [] i parent peers = Some peers"
| "group_peers (item # items) i parent peers = do {
     (root, parent) \<leftarrow> find_root parent (programKey item);
     group_peers items (Suc i) parent
       (AList.update root ((case map_of peers root of None \<Rightarrow> [] | Some members \<Rightarrow> members) @ [i]) peers)
   }"

section \<open>Filling\<close>

definition fill_from :: "Program \<Rightarrow> Program \<Rightarrow> Program" where
  "fill_from peer item = item\<lparr>
     pg_Name := or_existing (pg_Name item) (pg_Name peer), pg_Description := or_existing (pg_Description item) (pg_Description peer),
     pg_Genres := or_existing (pg_Genres item) (pg_Genres peer), pg_Video := coalesce (pg_Video item) (pg_Video peer),
     pg_Audios := or_existing (pg_Audios item) (pg_Audios peer), pg_Extended := or_existing (pg_Extended item) (pg_Extended peer),
     pg_Series := coalesce (pg_Series item) (pg_Series peer) \<rparr>"

definition fillProgramFromPeers :: "nat list \<Rightarrow> nat \<Rightarrow> Program list \<Rightarrow> Program list" where
  "fillProgramFromPeers peers i programs =
     programs[i := fold (\<lambda>j item. if j = i then item else fill_from (programs ! j) item) peers (programs ! i)]"

definition fill_groups :: "nat list list \<Rightarrow> Program list \<Rightarrow> Program list" where
  "fill_groups groups programs = fold (\<lambda>members. fold (fillProgramFromPeers members) members) groups programs"

definition fillProgramsFromSharedPeers :: "(nat list list \<Rightarrow> nat list list) \<Rightarrow> Program list \<Rightarrow> Program list option" where
  "fillProgramsFromSharedPeers visit programs = do {
     parent \<leftarrow> union_programs programs [];
     peers \<leftarrow> group_peers programs 0 parent [];
     Some (fill_groups (visit (map snd peers)) programs)
   }"

definition programTitleCounts :: "Program list \<Rightarrow> int \<times> int" where
  "programTitleCounts programs = (blen (filter (\<lambda>p. pg_Name p = []) programs), blen programs)"

text \<open>The warning "low quality EITS: m/t programs missing titles" is the pair \<open>(m, t)\<close>; no warning is \<open>None\<close>.\<close>

definition lowQualityProgramWarning :: "Program list \<Rightarrow> (int \<times> int) option" where
  "lowQualityProgramWarning programs =
     (let (missingTitle, total) = programTitleCounts programs
      in if total < 10 \<or> missingTitle * 100 < total * 80 then None else Some (missingTitle, total))"

section \<open>Roots\<close>

text \<open>A map of parents as a function: a key without an entry is its own parent.\<close>

definition parent_of :: "parents \<Rightarrow> programPeerKey \<Rightarrow> programPeerKey" where
  "parent_of m k = (case map_of m k of None \<Rightarrow> k | Some c \<Rightarrow> c)"

lemma parent_of_Nil [simp]: "parent_of [] = id"
  by (simp add: parent_of_def fun_eq_iff)

lemma parent_of_update [simp]: "parent_of (AList.update k r m) = (parent_of m)(k := r)"
  by (auto simp: parent_of_def fun_eq_iff update_conv')

inductive roots_to :: "('k \<Rightarrow> 'k) \<Rightarrow> 'k \<Rightarrow> 'k \<Rightarrow> bool" for f where
  root: "f r = r \<Longrightarrow> roots_to f r r"
| step: "f k \<noteq> k \<Longrightarrow> roots_to f (f k) r \<Longrightarrow> roots_to f k r"

definition rooted :: "('k \<Rightarrow> 'k) \<Rightarrow> bool" where
  "rooted f \<longleftrightarrow> (\<forall>k. \<exists>r. roots_to f k r)"

definition same_root :: "('k \<Rightarrow> 'k) \<Rightarrow> 'k \<Rightarrow> 'k \<Rightarrow> bool" where
  "same_root f x y \<longleftrightarrow> (\<exists>r. roots_to f x r \<and> roots_to f y r)"

lemma roots_to_fixed: "roots_to f k r \<Longrightarrow> f r = r"
  by (induction rule: roots_to.induct) auto

lemma roots_to_det: "roots_to f k r \<Longrightarrow> roots_to f k s \<Longrightarrow> r = s"
proof (induction rule: roots_to.induct)
  case (root r)
  from root.prems show ?case by cases (use root in simp_all)
next
  case (step k r)
  from step.prems show ?case by cases (use step in simp_all)
qed

lemma roots_to_id [simp]: "roots_to id k r \<longleftrightarrow> r = k"
  by (auto intro: root elim: roots_to.cases)

lemma roots_to_root: "roots_to f k r \<Longrightarrow> roots_to f r r"
  by (rule root) (rule roots_to_fixed)

lemma same_root_iff: "roots_to f x r \<Longrightarrow> roots_to f y s \<Longrightarrow> same_root f x y \<longleftrightarrow> r = s"
  by (auto simp: same_root_def dest: roots_to_det)

text \<open>Redirecting a key to its root leaves every root as it is.\<close>

lemma roots_to_upd: "f a = a \<Longrightarrow> roots_to (f(b := a)) b a"
proof (cases "a = b")
  case False
  assume "f a = a"
  with False have "roots_to (f(b := a)) ((f(b := a)) b) a" by (simp add: root)
  with False show ?thesis by (intro step [of "f(b := a)" b]) simp_all
qed (simp add: root)

lemma roots_to_upd_other: "x \<noteq> b \<Longrightarrow> f x \<noteq> x \<Longrightarrow> roots_to (f(b := a)) (f x) s \<Longrightarrow> roots_to (f(b := a)) x s"
  by (rule step) simp_all

lemma roots_to_compress:
  assumes "roots_to f k r" "roots_to f x s"
  shows "roots_to (f(k := r)) x s"
  using assms(2)
proof (induction rule: roots_to.induct)
  case (root x)
  show ?case
  proof (cases "x = k")
    case True
    with root assms(1) have "r = x" by (metis roots_to_det roots_to.root)
    with True root show ?thesis by (simp add: roots_to.root)
  qed (simp add: root roots_to.root)
next
  case (step x s)
  show ?case
  proof (cases "x = k")
    case True
    with step have "s = r" using assms(1) by (metis roots_to_det roots_to.step)
    with True show ?thesis using roots_to_upd [of f r k] roots_to_fixed [OF assms(1)] by (simp del: fun_upd_apply)
  qed (rule roots_to_upd_other [OF _ step.hyps(1) step.IH])
qed

text \<open>Joining the root \<open>b\<close> to the root \<open>a\<close>.\<close>

lemma roots_to_join:
  assumes ab: "f a = a" "f b = b" "a \<noteq> b" and "roots_to f x s"
  shows "roots_to (f(b := a)) x (if s = b then a else s)"
  using assms(4)
proof (induction rule: roots_to.induct)
  case (root x)
  show ?case
    using roots_to_upd [of f a b] ab root by (cases "x = b") (simp_all add: roots_to.root del: fun_upd_apply, simp add: roots_to.root)
next
  case (step x s)
  then have "x \<noteq> b" using ab by auto
  then show ?case by (rule roots_to_upd_other [OF _ step.hyps(1) step.IH])
qed

lemma rooted_id: "rooted id"
  by (simp add: rooted_def)

lemma same_root_id: "same_root id x y \<longleftrightarrow> x = y"
  by (auto simp: same_root_def)

lemma rooted_compress: "rooted f \<Longrightarrow> roots_to f k r \<Longrightarrow> rooted (f(k := r))"
  unfolding rooted_def by (blast intro: roots_to_compress)

lemma roots_to_compress_iff: "rooted f \<Longrightarrow> roots_to f k r \<Longrightarrow> roots_to (f(k := r)) x s \<longleftrightarrow> roots_to f x s"
  by (metis roots_to_compress roots_to_det rooted_def)

section \<open>What find and union do\<close>

text \<open>\<open>find\<close> returns the root and changes no root.\<close>

lemma find_root_correct:
  assumes "rooted (parent_of m)" "roots_to (parent_of m) k r"
  shows "\<exists>m'. find_root m k = Some (r, m') \<and> rooted (parent_of m') \<and> roots_to (parent_of m') = roots_to (parent_of m)"
  using assms(2)
proof (induction rule: roots_to.induct)
  case (root r)
  show ?case
  proof (cases "map_of m r")
    case None
    then have "(parent_of m)(r := r) = parent_of m" using root by (simp add: fun_upd_idem)
    with None assms(1) show ?thesis by (subst find_root.simps) simp
  next
    case (Some c)
    with root assms(1) show ?thesis by (subst find_root.simps) (simp add: parent_of_def)
  qed
next
  case (step k r)
  then obtain m' where m': "find_root m (parent_of m k) = Some (r, m')" "rooted (parent_of m')"
      "roots_to (parent_of m') = roots_to (parent_of m)" by blast
  obtain c where c: "map_of m k = Some c" "c \<noteq> k" "parent_of m k = c"
    using step.hyps(1) by (auto simp: parent_of_def split: option.splits)
  have k: "roots_to (parent_of m') k r" using m'(3) step.hyps by (simp add: roots_to.step)
  have "find_root m k = Some (r, AList.update k r m')"
    using m'(1) c by (subst find_root.simps) simp
  moreover have "roots_to ((parent_of m')(k := r)) = roots_to (parent_of m)"
    using roots_to_compress_iff [OF m'(2) k] m'(3) by (auto simp: fun_eq_iff)
  ultimately show ?case using rooted_compress [OF m'(2) k] by auto
qed

text \<open>The relation that a list of joined pairs generates, and the maps of parents that represent it.\<close>

definition linked :: "('k \<times> 'k) set \<Rightarrow> ('k \<times> 'k) set" where
  "linked E = (E \<union> E\<inverse>)\<^sup>*"

definition represents :: "parents \<Rightarrow> (programPeerKey \<times> programPeerKey) set \<Rightarrow> bool" where
  "represents m E \<longleftrightarrow> rooted (parent_of m) \<and> (\<forall>x y. same_root (parent_of m) x y \<longleftrightarrow> (x, y) \<in> linked E)"

lemma linked_sym: "(x, y) \<in> linked E \<Longrightarrow> (y, x) \<in> linked E"
  unfolding linked_def by (metis converse_Un converse_converse rtrancl_converseD sup_commute)

lemma linked_insert:
  "(x, y) \<in> linked (insert (a, b) E) \<longleftrightarrow>
     (x, y) \<in> linked E \<or> (x, a) \<in> linked E \<and> (b, y) \<in> linked E \<or> (x, b) \<in> linked E \<and> (a, y) \<in> linked E"
proof -
  have "insert (a, b) E \<union> (insert (a, b) E)\<inverse> = insert (a, b) (insert (b, a) (E \<union> E\<inverse>))" by auto
  then have "(x, y) \<in> linked (insert (a, b) E) \<longleftrightarrow>
      (x, y) \<in> linked E \<or> (x, b) \<in> linked E \<and> (a, y) \<in> linked E
      \<or> ((x, a) \<in> linked E \<or> (x, b) \<in> linked E \<and> (a, a) \<in> linked E)
        \<and> ((b, y) \<in> linked E \<or> (b, b) \<in> linked E \<and> (a, y) \<in> linked E)"
    by (simp add: linked_def rtrancl_insert)
  then show ?thesis by (auto simp: linked_def intro: rtrancl_trans)
qed

lemma represents_empty: "represents [] {}"
  by (simp add: represents_def rooted_id same_root_id linked_def)

lemma represents_root: "represents m E \<Longrightarrow> \<exists>r. roots_to (parent_of m) k r"
  by (simp add: represents_def rooted_def)

lemma find_represents:
  assumes "represents m E"
  shows "\<exists>r m'. find_root m k = Some (r, m') \<and> represents m' E \<and> roots_to (parent_of m) k r
           \<and> roots_to (parent_of m') = roots_to (parent_of m)"
proof -
  obtain r where r: "roots_to (parent_of m) k r" using represents_root [OF assms] by blast
  show ?thesis using find_root_correct [OF _ r] r assms by (fastforce simp: represents_def same_root_def)
qed

lemma union_represents:
  assumes "represents m E"
  shows "\<exists>m'. union_keys a b m = Some m' \<and> represents m' (insert (a, b) E)"
proof -
  obtain ra m1 where a: "find_root m a = Some (ra, m1)" "represents m1 E" "roots_to (parent_of m) a ra"
      "roots_to (parent_of m1) = roots_to (parent_of m)"
    using find_represents [OF assms] by blast
  obtain rb m2 where b: "find_root m1 b = Some (rb, m2)" "represents m2 E" "roots_to (parent_of m1) b rb"
      "roots_to (parent_of m2) = roots_to (parent_of m1)"
    using find_represents [OF a(2)] by blast
  let ?f = "parent_of m2"
  have ra: "roots_to ?f a ra" and rb: "roots_to ?f b rb" using a b by simp_all
  have same: "same_root ?f x y \<longleftrightarrow> (x, y) \<in> linked E" for x y using b(2) by (simp add: represents_def)
  have rooted: "rooted ?f" using b(2) by (simp add: represents_def)
  show ?thesis
  proof (cases "ra = rb")
    case True
    then have ab: "(a, b) \<in> linked E" using same_root_iff [OF ra rb] same by simp
    have "(x, y) \<in> linked (insert (a, b) E) \<longleftrightarrow> (x, y) \<in> linked E" for x y
      using ab linked_sym [OF ab] unfolding linked_insert by (auto simp: linked_def intro: rtrancl_trans)
    then show ?thesis using a(1) b(1,2) True by (simp add: union_keys_def represents_def)
  next
    case False
    let ?g = "?f(rb := ra)"
    have join: "roots_to ?f x s \<Longrightarrow> roots_to ?g x (if s = rb then ra else s)" for x s
      using roots_to_join [OF roots_to_fixed [OF ra] roots_to_fixed [OF rb] False] by blast
    have "same_root ?g x y \<longleftrightarrow> (x, y) \<in> linked (insert (a, b) E)" for x y
    proof -
      obtain s t where s: "roots_to ?f x s" and t: "roots_to ?f y t" using rooted unfolding rooted_def by meson
      have g: "same_root ?g x y \<longleftrightarrow> (if s = rb then ra else s) = (if t = rb then ra else t)"
        by (rule same_root_iff [OF join [OF s] join [OF t]])
      show ?thesis
        unfolding linked_insert same [symmetric] g same_root_iff [OF s t] same_root_iff [OF s ra]
          same_root_iff [OF rb t] same_root_iff [OF s rb] same_root_iff [OF ra t]
        using False by auto
    qed
    moreover have "rooted ?g" using rooted join unfolding rooted_def by blast
    ultimately show ?thesis using a(1) b(1) False by (simp add: union_keys_def represents_def)
  qed
qed

section \<open>The groups\<close>

definition shared_edges :: "Program \<Rightarrow> (programPeerKey \<times> programPeerKey) set" where
  "shared_edges item = {(programKey item, related_key item r) | r. r \<in> set (pg_RelatedItems item) \<and> \<not> skipped_related r}"

definition connected :: "Program list \<Rightarrow> Program \<Rightarrow> Program \<Rightarrow> bool" where
  "connected programs p q \<longleftrightarrow> (programKey p, programKey q) \<in> linked (\<Union>item \<in> set programs. shared_edges item)"

lemma union_related_represents:
  "represents m E \<Longrightarrow>
   \<exists>m'. union_related item rs m = Some m'
     \<and> represents m' (E \<union> {(programKey item, related_key item r) | r. r \<in> set rs \<and> \<not> skipped_related r})"
proof (induction rs arbitrary: m E)
  case (Cons r rs)
  show ?case
  proof (cases "skipped_related r")
    case True
    then have "{(programKey item, related_key item r') | r'. r' \<in> set (r # rs) \<and> \<not> skipped_related r'}
        = {(programKey item, related_key item r') | r'. r' \<in> set rs \<and> \<not> skipped_related r'}" by auto
    with Cons True show ?thesis by simp
  next
    case False
    then have "E \<union> {(programKey item, related_key item r') | r'. r' \<in> set (r # rs) \<and> \<not> skipped_related r'}
        = insert (programKey item, related_key item r) E \<union> {(programKey item, related_key item r') | r'. r' \<in> set rs \<and> \<not> skipped_related r'}"
      by auto
    with Cons False show ?thesis using union_represents [OF Cons.prems, of "programKey item" "related_key item r"] by fastforce
  qed
qed simp

lemma union_programs_represents:
  "represents m E \<Longrightarrow> \<exists>m'. union_programs programs m = Some m' \<and> represents m' (E \<union> (\<Union>item \<in> set programs. shared_edges item))"
proof (induction programs arbitrary: m E)
  case (Cons item items)
  obtain r m1 where m1: "find_root m (programKey item) = Some (r, m1)" "represents m1 E"
    using find_represents [OF Cons.prems] by blast
  obtain m2 where "union_related item (pg_RelatedItems item) m1 = Some m2" "represents m2 (E \<union> shared_edges item)"
    using union_related_represents [OF m1(2), of item "pg_RelatedItems item"] by (auto simp: shared_edges_def)
  with m1 Cons.IH [of m2 "E \<union> shared_edges item"] show ?case by (auto simp: Un_assoc)
qed simp

section \<open>Filling in place\<close>

text \<open>
  Taking the missing fields of one program from another is associative, and a program has nothing to
  take from one that it has already taken from. Such operations are left regular bands, and filling the
  members of a group one after the other, where a later member sees the members that are already
  filled, gives what filling them all from the original values gives.
\<close>

definition fill_member :: "('a \<Rightarrow> 'a \<Rightarrow> 'a) \<Rightarrow> nat list \<Rightarrow> nat \<Rightarrow> 'a list \<Rightarrow> 'a list" where
  "fill_member comb members i xs = xs[i := fold (\<lambda>j x. if j = i then x else comb x (xs ! j)) members (xs ! i)]"

definition filled :: "('a \<Rightarrow> 'a \<Rightarrow> 'a) \<Rightarrow> nat list \<Rightarrow> 'a list \<Rightarrow> nat \<Rightarrow> 'a" where
  "filled comb members xs i = foldl comb (xs ! i) (map ((!) xs) members)"

locale left_regular_band =
  fixes comb :: "'a \<Rightarrow> 'a \<Rightarrow> 'a"
  assumes assoc: "comb (comb x y) z = comb x (comb y z)"
    and idem: "comb x x = x"
    and regular: "comb x (comb y x) = comb x y"
begin

lemma foldl_assoc: "foldl comb (comb x y) zs = comb x (foldl comb y zs)"
  by (induction zs arbitrary: y) (simp_all add: assoc)

lemma absorbs_comb: "comb x y = x \<Longrightarrow> comb x z = x \<Longrightarrow> comb x (comb y z) = x"
  by (simp flip: assoc)

lemma absorbs_step: "comb x y = x \<Longrightarrow> comb (comb x z) y = comb x z"
  by (metis assoc regular)

lemma absorbs_foldl_step: "comb x y = x \<Longrightarrow> comb (foldl comb x zs) y = foldl comb x zs"
  by (induction zs arbitrary: x) (simp_all add: absorbs_step)

lemma absorbs_member: "y \<in> set zs \<Longrightarrow> comb (foldl comb x zs) y = foldl comb x zs"
  by (induction zs arbitrary: x) (auto intro: absorbs_foldl_step simp: assoc idem)

lemma absorbs_start: "comb (foldl comb x zs) x = foldl comb x zs"
  by (rule absorbs_foldl_step) (rule idem)

lemma absorbs_foldl: "comb x y = x \<Longrightarrow> (\<And>z. z \<in> set zs \<Longrightarrow> comb x z = x) \<Longrightarrow> comb x (foldl comb y zs) = x"
  by (induction zs arbitrary: y) (auto simp: absorbs_comb)

lemma foldl_absorbed: "(\<And>z. z \<in> set zs \<Longrightarrow> comb x z = x) \<Longrightarrow> foldl comb x zs = x"
  by (induction zs) auto

text \<open>The filler of a member may skip the member itself.\<close>

lemma fold_skip:
  "comb x (xs ! i) = x \<Longrightarrow> fold (\<lambda>j x. if j = i then x else comb x (xs ! j)) members x = foldl comb x (map ((!) xs) members)"
  by (induction members arbitrary: x) (auto simp: absorbs_step)

lemma fill_member_eq: "fill_member comb members i xs = xs[i := filled comb members xs i]"
  by (simp add: fill_member_def filled_def fold_skip idem)

text \<open>
  The members of \<open>done\<close> are filled already: either none is, or the first of the group is among them.
\<close>

lemma foldl_partly_filled:
  assumes vals: "\<And>j. j \<in> set members \<Longrightarrow> c j = p j \<or> c j = foldl comb (p j) (map p members)"
    and first: "map c members = map p members \<or> c (hd members) = foldl comb (p (hd members)) (map p members)"
  shows "foldl comb x (map c members) = foldl comb x (map p members)"
proof (cases "map c members = map p members")
  case False
  then obtain j js where m: "members = j # js" by (cases members) auto
  let ?P = "foldl comb x (map p members)"
  have "comb x (c j) = foldl comb (comb x (p j)) (map p members)"
    using first False m by (simp only: foldl_assoc) simp
  also have "\<dots> = ?P" by (simp add: m assoc idem)
  finally have start: "comb x (c j) = ?P" .
  have p: "comb ?P (p k) = ?P" if "k \<in> set members" for k
    using that by (intro absorbs_member) simp
  have "comb ?P (c k) = ?P" if "k \<in> set members" for k
  proof -
    have "comb ?P (foldl comb (p k) (map p members)) = ?P"
      using p by (intro absorbs_foldl p [OF that]) auto
    then show ?thesis using vals [OF that] p [OF that] by auto
  qed
  then have "foldl comb ?P (map c js) = ?P" using m by (intro foldl_absorbed) auto
  then show ?thesis using start by (simp add: m)
qed (simp del: map_eq_conv)

lemma fill_members_in_place:
  assumes "distinct members" "\<forall>i \<in> set members. i < length xs" "members = before @ after"
  shows "fold (fill_member comb members) after (map (\<lambda>i. if i \<in> set before then filled comb members xs i else xs ! i) [0..<length xs])
    = map (\<lambda>i. if i \<in> set members then filled comb members xs i else xs ! i) [0..<length xs]"
  using assms(3)
proof (induction after arbitrary: before)
  case (Cons i after)
  let ?cur = "\<lambda>before. map (\<lambda>i. if i \<in> set before then filled comb members xs i else xs ! i) [0..<length xs]"
  let ?c = "(!) (?cur before)" and ?p = "(!) xs"
  have lt: "k < length xs" if "k \<in> set members" for k using assms(2) that by simp
  have c: "?c k = (if k \<in> set before then filled comb members xs k else xs ! k)" if "k \<in> set members" for k
    using lt [OF that] by simp
  have i: "i \<in> set members" "i \<notin> set before" "i < length xs" using Cons.prems assms(1) lt by auto
  have "foldl comb (xs ! i) (map ?c members) = foldl comb (xs ! i) (map ?p members)"
  proof (rule foldl_partly_filled)
    show "?c j = ?p j \<or> ?c j = foldl comb (?p j) (map ?p members)" if "j \<in> set members" for j
      using c [OF that] by (simp add: filled_def)
    show "map ?c members = map ?p members \<or> ?c (hd members) = foldl comb (?p (hd members)) (map ?p members)"
    proof (cases before)
      case Nil
      then show ?thesis using lt by simp
    next
      case (Cons b bs)
      then have "hd members = b" "b \<in> set members" using Cons.prems by simp_all
      then show ?thesis using c [of b] Cons by (simp add: filled_def)
    qed
  qed
  then have "filled comb members (?cur before) i = filled comb members xs i"
    using c [OF i(1)] i(2) by (simp add: filled_def)
  then have "fill_member comb members i (?cur before) = ?cur (before @ [i])"
    using i by (auto simp: fill_member_eq intro!: nth_equalityI simp: nth_list_update)
  then show ?case using Cons.IH [of "before @ [i]"] Cons.prems by simp
qed simp

lemma fill_members:
  assumes "distinct members" "\<forall>i \<in> set members. i < length xs"
  shows "fold (fill_member comb members) members xs
    = map (\<lambda>i. if i \<in> set members then filled comb members xs i else xs ! i) [0..<length xs]"
  using fill_members_in_place [OF assms, of "[]" members] by (simp add: map_nth)

text \<open>Disjoint groups are filled independently, in any order.\<close>

lemma fill_all_groups:
  assumes "\<forall>members \<in> set groups. distinct members \<and> (\<forall>i \<in> set members. i < length xs)"
    and "distinct (concat groups)"
  shows "fold (\<lambda>members. fold (fill_member comb members) members) groups xs
    = map (\<lambda>i. case find (\<lambda>members. i \<in> set members) groups of None \<Rightarrow> xs ! i | Some members \<Rightarrow> filled comb members xs i) [0..<length xs]"
  using assms
proof (induction groups arbitrary: xs)
  case (Cons members groups)
  let ?ys = "fold (fill_member comb members) members xs"
  have ys: "?ys = map (\<lambda>i. if i \<in> set members then filled comb members xs i else xs ! i) [0..<length xs]"
    using Cons.prems by (intro fill_members) auto
  then have len: "length ?ys = length xs" by simp
  have other: "filled comb g ?ys i = filled comb g xs i" if "g \<in> set groups" "i \<in> set g" for g i
  proof -
    have "j \<notin> set members \<and> j < length xs" if "j \<in> set g" for j
      using Cons.prems \<open>g \<in> set groups\<close> that by auto
    then have "?ys ! j = xs ! j" if "j \<in> set g" for j using that by (simp add: ys)
    then show ?thesis using that by (simp add: filled_def cong: map_cong)
  qed
  have "fold (\<lambda>members. fold (fill_member comb members) members) groups ?ys
      = map (\<lambda>i. case find (\<lambda>g. i \<in> set g) groups of None \<Rightarrow> ?ys ! i | Some g \<Rightarrow> filled comb g ?ys i) [0..<length xs]"
    using Cons.IH [of ?ys] Cons.prems len by simp
  also have "\<dots> = map (\<lambda>i. case find (\<lambda>g. i \<in> set g) (members # groups) of None \<Rightarrow> xs ! i | Some g \<Rightarrow> filled comb g xs i) [0..<length xs]"
  proof (rule map_cong [OF refl])
    fix i assume "i \<in> set [0..<length xs]"
    then have yi: "?ys ! i = (if i \<in> set members then filled comb members xs i else xs ! i)" by (simp add: ys)
    show "(case find (\<lambda>g. i \<in> set g) groups of None \<Rightarrow> ?ys ! i | Some g \<Rightarrow> filled comb g ?ys i)
        = (case find (\<lambda>g. i \<in> set g) (members # groups) of None \<Rightarrow> xs ! i | Some g \<Rightarrow> filled comb g xs i)"
    proof (cases "find (\<lambda>g. i \<in> set g) groups")
      case None
      then show ?thesis using yi by simp
    next
      case (Some g)
      then have g: "g \<in> set groups" "i \<in> set g" by (auto dest: find_prop)
      then have "i \<notin> set members" using Cons.prems by auto
      then show ?thesis using Some other [OF g] by simp
    qed
  qed
  finally show ?case by simp
qed (simp add: map_nth)

end

lemma or_existing_band:
  "or_existing (or_existing x y) z = or_existing x (or_existing y z)" "or_existing x x = x"
  "or_existing x (or_existing y x) = or_existing x y"
  by (simp_all add: or_existing_def)

lemma coalesce_band:
  "coalesce (coalesce x y) z = coalesce x (coalesce y z)" "coalesce x x = x" "coalesce x (coalesce y x) = coalesce x y"
  by (simp_all add: coalesce_def split: option.splits)

interpretation peers: left_regular_band "\<lambda>item peer. fill_from peer item"
  by unfold_locales (simp_all add: fill_from_def or_existing_band coalesce_band)

lemma fill_groups_eq:
  "fill_groups = fold (\<lambda>members. fold (fill_member (\<lambda>item peer. fill_from peer item) members) members)"
proof -
  have "fillProgramFromPeers members i programs = fill_member (\<lambda>item peer. fill_from peer item) members i programs" for members i programs
    by (simp add: fillProgramFromPeers_def fill_member_def)
  then have "fillProgramFromPeers = fill_member (\<lambda>item peer. fill_from peer item)" by (simp add: fun_eq_iff)
  then show ?thesis by (intro ext) (simp add: fill_groups_def)
qed

section \<open>The groups are the connected components\<close>

definition add_member :: "'k \<Rightarrow> nat \<Rightarrow> ('k, nat list) gomap \<Rightarrow> ('k, nat list) gomap" where
  "add_member r i peers = AList.update r ((case map_of peers r of None \<Rightarrow> [] | Some members \<Rightarrow> members) @ [i]) peers"

definition members_of :: "('k, nat list) gomap \<Rightarrow> 'k \<Rightarrow> nat list" where
  "members_of peers r = (case map_of peers r of None \<Rightarrow> [] | Some members \<Rightarrow> members)"

lemma members_of_add_member: "members_of (add_member r i peers) s = members_of peers s @ (if r = s then [i] else [])"
  by (simp add: members_of_def add_member_def update_conv')

lemma members_of_fold:
  "members_of (fold (\<lambda>(i, p). add_member (f p) i) ips peers) s = members_of peers s @ map fst (filter (\<lambda>(i, p). f p = s) ips)"
  by (induction ips arbitrary: peers) (auto simp: members_of_add_member)

lemma distinct_fold_add_member:
  "distinct (map fst peers) \<Longrightarrow> distinct (map fst (fold (\<lambda>(i, p). add_member (f p) i) ips peers))"
  by (induction ips arbitrary: peers) (auto simp: add_member_def distinct_update)

lemma filter_enumerate: "map fst (filter (\<lambda>(i, p). P p) (enumerate 0 xs)) = filter (\<lambda>i. P (xs ! i)) [0..<length xs]"
proof -
  have e: "enumerate 0 xs = map (\<lambda>i. (i, xs ! i)) [0..<length xs]"
    by (rule nth_equalityI) (simp_all add: nth_enumerate_eq)
  show ?thesis by (simp add: e filter_map comp_def)
qed

lemma group_peers_eq:
  assumes "represents m E" "\<And>k. roots_to (parent_of m) k (rho k)"
  shows "group_peers items i m peers = Some (fold (\<lambda>(i, p). add_member (rho (programKey p)) i) (enumerate i items) peers)"
  using assms
proof (induction items arbitrary: i m peers)
  case (Cons item items)
  obtain r m1 where m1: "find_root m (programKey item) = Some (r, m1)" "represents m1 E"
      "roots_to (parent_of m) (programKey item) r" "roots_to (parent_of m1) = roots_to (parent_of m)"
    using find_represents [OF Cons.prems(1)] by blast
  have "r = rho (programKey item)" using roots_to_det [OF m1(3) Cons.prems(2)] .
  then show ?case using m1 Cons.IH [OF m1(2)] Cons.prems(2) by (simp add: add_member_def)
qed simp

lemma groups_by_root:
  assumes "peers = fold (\<lambda>(i, p). add_member (f p) i) (enumerate 0 xs) []"
  shows "\<And>members. members \<in> set (map snd peers) \<Longrightarrow> \<exists>r. members = filter (\<lambda>i. f (xs ! i) = r) [0..<length xs]"
    and "\<And>i. i < length xs \<Longrightarrow> filter (\<lambda>j. f (xs ! j) = f (xs ! i)) [0..<length xs] \<in> set (map snd peers)"
    and "distinct (concat (map snd peers))"
proof -
  let ?own = "\<lambda>r. filter (\<lambda>i. f (xs ! i) = r) [0..<length xs]"
  have dist: "distinct (map fst peers)" by (simp add: assms distinct_fold_add_member)
  have of: "members_of peers r = ?own r" for r
    unfolding assms members_of_fold filter_enumerate [where P = "\<lambda>p. f p = r"] by (simp add: members_of_def)
  have entry: "members = ?own r" if "(r, members) \<in> set peers" for r members
    using of [of r] map_of_is_SomeI [OF dist that] by (simp add: members_of_def)
  show "\<exists>r. members = ?own r" if members: "members \<in> set (map snd peers)" for members
  proof -
    obtain r where "(r, members) \<in> set peers" using members by auto
    then show ?thesis by (intro exI) (rule entry)
  qed
  show "?own (f (xs ! i)) \<in> set (map snd peers)" if "i < length xs" for i
  proof -
    have "members_of peers (f (xs ! i)) \<noteq> []" using that by (auto simp: of filter_empty_conv)
    then have "map_of peers (f (xs ! i)) = Some (?own (f (xs ! i)))"
      using of [of "f (xs ! i)"] by (simp add: members_of_def split: option.splits)
    then have "(f (xs ! i), ?own (f (xs ! i))) \<in> set peers" by (rule map_of_SomeD)
    then have "snd (f (xs ! i), ?own (f (xs ! i))) \<in> set (map snd peers)" unfolding set_map by (rule imageI)
    then show ?thesis by (simp only: snd_conv)
  qed
  have "distinct (concat (map snd ps))" if "map snd ps = map ?own (map fst ps)" "distinct (map fst ps)" for ps
  proof -
    have "distinct rs \<Longrightarrow> distinct (concat (map ?own rs))" for rs by (induction rs) auto
    then show ?thesis using that by metis
  qed
  moreover have "map snd peers = map ?own (map fst peers)" using entry by auto
  ultimately show "distinct (concat (map snd peers))" using dist by blast
qed

lemma distinct_concat_perm: "mset xs = mset ys \<Longrightarrow> distinct (concat xs) \<longleftrightarrow> distinct (concat ys)"
proof -
  assume "mset xs = mset ys"
  then have "mset (concat xs) = mset (concat ys)" by (simp add: mset_concat flip: sum_mset_sum_list)
  then show ?thesis by (rule mset_eq_imp_distinct_iff)
qed

lemma represents_roots:
  assumes "represents m E" "\<And>k. roots_to (parent_of m) k (rho k)"
  shows "(x, y) \<in> linked E \<longleftrightarrow> rho x = rho y"
  using assms(1) same_root_iff [OF assms(2) assms(2)] by (simp add: represents_def)

section \<open>What filling gives\<close>

text \<open>The specification: the own value of a field if there is one, otherwise the first one of the peers.\<close>

definition first_nonempty :: "(Program \<Rightarrow> 'a list) \<Rightarrow> Program list \<Rightarrow> 'a list" where
  "first_nonempty field ps = (case find (\<lambda>p. field p \<noteq> []) ps of None \<Rightarrow> [] | Some p \<Rightarrow> field p)"

definition first_present :: "(Program \<Rightarrow> 'a option) \<Rightarrow> Program list \<Rightarrow> 'a option" where
  "first_present field ps = (case find (\<lambda>p. field p \<noteq> None) ps of None \<Rightarrow> None | Some p \<Rightarrow> field p)"

definition completed :: "Program \<Rightarrow> Program list \<Rightarrow> Program" where
  "completed p peers = p\<lparr>
     pg_Name := first_nonempty pg_Name (p # peers), pg_Description := first_nonempty pg_Description (p # peers),
     pg_Genres := first_nonempty pg_Genres (p # peers), pg_Video := first_present pg_Video (p # peers),
     pg_Audios := first_nonempty pg_Audios (p # peers), pg_Extended := first_nonempty pg_Extended (p # peers),
     pg_Series := first_present pg_Series (p # peers) \<rparr>"

lemma first_nonempty_snoc: "first_nonempty field (ps @ [q]) = or_existing (first_nonempty field ps) (field q)"
  by (auto simp: first_nonempty_def or_existing_def find_append dest!: find_prop split: option.splits)

lemma first_present_snoc: "first_present field (ps @ [q]) = coalesce (first_present field ps) (field q)"
  by (auto simp: first_present_def coalesce_def find_append dest!: find_prop split: option.splits)

lemma foldl_fill_from: "foldl (\<lambda>item peer. fill_from peer item) p peers = completed p peers"
proof (induction peers rule: rev_induct)
  case Nil
  show ?case by (cases p) (simp add: completed_def first_nonempty_def first_present_def)
next
  case (snoc q peers)
  then show ?case
    by (simp add: fill_from_def completed_def first_nonempty_snoc first_present_snoc flip: append_Cons)
qed

text \<open>
  C8. Filling always ends, also when the links form cycles, and gives every program that lacks a field the
  first value of this field among the programs that a chain of "shared" links, in either direction,
  connects it with. That programs are filled in place, the order in which groups are visited, and the
  order of the links make no difference.
\<close>

theorem fillProgramsFromSharedPeers_correct:
  assumes "\<And>groups. mset (visit groups) = mset groups"
  shows "fillProgramsFromSharedPeers visit programs
    = Some (map (\<lambda>p. completed p (filter (connected programs p) programs)) programs)"
proof -
  let ?E = "\<Union>item \<in> set programs. shared_edges item" and ?comb = "\<lambda>item peer. fill_from peer item"
  obtain m where m: "union_programs programs [] = Some m" "represents m ?E"
    using union_programs_represents [OF represents_empty, of programs] by auto
  obtain rho where rho: "\<And>k. roots_to (parent_of m) k (rho k)" using m(2) unfolding represents_def rooted_def by metis
  have conn: "connected programs p q \<longleftrightarrow> rho (programKey q) = rho (programKey p)" for p q
    unfolding connected_def represents_roots [OF m(2) rho] by (rule eq_commute)
  define peers where "peers = fold (\<lambda>(i, p). add_member (rho (programKey p)) i) (enumerate 0 programs) []"
  have peers: "group_peers programs 0 m [] = Some peers" unfolding peers_def by (rule group_peers_eq [OF m(2) rho])
  let ?root = "\<lambda>i. rho (programKey (programs ! i))"
  note groups = groups_by_root [where f = "\<lambda>p. rho (programKey p)", OF peers_def]
  let ?gs = "visit (map snd peers)"
  have gs: "set ?gs = set (map snd peers)" "distinct (concat ?gs)"
    using mset_eq_setD [OF assms] distinct_concat_perm [OF assms] groups(3) by blast+
  have "\<forall>members \<in> set ?gs. distinct members \<and> (\<forall>i \<in> set members. i < length programs)"
    using groups(1) gs(1) by fastforce
  then have "fill_groups ?gs programs
      = map (\<lambda>i. case find (\<lambda>members. i \<in> set members) ?gs of None \<Rightarrow> programs ! i | Some members \<Rightarrow> filled ?comb members programs i) [0..<length programs]"
    unfolding fill_groups_eq by (rule peers.fill_all_groups) (rule gs(2))
  also have "\<dots> = map (\<lambda>i. completed (programs ! i) (filter (connected programs (programs ! i)) programs)) [0..<length programs]"
  proof (rule map_cong [OF refl])
    fix i assume "i \<in> set [0..<length programs]"
    then have i: "i < length programs" by simp
    let ?own = "filter (\<lambda>j. ?root j = ?root i) [0..<length programs]"
    have "?own \<in> set ?gs" "i \<in> set ?own" using groups(2) [OF i] gs(1) i by simp_all
    then obtain members where members: "find (\<lambda>members. i \<in> set members) ?gs = Some members"
      by (cases "find (\<lambda>members. i \<in> set members) ?gs") (auto simp: find_None_iff)
    then have mem: "members \<in> set (map snd peers)" "i \<in> set members" using gs(1) find_prop [OF members] by simp_all
    obtain r where r: "members = filter (\<lambda>j. ?root j = r) [0..<length programs]" using groups(1) [OF mem(1)] by blast
    then have "members = ?own" using mem(2) by simp
    moreover have "map ((!) programs) ?own = filter (connected programs (programs ! i)) programs"
      using filter_map [of "connected programs (programs ! i)" "(!) programs" "[0..<length programs]"]
      by (simp add: map_nth conn comp_def)
    ultimately show "(case find (\<lambda>members. i \<in> set members) ?gs of None \<Rightarrow> programs ! i | Some members \<Rightarrow> filled ?comb members programs i)
        = completed (programs ! i) (filter (connected programs (programs ! i)) programs)"
      by (simp add: members filled_def foldl_fill_from)
  qed
  also have "\<dots> = map (\<lambda>p. completed p (filter (connected programs p) programs)) programs"
    by (rule nth_equalityI) simp_all
  finally show ?thesis using m(1) peers by (simp add: fillProgramsFromSharedPeers_def)
qed

text \<open>Two programs that link each other, the first without a name, and one that nothing links.\<close>

definition demo_shared :: "u16 \<Rightarrow> gostring \<Rightarrow> RelatedItem list \<Rightarrow> Program" where
  "demo_shared event name related = \<lparr> pg_ID = uint event, pg_EventID = event, pg_ServiceID = 1, pg_NetworkID = 4, pg_StartAt = 0, pg_Duration = 0,
     pg_IsFree = True, pg_Name = name, pg_Description = [], pg_Genres = [], pg_Video = None, pg_Audios = [], pg_Extended = [],
     pg_RelatedItems = related, pg_Series = None \<rparr>"

definition demo_shared_programs :: "Program list" where
  "demo_shared_programs =
     [demo_shared 10 [] [\<lparr> ri_Type = RelatedItemTypeShared, ri_NetworkID = None, ri_TransportStreamID = None, ri_ServiceID = 1, ri_EventID = 11 \<rparr>],
      demo_shared 11 [65] [\<lparr> ri_Type = RelatedItemTypeShared, ri_NetworkID = Some 4, ri_TransportStreamID = None, ri_ServiceID = 1, ri_EventID = 10 \<rparr>],
      demo_shared 12 [] []]"

theorem fillProgramsFromSharedPeers_correct_witness:
  "(\<forall>gs. mset (rev gs) = mset (gs :: nat list list))
   \<and> fillProgramsFromSharedPeers rev demo_shared_programs
      = Some (map (\<lambda>p. completed p (filter (connected demo_shared_programs p) demo_shared_programs)) demo_shared_programs)
   \<and> map_option (map pg_Name) (fillProgramsFromSharedPeers rev demo_shared_programs) = Some [[65], [65], []]"
proof (intro conjI)
  show "fillProgramsFromSharedPeers rev demo_shared_programs
      = Some (map (\<lambda>p. completed p (filter (connected demo_shared_programs p) demo_shared_programs)) demo_shared_programs)"
    by (rule fillProgramsFromSharedPeers_correct) simp
  show "map_option (map pg_Name) (fillProgramsFromSharedPeers rev demo_shared_programs) = Some [[65], [65], []]"
    by code_simp
qed simp

end
