(* ===== verification/EPG_Sections.thy ===== *)
theory EPG_Sections
  imports TS_Tables Program_Store
begin

text \<open>
  From EIT sections to programs: \<open>internal/epg/convert.go\<close> (descriptors of \<open>ts\<close> to those of the
  collector) and \<open>internal/epg/eit.go\<close> (the programs of a section). A parser returns \<open>(value, ok)\<close>:
  \<open>Some (Some v)\<close> is a value, \<open>Some None\<close> is not ok, \<open>None\<close> is a panic. \<open>DecodeARIBString\<close> is the
  parameter \<open>dec\<close>. A language code is the list of its bytes.
\<close>

section \<open>Data\<close>

record RelatedEvent =
  rv_OriginalNetworkID :: "u16 option"
  rv_TransportStreamID :: "u16 option"
  rv_ServiceID :: u16
  rv_EventID :: u16

record EITDescriptor =
  ed_Type :: string
  ed_EventName :: gostring
  ed_Text :: gostring
  ed_StreamContent :: "int option"
  ed_ComponentType :: "int option"
  ed_ComponentTag :: "int option"
  ed_MainComponent :: "bool option"
  ed_SamplingRate :: "int option"
  ed_Lang :: gostring
  ed_Lang2 :: gostring
  ed_Nibbles :: "int list list"
  ed_Items :: "gostring list list"
  ed_GroupType :: "int option"
  ed_Events :: "RelatedEvent list"
  ed_SeriesID :: "int option"
  ed_RepeatLabel :: "int option"
  ed_ProgramPattern :: "int option"
  ed_ExpireDate :: "int option"
  ed_EpisodeNumber :: "int option"
  ed_LastEpisodeNumber :: "int option"
  ed_SeriesName :: gostring

record epg_EITEvent =
  ee_EventID :: u16
  ee_StartTime :: int
  ee_Duration :: int
  ee_Scrambled :: bool
  ee_Descriptors :: "EITDescriptor list"

record EITSection =
  es_OriginalNetworkID :: u16
  es_TransportStreamID :: u16
  es_ServiceID :: u16
  es_TableID :: u8
  es_LastTableID :: u8
  es_SectionNumber :: u8
  es_LastSectionNumber :: u8
  es_SegmentLastSectionNumber :: u8
  es_VersionNumber :: u8
  es_Events :: "epg_EITEvent list"

text \<open>\<open>EITDescriptor{}\<close>.\<close>

definition no_descriptor :: EITDescriptor where
  "no_descriptor = \<lparr> ed_Type = [], ed_EventName = [], ed_Text = [], ed_StreamContent = None, ed_ComponentType = None,
     ed_ComponentTag = None, ed_MainComponent = None, ed_SamplingRate = None, ed_Lang = [], ed_Lang2 = [], ed_Nibbles = [], ed_Items = [],
     ed_GroupType = None, ed_Events = [], ed_SeriesID = None, ed_RepeatLabel = None, ed_ProgramPattern = None, ed_ExpireDate = None,
     ed_EpisodeNumber = None, ed_LastEpisodeNumber = None, ed_SeriesName = [] \<rparr>"

type_synonym 'a parsed = "'a option go"

abbreviation no_value :: "'a parsed" where
  "no_value \<equiv> Some None"

abbreviation a_value :: "'a \<Rightarrow> 'a parsed" where
  "a_value x \<equiv> Some (Some x)"

definition decoded :: "decoder \<Rightarrow> bytes \<Rightarrow> (gostring \<Rightarrow> 'a parsed) \<Rightarrow> 'a parsed" where
  "decoded dec raw f = (case dec raw of Inl e \<Rightarrow> no_value | Inr s \<Rightarrow> f s)"

definition byte_string :: "bytes \<Rightarrow> gostring" where
  "byte_string b = map uint b"

definition hi4 :: "u8 \<Rightarrow> int" where
  "hi4 b = uint (drop_bit 4 b)"

definition lo4 :: "u8 \<Rightarrow> int" where
  "lo4 b = uint (b AND 0x0f)"

section \<open>Descriptors with a fixed layout\<close>

definition parseShortEventDescriptor :: "decoder \<Rightarrow> Descriptor \<Rightarrow> EITDescriptor parsed" where
  "parseShortEventDescriptor dec desc = do {
     data \<leftarrow> Descriptor_Data desc;
     if blen data < 5 then no_value
     else do {
       lang \<leftarrow> slice data 0 3;
       nameLen \<leftarrow> idx data 3;
       let nameEnd = 4 + len8 nameLen;
       if nameEnd \<ge> blen data then no_value
       else do {
         textLen \<leftarrow> idx data nameEnd;
         let textStart = nameEnd + 1;
         let textEnd = textStart + len8 textLen;
         if textEnd > blen data then no_value
         else do {
           rawName \<leftarrow> slice data 4 nameEnd;
           rawText \<leftarrow> slice data textStart textEnd;
           decoded dec rawName (\<lambda>name. decoded dec rawText (\<lambda>txt.
             a_value (no_descriptor\<lparr> ed_Type := ''ShortEvent'', ed_Lang := byte_string lang, ed_EventName := name, ed_Text := txt \<rparr>))) } } } }"

text \<open>The loop steps over two bytes; the length is even.\<close>

fun content_nibbles :: "bytes \<Rightarrow> int list list" where
  "content_nibbles (a # b # data) = [hi4 a, lo4 a, hi4 b, lo4 b] # content_nibbles data"
| "content_nibbles _ = []"

definition parseContentDescriptor :: "Descriptor \<Rightarrow> EITDescriptor parsed" where
  "parseContentDescriptor desc = do {
     data \<leftarrow> Descriptor_Data desc;
     if blen data mod 2 \<noteq> 0 then no_value
     else a_value (no_descriptor\<lparr> ed_Type := ''Content'', ed_Nibbles := content_nibbles data \<rparr>) }"

definition parseComponentDescriptor :: "decoder \<Rightarrow> Descriptor \<Rightarrow> EITDescriptor parsed" where
  "parseComponentDescriptor dec desc = do {
     data \<leftarrow> Descriptor_Data desc;
     if blen data < 6 then no_value
     else do {
       rawText \<leftarrow> slice data 6 (blen data);
       d0 \<leftarrow> idx data 0; d1 \<leftarrow> idx data 1; d2 \<leftarrow> idx data 2;
       lang \<leftarrow> slice data 3 6;
       decoded dec rawText (\<lambda>txt.
         a_value (no_descriptor\<lparr> ed_Type := ''Component'', ed_StreamContent := Some (lo4 d0), ed_ComponentType := Some (len8 d1),
               ed_ComponentTag := Some (len8 d2), ed_Lang := byte_string lang, ed_Text := txt \<rparr>)) } }"

definition parseAudioComponentDescriptor :: "decoder \<Rightarrow> Descriptor \<Rightarrow> EITDescriptor parsed" where
  "parseAudioComponentDescriptor dec desc = do {
     data \<leftarrow> Descriptor_Data desc;
     if blen data < 9 then no_value
     else do {
       d0 \<leftarrow> idx data 0; d1 \<leftarrow> idx data 1; d2 \<leftarrow> idx data 2; d5 \<leftarrow> idx data 5;
       lang \<leftarrow> slice data 6 9;
       let multilingual = d5 AND 0x80 \<noteq> 0;
       let item = no_descriptor\<lparr> ed_Type := ''AudioComponent'', ed_StreamContent := Some (lo4 d0), ed_ComponentType := Some (len8 d1),
             ed_ComponentTag := Some (len8 d2), ed_MainComponent := Some (d5 AND 0x40 \<noteq> 0),
             ed_SamplingRate := Some (uint (drop_bit 1 d5 AND 0x07)), ed_Lang := byte_string lang \<rparr>;
       if multilingual \<and> blen data < 12 then no_value
       else do {
         (item, off) \<leftarrow> (if multilingual
            then do { lang2 \<leftarrow> slice data 9 12; Some (item\<lparr> ed_Lang2 := byte_string lang2 \<rparr>, 12) }
            else Some (item, 9));
         rawText \<leftarrow> slice data off (blen data);
         decoded dec rawText (\<lambda>txt. a_value (item\<lparr> ed_Text := txt \<rparr>)) } } }"

definition parseMJDDate :: "bytes \<Rightarrow> gotime parsed" where
  "parseMJDDate b =
     (if blen b \<noteq> 2 then no_value
      else do { b0 \<leftarrow> idx b 0; b1 \<leftarrow> idx b 1; a_value (mjd_date (uint (be16 b0 b1)) 0 0 0) })"

definition unix_milli :: "gotime \<Rightarrow> int" where
  "unix_milli t = t * 1000"

definition parseSeriesDescriptor :: "decoder \<Rightarrow> Descriptor \<Rightarrow> EITDescriptor parsed" where
  "parseSeriesDescriptor dec desc = do {
     data \<leftarrow> Descriptor_Data desc;
     if blen data < 8 then no_value
     else do {
       d0 \<leftarrow> idx data 0; d1 \<leftarrow> idx data 1; d2 \<leftarrow> idx data 2; d5 \<leftarrow> idx data 5; d6 \<leftarrow> idx data 6; d7 \<leftarrow> idx data 7;
       rawName \<leftarrow> slice data 8 (blen data);
       rawDate \<leftarrow> slice data 3 5;
       decoded dec rawName (\<lambda>seriesName.
         let item = no_descriptor\<lparr> ed_Type := ''Series'', ed_SeriesID := Some (uint (be16 d0 d1)), ed_RepeatLabel := Some (hi4 d2),
               ed_ProgramPattern := Some (uint (drop_bit 1 d2 AND 0x07)),
               ed_EpisodeNumber := Some (uint (push_bit 4 (ucast d5 :: u16) OR ucast (drop_bit 4 d6))),
               ed_LastEpisodeNumber := Some (len12 d6 d7), ed_SeriesName := seriesName \<rparr>
         in if d2 AND 0x01 \<noteq> 0
            then do {
              date \<leftarrow> parseMJDDate rawDate;
              (case date of None \<Rightarrow> no_value | Some t \<Rightarrow> a_value (item\<lparr> ed_ExpireDate := Some (unix_milli t) \<rparr>)) }
            else a_value item) } }"

fun event_group_events :: "nat \<Rightarrow> bytes \<Rightarrow> int \<Rightarrow> RelatedEvent list \<Rightarrow> (RelatedEvent list \<times> int) parsed" where
  "event_group_events 0 data off events = a_value (events, off)"
| "event_group_events (Suc n) data off events =
     (if off + 4 > blen data then no_value
      else do {
        s0 \<leftarrow> idx data off; s1 \<leftarrow> idx data (off + 1); e0 \<leftarrow> idx data (off + 2); e1 \<leftarrow> idx data (off + 3);
        event_group_events n data (off + 4) (events @ [\<lparr> rv_OriginalNetworkID = None, rv_TransportStreamID = None,
          rv_ServiceID = be16 s0 s1, rv_EventID = be16 e0 e1 \<rparr>]) })"

function event_group_others :: "bytes \<Rightarrow> int \<Rightarrow> RelatedEvent list \<Rightarrow> (RelatedEvent list \<times> int) go" where
  "event_group_others data off events =
     (if off + 8 \<le> blen data
      then do {
        n0 \<leftarrow> idx data off; n1 \<leftarrow> idx data (off + 1); t0 \<leftarrow> idx data (off + 2); t1 \<leftarrow> idx data (off + 3);
        s0 \<leftarrow> idx data (off + 4); s1 \<leftarrow> idx data (off + 5); e0 \<leftarrow> idx data (off + 6); e1 \<leftarrow> idx data (off + 7);
        event_group_others data (off + 8) (events @ [\<lparr> rv_OriginalNetworkID = Some (be16 n0 n1), rv_TransportStreamID = Some (be16 t0 t1),
          rv_ServiceID = be16 s0 s1, rv_EventID = be16 e0 e1 \<rparr>]) }
      else Some (events, off))"
  by pat_completeness auto
termination by (relation "measure (\<lambda>(data, off, _). nat (blen data - off))") auto

declare event_group_others.simps [simp del]

definition parseEventGroupDescriptor :: "Descriptor \<Rightarrow> EITDescriptor parsed" where
  "parseEventGroupDescriptor desc = do {
     data \<leftarrow> Descriptor_Data desc;
     if blen data < 1 then no_value
     else do {
       d0 \<leftarrow> idx data 0;
       let groupType = hi4 d0;
       let done = (\<lambda>events. a_value (no_descriptor\<lparr> ed_Type := ''EventGroup'', ed_GroupType := Some groupType, ed_Events := events \<rparr>));
       res \<leftarrow> event_group_events (nat (lo4 d0)) data 1 [];
       (case res of
          None \<Rightarrow> no_value
        | Some (events, off) \<Rightarrow>
            if groupType = 4 \<or> groupType = 5
            then do {
              (events, off) \<leftarrow> event_group_others data off events;
              if off \<noteq> blen data then no_value else done events }
            else done events) } }"

section \<open>Extended events\<close>

text \<open>A long text is spread over several descriptors of one language, which are put together.\<close>

record extendedEventItemPart =
  ip_descriptionRaw :: bytes
  ip_textRaw :: bytes

record extendedEventDescriptorPart =
  xp_descriptorNumber :: int
  xp_lastDescriptorNumber :: int
  xp_lang :: gostring
  xp_textRaw :: bytes
  xp_items :: "extendedEventItemPart list"
  xp_order :: int

record extendedEventGroup =
  xg_index :: nat
  xg_parts :: "extendedEventDescriptorPart list"

lemma len8_progress: "- len8 b - 2 < len8 a"
  using len8_bounds(1) [of a] len8_bounds(1) [of b] by linarith

function extended_items :: "bytes \<Rightarrow> int \<Rightarrow> int \<Rightarrow> extendedEventItemPart list \<Rightarrow> (extendedEventItemPart list \<times> int) parsed" where
  "extended_items data off itemsEnd items =
     (if off < itemsEnd
      then do {
        descLen \<leftarrow> idx data off;
        let descEnd = off + 1 + len8 descLen;
        if descEnd > itemsEnd then no_value
        else do {
          itemDescription \<leftarrow> slice data (off + 1) descEnd;
          if descEnd \<ge> itemsEnd then no_value
          else do {
            itemLen \<leftarrow> idx data descEnd;
            let itemEnd = descEnd + 1 + len8 itemLen;
            if itemEnd > itemsEnd then no_value
            else do {
              itemText \<leftarrow> slice data (descEnd + 1) itemEnd;
              extended_items data itemEnd itemsEnd (items @ [\<lparr> ip_descriptionRaw = itemDescription, ip_textRaw = itemText \<rparr>]) } } } }
      else a_value (items, off))"
  by pat_completeness auto
termination
  by (relation "measure (\<lambda>(data, off, itemsEnd, _). nat (itemsEnd - off))")
    (simp_all add: len8_progress)

declare extended_items.simps [simp del]

definition parseExtendedEventDescriptorPart :: "Descriptor \<Rightarrow> extendedEventDescriptorPart parsed" where
  "parseExtendedEventDescriptorPart desc = do {
     data \<leftarrow> Descriptor_Data desc;
     if blen data < 6 then no_value
     else do {
       d0 \<leftarrow> idx data 0;
       lang \<leftarrow> slice data 1 4;
       itemsLen \<leftarrow> idx data 4;
       let itemsEnd = 5 + len8 itemsLen;
       if itemsEnd > blen data then no_value
       else do {
         res \<leftarrow> extended_items data 5 itemsEnd [];
         (case res of
            None \<Rightarrow> no_value
          | Some (items, off) \<Rightarrow>
              if off \<ge> blen data then no_value
              else do {
                textLen \<leftarrow> idx data off;
                let textEnd = off + 1 + len8 textLen;
                if textEnd > blen data then no_value
                else do {
                  txt \<leftarrow> slice data (off + 1) textEnd;
                  a_value \<lparr> xp_descriptorNumber = hi4 d0, xp_lastDescriptorNumber = lo4 d0, xp_lang = byte_string lang,
                       xp_textRaw = txt, xp_items = items, xp_order = 0 \<rparr> } }) } } }"

text \<open>An item without a description continues the text of the item before it.\<close>

definition append_item :: "extendedEventItemPart list \<Rightarrow> extendedEventItemPart \<Rightarrow> extendedEventItemPart list" where
  "append_item rawItems item =
     (if ip_descriptionRaw item = [] \<and> rawItems \<noteq> []
      then butlast rawItems @ [(last rawItems)\<lparr> ip_textRaw := ip_textRaw (last rawItems) @ ip_textRaw item \<rparr>]
      else rawItems @ [item])"

definition decode_or_empty :: "decoder \<Rightarrow> bytes \<Rightarrow> gostring" where
  "decode_or_empty dec raw = (case dec raw of Inl e \<Rightarrow> [] | Inr s \<Rightarrow> s)"

definition mergeExtendedEventParts :: "decoder \<Rightarrow> extendedEventDescriptorPart list \<Rightarrow> EITDescriptor" where
  "mergeExtendedEventParts dec unsorted =
     (let parts = sort_key (\<lambda>p. (xp_descriptorNumber p, xp_order p)) unsorted;
          lang = (case parts of [] \<Rightarrow> [] | p # _ \<Rightarrow> xp_lang p);
          textRaw = concat (map xp_textRaw parts);
          rawItems = foldl append_item [] (concat (map xp_items parts));
          txt = decode_or_empty dec textRaw;
          items = map (\<lambda>item. [decode_or_empty dec (ip_descriptionRaw item), decode_or_empty dec (ip_textRaw item)]) rawItems;
          items = (if txt \<noteq> [] \<and> items = [] then [[[], txt]] else items)
      in no_descriptor\<lparr> ed_Type := ''ExtendedEvent'', ed_Lang := lang, ed_Text := txt, ed_Items := items \<rparr>)"

definition parseExtendedEventDescriptor :: "decoder \<Rightarrow> Descriptor \<Rightarrow> EITDescriptor parsed" where
  "parseExtendedEventDescriptor dec desc = do {
     part \<leftarrow> parseExtendedEventDescriptorPart desc;
     (case part of None \<Rightarrow> no_value | Some p \<Rightarrow> a_value (mergeExtendedEventParts dec [p])) }"

definition descriptorFromTS :: "decoder \<Rightarrow> Descriptor \<Rightarrow> EITDescriptor parsed" where
  "descriptorFromTS dec desc = do {
     tag \<leftarrow> Descriptor_Tag desc;
     if tag = 0x4D then parseShortEventDescriptor dec desc
     else if tag = 0x4E then parseExtendedEventDescriptor dec desc
     else if tag = 0x50 then parseComponentDescriptor dec desc
     else if tag = 0x54 then parseContentDescriptor desc
     else if tag = 0xC4 then parseAudioComponentDescriptor dec desc
     else if tag = 0xD5 then parseSeriesDescriptor dec desc
     else if tag = 0xD6 then parseEventGroupDescriptor desc
     else no_value }"

section \<open>The descriptors of an event\<close>

type_synonym extended_groups = "(gostring, extendedEventGroup) gomap"

text \<open>
  The first part of a language keeps a place in the list for the merged descriptor.
\<close>

definition add_extended :: "extendedEventDescriptorPart \<Rightarrow> EITDescriptor list \<times> extended_groups \<Rightarrow> EITDescriptor list \<times> extended_groups" where
  "add_extended part st =
     (let (out, extended) = st;
          (out, g) = (case map_of extended (xp_lang part) of
             None \<Rightarrow> (out @ [no_descriptor], \<lparr> xg_index = length out, xg_parts = [] \<rparr>)
           | Some g \<Rightarrow> (out, g));
          part = part\<lparr> xp_order := blen (xg_parts g) \<rparr>
      in (out, AList.update (xp_lang part) (g\<lparr> xg_parts := xg_parts g @ [part] \<rparr>) extended))"

fun convert_descriptors :: "decoder \<Rightarrow> Descriptor list \<Rightarrow> EITDescriptor list \<times> extended_groups \<Rightarrow> (EITDescriptor list \<times> extended_groups) go" where
  "convert_descriptors dec [] st = Some st"
| "convert_descriptors dec (desc # descs) st = do {
     tag \<leftarrow> Descriptor_Tag desc;
     if tag = 0x4E
     then do {
       part \<leftarrow> parseExtendedEventDescriptorPart desc;
       convert_descriptors dec descs (case part of None \<Rightarrow> st | Some p \<Rightarrow> add_extended p st) }
     else do {
       item \<leftarrow> descriptorFromTS dec desc;
       convert_descriptors dec descs (case item of None \<Rightarrow> st | Some d \<Rightarrow> (fst st @ [d], snd st)) } }"

definition descriptorsFromTS :: "decoder \<Rightarrow> Descriptor list \<Rightarrow> EITDescriptor list go" where
  "descriptorsFromTS dec descs = do {
     (out, extended) \<leftarrow> convert_descriptors dec descs ([], []);
     Some (fold (\<lambda>(lang, g) out. out[xg_index g := mergeExtendedEventParts dec (xg_parts g)]) extended out) }"

definition unixMilli :: "gotime \<Rightarrow> int" where
  "unixMilli t = (if Time_IsZero t then 0 else unix_milli t)"

fun convert_events :: "decoder \<Rightarrow> EITEvent list \<Rightarrow> epg_EITEvent list go" where
  "convert_events dec [] = Some []"
| "convert_events dec (event # events) = do {
     descs \<leftarrow> descriptorsFromTS dec (ev_Descriptors event);
     rest \<leftarrow> convert_events dec events;
     Some (\<lparr> ee_EventID = ev_EventID event, ee_StartTime = unixMilli (ev_StartTime event),
             ee_Duration = trunc_div (ev_Duration event) 1000000, ee_Scrambled = ev_FreeCAMode event, ee_Descriptors = descs \<rparr> # rest) }"

definition EITSectionFromTS :: "decoder \<Rightarrow> EIT \<Rightarrow> EITSection go" where
  "EITSectionFromTS dec eit = do {
     events \<leftarrow> convert_events dec (eit_Events eit);
     Some \<lparr> es_OriginalNetworkID = eit_OriginalNetworkID eit, es_TransportStreamID = eit_TransportStreamID eit,
            es_ServiceID = eit_ServiceID eit, es_TableID = eit_TableID eit, es_LastTableID = eit_LastTableID eit,
            es_SectionNumber = eit_SectionNumber eit, es_LastSectionNumber = eit_LastSectionNumber eit,
            es_SegmentLastSectionNumber = eit_SegmentLastSectionNumber eit, es_VersionNumber = eit_VersionNumber eit,
            es_Events = events \<rparr> }"

section \<open>The programs of a section\<close>

definition descriptorLangs :: "EITDescriptor \<Rightarrow> gostring list" where
  "descriptorLangs d = (if ed_Lang d \<noteq> [] then [ed_Lang d] else []) @ (if ed_Lang2 d \<noteq> [] then [ed_Lang2 d] else [])"

definition samplingRate :: "int \<Rightarrow> int" where
  "samplingRate code =
     (if code = 1 then 16000 else if code = 2 then 22050 else if code = 3 then 24000 else if code = 5 then 32000
      else if code = 6 then 44100 else if code = 7 then 48000 else code)"

definition int_or_0 :: "int option \<Rightarrow> int" where
  "int_or_0 v = (case v of None \<Rightarrow> 0 | Some x \<Rightarrow> x)"

definition group_type :: "int option \<Rightarrow> RelatedItemType" where
  "group_type t =
     (if t = Some 0x01 then RelatedItemTypeShared else if t = Some 0x02 then RelatedItemTypeRelay
      else if t = Some 0x03 then RelatedItemTypeMovement else RelatedItemTypeNone)"

definition applyDescriptor :: "EITDescriptor \<Rightarrow> Program \<Rightarrow> Program" where
  "applyDescriptor d item =
     (if ed_Type d = ''ShortEvent'' then item\<lparr> pg_Name := ed_EventName d, pg_Description := ed_Text d \<rparr>
      else if ed_Type d = ''Content''
      then item\<lparr> pg_Genres := pg_Genres item @ map (\<lambda>n. \<lparr> gn_Lv1 = n ! 0, gn_Lv2 = n ! 1, gn_Un1 = n ! 2, gn_Un2 = n ! 3 \<rparr>)
             (filter (\<lambda>n. \<not> length n < 4) (ed_Nibbles d)) \<rparr>
      else if ed_Type d = ''Component''
      then item\<lparr> pg_Video := Some \<lparr> vd_StreamContent = int_or_0 (ed_StreamContent d), vd_ComponentType = int_or_0 (ed_ComponentType d) \<rparr> \<rparr>
      else if ed_Type d = ''AudioComponent''
      then item\<lparr> pg_Audios := pg_Audios item @ [\<lparr> au_ComponentType = int_or_0 (ed_ComponentType d), au_ComponentTag = ed_ComponentTag d,
             au_IsMain = ed_MainComponent d, au_SamplingRate = map_option samplingRate (ed_SamplingRate d), au_Langs = descriptorLangs d \<rparr>] \<rparr>
      else if ed_Type d = ''ExtendedEvent''
      then item\<lparr> pg_Extended := fold (\<lambda>field m. AList.update (field ! 0) (field ! 1) m)
             (filter (\<lambda>field. length field \<ge> 2) (ed_Items d)) (pg_Extended item) \<rparr>
      else if ed_Type d = ''EventGroup''
      then item\<lparr> pg_RelatedItems := pg_RelatedItems item @ map (\<lambda>e. \<lparr> ri_Type = group_type (ed_GroupType d), ri_NetworkID = rv_OriginalNetworkID e,
             ri_TransportStreamID = rv_TransportStreamID e, ri_ServiceID = rv_ServiceID e, ri_EventID = rv_EventID e \<rparr>) (ed_Events d) \<rparr>
      else if ed_Type d = ''Series''
      then item\<lparr> pg_Series := Some \<lparr> sn_ID = int_or_0 (ed_SeriesID d), sn_Repeat = int_or_0 (ed_RepeatLabel d),
             sn_Pattern = int_or_0 (ed_ProgramPattern d), sn_ExpiresAt = ed_ExpireDate d, sn_Episode = int_or_0 (ed_EpisodeNumber d),
             sn_LastEpisode = int_or_0 (ed_LastEpisodeNumber d), sn_Name = ed_SeriesName d \<rparr> \<rparr>
      else item)"

definition event_program :: "EITSection \<Rightarrow> epg_EITEvent \<Rightarrow> Program" where
  "event_program s event =
     fold applyDescriptor (ee_Descriptors event)
       \<lparr> pg_ID = ProgramID (es_OriginalNetworkID s) (es_ServiceID s) (ee_EventID event), pg_EventID = ee_EventID event,
         pg_ServiceID = es_ServiceID s, pg_NetworkID = es_OriginalNetworkID s, pg_StartAt = ee_StartTime event,
         pg_Duration = ee_Duration event, pg_IsFree = (\<not> ee_Scrambled event), pg_Name = [], pg_Description = [], pg_Genres = [],
         pg_Video = None, pg_Audios = [], pg_Extended = [], pg_RelatedItems = [], pg_Series = None \<rparr>"

definition Programs :: "EITSection \<Rightarrow> Program list" where
  "Programs s = map (event_program s) (es_Events s)"

end
