(* ===== verification/EPG_Extended.thy ===== *)
theory EPG_Extended
  imports EPG_Sections "HOL-Library.Multiset"
begin

text \<open>
  Properties of the conversion of event information: it never panics on what the EIT parser gives, and it
  puts extended events together that a broadcaster has spread over descriptors.
\<close>

section \<open>Totality\<close>

lemma Descriptor_Data_ok: "descr_ok d \<Longrightarrow> go_ok (Descriptor_Data d) (\<lambda>_. True)"
  by (auto simp: Descriptor_Data_def Descriptor_Length_def descr_ok_def go_wp)

lemma Descriptor_Tag_ok: "descr_ok d \<Longrightarrow> go_ok (Descriptor_Tag d) (\<lambda>_. True)"
  by (auto simp: Descriptor_Tag_def descr_ok_def go_wp)

lemma go_ok_decoded [go_wp]: "go_ok (decoded dec raw f) P \<longleftrightarrow> (case dec raw of Inl e \<Rightarrow> P None | Inr s \<Rightarrow> go_ok (f s) P)"
  by (simp add: decoded_def split: sum.splits)

lemma parser_on_data:
  assumes "descr_ok d" "\<And>data. go_ok (f data) (\<lambda>_. True)"
  shows "go_ok (do { data \<leftarrow> Descriptor_Data d; f data }) (\<lambda>_. True)"
  using Descriptor_Data_ok [OF assms(1)] assms(2) by (auto simp: go_ok_bind go_ok_def)

lemma event_group_events_ok:
  "0 \<le> off \<Longrightarrow> go_ok (event_group_events n data off acc) (\<lambda>r. \<forall>events off'. r = Some (events, off') \<longrightarrow> 0 \<le> off')"
  by (induction n arbitrary: off acc) (auto simp: go_wp)

lemma event_group_others_ok: "0 \<le> off \<Longrightarrow> go_ok (event_group_others data off acc) (\<lambda>_. True)"
proof (induction data off acc rule: event_group_others.induct)
  case (1 data off acc)
  then show ?case by (subst event_group_others.simps) (auto simp: go_wp)
qed

lemma extended_items_ok:
  "0 \<le> off \<Longrightarrow> e \<le> blen data \<Longrightarrow> go_ok (extended_items data off e items) (\<lambda>r. \<forall>its off'. r = Some (its, off') \<longrightarrow> 0 \<le> off')"
proof (induction data off e items rule: extended_items.induct)
  case (1 data off e items)
  then show ?case by (subst extended_items.simps) (auto simp: go_wp Let_def)
qed

lemma extended_part_ok: "descr_ok d \<Longrightarrow> go_ok (parseExtendedEventDescriptorPart d) (\<lambda>_. True)"
  unfolding parseExtendedEventDescriptorPart_def
  by (erule parser_on_data)
    (auto simp: go_wp Let_def intro!: go_ok_mono [OF extended_items_ok] split: option.splits)

lemma short_event_ok: "descr_ok d \<Longrightarrow> go_ok (parseShortEventDescriptor dec d) (\<lambda>_. True)"
  unfolding parseShortEventDescriptor_def
  by (erule parser_on_data) (simp add: go_wp Let_def split: sum.split)

lemma content_ok: "descr_ok d \<Longrightarrow> go_ok (parseContentDescriptor d) (\<lambda>_. True)"
  unfolding parseContentDescriptor_def by (erule parser_on_data) (simp add: go_wp)

lemma component_ok: "descr_ok d \<Longrightarrow> go_ok (parseComponentDescriptor dec d) (\<lambda>_. True)"
  unfolding parseComponentDescriptor_def
  by (erule parser_on_data) (simp add: go_wp split: sum.split, auto)

lemma audio_component_ok: "descr_ok d \<Longrightarrow> go_ok (parseAudioComponentDescriptor dec d) (\<lambda>_. True)"
  unfolding parseAudioComponentDescriptor_def
  by (erule parser_on_data) (simp add: go_wp Let_def split: sum.split, auto)

lemma series_ok: "descr_ok d \<Longrightarrow> go_ok (parseSeriesDescriptor dec d) (\<lambda>_. True)"
  unfolding parseSeriesDescriptor_def
  by (erule parser_on_data) (simp add: go_wp Let_def parseMJDDate_def split: sum.split, auto)

lemma event_group_ok: "descr_ok d \<Longrightarrow> go_ok (parseEventGroupDescriptor d) (\<lambda>_. True)"
  unfolding parseEventGroupDescriptor_def
proof (erule parser_on_data)
  fix data :: bytes
  show "go_ok (if blen data < 1 then no_value
     else do {
       d0 \<leftarrow> idx data 0;
       let groupType = hi4 d0;
       let done = (\<lambda>events. a_value (no_descriptor\<lparr> ed_Type := ''EventGroup'', ed_GroupType := Some groupType, ed_Events := events \<rparr>));
       res \<leftarrow> event_group_events (nat (lo4 d0)) data 1 [];
       (case res of
          None \<Rightarrow> no_value
        | Some (events, off) \<Rightarrow>
            if groupType = 4 \<or> groupType = 5
            then do {
              (events, off) \<leftarrow> event_group_others data off events;
              if off \<noteq> blen data then no_value else done events }
            else done events) }) (\<lambda>_. True)"
    by (auto simp: go_wp Let_def intro!: go_ok_mono [OF event_group_events_ok] go_ok_mono [OF event_group_others_ok] split: option.split)
qed

lemma descriptorFromTS_ok: "descr_ok d \<Longrightarrow> go_ok (descriptorFromTS dec d) (\<lambda>_. True)"
  unfolding descriptorFromTS_def parseExtendedEventDescriptor_def
  using Descriptor_Tag_ok [of d] extended_part_ok [of d] short_event_ok [of d dec] content_ok [of d] component_ok [of d dec]
    audio_component_ok [of d dec] series_ok [of d dec] event_group_ok [of d]
  by (auto simp: go_ok_bind go_ok_def split: option.splits)

lemma convert_descriptors_ok: "\<forall>d \<in> set ds. descr_ok d \<Longrightarrow> go_ok (convert_descriptors dec ds st) (\<lambda>_. True)"
proof (induction ds arbitrary: st)
  case (Cons d ds)
  then have d: "descr_ok d" and rest: "\<And>st. go_ok (convert_descriptors dec ds st) (\<lambda>_. True)" by simp_all
  show ?case
    using Descriptor_Tag_ok [OF d] extended_part_ok [OF d] descriptorFromTS_ok [OF d, of dec] rest
    by (auto simp: go_ok_bind simp del: go_ok_Some elim!: go_ok_mono)
qed simp

lemma convert_events_ok: "\<forall>e \<in> set es. \<forall>d \<in> set (ev_Descriptors e). descr_ok d \<Longrightarrow> go_ok (convert_events dec es) (\<lambda>_. True)"
proof (induction es)
  case (Cons e es)
  then have "go_ok (convert_descriptors dec (ev_Descriptors e) ([], [])) (\<lambda>_. True)" by (intro convert_descriptors_ok) simp
  then show ?case using Cons by (auto simp: go_ok_bind go_ok_def descriptorsFromTS_def)
qed simp

lemma eit_loop_descriptors:
  "eit_loop s off e acc = Some (Inr events) \<Longrightarrow> \<forall>ev \<in> set acc. \<forall>d \<in> set (ev_Descriptors ev). descr_ok d
   \<Longrightarrow> \<forall>ev \<in> set events. \<forall>d \<in> set (ev_Descriptors ev). descr_ok d"
proof (induction s off e acc rule: eit_loop.induct)
  case (1 s off e acc)
  show ?case
  proof (cases "off + 12 \<le> e")
    case False
    then show ?thesis using 1(2-) by (subst (asm) eit_loop.simps) (auto split: if_splits)
  next
    case True
    note step = 1(2) [unfolded eit_loop.simps [of s off e acc] if_P [OF True]]
    from step obtain rs rd where rs: "slice s (off + 2) (off + 7) = Some rs" "slice s (off + 7) (off + 10) = Some rd"
      by (auto simp: bind_eq_Some_conv)
    from step rs obtain t where t: "parseMJDTime rs = Some (Inr t)" by (auto simp: res_bind_ok_iff)
    from step rs t obtain du where du: "parseBCDDuration rd = Some (Inr du)" by (auto simp: res_bind_ok_iff)
    from step rs t du obtain n where n: "read_len12 s (off + 10) = Some n" by (auto simp: bind_eq_Some_conv)
    from step rs t du n have le: "\<not> off + 12 + n > e" by (auto simp: Let_def)
    from step rs t du n le obtain ds i b where d: "slice s (off + 12) (off + 12 + n) = Some ds" "read_u16 s off = Some i" "idx s (off + 10) = Some b"
      by (auto simp: Let_def bind_eq_Some_conv)
    show ?thesis
      by (rule 1(1) [OF True rs t du n refl refl le d(1) d(2) d(3)])
        (use step rs t du n le d 1(3) in \<open>auto simp: Let_def dest: ParseDescriptors_ok\<close>)
  qed
qed

text \<open>When the EIT parser accepts a section, its conversion does not panic, whatever descriptors are in it.\<close>

theorem EITSectionFromTS_never_panics:
  assumes "ParseEIT s = Some (Inr eit)"
  shows "EITSectionFromTS dec eit \<noteq> None"
proof -
  obtain e where "eit_loop s 14 e [] = Some (Inr (eit_Events eit))"
    using assms by (auto simp: ParseEIT_def bind_eq_Some_conv res_bind_ok_iff split: if_splits)
  then have "\<forall>ev \<in> set (eit_Events eit). \<forall>d \<in> set (ev_Descriptors ev). descr_ok d" by (rule eit_loop_descriptors) simp
  then show "EITSectionFromTS dec eit \<noteq> None"
    using convert_events_ok [of "eit_Events eit" dec] by (auto simp: EITSectionFromTS_def go_ok_def)
qed

section \<open>What a broadcaster sends\<close>

definition item_bytes :: "extendedEventItemPart \<Rightarrow> bytes" where
  "item_bytes item = word_of_nat (length (ip_descriptionRaw item)) # ip_descriptionRaw item
     @ word_of_nat (length (ip_textRaw item)) # ip_textRaw item"

definition part_data :: "bytes \<Rightarrow> u8 \<Rightarrow> u8 \<Rightarrow> extendedEventItemPart list \<Rightarrow> bytes \<Rightarrow> bytes" where
  "part_data lang number last_number items txt =
     (push_bit 4 number OR last_number) # lang @ word_of_nat (length (concat (map item_bytes items))) # concat (map item_bytes items)
     @ word_of_nat (length txt) # txt"

definition extended_event_descriptor :: "bytes \<Rightarrow> u8 \<Rightarrow> u8 \<Rightarrow> extendedEventItemPart list \<Rightarrow> bytes \<Rightarrow> Descriptor" where
  "extended_event_descriptor lang number last_number items txt =
     (let data = part_data lang number last_number items txt in 0x4E # word_of_nat (length data) # data)"

text \<open>An item and the pieces its text is cut into: the pieces after the first have no description.\<close>

definition item_fragments :: "bytes \<times> bytes list \<Rightarrow> extendedEventItemPart list" where
  "item_fragments item = (case item of (description, pieces) \<Rightarrow>
     \<lparr> ip_descriptionRaw = description, ip_textRaw = hd (pieces @ [[]]) \<rparr>
     # map (\<lambda>piece. \<lparr> ip_descriptionRaw = [], ip_textRaw = piece \<rparr>) (tl pieces))"

lemma append_continuations:
  "foldl append_item (acc @ [item]) (map (\<lambda>piece. \<lparr> ip_descriptionRaw = [], ip_textRaw = piece \<rparr>) pieces)
    = acc @ [item\<lparr> ip_textRaw := ip_textRaw item @ concat pieces \<rparr>]"
  by (induction pieces arbitrary: item) (simp_all add: append_item_def)

lemma append_fragments:
  assumes "fst item \<noteq> []"
  shows "foldl append_item acc (item_fragments item)
    = acc @ [\<lparr> ip_descriptionRaw = fst item, ip_textRaw = concat (snd item) \<rparr>]"
proof -
  obtain description pieces where item: "item = (description, pieces)" by force
  have "hd (pieces @ [[]]) @ concat (tl pieces) = concat pieces" by (cases pieces) simp_all
  then show ?thesis
    using assms append_continuations [of acc "\<lparr> ip_descriptionRaw = description, ip_textRaw = hd (pieces @ [[]]) \<rparr>" "tl pieces"]
    by (simp add: item item_fragments_def append_item_def)
qed

lemma append_all_fragments:
  "\<forall>item \<in> set items. fst item \<noteq> [] \<Longrightarrow> foldl append_item acc (concat (map item_fragments items))
    = acc @ map (\<lambda>item. \<lparr> ip_descriptionRaw = fst item, ip_textRaw = concat (snd item) \<rparr>) items"
  by (induction items arbitrary: acc) (simp_all add: append_fragments)

section \<open>Parsing a part\<close>

lemma len8_length [simp]: "length xs < 256 \<Longrightarrow> len8 (word_of_nat (length xs)) = blen xs"
  by (rule len8_of_nat)

lemma extended_items_bytes:
  assumes "length (concat (map item_bytes items)) < 256" "off = blen pre"
    "data = pre @ concat (map item_bytes items) @ post" "e = off + blen (concat (map item_bytes items))"
  shows "extended_items data off e acc = a_value (acc @ items, e)"
  using assms
proof (induction items arbitrary: pre off acc)
  case Nil
  then show ?case by (subst extended_items.simps) simp
next
  case (Cons item items)
  obtain d t where item: "item = \<lparr> ip_descriptionRaw = d, ip_textRaw = t \<rparr>" by (cases item)
  let ?tl = "concat (map item_bytes items)"
  have ib: "item_bytes item = word_of_nat (length d) # d @ word_of_nat (length t) # t" by (simp add: item item_bytes_def)
  have len: "length d < 256" "length t < 256" using Cons.prems(1) by (simp_all add: ib)
  have data: "data = pre @ word_of_nat (length d) # d @ word_of_nat (length t) # t @ ?tl @ post"
    using Cons.prems(3) by (simp add: ib)
  have e: "e = off + 2 + blen d + blen t + blen ?tl" using Cons.prems(4) by (simp add: ib)
  have d1: "idx data off = Some (word_of_nat (length d))" using Cons.prems(2) by (simp add: data idx_def nth_append)
  have d2: "slice data (off + 1) (off + 1 + blen d) = Some d"
    using Cons.prems(2) by (simp add: data slice_def nat_add_distrib)
  have d3: "idx data (off + 1 + blen d) = Some (word_of_nat (length t))"
    using Cons.prems(2) by (simp add: data idx_def nth_append nat_add_distrib)
  have d4: "slice data (off + 1 + blen d + 1) (off + 1 + blen d + 1 + blen t) = Some t"
    using Cons.prems(2) by (simp add: data slice_def nat_add_distrib)
  have "extended_items data off e acc = extended_items data (off + 1 + blen d + 1 + blen t) e (acc @ [item])"
    using d1 d2 d3 d4 e len by (subst extended_items.simps) (simp add: Let_def item)
  also have "\<dots> = a_value ((acc @ [item]) @ items, e)"
    by (rule Cons.IH [where pre = "pre @ item_bytes item"])
      (use Cons.prems e in \<open>simp_all add: data ib\<close>)
  finally show ?case by simp
qed

lemma bit_nibble: "x < 16 \<Longrightarrow> bit (x :: u8) n \<Longrightarrow> n < 4"
proof -
  assume x: "x < 16" "bit x n"
  then have "uint x < 2 ^ 4" by (simp add: word_less_def)
  then have "uint (take_bit 4 x) = uint x"
    by (simp only: unsigned_take_bit_eq) (rule take_bit_int_eq_self, simp_all)
  then have "take_bit 4 x = x" by (simp only: word_uint_eq_iff)
  then show "n < 4" using x(2) by (metis bit_take_bit_iff)
qed

lemma nibbles:
  assumes "number < 16" "last_number < 16"
  shows "drop_bit 4 (push_bit 4 number OR last_number :: u8) = number" "(push_bit 4 number OR last_number :: u8) AND 0x0f = last_number"
proof -
  have m: "(0x0f :: u8) = mask 4" by (simp add: mask_eq_decr_exp)
  show "drop_bit 4 (push_bit 4 number OR last_number :: u8) = number"
    by (rule bit_word_eqI) (use bit_nibble [OF assms(1)] bit_nibble [OF assms(2)] in \<open>auto simp: bit_simps\<close>)
  show "(push_bit 4 number OR last_number :: u8) AND 0x0f = last_number"
    unfolding m by (rule bit_word_eqI) (use bit_nibble [OF assms(2)] in \<open>auto simp: bit_simps\<close>)
qed

lemma idx_mid: "idx (pre @ x # post) (blen pre) = Some x"
  by (simp add: idx_def nth_append)

lemma slice_mid: "slice (pre @ x # ys) (blen pre + 1) (blen pre + 1 + blen ys) = Some ys"
  by (simp add: slice_def nat_add_distrib)

lemma parse_part:
  assumes "length (part_data lang number last_number items txt) < 256" "length lang = 3" "number < 16" "last_number < 16"
  shows "parseExtendedEventDescriptorPart (extended_event_descriptor lang number last_number items txt)
    = a_value \<lparr> xp_descriptorNumber = uint number, xp_lastDescriptorNumber = uint last_number, xp_lang = byte_string lang,
           xp_textRaw = txt, xp_items = items, xp_order = 0 \<rparr>"
proof -
  let ?data = "part_data lang number last_number items txt" and ?items = "concat (map item_bytes items)"
  obtain l0 l1 l2 where lang: "lang = [l0, l1, l2]"
    using assms(2) by (auto simp: numeral_3_eq_3 length_Suc_conv)
  have len: "length ?items < 256" "length txt < 256" "length ?data = 6 + length ?items + length txt"
    using assms(1) by (simp_all add: part_data_def lang)
  have data: "Descriptor_Data (extended_event_descriptor lang number last_number items txt) = Some ?data"
    using assms(1) by (simp add: extended_event_descriptor_def Descriptor_Data_def Descriptor_Length_def Let_def slice_def)
  have i: "idx ?data 0 = Some (push_bit 4 number OR last_number)" "idx ?data 4 = Some (word_of_nat (length ?items))"
    "slice ?data 1 4 = Some lang"
    by (simp_all add: part_data_def lang idx_def slice_def)
  have items: "extended_items ?data 5 (5 + blen ?items) [] = a_value ([] @ items, 5 + blen ?items)"
    by (rule extended_items_bytes [where pre = "(push_bit 4 number OR last_number) # lang @ [word_of_nat (length ?items)]" and post = "word_of_nat (length txt) # txt"])
      (use len in \<open>simp_all add: part_data_def lang\<close>)
  let ?pre = "(push_bit 4 number OR last_number) # lang @ [word_of_nat (length ?items)] @ ?items"
  have pre: "?data = ?pre @ word_of_nat (length txt) # txt" "blen ?pre = 5 + blen ?items" by (simp_all add: part_data_def lang)
  have t: "idx ?data (5 + blen ?items) = Some (word_of_nat (length txt))"
    "slice ?data (5 + blen ?items + 1) (5 + blen ?items + 1 + blen txt) = Some txt"
    unfolding pre(1) pre(2) [symmetric] by (rule idx_mid, rule slice_mid)
  show ?thesis
    unfolding parseExtendedEventDescriptorPart_def
    using data i items t len nibbles [OF assms(3,4)]
    by (simp add: Let_def hi4_def lo4_def)
qed

section \<open>Putting the parts together\<close>

definition numbered_part :: "bytes \<Rightarrow> nat \<Rightarrow> nat \<times> extendedEventItemPart list \<times> bytes \<Rightarrow> extendedEventDescriptorPart" where
  "numbered_part lang n part = (case part of (number, items, txt) \<Rightarrow>
     \<lparr> xp_descriptorNumber = int number, xp_lastDescriptorNumber = int n - 1, xp_lang = byte_string lang,
       xp_textRaw = txt, xp_items = items, xp_order = 0 \<rparr>)"

definition part_descriptor :: "bytes \<Rightarrow> nat \<Rightarrow> nat \<times> extendedEventItemPart list \<times> bytes \<Rightarrow> Descriptor" where
  "part_descriptor lang n part = (case part of (number, items, txt) \<Rightarrow>
     extended_event_descriptor lang (word_of_nat number) (word_of_nat (n - 1)) items txt)"

text \<open>The merge does not look at the order fields of its parts but to sort parts of equal numbers.\<close>

lemma merge_sorted:
  assumes "mset (map (\<lambda>p. p\<lparr> xp_order := 0 \<rparr>) ps) = mset qs" "sorted (map xp_descriptorNumber qs)" "distinct (map xp_descriptorNumber qs)"
  shows "map (\<lambda>p. p\<lparr> xp_order := 0 \<rparr>) (sort_key (\<lambda>p. (xp_descriptorNumber p, xp_order p)) ps) = qs"
proof -
  let ?g = "\<lambda>p. p\<lparr> xp_order := 0 \<rparr>" and ?sorted = "sort_key (\<lambda>p. (xp_descriptorNumber p, xp_order p)) ps"
  have "sorted (map (\<lambda>p. (xp_descriptorNumber p, xp_order p)) ?sorted)" by simp
  then have "sorted_wrt (\<lambda>p q. xp_descriptorNumber p \<le> xp_descriptorNumber q) ?sorted"
    unfolding sorted_map by (rule sorted_wrt_mono_rel [rotated]) (auto simp: less_eq_prod_def)
  then have "sorted (map xp_descriptorNumber (map ?g ?sorted))" by (simp add: sorted_map sorted_wrt_map)
  then have "sort_key xp_descriptorNumber (map ?g ?sorted) = map ?g ?sorted" by (rule sort_key_id_if_sorted)
  moreover have m: "mset (map ?g ?sorted) = mset qs" using assms(1) by simp
  moreover have "inj_on xp_descriptorNumber (set (map ?g ?sorted))"
    using mset_eq_setD [OF m] assms(3) by (simp add: distinct_map)
  then have "sort_key xp_descriptorNumber (map ?g ?sorted) = qs" by (rule sort_key_inj_key_eq [OF m _ assms(2)])
  ultimately show ?thesis by simp
qed

lemma merge_numbered:
  assumes "mset (map (\<lambda>p. p\<lparr> xp_order := 0 \<rparr>) ps) = mset (map (numbered_part lang n) (enumerate 0 parts))" "parts \<noteq> []"
  shows "mergeExtendedEventParts dec ps =
    (let rawItems = foldl append_item [] (concat (map fst parts));
         txt = decode_or_empty dec (concat (map snd parts));
         items = map (\<lambda>item. [decode_or_empty dec (ip_descriptionRaw item), decode_or_empty dec (ip_textRaw item)]) rawItems
     in no_descriptor\<lparr> ed_Type := ''ExtendedEvent'', ed_Lang := byte_string lang, ed_Text := txt,
          ed_Items := if txt \<noteq> [] \<and> items = [] then [[[], txt]] else items \<rparr>)"
proof -
  let ?qs = "map (numbered_part lang n) (enumerate 0 parts)"
  let ?sorted = "sort_key (\<lambda>p. (xp_descriptorNumber p, xp_order p)) ps"
  have num: "map xp_descriptorNumber ?qs = map int [0..<length parts]"
    by (rule nth_equalityI) (simp_all add: numbered_part_def nth_enumerate_eq split: prod.splits)
  have s: "map (\<lambda>p. p\<lparr> xp_order := 0 \<rparr>) ?sorted = ?qs"
    by (rule merge_sorted [OF assms(1)], unfold num) (simp_all add: sorted_map sorted_wrt_upt distinct_map inj_on_def sorted_wrt_iff_nth_less)
  have "map xp_textRaw (map (\<lambda>p. p\<lparr> xp_order := 0 \<rparr>) ?sorted) = map snd parts"
    unfolding s by (rule nth_equalityI) (simp_all add: numbered_part_def nth_enumerate_eq split: prod.splits)
  then have texts: "map xp_textRaw ?sorted = map snd parts" by (simp add: comp_def)
  have "map xp_items (map (\<lambda>p. p\<lparr> xp_order := 0 \<rparr>) ?sorted) = map fst parts"
    unfolding s by (rule nth_equalityI) (simp_all add: numbered_part_def nth_enumerate_eq split: prod.splits)
  then have items: "map xp_items ?sorted = map fst parts" by (simp add: comp_def)
  have "length ?sorted = length parts" using arg_cong [OF s, of length] by simp
  then obtain p rest where p: "?sorted = p # rest" using assms(2) by (cases ?sorted) auto
  have "map xp_lang (map (\<lambda>p. p\<lparr> xp_order := 0 \<rparr>) ?sorted) = map (\<lambda>_. byte_string lang) parts"
    unfolding s by (rule nth_equalityI) (simp_all add: numbered_part_def nth_enumerate_eq split: prod.splits)
  then have "xp_lang p = byte_string lang" using p by (cases parts) (simp_all add: comp_def)
  then have lang: "(case ?sorted of [] \<Rightarrow> [] | p # _ \<Rightarrow> xp_lang p) = byte_string lang" using p by simp
  show ?thesis unfolding mergeExtendedEventParts_def Let_def lang texts items by simp
qed

lemma convert_parts:
  assumes "\<forall>d \<in> set ds. Descriptor_Tag d = Some 0x4E \<and> (\<exists>p. parseExtendedEventDescriptorPart d = a_value p \<and> f d = p \<and> xp_lang p = lang)"
  shows "\<exists>qs. convert_descriptors dec ds ([no_descriptor], [(lang, \<lparr> xg_index = 0, xg_parts = ps \<rparr>)])
      = Some ([no_descriptor], [(lang, \<lparr> xg_index = 0, xg_parts = ps @ qs \<rparr>)])
    \<and> map (\<lambda>p. p\<lparr> xp_order := 0 \<rparr>) qs = map (\<lambda>d. (f d)\<lparr> xp_order := 0 \<rparr>) ds"
  using assms
proof (induction ds arbitrary: ps)
  case (Cons d ds)
  then obtain p where d: "Descriptor_Tag d = Some 0x4E" "parseExtendedEventDescriptorPart d = a_value p" "f d = p" "xp_lang p = lang" by auto
  obtain qs where qs: "convert_descriptors dec ds ([no_descriptor], [(lang, \<lparr> xg_index = 0, xg_parts = (ps @ [p\<lparr> xp_order := blen ps \<rparr>]) \<rparr>)])
      = Some ([no_descriptor], [(lang, \<lparr> xg_index = 0, xg_parts = (ps @ [p\<lparr> xp_order := blen ps \<rparr>]) @ qs \<rparr>)])"
    "map (\<lambda>p. p\<lparr> xp_order := 0 \<rparr>) qs = map (\<lambda>d. (f d)\<lparr> xp_order := 0 \<rparr>) ds"
    using Cons.IH [of "ps @ [p\<lparr> xp_order := blen ps \<rparr>]"] Cons.prems by auto
  then show ?case using d by (intro exI [of _ "p\<lparr> xp_order := blen ps \<rparr> # qs"]) (simp add: add_extended_def)
qed simp

text \<open>
  C10. A broadcaster spreads an extended event over up to sixteen descriptors, cutting the texts of its
  items at any byte, in the middle of a character too. In whatever order these descriptors stand in the section, the
  conversion gives one descriptor with all items of the event, in order, each with its whole text, and it
  decodes a text only after putting it together.
\<close>

theorem extended_event_reassembled:
  assumes size: "0 < length parts" "length parts \<le> 16" "length lang = 3"
    and fits: "\<forall>(items, txt) \<in> set parts. 6 + length (concat (map item_bytes items)) + length txt < 256"
    and cut: "concat (map fst parts) = concat (map item_fragments event)" "\<forall>item \<in> set event. fst item \<noteq> []" "event \<noteq> []"
    and sent: "mset ds = mset (map (part_descriptor lang (length parts)) (enumerate 0 parts))"
  shows "descriptorsFromTS dec ds = Some [no_descriptor\<lparr> ed_Type := ''ExtendedEvent'', ed_Lang := byte_string lang,
    ed_Text := decode_or_empty dec (concat (map snd parts)),
    ed_Items := map (\<lambda>(description, pieces). [decode_or_empty dec description, decode_or_empty dec (concat pieces)]) event \<rparr>]"
proof -
  let ?n = "length parts"
  have part: "parseExtendedEventDescriptorPart (part_descriptor lang ?n ip) = a_value (numbered_part lang ?n ip)"
    if ip: "ip \<in> set (enumerate 0 parts)" for ip
  proof -
    obtain i items body where ip_eq: "ip = (i, items, body)" by (cases ip) auto
    have i: "i < ?n" "(items, body) \<in> set parts" using ip by (auto simp: ip_eq in_set_enumerate_eq dest: nth_mem)
    have len: "length (part_data lang a b items body) < 256" for a b
      using fits i(2) size(3) by (fastforce simp: part_data_def)
    have w: "word_of_nat k < (16 :: u8)" "uint (word_of_nat k :: u8) = int k" if "k < 16" for k
      using that by (simp_all add: word_less_nat_alt unat_of_nat uint_nat)
    show ?thesis
      using parse_part [OF len size(3) w(1) w(1), of i "?n - 1"] w(2) [of i] w(2) [of "?n - 1"] i(1) size(1,2)
      by (simp add: part_descriptor_def numbered_part_def ip_eq of_nat_diff)
  qed
  define f where "f d = (case parseExtendedEventDescriptorPart d of Some (Some p) \<Rightarrow> p)" for d
  have f: "Descriptor_Tag d = Some 0x4E \<and> (\<exists>p. parseExtendedEventDescriptorPart d = a_value p \<and> f d = p \<and> xp_lang p = byte_string lang)"
    if "d \<in> set ds" for d
  proof -
    have "d \<in> set (map (part_descriptor lang ?n) (enumerate 0 parts))" using that mset_eq_setD [OF sent] by blast
    then obtain ip where "ip \<in> set (enumerate 0 parts)" "d = part_descriptor lang ?n ip" by auto
    then show ?thesis using part [of ip]
      by (auto simp: f_def Descriptor_Tag_def part_descriptor_def extended_event_descriptor_def numbered_part_def Let_def idx_def split: prod.splits)
  qed
  let ?clear = "\<lambda>p. p\<lparr> xp_order := 0 \<rparr>"
  have "mset (map (\<lambda>d. ?clear (f d)) ds) = image_mset (\<lambda>d. ?clear (f d)) (mset (map (part_descriptor lang ?n) (enumerate 0 parts)))"
    using sent by simp
  also have "\<dots> = mset (map (\<lambda>ip. ?clear (f (part_descriptor lang ?n ip))) (enumerate 0 parts))"
    by (simp add: multiset.map_comp comp_def)
  also have "map (\<lambda>ip. ?clear (f (part_descriptor lang ?n ip))) (enumerate 0 parts) = map (numbered_part lang ?n) (enumerate 0 parts)"
    using part by (intro map_cong refl) (simp add: f_def numbered_part_def split: prod.splits)
  finally have same: "mset (map (\<lambda>d. ?clear (f d)) ds) = mset (map (numbered_part lang ?n) (enumerate 0 parts))" .
  have "length ds = ?n" using mset_eq_length [OF sent] by simp
  then obtain d ds' where ds: "ds = d # ds'" using size(1) by (cases ds) auto
  obtain p where d: "Descriptor_Tag d = Some 0x4E" "parseExtendedEventDescriptorPart d = a_value p" "f d = p" "xp_lang p = byte_string lang"
    using f [of d] ds by auto
  obtain qs where qs: "convert_descriptors dec ds' ([no_descriptor], [(byte_string lang, \<lparr> xg_index = 0, xg_parts = [?clear p] \<rparr>)])
      = Some ([no_descriptor], [(byte_string lang, \<lparr> xg_index = 0, xg_parts = [?clear p] @ qs \<rparr>)])"
    "map ?clear qs = map (\<lambda>d. ?clear (f d)) ds'"
    using convert_parts [of ds' f "byte_string lang" dec "[?clear p]"] f ds by auto
  have "descriptorsFromTS dec ds = Some [mergeExtendedEventParts dec (?clear p # qs)]"
    using d qs(1) by (simp add: descriptorsFromTS_def ds add_extended_def)
  moreover have "mset (map ?clear (?clear p # qs)) = mset (map (numbered_part lang ?n) (enumerate 0 parts))"
    using same qs(2) d(3) by (simp add: ds)
  note merge_numbered [OF this]
  ultimately show ?thesis
    using size(1) cut(3) by (simp add: Let_def cut(1) append_all_fragments [OF cut(2)] comp_def case_prod_unfold)
qed

text \<open>
  One item whose text is cut after its first byte, in two descriptors that arrive in the wrong order.
\<close>

definition demo_parts :: "(extendedEventItemPart list \<times> bytes) list" where
  "demo_parts = [([\<lparr> ip_descriptionRaw = [68], ip_textRaw = [65] \<rparr>], []), ([\<lparr> ip_descriptionRaw = [], ip_textRaw = [66, 67] \<rparr>], [84])]"

definition byte_decoder :: decoder where
  "byte_decoder raw = Inr (map uint raw)"

theorem extended_event_reassembled_witness:
  "descriptorsFromTS byte_decoder (rev (map (part_descriptor [106, 112, 110] 2) (enumerate 0 demo_parts)))
    = Some [no_descriptor\<lparr> ed_Type := ''ExtendedEvent'', ed_Lang := [106, 112, 110], ed_Text := [84], ed_Items := [[[68], [65, 66, 67]]] \<rparr>]"
proof -
  have "descriptorsFromTS byte_decoder (rev (map (part_descriptor [106, 112, 110] (length demo_parts)) (enumerate 0 demo_parts)))
    = Some [no_descriptor\<lparr> ed_Type := ''ExtendedEvent'', ed_Lang := byte_string [106, 112, 110],
      ed_Text := decode_or_empty byte_decoder (concat (map snd demo_parts)),
      ed_Items := map (\<lambda>(description, pieces). [decode_or_empty byte_decoder description, decode_or_empty byte_decoder (concat pieces)])
        [([68], [[65], [66, 67]])] \<rparr>]"
    by (rule extended_event_reassembled) (simp_all add: demo_parts_def item_bytes_def item_fragments_def)
  moreover have "length demo_parts = 2" by (simp add: demo_parts_def)
  ultimately show ?thesis by (simp only:) (simp add: demo_parts_def byte_decoder_def decode_or_empty_def byte_string_def)
qed

end
