(* ===== verification/EPG_Snapshot.thy ===== *)
theory EPG_Snapshot
  imports EPG_Sections
begin

text \<open>
  The snapshot of a collection: \<open>internal/epg/snapshot.go\<close> (which sections of the schedule have been
  seen) and \<open>internal/epg/snapshot_program_build.go\<close> (the programs they describe). A time is its number of
  nanoseconds since the Unix epoch. A fixed array of bytes is a list of its length; all indexes are within the
  arrays. Sections are not nil.
\<close>

section \<open>State\<close>

type_synonym instant = int

definition zeroInstant :: instant where
  "zeroInstant = zeroTime * 1000000000"

record ServiceKey =
  sk_NetworkID :: u16
  sk_ServiceID :: u16
  sk_TransportStreamID :: u16

record snapshotTable =
  sb_version :: u8
  sb_hasVersion :: bool
  sb_lastSection :: u8
  sb_segmentLast :: "(u8, u8) gomap"
  sb_sections :: "(u8, unit) gomap"
  sb_sectionPrograms :: "(u8, Program list) gomap"
  sb_sectionVersions :: "(u8, u8) gomap"

record snapshotReadyFlag =
  rf_observed :: bool
  rf_version :: u8
  rf_flag :: bytes
  rf_ignore :: bytes

record snapshotReadyGroup =
  rg_base :: u8
  rg_lastFlagsID :: int
  rg_flags :: "snapshotReadyFlag list"

record snapshotService =
  sp_tables :: "(u8, snapshotTable) gomap"
  sp_programs :: "(int, Program) gomap"
  sp_lastTableID :: "(u8, u8) gomap"
  sp_readyGroups :: "(u8, snapshotReadyGroup) gomap"

record Snapshot =
  sn_services :: "(ServiceKey, snapshotService) gomap"
  sn_lastProgress :: instant

record SnapshotTableReport =
  tr_TableID :: int
  tr_Version :: int
  tr_LastSection :: int
  tr_ObservedSections :: int
  tr_MissingSections :: "int list"
  tr_Complete :: bool

record SnapshotReport =
  sr_ObservedTables :: int
  sr_MissingTableIDs :: "int list"
  sr_Tables :: "SnapshotTableReport list"

definition NewSnapshot :: Snapshot where
  "NewSnapshot = \<lparr> sn_services = [], sn_lastProgress = zeroInstant \<rparr>"

definition isCurrentScheduleBase :: "u8 \<Rightarrow> bool" where
  "isCurrentScheduleBase base \<longleftrightarrow> base = 0x50 \<or> base = 0x58 \<or> base = 0x60 \<or> base = 0x68"

definition isScheduleBasic :: "u8 \<Rightarrow> bool" where
  "isScheduleBasic tableID \<longleftrightarrow> (tableID \<ge> 0x50 \<and> tableID \<le> 0x57) \<or> (tableID \<ge> 0x60 \<and> tableID \<le> 0x67)"

definition isScheduleExtended :: "u8 \<Rightarrow> bool" where
  "isScheduleExtended tableID \<longleftrightarrow> (tableID \<ge> 0x58 \<and> tableID \<le> 0x5f) \<or> (tableID \<ge> 0x68 \<and> tableID \<le> 0x6f)"

text \<open>The three-hour segment of the day in Japan.\<close>

definition currentJSTSegment :: "instant \<Rightarrow> nat" where
  "currentJSTSegment now = nat (trunc_div (now div 1000000 + 32400000) 10800000 mod 8)"

section \<open>Programs\<close>

definition mergeProgram :: "Program \<Rightarrow> bool \<Rightarrow> Program \<Rightarrow> Program" where
  "mergeProgram src updateTiming dst = dst\<lparr>
     pg_StartAt := (if updateTiming \<and> pg_StartAt src \<noteq> 0 then pg_StartAt src else pg_StartAt dst),
     pg_Duration := (if updateTiming \<and> pg_Duration src \<noteq> 0 then pg_Duration src else pg_Duration dst),
     pg_IsFree := pg_IsFree src,
     pg_Name := or_existing (pg_Name dst) (pg_Name src), pg_Description := or_existing (pg_Description dst) (pg_Description src),
     pg_Genres := or_existing (pg_Genres dst) (pg_Genres src), pg_Video := coalesce (pg_Video dst) (pg_Video src),
     pg_Audios := or_existing (pg_Audios dst) (pg_Audios src),
     pg_Extended := fold (\<lambda>(k, v) m. if (case map_of m k of None \<Rightarrow> [] | Some old \<Rightarrow> old) = [] \<and> v \<noteq> [] then AList.update k v m else m)
       (pg_Extended src) (pg_Extended dst),
     pg_RelatedItems := or_existing (pg_RelatedItems dst) (pg_RelatedItems src), pg_Series := coalesce (pg_Series dst) (pg_Series src) \<rparr>"

text \<open>The programs of a table, section by section.\<close>

definition table_items :: "snapshotTable \<Rightarrow> Program list" where
  "table_items table = concat (map (\<lambda>n. case map_of (sb_sectionPrograms table) n of None \<Rightarrow> [] | Some items \<Rightarrow> items)
     (sort (map fst (sb_sectionPrograms table))))"

definition rebuild_item :: "u8 \<Rightarrow> Program \<Rightarrow> (int, Program) gomap \<times> (int, Program list) gomap \<Rightarrow> (int, Program) gomap \<times> (int, Program list) gomap" where
  "rebuild_item tableID item st =
     (let (programs, extended) = st
      in if isScheduleBasic tableID
         then (AList.update (pg_ID item) (case map_of programs (pg_ID item) of None \<Rightarrow> item | Some p \<Rightarrow> mergeProgram item True p) programs, extended)
         else if isScheduleExtended tableID
         then (programs, AList.update (pg_ID item) ((case map_of extended (pg_ID item) of None \<Rightarrow> [] | Some items \<Rightarrow> items) @ [item]) extended)
         else (AList.update (pg_ID item) item programs, extended))"

definition sortedProgramIDs :: "(int, Program) gomap \<Rightarrow> int list" where
  "sortedProgramIDs programs = sort (map fst programs)"

definition merge_extended :: "(int, Program list) gomap \<Rightarrow> int \<Rightarrow> (int, Program) gomap \<Rightarrow> (int, Program) gomap" where
  "merge_extended extended i programs =
     fold (\<lambda>item programs. case map_of programs i of None \<Rightarrow> programs | Some p \<Rightarrow> AList.update i (mergeProgram item False p) programs)
       (case map_of extended i of None \<Rightarrow> [] | Some items \<Rightarrow> items) programs"

definition rebuildServicePrograms :: "snapshotService \<Rightarrow> snapshotService" where
  "rebuildServicePrograms service =
     (let tables = map (\<lambda>t. (t, the (map_of (sp_tables service) t))) (sort (map fst (sp_tables service)));
          (programs, extended) = fold (\<lambda>(t, table). fold (rebuild_item t) (table_items table)) tables ([], [])
      in service\<lparr> sp_programs := fold (merge_extended extended) (sortedProgramIDs programs) programs \<rparr>)"

section \<open>Readiness\<close>

definition ready_reset :: "int \<Rightarrow> snapshotReadyGroup \<Rightarrow> snapshotReadyGroup" where
  "ready_reset lastFlagsID g = g\<lparr> rg_flags := map (\<lambda>(i, f). \<lparr> rf_observed = False, rf_version = 0, rf_flag = map (\<lambda>_. 0x00) (rf_flag f),
     rf_ignore = map (\<lambda>_. if int i \<le> lastFlagsID then 0x00 else 0xff) (rf_flag f) \<rparr>) (enumerate 0 (rg_flags g)) \<rparr>"

definition new_ready_group :: "u8 \<Rightarrow> snapshotReadyGroup" where
  "new_ready_group base = \<lparr> rg_base = base, rg_lastFlagsID = -1,
     rg_flags = replicate 8 \<lparr> rf_observed = False, rf_version = 0, rf_flag = replicate 32 0, rf_ignore = replicate 32 0xff \<rparr> \<rparr>"

text \<open>Assignments that note whether they change anything.\<close>

definition ignore_segment :: "nat \<Rightarrow> bytes \<times> bool \<Rightarrow> bytes \<times> bool" where
  "ignore_segment i st = (let (ignored, changed) = st in if ignored ! i \<noteq> 0xff then (ignored[i := 0xff], True) else (ignored, changed))"

definition set_mask :: "nat \<Rightarrow> nat \<Rightarrow> bytes \<times> bool \<Rightarrow> bytes \<times> bool" where
  "set_mask segment i st =
     (let (flags, changed) = st; mask = push_bit i 1
      in if flags ! segment AND mask = 0 then (flags[segment := flags ! segment OR mask], True) else (flags, changed))"

definition observe_flag :: "EITSection \<Rightarrow> instant \<Rightarrow> u8 \<Rightarrow> nat \<Rightarrow> snapshotReadyFlag \<times> bool \<Rightarrow> snapshotReadyFlag \<times> bool" where
  "observe_flag s now base flagsID st =
     (let (target, changed) = st;
          (target, changed) = (if \<not> rf_observed target \<or> rf_version target \<noteq> es_VersionNumber s
            then (target\<lparr> rf_observed := True, rf_version := es_VersionNumber s \<rparr>, True) else (target, changed));
          (ignored, changed) = (if flagsID = 0 \<and> isCurrentScheduleBase base
            then fold ignore_segment [0..<currentJSTSegment now] (rf_ignore target, changed) else (rf_ignore target, changed));
          lastSegment = unat (drop_bit 3 (es_LastSectionNumber s));
          (ignored, changed) = fold ignore_segment [lastSegment + 1..<length (rf_ignore target)] (ignored, changed);
          segmentNumber = unat (drop_bit 3 (es_SectionNumber s));
          sectionNumber = unat (es_SectionNumber s AND 0x07);
          segmentLastSection = unat (es_SegmentLastSectionNumber s AND 0x07);
          (ignored, changed) = fold (set_mask segmentNumber) [segmentLastSection + 1..<8] (ignored, changed);
          (flags, changed) = set_mask segmentNumber sectionNumber (rf_flag target, changed)
      in (target\<lparr> rf_flag := flags, rf_ignore := ignored \<rparr>, changed))"

definition observe_group :: "EITSection \<Rightarrow> instant \<Rightarrow> snapshotReadyGroup \<Rightarrow> snapshotReadyGroup \<times> bool" where
  "observe_group s now g =
     (let flagsID = unat (es_TableID s AND 0x07);
          lastFlagsID = uint (es_LastTableID s AND 0x07);
          target = rg_flags g ! flagsID;
          (g, changed) = (if rg_lastFlagsID g \<noteq> lastFlagsID \<or> rf_observed target \<and> rf_version target \<noteq> es_VersionNumber s
            then (ready_reset lastFlagsID g, True) else (g, False));
          g = g\<lparr> rg_lastFlagsID := lastFlagsID \<rparr>;
          (target, changed) = observe_flag s now (es_TableID s AND 0xf8) flagsID (rg_flags g ! flagsID, changed)
      in (g\<lparr> rg_flags := (rg_flags g)[flagsID := target] \<rparr>, changed))"

definition observeReady :: "EITSection \<Rightarrow> instant \<Rightarrow> snapshotService \<Rightarrow> snapshotService \<times> bool" where
  "observeReady s now service =
     (let base = es_TableID s AND 0xf8;
          g = (case map_of (sp_readyGroups service) base of None \<Rightarrow> new_ready_group base | Some g \<Rightarrow> g);
          (g, changed) = observe_group s now g
      in (service\<lparr> sp_readyGroups := AList.update base g (sp_readyGroups service) \<rparr>, changed))"

section \<open>Observing a section\<close>

definition section_key :: "EITSection \<Rightarrow> ServiceKey" where
  "section_key s = \<lparr> sk_NetworkID = es_OriginalNetworkID s, sk_ServiceID = es_ServiceID s, sk_TransportStreamID = es_TransportStreamID s \<rparr>"

definition new_service :: snapshotService where
  "new_service = \<lparr> sp_tables = [], sp_programs = [], sp_lastTableID = [], sp_readyGroups = [] \<rparr>"

definition new_table :: snapshotTable where
  "new_table = \<lparr> sb_version = 0, sb_hasVersion = False, sb_lastSection = 0, sb_segmentLast = [], sb_sections = [],
     sb_sectionPrograms = [], sb_sectionVersions = [] \<rparr>"

definition observe_table :: "EITSection \<Rightarrow> snapshotTable \<Rightarrow> snapshotTable" where
  "observe_table s table = table\<lparr>
     sb_sections := AList.update (es_SectionNumber s) () (sb_sections table),
     sb_sectionPrograms := AList.update (es_SectionNumber s) (Programs s) (sb_sectionPrograms table),
     sb_sectionVersions := AList.update (es_SectionNumber s) (es_VersionNumber s) (sb_sectionVersions table),
     sb_version := es_VersionNumber s, sb_hasVersion := True, sb_lastSection := es_LastSectionNumber s,
     sb_segmentLast := AList.update (es_SectionNumber s div 8) (es_SegmentLastSectionNumber s) (sb_segmentLast table) \<rparr>"

definition Observe :: "EITSection \<Rightarrow> instant \<Rightarrow> Snapshot \<Rightarrow> Snapshot \<times> bool" where
  "Observe s now snapshot =
     (if es_TableID s < 0x50 \<or> es_TableID s > 0x6f then (snapshot, False)
      else
        let key = section_key s;
            service = (case map_of (sn_services snapshot) key of None \<Rightarrow> new_service | Some v \<Rightarrow> v);
            table = (case map_of (sp_tables service) (es_TableID s) of None \<Rightarrow> new_table | Some t \<Rightarrow> t);
            changed = (map_of (sb_sectionVersions table) (es_SectionNumber s) \<noteq> Some (es_VersionNumber s));
            service = rebuildServicePrograms (service\<lparr> sp_tables := AList.update (es_TableID s) (observe_table s table) (sp_tables service) \<rparr>);
            service = service\<lparr> sp_lastTableID := AList.update (es_TableID s AND 0xf8) (es_LastTableID s) (sp_lastTableID service) \<rparr>;
            (service, readyChanged) = observeReady s now service
        in (snapshot\<lparr> sn_services := AList.update key service (sn_services snapshot),
              sn_lastProgress := (if changed \<or> readyChanged then now else sn_lastProgress snapshot) \<rparr>, changed \<or> readyChanged))"

section \<open>Queries\<close>

definition flag_complete :: "snapshotReadyFlag \<Rightarrow> bool" where
  "flag_complete f \<longleftrightarrow> list_all (\<lambda>i. rf_flag f ! i OR rf_ignore f ! i = 0xff) [0..<length (rf_flag f)]"

definition group_ready :: "snapshotReadyGroup \<Rightarrow> bool" where
  "group_ready g \<longleftrightarrow> list_all flag_complete (rg_flags g)"

definition ServiceReady :: "ServiceKey \<Rightarrow> Snapshot \<Rightarrow> bool" where
  "ServiceReady key snapshot \<longleftrightarrow>
     (case map_of (sn_services snapshot) key of
        None \<Rightarrow> False
      | Some service \<Rightarrow>
          let basic = filter (\<lambda>g. isScheduleBasic (rg_base g)) (map snd (sp_readyGroups service))
          in sp_readyGroups service \<noteq> [] \<and> list_all group_ready basic \<and> basic \<noteq> [])"

definition readyTableComplete :: "snapshotReadyGroup option \<Rightarrow> u8 \<Rightarrow> bool" where
  "readyTableComplete g tableID \<longleftrightarrow> (case g of None \<Rightarrow> False | Some g \<Rightarrow> flag_complete (rg_flags g ! unat (tableID AND 0x07)))"

definition readyMissingSections :: "snapshotReadyGroup option \<Rightarrow> u8 \<Rightarrow> int list" where
  "readyMissingSections g tableID =
     (case g of
        None \<Rightarrow> []
      | Some g \<Rightarrow>
          let f = rg_flags g ! unat (tableID AND 0x07)
          in concat (map (\<lambda>segment. let needed = NOT (rf_flag f ! segment OR rf_ignore f ! segment)
               in map (\<lambda>n. int (segment * 8 + n)) (filter (\<lambda>n. needed AND push_bit n 1 \<noteq> 0) [0..<8])) [0..<length (rf_flag f)]))"

definition table_report :: "snapshotService \<Rightarrow> u8 \<Rightarrow> SnapshotTableReport" where
  "table_report service tableID =
     (let table = the (map_of (sp_tables service) tableID); g = map_of (sp_readyGroups service) (tableID AND 0xf8)
      in \<lparr> tr_TableID = uint tableID, tr_Version = uint (sb_version table), tr_LastSection = uint (sb_lastSection table),
           tr_ObservedSections = blen (sb_sections table), tr_MissingSections = readyMissingSections g tableID,
           tr_Complete = readyTableComplete g tableID \<rparr>)"

definition CompletionReport :: "ServiceKey \<Rightarrow> Snapshot \<Rightarrow> SnapshotReport" where
  "CompletionReport key snapshot =
     (case map_of (sn_services snapshot) key of
        None \<Rightarrow> \<lparr> sr_ObservedTables = 0, sr_MissingTableIDs = [], sr_Tables = [] \<rparr>
      | Some service \<Rightarrow>
          let tableIDs = sort (map fst (sp_tables service));
              missing = (\<lambda>base. case map_of (sp_readyGroups service) base of
                 None \<Rightarrow> []
               | Some g \<Rightarrow> filter (\<lambda>t. map_of (sp_tables service) t = None) (map (\<lambda>i. base + word_of_int i) [0..rg_lastFlagsID g]))
          in \<lparr> sr_ObservedTables = blen tableIDs,
               sr_MissingTableIDs = sort (map uint (concat (map missing (remdups (map (\<lambda>t. t AND 0xf8) tableIDs))))),
               sr_Tables = map (table_report service) tableIDs \<rparr>)"

definition AllReady :: "ServiceKey list \<Rightarrow> Snapshot \<Rightarrow> bool" where
  "AllReady expected snapshot \<longleftrightarrow> expected \<noteq> [] \<and> list_all (\<lambda>key. ServiceReady key snapshot) expected"

definition ObservedExtendedReady :: "ServiceKey list \<Rightarrow> Snapshot \<Rightarrow> bool" where
  "ObservedExtendedReady expected snapshot \<longleftrightarrow>
     list_all (\<lambda>key. case map_of (sn_services snapshot) key of
        None \<Rightarrow> True
      | Some service \<Rightarrow> list_all group_ready (filter (\<lambda>g. isScheduleExtended (rg_base g)) (map snd (sp_readyGroups service)))) expected"

definition StableFor :: "instant \<Rightarrow> duration \<Rightarrow> Snapshot \<Rightarrow> bool" where
  "StableFor now d snapshot \<longleftrightarrow> sn_lastProgress snapshot \<noteq> zeroInstant \<and> now - sn_lastProgress snapshot \<ge> d"

definition snapshot_Programs :: "ServiceKey \<Rightarrow> Snapshot \<Rightarrow> Program list" where
  "snapshot_Programs key snapshot =
     (case map_of (sn_services snapshot) key of
        None \<Rightarrow> []
      | Some service \<Rightarrow> map (\<lambda>i. the (map_of (sp_programs service) i)) (sortedProgramIDs (sp_programs service)))"

definition Observed :: "ServiceKey \<Rightarrow> Snapshot \<Rightarrow> bool" where
  "Observed key snapshot \<longleftrightarrow>
     (case map_of (sn_services snapshot) key of None \<Rightarrow> False | Some service \<Rightarrow> list_ex isScheduleBasic (map fst (sp_tables service)))"

end
