(* ===== verification/EPG_Ready.thy ===== *)
theory EPG_Ready
  imports EPG_Snapshot
begin

text \<open>
  When a service of a snapshot is ready. The code keeps bitmaps of observed and of excused sections that it
  updates and resets; the specification is a list of sections, the current epoch of a group of tables, and
  a service is ready when the epoch covers every section of every table.
\<close>

section \<open>The specification\<close>

definition table_index :: "EITSection \<Rightarrow> nat" where
  "table_index s = unat (es_TableID s AND 0x07)"

definition last_index :: "EITSection \<Rightarrow> int" where
  "last_index s = uint (es_LastTableID s AND 0x07)"

definition segment_of :: "EITSection \<Rightarrow> nat" where
  "segment_of s = unat (drop_bit 3 (es_SectionNumber s))"

definition position_of :: "EITSection \<Rightarrow> nat" where
  "position_of s = unat (es_SectionNumber s AND 0x07)"

text \<open>
  An epoch ends with a section that tells another number of tables, or another version of its table.
\<close>

definition continues :: "(EITSection \<times> instant) list \<Rightarrow> EITSection \<Rightarrow> bool" where
  "continues epoch s \<longleftrightarrow> epoch \<noteq> [] \<and>
     list_all (\<lambda>e. last_index (fst e) = last_index s
       \<and> (table_index (fst e) = table_index s \<longrightarrow> es_VersionNumber (fst e) = es_VersionNumber s)) epoch"

definition epoch_step :: "(EITSection \<times> instant) list \<Rightarrow> EITSection \<times> instant \<Rightarrow> (EITSection \<times> instant) list" where
  "epoch_step epoch e = (if continues epoch (fst e) then epoch @ [e] else [e])"

definition current_epoch :: "(EITSection \<times> instant) list \<Rightarrow> (EITSection \<times> instant) list" where
  "current_epoch history = foldl epoch_step [] history"

text \<open>
  A section of the epoch covers its own place, and excuses what the broadcaster does not send: segments after the
  last one, sections after the last one of the same segment, and of the first table the segments of the day
  that are over.
\<close>

definition excuses :: "EITSection \<times> instant \<Rightarrow> nat \<Rightarrow> nat \<Rightarrow> bool" where
  "excuses e segment n \<longleftrightarrow> (case e of (s, now) \<Rightarrow>
     table_index s = 0 \<and> isCurrentScheduleBase (es_TableID s AND 0xf8) \<and> segment < currentJSTSegment now
     \<or> segment > unat (drop_bit 3 (es_LastSectionNumber s))
     \<or> segment = segment_of s \<and> n > unat (es_SegmentLastSectionNumber s AND 0x07))"

definition covers :: "EITSection \<times> instant \<Rightarrow> nat \<Rightarrow> nat \<Rightarrow> bool" where
  "covers e segment n \<longleftrightarrow> segment = segment_of (fst e) \<and> n = position_of (fst e) \<or> excuses e segment n"

definition complete :: "(EITSection \<times> instant) list \<Rightarrow> bool" where
  "complete epoch \<longleftrightarrow>
     (\<forall>i<8. \<forall>segment<32. \<forall>n<8. int i > last_index (fst (hd epoch))
        \<or> list_ex (\<lambda>e. table_index (fst e) = i \<and> covers e segment n) epoch)"

section \<open>Bitmaps\<close>

lemma ff_mask: "(0xff :: u8) = mask 8"
  by (simp add: mask_eq_decr_exp)

lemma bit_ff: "w = 0xff \<longleftrightarrow> (\<forall>n<8. bit (w :: u8) n)"
proof
  assume all: "\<forall>n<8. bit w n"
  show "w = 0xff" unfolding ff_mask by (rule bit_word_eqI) (use all in \<open>simp add: bit_mask_iff\<close>)
qed (simp add: ff_mask bit_mask_iff)

lemma fst_ignore_segment: "i < length (fst st) \<Longrightarrow> fst (ignore_segment i st) = (fst st)[i := mask 8]"
  by (cases st) (simp add: ignore_segment_def ff_mask, metis list_update_id)

lemma and_push_bit_0: "(x :: u8) AND push_bit i 1 = 0 \<longleftrightarrow> \<not> bit x i"
  by (simp add: and_exp_eq_0_iff_not_bit)

lemma fst_set_mask: "fst (set_mask segment i st) = (if segment < length (fst st) then (fst st)[segment := fst st ! segment OR push_bit i 1] else fst st)"
proof -
  have "x OR push_bit i 1 = x" if "x AND push_bit i 1 \<noteq> 0" for x :: u8
    using that unfolding and_push_bit_0 by (intro bit_word_eqI) (auto simp: bit_simps)
  then show ?thesis by (cases st) (auto simp: set_mask_def Let_def list_update_beyond list_update_same_conv)
qed

lemma fold_ignore_segment:
  "\<forall>i \<in> set is. i < length (fst st) \<Longrightarrow>
   length (fst (fold ignore_segment is st)) = length (fst st)
   \<and> (segment < length (fst st) \<longrightarrow> n < 8 \<longrightarrow> (bit (fst (fold ignore_segment is st) ! segment) n \<longleftrightarrow> segment \<in> set is \<or> bit (fst st ! segment) n))"
  by (induction "is" arbitrary: st) (auto simp: fst_ignore_segment nth_list_update bit_mask_iff)

lemma fold_set_mask:
  "length (fst (fold (set_mask segment) is st)) = length (fst st)
   \<and> (k < length (fst st) \<longrightarrow> n < 8 \<longrightarrow> (bit (fst (fold (set_mask segment) is st) ! k) n \<longleftrightarrow> k = segment \<and> n \<in> set is \<or> bit (fst st ! k) n))"
  by (induction "is" arbitrary: st) (auto simp: fst_set_mask nth_list_update bit_simps)

section \<open>What the bitmaps of a group mean\<close>

definition flag_shape :: "snapshotReadyFlag \<Rightarrow> bool" where
  "flag_shape f \<longleftrightarrow> length (rf_flag f) = 32 \<and> length (rf_ignore f) = 32"

definition flag_means :: "(EITSection \<times> instant) list \<Rightarrow> int \<Rightarrow> nat \<Rightarrow> snapshotReadyFlag \<Rightarrow> bool" where
  "flag_means epoch last_id i f \<longleftrightarrow> flag_shape f
     \<and> (rf_observed f \<longleftrightarrow> (\<exists>e \<in> set epoch. table_index (fst e) = i))
     \<and> (\<forall>e \<in> set epoch. table_index (fst e) = i \<longrightarrow> rf_version f = es_VersionNumber (fst e))
     \<and> (\<forall>segment<32. \<forall>n<8.
          (bit (rf_flag f ! segment) n \<longleftrightarrow> (\<exists>e \<in> set epoch. table_index (fst e) = i \<and> segment = segment_of (fst e) \<and> n = position_of (fst e)))
        \<and> (bit (rf_ignore f ! segment) n \<longleftrightarrow> int i > last_id \<or> (\<exists>e \<in> set epoch. table_index (fst e) = i \<and> excuses e segment n)))"

definition group_means :: "(EITSection \<times> instant) list \<Rightarrow> snapshotReadyGroup \<Rightarrow> bool" where
  "group_means epoch g \<longleftrightarrow> length (rg_flags g) = 8
     \<and> (\<forall>e \<in> set epoch. rg_lastFlagsID g = last_index (fst e))
     \<and> (\<forall>i<8. flag_means epoch (rg_lastFlagsID g) i (rg_flags g ! i))"

lemma unat_and_7: "unat (x AND 0x07 :: u8) < 8"
proof -
  have "uint (x AND 0x07) \<le> 7" using uint_and_le [of x "0x07"] by simp
  then show ?thesis by (simp flip: nat_uint_eq)
qed

lemma unat_drop_3: "unat (drop_bit 3 (x :: u8)) < 32"
proof -
  have x: "unat x < 256" using unsigned_less [of x] by simp
  have "unat (drop_bit 3 x) = take_bit 8 (unat x) div 8"
    by (simp only: unsigned_drop_bit_eq) (simp add: drop_bit_eq_div)
  then show ?thesis using x by (simp add: take_bit_nat_eq_self)
qed

lemma currentJSTSegment_less: "currentJSTSegment now < 8"
  by (simp add: currentJSTSegment_def nat_less_iff)



definition ignored_by :: "EITSection \<Rightarrow> instant \<Rightarrow> bytes \<times> bool \<Rightarrow> bytes \<times> bool" where
  "ignored_by s now st =
     fold (set_mask (segment_of s)) [unat (es_SegmentLastSectionNumber s AND 0x07) + 1..<8]
       (fold ignore_segment [unat (drop_bit 3 (es_LastSectionNumber s)) + 1..<length (fst st)]
         (if table_index s = 0 \<and> isCurrentScheduleBase (es_TableID s AND 0xf8) then fold ignore_segment [0..<currentJSTSegment now] st else st))"

lemma observe_flag_eq:
  assumes "i = table_index s"
  shows "\<exists>c1 c2. fst (observe_flag s now (es_TableID s AND 0xf8) i (f, c))
    = f\<lparr> rf_observed := True, rf_version := es_VersionNumber s,
        rf_flag := fst (set_mask (segment_of s) (position_of s) (rf_flag f, c1)), rf_ignore := fst (ignored_by s now (rf_ignore f, c2)) \<rparr>"
proof -
  let ?t = "if \<not> rf_observed f \<or> rf_version f \<noteq> es_VersionNumber s
    then (f\<lparr> rf_observed := True, rf_version := es_VersionNumber s \<rparr>, True) else (f, c)"
  have t: "rf_flag (fst ?t) = rf_flag f" "rf_ignore (fst ?t) = rf_ignore f"
    "(fst ?t)\<lparr> rf_flag := a, rf_ignore := b \<rparr> = f\<lparr> rf_observed := True, rf_version := es_VersionNumber s, rf_flag := a, rf_ignore := b \<rparr>" for a b
    by (cases f, simp)+
  show ?thesis
    by (intro exI [of _ "snd (ignored_by s now (rf_ignore f, snd ?t))"] exI [of _ "snd ?t"])
      (simp only: observe_flag_def Let_def case_prod_unfold fst_conv snd_conv prod.collapse t ignored_by_def assms segment_of_def position_of_def)
qed

lemma ignored_by_bits:
  assumes "length (fst st) = 32"
  shows "length (fst (ignored_by s now st)) = 32"
    and "segment < 32 \<Longrightarrow> n < 8 \<Longrightarrow> bit (fst (ignored_by s now st) ! segment) n \<longleftrightarrow> bit (fst st ! segment) n \<or> excuses (s, now) segment n"
proof -
  let ?a = "if table_index s = 0 \<and> isCurrentScheduleBase (es_TableID s AND 0xf8) then fold ignore_segment [0..<currentJSTSegment now] st else st"
  let ?b = "fold ignore_segment [unat (drop_bit 3 (es_LastSectionNumber s)) + 1..<length (fst st)] ?a"
  have cur: "currentJSTSegment now < 32" using currentJSTSegment_less [of now] by simp
  have a: "length (fst ?a) = 32" "segment < 32 \<Longrightarrow> n < 8 \<Longrightarrow> bit (fst ?a ! segment) n \<longleftrightarrow> bit (fst st ! segment) n
      \<or> (table_index s = 0 \<and> isCurrentScheduleBase (es_TableID s AND 0xf8) \<and> segment < currentJSTSegment now)" for segment n
    using fold_ignore_segment [of "[0..<currentJSTSegment now]" st segment n] assms cur by auto
  have b: "length (fst ?b) = 32" "segment < 32 \<Longrightarrow> n < 8 \<Longrightarrow> bit (fst ?b ! segment) n
      \<longleftrightarrow> segment > unat (drop_bit 3 (es_LastSectionNumber s)) \<or> bit (fst ?a ! segment) n" for segment n
    using fold_ignore_segment [of "[unat (drop_bit 3 (es_LastSectionNumber s)) + 1..<length (fst st)]" ?a segment n] assms a(1) by auto
  show "length (fst (ignored_by s now st)) = 32"
    using fold_set_mask [of "segment_of s" "[unat (es_SegmentLastSectionNumber s AND 0x07) + 1..<8]" ?b] b(1) unfolding ignored_by_def by simp
  show "bit (fst (ignored_by s now st) ! segment) n \<longleftrightarrow> bit (fst st ! segment) n \<or> excuses (s, now) segment n" if "segment < 32" "n < 8"
    using fold_set_mask [of "segment_of s" "[unat (es_SegmentLastSectionNumber s AND 0x07) + 1..<8]" ?b segment n] a(2) [OF that] b(1) b(2) [OF that] that
    unfolding ignored_by_def excuses_def by auto
qed

lemma observe_flag_means:
  assumes f: "flag_means epoch last_id i f" and i: "i = table_index s"
    and version: "\<forall>e \<in> set epoch. table_index (fst e) = i \<longrightarrow> es_VersionNumber (fst e) = es_VersionNumber s"
  shows "flag_means (epoch @ [(s, now)]) last_id i (fst (observe_flag s now (es_TableID s AND 0xf8) i (f, c)))"
proof -
  obtain c1 c2 where r: "fst (observe_flag s now (es_TableID s AND 0xf8) i (f, c))
    = f\<lparr> rf_observed := True, rf_version := es_VersionNumber s,
        rf_flag := fst (set_mask (segment_of s) (position_of s) (rf_flag f, c1)), rf_ignore := fst (ignored_by s now (rf_ignore f, c2)) \<rparr>"
    using observe_flag_eq [OF i] by blast
  have len: "length (rf_flag f) = 32" "length (rf_ignore f) = 32" using f by (simp_all add: flag_means_def flag_shape_def)
  have seg: "segment_of s < 32" by (simp add: segment_of_def unat_drop_3)
  then have flag: "fst (set_mask (segment_of s) (position_of s) (rf_flag f, c1))
      = (rf_flag f)[segment_of s := rf_flag f ! segment_of s OR push_bit (position_of s) 1]"
    using fst_set_mask [of "segment_of s" "position_of s" "(rf_flag f, c1)"] len by simp
  let ?epoch = "epoch @ [(s, now)]"
  have flag_bits: "bit ((rf_flag f)[segment_of s := rf_flag f ! segment_of s OR push_bit (position_of s) 1] ! segment) n
      \<longleftrightarrow> (\<exists>e \<in> set ?epoch. table_index (fst e) = i \<and> segment = segment_of (fst e) \<and> n = position_of (fst e))"
    if "segment < 32" "n < 8" for segment n
  proof -
    have "bit (rf_flag f ! segment) n \<longleftrightarrow> (\<exists>e \<in> set epoch. table_index (fst e) = i \<and> segment = segment_of (fst e) \<and> n = position_of (fst e))"
      using f that by (simp add: flag_means_def)
    moreover have "bit ((rf_flag f)[segment_of s := rf_flag f ! segment_of s OR push_bit (position_of s) 1] ! segment) n
        \<longleftrightarrow> bit (rf_flag f ! segment) n \<or> segment = segment_of s \<and> n = position_of s"
      using that len seg by (auto simp: nth_list_update bit_simps)
    ultimately show ?thesis using i by auto
  qed
  have ignore_bits: "bit (fst (ignored_by s now (rf_ignore f, c2)) ! segment) n
      \<longleftrightarrow> int i > last_id \<or> (\<exists>e \<in> set ?epoch. table_index (fst e) = i \<and> excuses e segment n)"
    if "segment < 32" "n < 8" for segment n
  proof -
    have "bit (rf_ignore f ! segment) n \<longleftrightarrow> int i > last_id \<or> (\<exists>e \<in> set epoch. table_index (fst e) = i \<and> excuses e segment n)"
      using f that by (simp add: flag_means_def)
    moreover have "bit (fst (ignored_by s now (rf_ignore f, c2)) ! segment) n \<longleftrightarrow> bit (rf_ignore f ! segment) n \<or> excuses (s, now) segment n"
      using ignored_by_bits(2) [where st = "(rf_ignore f, c2)" and s = s and now = now, OF _ that] len by simp
    ultimately show ?thesis using i by auto
  qed
  have "length (fst (ignored_by s now (rf_ignore f, c2))) = 32"
    using ignored_by_bits(1) [where st = "(rf_ignore f, c2)" and s = s and now = now] len by simp
  then have "flag_shape (f\<lparr> rf_observed := True, rf_version := es_VersionNumber s,
        rf_flag := fst (set_mask (segment_of s) (position_of s) (rf_flag f, c1)), rf_ignore := fst (ignored_by s now (rf_ignore f, c2)) \<rparr>)"
    using len by (simp add: flag_shape_def flag)
  then show ?thesis
    unfolding r flag_means_def using version i flag_bits ignore_bits by (simp add: flag)
qed

section \<open>A group follows its epoch\<close>

lemma reset_means:
  assumes "length (rg_flags g) = 8" "\<forall>f \<in> set (rg_flags g). flag_shape f" "i < 8"
  shows "flag_means [] last_id i (rg_flags (ready_reset last_id g) ! i)"
  using assms by (auto simp: ready_reset_def flag_means_def flag_shape_def nth_enumerate_eq nth_list_update ff_mask bit_mask_iff all_set_conv_all_nth)

lemma version_of_epoch:
  assumes "flag_means epoch last_id i f"
  shows "rf_observed f \<and> rf_version f \<noteq> v \<longleftrightarrow> (\<exists>e \<in> set epoch. table_index (fst e) = i \<and> es_VersionNumber (fst e) \<noteq> v)"
  using assms by (auto simp: flag_means_def)

lemma flag_means_other:
  "flag_means epoch last_id i f \<Longrightarrow> i \<noteq> table_index s \<Longrightarrow> flag_means (epoch @ [(s, now)]) last_id i f"
  by (simp add: flag_means_def)

lemma group_updated:
  assumes "length (rg_flags g) = 8" "\<And>j. j < 8 \<Longrightarrow> j \<noteq> table_index s \<Longrightarrow> flag_means (epoch @ [(s, now)]) (last_index s) j (rg_flags g ! j)"
    and "\<forall>e \<in> set epoch. last_index (fst e) = last_index s" "table_index s < 8"
    and "flag_means (epoch @ [(s, now)]) (last_index s) (table_index s) f"
  shows "group_means (epoch @ [(s, now)]) ((g\<lparr> rg_lastFlagsID := last_index s \<rparr>)\<lparr> rg_flags := (rg_flags g)[table_index s := f] \<rparr>)"
  using assms by (auto simp: group_means_def nth_list_update)

lemma observe_group_means:
  assumes shape: "length (rg_flags g) = 8" "\<forall>f \<in> set (rg_flags g). flag_shape f"
    and g: "epoch = [] \<and> rg_lastFlagsID g = -1 \<or> epoch \<noteq> [] \<and> group_means epoch g"
  shows "group_means (epoch_step epoch (s, now)) (fst (observe_group s now g))" "rg_base (fst (observe_group s now g)) = rg_base g"
proof -
  let ?i = "table_index s" and ?last = "last_index s"
  let ?cond = "rg_lastFlagsID g \<noteq> ?last \<or> rf_observed (rg_flags g ! ?i) \<and> rf_version (rg_flags g ! ?i) \<noteq> es_VersionNumber s"
  have i: "?i < 8" by (simp add: table_index_def unat_and_7)
  have cond: "?cond \<longleftrightarrow> \<not> continues epoch s"
  proof (cases "epoch = []")
    case True
    moreover have "0 \<le> ?last" by (simp add: last_index_def)
    ultimately have "rg_lastFlagsID g \<noteq> ?last" using g by auto
    with True show ?thesis by (simp add: continues_def)
  next
    case False
    then have m: "group_means epoch g" using g by simp
    have "rg_lastFlagsID g = ?last \<longleftrightarrow> (\<forall>e \<in> set epoch. last_index (fst e) = ?last)"
      using m False by (cases epoch) (auto simp: group_means_def)
    moreover have "flag_means epoch (rg_lastFlagsID g) ?i (rg_flags g ! ?i)" using m i by (simp add: group_means_def)
    note version_of_epoch [OF this]
    ultimately show ?thesis using False by (auto simp: continues_def list_all_iff)
  qed
  let ?g0 = "if ?cond then ready_reset ?last g else g" and ?epoch = "if ?cond then [] else epoch"
  have g0: "length (rg_flags ?g0) = 8" "\<And>j. j < 8 \<Longrightarrow> flag_means ?epoch ?last j (rg_flags ?g0 ! j)"
  proof -
    have reset: "length (rg_flags (ready_reset ?last g)) = 8" using shape(1) by (simp add: ready_reset_def)
    have cont: "group_means epoch g \<and> rg_lastFlagsID g = ?last" if "\<not> ?cond"
    proof -
      have "epoch \<noteq> []" using that cond unfolding continues_def by blast
      then show ?thesis using that g by blast
    qed
    show "length (rg_flags ?g0) = 8" by (simp only: reset shape(1) split: if_split) simp
    show "flag_means ?epoch ?last j (rg_flags ?g0 ! j)" if "j < 8" for j
    proof (cases ?cond)
      case True
      then show ?thesis using reset_means [OF shape that, of ?last] by (simp only: if_True)
    next
      case False
      then have "flag_means epoch (rg_lastFlagsID g) j (rg_flags g ! j)" using cont that unfolding group_means_def by blast
      then show ?thesis using cont [OF False] False by (simp only: if_False)
    qed
  qed
  have last: "\<forall>e \<in> set ?epoch. last_index (fst e) = ?last"
    and version: "\<forall>e \<in> set ?epoch. table_index (fst e) = ?i \<longrightarrow> es_VersionNumber (fst e) = es_VersionNumber s"
    unfolding cond by (simp_all add: continues_def list_all_iff)
  have step: "epoch_step epoch (s, now) = ?epoch @ [(s, now)]" unfolding cond by (simp add: epoch_step_def)
  obtain c where r: "fst (observe_group s now g) = (?g0\<lparr> rg_lastFlagsID := ?last \<rparr>)\<lparr> rg_flags := (rg_flags ?g0)
      [?i := fst (observe_flag s now (es_TableID s AND 0xf8) ?i (rg_flags ?g0 ! ?i, c))] \<rparr>"
  proof (cases ?cond)
    case True
    then show ?thesis
      by (intro that [of True]) (simp only: observe_group_def Let_def case_prod_unfold table_index_def last_index_def if_True fst_conv snd_conv, simp)
  next
    case False
    then show ?thesis
      by (intro that [of False]) (simp only: observe_group_def Let_def case_prod_unfold table_index_def last_index_def if_False fst_conv snd_conv, simp)
  qed
  show "group_means (epoch_step epoch (s, now)) (fst (observe_group s now g))"
    unfolding step r
  proof (rule group_updated [OF g0(1) _ last i])
    show "flag_means (?epoch @ [(s, now)]) ?last ?i (fst (observe_flag s now (es_TableID s AND 0xf8) ?i (rg_flags ?g0 ! ?i, c)))"
      by (rule observe_flag_means [OF g0(2) [OF i] refl version])
    show "flag_means (?epoch @ [(s, now)]) ?last j (rg_flags ?g0 ! j)" if "j < 8" "j \<noteq> ?i" for j
      by (rule flag_means_other [OF g0(2) [OF that(1)] that(2)])
  qed
  show "rg_base (fst (observe_group s now g)) = rg_base g"
    unfolding r by (simp add: ready_reset_def)
qed

lemma group_means_shape: "group_means epoch g \<Longrightarrow> length (rg_flags g) = 8 \<and> (\<forall>f \<in> set (rg_flags g). flag_shape f)"
  by (auto simp: group_means_def flag_means_def all_set_conv_all_nth)

lemma new_group_shape:
  "length (rg_flags (new_ready_group base)) = 8" "\<forall>f \<in> set (rg_flags (new_ready_group base)). flag_shape f"
  "rg_lastFlagsID (new_ready_group base) = -1" "rg_base (new_ready_group base) = base"
  by (simp_all add: new_ready_group_def flag_shape_def)

lemma group_ready_iff:
  assumes "group_means epoch g" "epoch \<noteq> []"
  shows "group_ready g \<longleftrightarrow> complete epoch"
proof -
  have last: "rg_lastFlagsID g = last_index (fst (hd epoch))" using assms by (auto simp: group_means_def)
  have "flag_complete (rg_flags g ! i) \<longleftrightarrow> (\<forall>segment<32. \<forall>n<8. int i > last_index (fst (hd epoch))
      \<or> list_ex (\<lambda>e. table_index (fst e) = i \<and> covers e segment n) epoch)" if "i < 8" for i
  proof -
    have f: "flag_means epoch (last_index (fst (hd epoch))) i (rg_flags g ! i)"
      using assms(1) that last by (simp add: group_means_def)
    have "flag_complete (rg_flags g ! i) \<longleftrightarrow> (\<forall>segment<32. \<forall>n<8. bit (rf_flag (rg_flags g ! i) ! segment) n \<or> bit (rf_ignore (rg_flags g ! i) ! segment) n)"
      using f by (simp add: flag_complete_def bit_ff bit_or_iff list_all_iff flag_means_def flag_shape_def atLeast0LessThan Ball_def)
    also have "\<dots> \<longleftrightarrow> (\<forall>segment<32. \<forall>n<8. int i > last_index (fst (hd epoch))
        \<or> list_ex (\<lambda>e. table_index (fst e) = i \<and> covers e segment n) epoch)"
    proof (intro all_cong1 imp_cong refl)
      fix segment n :: nat assume "segment < 32" "n < 8"
      then show "bit (rf_flag (rg_flags g ! i) ! segment) n \<or> bit (rf_ignore (rg_flags g ! i) ! segment) n
        \<longleftrightarrow> int i > last_index (fst (hd epoch)) \<or> list_ex (\<lambda>e. table_index (fst e) = i \<and> covers e segment n) epoch"
        using f unfolding flag_means_def list_ex_iff covers_def by meson
    qed
    finally show ?thesis .
  qed
  then show ?thesis using assms(1) by (simp add: group_ready_def complete_def group_means_def list_all_length)
qed

section \<open>A service follows its history\<close>

definition observed_all :: "(EITSection \<times> instant) list \<Rightarrow> Snapshot" where
  "observed_all trace = foldl (\<lambda>snapshot (s, now). fst (Observe s now snapshot)) NewSnapshot trace"

text \<open>The sections of a trace that belong to a group of tables of a service.\<close>

definition belongs :: "ServiceKey \<Rightarrow> u8 \<Rightarrow> EITSection \<Rightarrow> bool" where
  "belongs key base s \<longleftrightarrow> \<not> (es_TableID s < 0x50 \<or> es_TableID s > 0x6f) \<and> section_key s = key \<and> es_TableID s AND 0xf8 = base"

definition history :: "ServiceKey \<Rightarrow> u8 \<Rightarrow> (EITSection \<times> instant) list \<Rightarrow> (EITSection \<times> instant) list" where
  "history key base trace = filter (\<lambda>e. belongs key base (fst e)) trace"

definition ready_groups :: "ServiceKey \<Rightarrow> Snapshot \<Rightarrow> (u8, snapshotReadyGroup) gomap" where
  "ready_groups key snapshot = (case map_of (sn_services snapshot) key of None \<Rightarrow> [] | Some v \<Rightarrow> sp_readyGroups v)"

lemma current_epoch_snoc: "current_epoch (h @ [e]) = epoch_step (current_epoch h) e"
  by (simp add: current_epoch_def)

lemma current_epoch_Nil_iff: "current_epoch h = [] \<longleftrightarrow> h = []"
  by (cases h rule: rev_cases) (simp_all add: current_epoch_snoc epoch_step_def current_epoch_def [of "[]"])

lemma rebuild_keeps_groups [simp]: "sp_readyGroups (rebuildServicePrograms service) = sp_readyGroups service"
  by (simp add: rebuildServicePrograms_def Let_def case_prod_unfold)

lemma ready_groups_Observe:
  "ready_groups key (fst (Observe s now snapshot)) =
     (if \<not> (es_TableID s < 0x50 \<or> es_TableID s > 0x6f) \<and> section_key s = key
      then AList.update (es_TableID s AND 0xf8)
        (fst (observe_group s now (case map_of (ready_groups key snapshot) (es_TableID s AND 0xf8) of
           None \<Rightarrow> new_ready_group (es_TableID s AND 0xf8) | Some g \<Rightarrow> g))) (ready_groups key snapshot)
      else ready_groups key snapshot)"
  by (auto simp: ready_groups_def Observe_def observeReady_def Let_def case_prod_unfold update_conv' new_service_def split: option.splits)

definition follows :: "(EITSection \<times> instant) list \<Rightarrow> u8 \<Rightarrow> snapshotReadyGroup option \<Rightarrow> bool" where
  "follows h base g \<longleftrightarrow> (case g of None \<Rightarrow> h = [] | Some g \<Rightarrow> h \<noteq> [] \<and> group_means (current_epoch h) g \<and> rg_base g = base)"

lemma follows_step:
  assumes "follows h base g"
  shows "follows (h @ [(s, now)]) base (Some (fst (observe_group s now (case g of None \<Rightarrow> new_ready_group base | Some g \<Rightarrow> g))))"
proof (cases g)
  case None
  then have "current_epoch h = []" using assms by (simp add: follows_def current_epoch_def)
  then show ?thesis
    using None observe_group_means [OF new_group_shape(1,2), of "current_epoch h" base s now] new_group_shape(3,4)
    by (simp add: follows_def current_epoch_snoc)
next
  case (Some g')
  then have g': "group_means (current_epoch h) g'" "rg_base g' = base" "current_epoch h \<noteq> []"
    using assms by (simp_all add: follows_def current_epoch_Nil_iff)
  then show ?thesis
    using Some observe_group_means [of g' "current_epoch h" s now] group_means_shape [OF g'(1)] by (simp add: follows_def current_epoch_snoc)
qed

lemma observed_all_follows:
  "distinct (map fst (ready_groups key (observed_all trace)))
   \<and> follows (history key base trace) base (map_of (ready_groups key (observed_all trace)) base)"
proof (induction trace arbitrary: base rule: rev_induct)
  case Nil
  show ?case by (simp add: observed_all_def NewSnapshot_def ready_groups_def history_def follows_def)
next
  case (snoc e trace)
  obtain s now where e: "e = (s, now)" by force
  have o: "observed_all (trace @ [e]) = fst (Observe s now (observed_all trace))" by (simp add: observed_all_def e)
  show ?case
  proof (cases "belongs key (es_TableID s AND 0xf8) s")
    case True
    then have r: "ready_groups key (observed_all (trace @ [e])) = AList.update (es_TableID s AND 0xf8)
        (fst (observe_group s now (case map_of (ready_groups key (observed_all trace)) (es_TableID s AND 0xf8) of
           None \<Rightarrow> new_ready_group (es_TableID s AND 0xf8) | Some g \<Rightarrow> g))) (ready_groups key (observed_all trace))"
      unfolding o ready_groups_Observe by (simp add: belongs_def)
    show ?thesis
    proof (cases "es_TableID s AND 0xf8 = base")
      case True
      then have "history key base (trace @ [e]) = history key base trace @ [(s, now)]"
        using \<open>belongs _ _ _\<close> by (simp add: history_def e)
      then show ?thesis using snoc [of base] follows_step [of "history key base trace" base _ s now]
        unfolding r True by (simp add: update_conv' distinct_update)
    next
      case False
      then have "history key base (trace @ [e]) = history key base trace" by (simp add: history_def e belongs_def)
      then show ?thesis using snoc [of base] False by (simp add: r update_conv' distinct_update)
    qed
  next
    case False
    then have "history key base (trace @ [e]) = history key base trace" by (auto simp: history_def e belongs_def)
    moreover have "ready_groups key (observed_all (trace @ [e])) = ready_groups key (observed_all trace)"
      unfolding o ready_groups_Observe using False by (auto simp: belongs_def)
    ultimately show ?thesis using snoc [of base] by simp
  qed
qed

text \<open>
  C9. The bitmaps do what they are for. After any sequence of sections of any services, a service is ready exactly
  if a section of a basic schedule has been seen and, of every group of basic tables that has been seen, the
  sections since the last change of version or of the number of tables cover, or excuse, every section of
  every table of the group.
\<close>

theorem ServiceReady_iff_epochs_complete:
  "ServiceReady key (observed_all trace) \<longleftrightarrow>
     (\<exists>base. isScheduleBasic base \<and> history key base trace \<noteq> [])
     \<and> (\<forall>base. isScheduleBasic base \<and> history key base trace \<noteq> [] \<longrightarrow> complete (current_epoch (history key base trace)))"
proof -
  let ?groups = "ready_groups key (observed_all trace)"
  have dist: "distinct (map fst ?groups)" and fol: "\<And>base. follows (history key base trace) base (map_of ?groups base)"
    using observed_all_follows by blast+
  have entry: "history key base trace \<noteq> [] \<and> rg_base g = base \<and> (group_ready g \<longleftrightarrow> complete (current_epoch (history key base trace)))"
    if "(base, g) \<in> set ?groups" for base g
    using fol [of base] map_of_is_SomeI [OF dist that] group_ready_iff [of "current_epoch (history key base trace)" g]
    by (simp add: follows_def current_epoch_Nil_iff)
  have exists: "\<exists>g. (base, g) \<in> set ?groups" if "history key base trace \<noteq> []" for base
    using fol [of base] that by (cases "map_of ?groups base") (auto simp: follows_def dest: map_of_SomeD)
  let ?basic = "filter (\<lambda>g. isScheduleBasic (rg_base g)) (map snd ?groups)"
  have "ServiceReady key (observed_all trace) \<longleftrightarrow> list_all group_ready ?basic \<and> ?basic \<noteq> []"
    unfolding ServiceReady_def ready_groups_def Let_def by (auto split: option.splits)
  moreover have "list_all group_ready ?basic \<longleftrightarrow> (\<forall>g \<in> set ?basic. group_ready g)" by (simp only: list_all_iff)
  moreover have "?basic \<noteq> [] \<longleftrightarrow> (\<exists>g. g \<in> set ?basic)" by (simp only: ex_in_conv set_empty simp_thms)
  moreover have "g \<in> set ?basic \<longleftrightarrow> (\<exists>base. (base, g) \<in> set ?groups) \<and> isScheduleBasic (rg_base g)" for g by force
  ultimately have step: "ServiceReady key (observed_all trace) \<longleftrightarrow>
      (\<exists>base g. (base, g) \<in> set ?groups \<and> isScheduleBasic (rg_base g))
      \<and> (\<forall>base g. (base, g) \<in> set ?groups \<longrightarrow> isScheduleBasic (rg_base g) \<longrightarrow> group_ready g)"
    by meson
  have some: "(\<exists>base g. (base, g) \<in> set ?groups \<and> isScheduleBasic (rg_base g))
      \<longleftrightarrow> (\<exists>base. isScheduleBasic base \<and> history key base trace \<noteq> [])"
    using entry exists by metis
  have every: "(\<forall>base g. (base, g) \<in> set ?groups \<longrightarrow> isScheduleBasic (rg_base g) \<longrightarrow> group_ready g)
      \<longleftrightarrow> (\<forall>base. isScheduleBasic base \<and> history key base trace \<noteq> [] \<longrightarrow> complete (current_epoch (history key base trace)))"
    using entry exists by metis
  show ?thesis unfolding step some every by (rule refl)
qed

text \<open>One section that says that its table has no other.\<close>

definition demo_section :: "u8 \<Rightarrow> u8 \<Rightarrow> EITSection" where
  "demo_section number last_number = \<lparr> es_OriginalNetworkID = 4, es_TransportStreamID = 16400, es_ServiceID = 101, es_TableID = 0x50,
     es_LastTableID = 0x50, es_SectionNumber = number, es_LastSectionNumber = last_number, es_SegmentLastSectionNumber = 0, es_VersionNumber = 1,
     es_Events = [] \<rparr>"

theorem ServiceReady_iff_epochs_complete_witness:
  "let key = section_key (demo_section 0 0); seen = [(demo_section 0 0, 0)]
   in ServiceReady key (observed_all seen)
      \<and> complete (current_epoch (history key 0x50 seen))
      \<and> \<not> ServiceReady key (observed_all [(demo_section 0 24, 0)])"
proof -
  let ?key = "section_key (demo_section 0 0)" and ?seen = "[(demo_section 0 0, 0 :: int)]"
  have ready: "ServiceReady ?key (observed_all ?seen)" by code_simp
  moreover have "isScheduleBasic 0x50" "history ?key 0x50 ?seen \<noteq> []" by code_simp+
  moreover have "complete (current_epoch (history ?key 0x50 ?seen))"
    using ServiceReady_iff_epochs_complete [of ?key ?seen] ready \<open>isScheduleBasic 0x50\<close> \<open>history ?key 0x50 ?seen \<noteq> []\<close> by blast
  moreover have "\<not> ServiceReady ?key (observed_all [(demo_section 0 24, 0)])" by code_simp
  ultimately show ?thesis by (simp add: Let_def)
qed

end
