(* ===== verification/Module_Cache.thy ===== *)
theory Module_Cache
  imports DSMCC_Carousel "HOL-Library.Multiset"
begin

text \<open>
  The in-memory cache of completed modules: \<open>ModuleCache\<close> in
  \<open>internal/stream/databroadcast/module_cache.go\<close>. Counters are 64-bit words. The entries of the map are
  visited in the order of the association list; the theorems do not depend on this order. A cache is not nil (on a nil cache the lookups find nothing and a store is refused).
\<close>

section \<open>Keys and entries\<close>








section \<open>Operations\<close>












section \<open>Specification\<close>










section \<open>The recency order of a cache\<close>















section \<open>Lookups\<close>








section \<open>Stores\<close>















end
