(* ===== verification/ARIB_Tables.thy ===== *)
theory ARIB_Tables
  imports ARIB_JISX0213
begin

text \<open>
  The character tables of \<open>ts/aribstr\<close> and their lookups: \<open>table_key.go\<close>, \<open>table719.go\<close>, \<open>table721.go\<close> and the
  functions of \<open>table_x0213.go\<close>. The decoder \<open>ISO2022JP\<close> of \<open>golang.org/x/text\<close> is a parameter: \<open>iso2022jp\<close> maps the
  eight bytes it is given to the text it decodes or to \<open>None\<close>, an error.
\<close>

section \<open>Keys and strings\<close>

type_synonym jis_decoder = "bytes \<Rightarrow> runes option"

definition RuneError :: rune where
  "RuneError = 0xfffd"

text \<open>The conversion \<open>string(r)\<close> of a rune.\<close>

definition string_rune :: "rune \<Rightarrow> runes" where
  "string_rune r = [if r > 0x10ffff \<or> (0xd800 \<le> r \<and> r \<le> 0xdfff) then RuneError else r]"

definition aribRowCellKey :: "u8 \<Rightarrow> u8 \<Rightarrow> u16" where
  "aribRowCellKey first second = push_bit 8 (ucast first) OR ucast second"

definition aribPlaneRowCellKey :: "u8 \<Rightarrow> u8 \<Rightarrow> u8 \<Rightarrow> u32" where
  "aribPlaneRowCellKey plane first second = push_bit 16 (ucast plane) OR push_bit 8 (ucast first) OR ucast second"

definition aribValidRowCell :: "u8 \<Rightarrow> u8 \<Rightarrow> bool" where
  "aribValidRowCell first second \<longleftrightarrow> first \<ge> 0x21 \<and> first \<le> 0x7e \<and> second \<ge> 0x21 \<and> second \<le> 0x7e"

section \<open>Table 7-19: additional symbols\<close>

definition aribTable719Row75 :: "rune list" where
  "aribTable719Row75 = map word_of_int [
     0x3402, 0x20158, 0x4efd, 0x4eff, 0x4f9a, 0x4fc9, 0x509c, 0x511e, 0x51bc, 0x351f, 0x5307, 0x5361, 0x536c, 0x8a79,
     0x20bb7, 0x544d, 0x5496, 0x549c, 0x54a9, 0x550e, 0x554a, 0x5672, 0x56e4, 0x5733, 0x5734, 0xfa10, 0x5880, 0x59e4,
     0x5a23, 0x5a55, 0x5bec, 0xfa11, 0x37e2, 0x5eac, 0x5f34, 0x5f45, 0x5fb7, 0x6017, 0xfa6b, 0x6130, 0x6624, 0x66c8,
     0x66d9, 0x66fa, 0x66fb, 0x6852, 0x9fc4, 0x6911, 0x693b, 0x6a45, 0x6a91, 0x6adb, 0x233cc, 0x233fe, 0x235c4,
     0x6bf1, 0x6ce0, 0x6d2e, 0xfa45, 0x6dbf, 0x6dca, 0x6df8, 0xfa46, 0x6f5e, 0x6ff9, 0x7064, 0xfa6c, 0x242ee, 0x7147,
     0x71c1, 0x7200, 0x739f, 0x73a8, 0x73c9, 0x73d6, 0x741b, 0x7421, 0xfa4a, 0x7426, 0x742a, 0x742c, 0x7439, 0x744b,
     0x3eda, 0x7575, 0x7581, 0x7772, 0x4093, 0x78c8, 0x78e0, 0x7947, 0x79ae, 0x9fc6, 0x4103]"

definition aribTable719Row76 :: "rune list" where
  "aribTable719Row76 = map word_of_int [
     0x9fc5, 0x79da, 0x7a1e, 0x7b7f, 0x7c31, 0x4264, 0x7d8b, 0x7fa1, 0x8118, 0x813a, 0xfa6d, 0x82ae, 0x845b, 0x84dc,
     0x84ec, 0x8559, 0x85ce, 0x8755, 0x87ec, 0x880b, 0x88f5, 0x89d2, 0x8af6, 0x8dce, 0x8fbb, 0x8ff6, 0x90dd, 0x9127,
     0x912d, 0x91b2, 0x9233, 0x9288, 0x9321, 0x9348, 0x9592, 0x96de, 0x9903, 0x9940, 0x9ad9, 0x9bd6, 0x9dd7, 0x9eb4,
     0x9eb5, 0, 0, 0, 0, 0, 0, 0, 0, 0, 0, 0, 0, 0, 0, 0, 0, 0, 0, 0, 0, 0, 0, 0, 0, 0, 0, 0, 0, 0, 0, 0, 0, 0, 0, 0,
     0, 0, 0, 0, 0, 0, 0, 0, 0, 0, 0, 0, 0, 0, 0, 0]"

definition aribTable719Row7a :: "rune list" where
  "aribTable719Row7a = map word_of_int [
     0x26cc, 0x26cd, 0x2757, 0x26cf, 0x26d0, 0x26d1, 0, 0x26d2, 0x26d5, 0x26d3, 0x26d4, 0, 0, 0, 0, 0x1f17f, 0x1f18a,
     0, 0, 0x26d6, 0x26d7, 0x26d8, 0x26d9, 0x26da, 0x26db, 0x26dc, 0x26dd, 0x26de, 0x26df, 0x26e0, 0x26e1, 0x2b55,
     0x3248, 0x3249, 0x324a, 0x324b, 0x324c, 0x324d, 0x324e, 0x324f, 0, 0, 0, 0, 0x2491, 0x2492, 0x2493, 0x1f14a,
     0x1f14c, 0x1f13f, 0x1f146, 0x1f14b, 0x1f210, 0x1f211, 0x1f212, 0x1f213, 0x1f142, 0x1f214, 0x1f215, 0x1f216,
     0x1f14d, 0x1f131, 0x1f13d, 0x2b1b, 0x2b24, 0x1f217, 0x1f218, 0x1f219, 0x1f21a, 0x1f21b, 0x26bf, 0x1f21c, 0x1f21d,
     0x1f21e, 0x1f21f, 0x1f220, 0x1f221, 0x1f222, 0x1f223, 0x1f224, 0x1f225, 0x1f14e, 0x3299, 0x1f200, 0, 0, 0, 0, 0,
     0, 0, 0, 0, 0]"

definition aribTable719Row7b :: "rune list" where
  "aribTable719Row7b = map word_of_int [
     0x26e3, 0x2b56, 0x2b57, 0x2b58, 0x2b59, 0x2613, 0x328b, 0x3012, 0x26e8, 0x3246, 0x3245, 0x26e9, 0xfd6, 0x26ea,
     0x26eb, 0x26ec, 0x2668, 0x26ed, 0x26ee, 0x26ef, 0x2693, 0x2708, 0x26f0, 0x26f1, 0x26f2, 0x26f3, 0x26f4, 0x26f5,
     0x1f157, 0x24b9, 0x24c8, 0x26f6, 0x1f15f, 0x1f18b, 0x1f18d, 0x1f18c, 0x1f179, 0x26f7, 0x26f8, 0x26f9, 0x26fa,
     0x1f17b, 0x260e, 0x26fb, 0x26fc, 0x26fd, 0x26fe, 0x1f17c, 0x26ff, 0, 0, 0, 0, 0, 0, 0, 0, 0, 0, 0, 0, 0, 0, 0, 0,
     0, 0, 0, 0, 0, 0, 0, 0, 0, 0, 0, 0, 0, 0, 0, 0, 0, 0, 0, 0, 0, 0, 0, 0, 0, 0, 0, 0, 0]"

definition aribTable719Row7c :: "rune list" where
  "aribTable719Row7c = map word_of_int [
     0x27a1, 0x2b05, 0x2b06, 0x2b07, 0x2b2f, 0x2b2e, 0x5e74, 0x6708, 0x65e5, 0x5186, 0x33a1, 0x33a5, 0x339d, 0x33a0,
     0x33a4, 0x1f100, 0x2488, 0x2489, 0x248a, 0x248b, 0x248c, 0x248d, 0x248e, 0x248f, 0x2490, 0x6c0f, 0x526f, 0x5143,
     0x6545, 0x524d, 0x65b0, 0x1f101, 0x1f102, 0x1f103, 0x1f104, 0x1f105, 0x1f106, 0x1f107, 0x1f108, 0x1f109, 0x1f10a,
     0x3233, 0x3236, 0x3232, 0x3231, 0x3239, 0x3244, 0x25b6, 0x25c0, 0x3016, 0x3017, 0x27d0, 0xb2, 0xb3, 0x1f12d,
     0xe2a5, 0xe2a6, 0xe2a7, 0xe2a8, 0xe2a9, 0xe2aa, 0xe2ab, 0xe2ac, 0xe2ad, 0xe2ae, 0xe2af, 0xe2b0, 0xe2b1, 0xe2b2,
     0xe2b3, 0xe2b4, 0xe2b5, 0xe2b6, 0xe2b7, 0xe2b8, 0xe2b9, 0xe2ba, 0xe2bb, 0xe2bc, 0xe2bd, 0xe2be, 0xe2bf, 0xe2c0,
     0xe2c1, 0xe2c2, 0x1f12c, 0x1f12b, 0x3247, 0x1f190, 0x1f226, 0x213b, 0, 0, 0]"

definition aribTable719Row7d :: "rune list" where
  "aribTable719Row7d = map word_of_int [
     0x322a, 0x322b, 0x322c, 0x322d, 0x322e, 0x322f, 0x3230, 0x3237, 0x337e, 0x337d, 0x337c, 0x337b, 0x2116, 0x2121,
     0x3036, 0x26be, 0x1f240, 0x1f241, 0x1f242, 0x1f243, 0x1f244, 0x1f245, 0x1f246, 0x1f247, 0x1f248, 0x1f12a,
     0x1f227, 0x1f228, 0x1f229, 0x1f214, 0x1f22a, 0x1f22b, 0x1f22c, 0x1f22d, 0x1f22e, 0x1f22f, 0x1f230, 0x1f231,
     0x2113, 0x338f, 0x3390, 0x33ca, 0x339e, 0x33a2, 0x3371, 0, 0, 0xbd, 0x2189, 0x2153, 0x2154, 0xbc, 0xbe, 0x2155,
     0x2156, 0x2157, 0x2158, 0x2159, 0x215a, 0x2150, 0x215b, 0x2151, 0x2152, 0x2600, 0x2601, 0x2602, 0x26c4, 0x2616,
     0x2617, 0x26c9, 0x26ca, 0x2666, 0x2665, 0x2663, 0x2660, 0x26cb, 0x2a00, 0x203c, 0x2049, 0x26c5, 0x2614, 0x26c6,
     0x2603, 0x26c7, 0x26a1, 0x26c8, 0, 0x269e, 0x269f, 0x266c, 0x260e, 0, 0, 0]"

definition aribTable719Row7e :: "rune list" where
  "aribTable719Row7e = map word_of_int [
     0x2160, 0x2161, 0x2162, 0x2163, 0x2164, 0x2165, 0x2166, 0x2167, 0x2168, 0x2169, 0x216a, 0x216b, 0x2470, 0x2471,
     0x2472, 0x2473, 0x2474, 0x2475, 0x2476, 0x2477, 0x2478, 0x2479, 0x247a, 0x247b, 0x247c, 0x247d, 0x247e, 0x247f,
     0x3251, 0x3252, 0x3253, 0x3254, 0x1f110, 0x1f111, 0x1f112, 0x1f113, 0x1f114, 0x1f115, 0x1f116, 0x1f117, 0x1f118,
     0x1f119, 0x1f11a, 0x1f11b, 0x1f11c, 0x1f11d, 0x1f11e, 0x1f11f, 0x1f120, 0x1f121, 0x1f122, 0x1f123, 0x1f124,
     0x1f125, 0x1f126, 0x1f127, 0x1f128, 0x1f129, 0x3255, 0x3256, 0x3257, 0x3258, 0x3259, 0x325a, 0x2460, 0x2461,
     0x2462, 0x2463, 0x2464, 0x2465, 0x2466, 0x2467, 0x2468, 0x2469, 0x246a, 0x246b, 0x246c, 0x246d, 0x246e, 0x246f,
     0x2776, 0x2777, 0x2778, 0x2779, 0x277a, 0x277b, 0x277c, 0x277d, 0x277e, 0x277f, 0x24eb, 0x24ec, 0x325b, 0]"

definition table719_row :: "u8 \<Rightarrow> rune list option" where
  "table719_row first =
     (if first = 0x75 then Some aribTable719Row75
      else if first = 0x76 then Some aribTable719Row76
      else if first = 0x7a then Some aribTable719Row7a
      else if first = 0x7b then Some aribTable719Row7b
      else if first = 0x7c then Some aribTable719Row7c
      else if first = 0x7d then Some aribTable719Row7d
      else if first = 0x7e then Some aribTable719Row7e
      else None)"

definition lookupARIBTable719AdditionalSymbol :: "u8 \<Rightarrow> u8 \<Rightarrow> runes option go" where
  "lookupARIBTable719AdditionalSymbol first second =
     (if second < 0x21 \<or> second > 0x7e then Some None
      else case table719_row first of
             None \<Rightarrow> Some None
           | Some row \<Rightarrow> do {
               r \<leftarrow> idx row (uint (second - 0x21));
               Some (if r = 0 then None else Some (string_rune r))
             })"

section \<open>Binary search\<close>

text \<open>\<open>sort.Search\<close> of the Go library: the smallest index from which on \<open>f\<close> holds, if \<open>f\<close> is monotone.\<close>

function search_between :: "(nat \<Rightarrow> bool) \<Rightarrow> nat \<Rightarrow> nat \<Rightarrow> nat" where
  "search_between f i j =
     (if i < j then let h = (i + j) div 2 in if \<not> f h then search_between f (h + 1) j else search_between f i h else i)"
  by pat_completeness auto
termination by (relation "measure (\<lambda>(f, i, j). j - i)") auto

declare search_between.simps [simp del]

definition sort_Search :: "nat \<Rightarrow> (nat \<Rightarrow> bool) \<Rightarrow> nat" where
  "sort_Search n f = search_between f 0 n"

lemma search_between_correct:
  assumes mono: "\<And>h h'. h \<le> h' \<Longrightarrow> h' < n \<Longrightarrow> f h \<Longrightarrow> f h'"
  shows "i \<le> j \<Longrightarrow> j \<le> n \<Longrightarrow> \<forall>h < i. \<not> f h \<Longrightarrow> \<forall>h. j \<le> h \<longrightarrow> h < n \<longrightarrow> f h \<Longrightarrow>
    search_between f i j \<le> n \<and> (\<forall>h < search_between f i j. \<not> f h) \<and> (\<forall>h. search_between f i j \<le> h \<longrightarrow> h < n \<longrightarrow> f h)"
proof (induction "j - i" arbitrary: i j rule: less_induct)
  case less
  show ?case
  proof (cases "i < j")
    case True
    define h where "h = (i + j) div 2"
    have h: "i \<le> h" "h < j" "h < n" using True less.prems(2) by (auto simp: h_def)
    show ?thesis
    proof (cases "f h")
      case holds: True
      have "search_between f i j = search_between f i h"
        using True holds by (subst search_between.simps) (simp add: h_def Let_def)
      moreover have "\<forall>k. h \<le> k \<longrightarrow> k < n \<longrightarrow> f k" using mono holds by blast
      moreover have "h - i < j - i" "h \<le> n" using h by simp_all
      ultimately show ?thesis using less.hyps [OF _ h(1) _ less.prems(3)] by presburger
    next
      case fails: False
      have "search_between f i j = search_between f (h + 1) j"
        using True fails by (subst search_between.simps) (simp add: h_def Let_def)
      moreover have "\<not> f k" if "k < h + 1" for k
        using mono [of k h] fails h(3) that by fastforce
      moreover have "j - (h + 1) < j - i" "h + 1 \<le> j" using h by simp_all
      ultimately show ?thesis using less.hyps [OF _ _ less.prems(2) _ less.prems(4), of "h + 1"] by presburger
    qed
  next
    case False
    then have "search_between f i j = i" by (subst search_between.simps) simp
    then show ?thesis using less.prems False by simp
  qed
qed

lemma search_between_cong: "\<forall>h < j. f h = g h \<Longrightarrow> search_between f i j = search_between g i j"
proof (induction "j - i" arbitrary: i j rule: less_induct)
  case less
  let ?h = "(i + j) div 2"
  show ?case
  proof (cases "i < j")
    case True
    then have "search_between f (?h + 1) j = search_between g (?h + 1) j" "search_between f i ?h = search_between g i ?h" "f ?h = g ?h"
      using less.hyps [of j "?h + 1"] less.hyps [of ?h i] less.prems by simp_all
    then show ?thesis by (subst (1 2) search_between.simps) (simp add: Let_def)
  next
    case False
    then show ?thesis by (subst (1 2) search_between.simps) simp
  qed
qed

text \<open>In a sorted list the search finds the first element that is not below the key.\<close>

lemma sort_Search_sorted:
  fixes xs :: "'a::linorder list" and key :: 'a
  assumes sorted: "sorted_wrt (<) xs"
  defines "i \<equiv> sort_Search (length xs) (\<lambda>i. xs ! i \<ge> key)"
  shows "i < length xs \<and> xs ! i = key \<longleftrightarrow> key \<in> set xs"
proof -
  have less: "xs ! h < xs ! h'" if "h < h'" "h' < length xs" for h h'
    using sorted that by (simp add: sorted_wrt_iff_nth_less)
  have mono: "xs ! h' \<ge> key" if "h \<le> h'" "h' < length xs" "xs ! h \<ge> key" for h h'
    using less [of h h'] that by (cases "h = h'") auto
  have "i \<le> length xs \<and> (\<forall>h < i. \<not> xs ! h \<ge> key) \<and> (\<forall>h. i \<le> h \<longrightarrow> h < length xs \<longrightarrow> xs ! h \<ge> key)"
    unfolding i_def sort_Search_def by (rule search_between_correct [OF mono]) simp_all
  then have found: "\<forall>h < i. \<not> xs ! h \<ge> key" "\<forall>h. i \<le> h \<longrightarrow> h < length xs \<longrightarrow> xs ! h \<ge> key" by blast+
  show ?thesis
  proof
    assume "key \<in> set xs"
    then obtain h where h: "h < length xs" "xs ! h = key" by (auto simp: in_set_conv_nth)
    then have "\<not> h < i" using found(1) by auto
    moreover have "\<not> i < h" using less [of i h] found(2) h by force
    ultimately show "i < length xs \<and> xs ! i = key" using h by (simp add: nat_neq_iff [symmetric])
  qed (auto simp: in_set_conv_nth)
qed

lemma sort_Search_lookup:
  fixes es :: "('a::linorder \<times> 'b) list" and key :: 'a
  assumes "sorted_wrt (<) (map fst es)"
  defines "i \<equiv> sort_Search (length es) (\<lambda>i. fst (es ! i) \<ge> key)"
  shows "(if i \<ge> length es \<or> fst (es ! i) \<noteq> key then None else Some (snd (es ! i))) = map_of es key"
proof -
  have same: "i = sort_Search (length (map fst es)) (\<lambda>i. map fst es ! i \<ge> key)"
    unfolding i_def sort_Search_def length_map by (rule search_between_cong) simp
  have found: "i < length es \<and> map fst es ! i = key \<longleftrightarrow> key \<in> fst ` set es"
    using sort_Search_sorted [OF assms(1), of key] unfolding same by simp
  have distinct: "distinct (map fst es)" using assms(1) by (simp add: strict_sorted_iff)
  show ?thesis
  proof (cases "key \<in> fst ` set es")
    case True
    then have i: "i < length es" "fst (es ! i) = key" using found by auto
    then have "(key, snd (es ! i)) \<in> set es" by (metis nth_mem prod.collapse)
    then show ?thesis using i distinct by simp
  next
    case False
    then have "\<not> (i < length es \<and> fst (es ! i) = key)" using found by auto
    moreover have "map_of es key = None" using False by (simp add: map_of_eq_None_iff)
    ultimately show ?thesis by auto
  qed
qed

section \<open>Table 7-21: Kanji in the private use area\<close>

type_synonym runeEntry = "u32 \<times> rune"

definition rune_words :: "(int \<times> int) list \<Rightarrow> runeEntry list" where
  "rune_words es = map (\<lambda>(k, r). (word_of_int k, word_of_int r)) es"

definition as_strings :: "('k \<times> 'r) list \<Rightarrow> ('k \<times> 'r list) list" where
  "as_strings es = map (\<lambda>(k, r). (k, [r])) es"

lemma as_strings_rune_words: "as_strings (rune_words es) = words (as_strings es)"
  by (induction es) (auto simp: as_strings_def rune_words_def words_def)

lemma as_strings_append: "as_strings (es @ es') = as_strings es @ as_strings es'"
  by (simp add: as_strings_def)

lemma fst_as_strings [simp]: "map fst (as_strings es) = map fst es"
  by (simp add: as_strings_def case_prod_unfold comp_def)

definition table721_p0 :: "runeEntry list" where
  "table721_p0 = rune_words [
     (0x012e22, 0xe760), (0x012f42, 0xe761), (0x012f4c, 0xe762), (0x012f60, 0xe763), (0x012f7b, 0xe764),
     (0x014f54, 0xe88e), (0x014f63, 0xe765), (0x014f6e, 0xe766), (0x01753a, 0xe767), (0x017572, 0xe08c),
     (0x017629, 0xe769), (0x017632, 0xe76a), (0x017660, 0xe76b), (0x01776c, 0xe76c), (0x01787e, 0xe76d),
     (0x017929, 0xe76e), (0x017947, 0xe76f), (0x017954, 0xe770), (0x01796e, 0xe771), (0x017a5d, 0xe772),
     (0x017b33, 0xe773), (0x017b49, 0xe774), (0x017b6c, 0xe775), (0x017c49, 0xe776), (0x017c51, 0xe777),
     (0x017e66, 0xe778), (0x022121, 0xe779), (0x02212b, 0xe77a), (0x02212e, 0xe77b), (0x022136, 0xe77c),
     (0x022146, 0xe77d), (0x022170, 0xe77e), (0x022177, 0xe77f), (0x022179, 0xe780), (0x022322, 0xe781),
     (0x022325, 0xe782), (0x022327, 0xe783), (0x022331, 0xe784), (0x022332, 0xe785), (0x022338, 0xe786),
     (0x02233f, 0xe787), (0x022341, 0xe788), (0x02234a, 0xe789), (0x022352, 0xe78a), (0x022353, 0xe78b),
     (0x022359, 0xe78c), (0x02235c, 0xe78d), (0x022377, 0xe78e), (0x02242a, 0xe78f), (0x022431, 0xe790),
     (0x022432, 0xe791), (0x02243a, 0xe792), (0x02243d, 0xe793), (0x022459, 0xe794), (0x02245c, 0xe795),
     (0x02245e, 0xe796), (0x022463, 0xe797), (0x02246a, 0xe798), (0x02246b, 0xe799), (0x022472, 0xe79a),
     (0x022474, 0xe79b), (0x022475, 0xe79c), (0x022525, 0xe79d), (0x022532, 0xe79e), (0x02253e, 0xe79f),
     (0x022544, 0xe7a0), (0x022547, 0xe7a1), (0x022555, 0xe7a2), (0x022556, 0xe7a3), (0x02257e, 0xe7a4),
     (0x022830, 0xe7a5), (0x022837, 0xe7a6), (0x022838, 0xe7a7), (0x02283a, 0xe7a8), (0x02283b, 0xe7a9),
     (0x02283f, 0xe7aa), (0x022840, 0xe7ab), (0x022845, 0xe7ac), (0x022848, 0xe7ad), (0x02284a, 0xe7ae),
     (0x02284b, 0xe7af), (0x02285b, 0xe7b0), (0x022866, 0xe7b1), (0x02286c, 0xe7b2), (0x022c22, 0xe7b3),
     (0x022c2b, 0xe7b4), (0x022c30, 0xe7b5), (0x022c50, 0xe7b6), (0x022c65, 0xe7b7), (0x022c6d, 0xe7b8),
     (0x022c72, 0xe7b9), (0x022d24, 0xe7ba), (0x022d29, 0xe7bb), (0x022d2a, 0xe7bc), (0x022d32, 0xe7bd),
     (0x022d34, 0xe7be), (0x022d35, 0xe7bf), (0x022d39, 0xe7c0), (0x022d56, 0xe7c1), (0x022d7d, 0xe7c2),
     (0x022e23, 0xe7c3), (0x022e24, 0xe7c4), (0x022e3a, 0xe7c5), (0x022e3c, 0xe7c6), (0x022e3d, 0xe7c7),
     (0x022e42, 0xe7c8), (0x022e43, 0xe7c9), (0x022e44, 0xe7ca), (0x022e47, 0xe7cb), (0x022e49, 0xe7cc),
     (0x022e55, 0xe7cd), (0x022e56, 0xe7ce), (0x022e57, 0xe7cf), (0x022e5b, 0xe7d0), (0x022e77, 0xe7d1),
     (0x022e78, 0xe7d2), (0x022f2a, 0xe7d3), (0x022f3f, 0xe7d4), (0x022f40, 0xe7d5), (0x022f42, 0xe7d6),
     (0x022f43, 0xe7d7), (0x022f4e, 0xe7d8), (0x022f59, 0xe7d9), (0x022f61, 0xe7da), (0x022f69, 0xe7db),
     (0x022f6a, 0xe7dc), (0x022f70, 0xe7dd), (0x022f75, 0xe7de), (0x026e23, 0xe7df), (0x026e34, 0xe7e0),
     (0x026e49, 0xe7e1), (0x026e5c, 0xe7e2), (0x026e5e, 0xe7e3), (0x026e5f, 0xe7e4), (0x026e60, 0xe7e5),
     (0x026f32, 0xe7e6), (0x026f47, 0xe7e7), (0x026f4d, 0xe7e8), (0x026f61, 0xe7e9), (0x026f64, 0xe7ea),
     (0x027022, 0xe7eb), (0x027033, 0xe7ec), (0x027039, 0xe7ed), (0x027053, 0xe7ee), (0x02707b, 0xe7ef),
     (0x02712e, 0xe7f0), (0x027130, 0xe7f1), (0x027135, 0xe7f2), (0x027144, 0xe7f3), (0x02715d, 0xe7f4)]"

lemma table721_p0_ok: "entries_ok (word_of_int 0) (as_strings table721_p0) (word_of_int 0x02715d)"
  unfolding table721_p0_def as_strings_rune_words by (rule entries_ok_words; code_simp)

definition table721_p1 :: "runeEntry list" where
  "table721_p1 = rune_words [
     (0x027161, 0xe7f5), (0x027166, 0xe7f6), (0x027169, 0xe7f7), (0x027175, 0xe7f8), (0x027177, 0xe7f9),
     (0x02717a, 0xe7fa), (0x027221, 0xe7fb), (0x027223, 0xe7fc), (0x027224, 0xe7fd), (0x027228, 0xe7fe),
     (0x02722c, 0xe7ff), (0x02723d, 0xe800), (0x027248, 0xe801), (0x02725b, 0xe802), (0x027275, 0xe803),
     (0x027276, 0xe804), (0x027332, 0xe805), (0x02733d, 0xe806), (0x02733e, 0xe807), (0x027340, 0xe808),
     (0x027352, 0xe809), (0x02735d, 0xe80a), (0x02735e, 0xe80b), (0x027373, 0xe80c), (0x027374, 0xe80d),
     (0x027375, 0xe80e), (0x027377, 0xe80f), (0x02737b, 0xe810), (0x02737d, 0xe811), (0x027422, 0xe812),
     (0x027424, 0xe813), (0x027427, 0xe814), (0x02742e, 0xe815), (0x02742f, 0xe816), (0x027434, 0xe817),
     (0x027435, 0xe818), (0x02743d, 0xe819), (0x027442, 0xe81a), (0x02744f, 0xe81b), (0x027469, 0xe81c),
     (0x02746b, 0xe81d), (0x027472, 0xe81e), (0x027475, 0xe81f), (0x027479, 0xe820), (0x027535, 0xe821),
     (0x02753a, 0xe822), (0x027546, 0xe823), (0x027556, 0xe824), (0x027558, 0xe825), (0x02755a, 0xe826),
     (0x02755d, 0xe827), (0x02755f, 0xe828), (0x027563, 0xe829), (0x02756a, 0xe82a), (0x027570, 0xe82b),
     (0x027573, 0xe82c), (0x027644, 0xe82d), (0x02764e, 0xe82e), (0x02765d, 0xe82f), (0x027675, 0xe830),
     (0x02767e, 0xe831), (0x027721, 0xe832), (0x027722, 0xe833), (0x027733, 0xe834), (0x027736, 0xe835),
     (0x027764, 0xe836), (0x027765, 0xe837), (0x02776b, 0xe838), (0x02776e, 0xe839), (0x027773, 0xe83a),
     (0x027829, 0xe83b), (0x02782a, 0xe83c), (0x02782c, 0xe83d), (0x027834, 0xe83e), (0x02783c, 0xe83f),
     (0x02783e, 0xe840), (0x027842, 0xe841), (0x027856, 0xe842), (0x027863, 0xe843), (0x027877, 0xe844),
     (0x027879, 0xe845), (0x02787a, 0xe846), (0x027925, 0xe847), (0x02792f, 0xe848), (0x027932, 0xe849),
     (0x027939, 0xe84a), (0x027942, 0xe84b), (0x027948, 0xe84c), (0x027959, 0xe84d), (0x02795e, 0xe84e),
     (0x027966, 0xe84f), (0x02796b, 0xe850), (0x02797a, 0xe851), (0x02797e, 0xe852), (0x027a21, 0xe853),
     (0x027a2c, 0xe854), (0x027a2f, 0xe855), (0x027a4f, 0xe856), (0x027a50, 0xe857), (0x027a57, 0xe858),
     (0x027a65, 0xe859), (0x027a66, 0xe85a), (0x027a71, 0xe85b), (0x027a72, 0xe85c), (0x027a7e, 0xe85d),
     (0x027b21, 0xe85e), (0x027b2c, 0xe85f), (0x027b2d, 0xe860), (0x027b36, 0xe861), (0x027b37, 0xe862),
     (0x027b3d, 0xe863), (0x027b3e, 0xe864), (0x027b4e, 0xe865), (0x027b4f, 0xe866), (0x027b57, 0xe867),
     (0x027b5a, 0xe868), (0x027b5c, 0xe869), (0x027b5d, 0xe86a), (0x027b61, 0xe86b), (0x027b65, 0xe86c),
     (0x027b67, 0xe86d), (0x027b69, 0xe86e), (0x027b71, 0xe86f), (0x027c22, 0xe870), (0x027c23, 0xe871),
     (0x027c38, 0xe872), (0x027c42, 0xe873), (0x027c4c, 0xe874), (0x027c56, 0xe875), (0x027c59, 0xe876),
     (0x027c5d, 0xe877), (0x027c76, 0xe878), (0x027d2c, 0xe879), (0x027d4b, 0xe87a), (0x027d4c, 0xe87b),
     (0x027d59, 0xe87c), (0x027d5b, 0xe87d), (0x027d5d, 0xe87e), (0x027d67, 0xe87f), (0x027d6d, 0xe880),
     (0x027d70, 0xe881), (0x027e25, 0xe882), (0x027e29, 0xe883), (0x027e2b, 0xe884), (0x027e32, 0xe885),
     (0x027e35, 0xe886), (0x027e53, 0xe887), (0x027e58, 0xe888), (0x027e5a, 0xe889), (0x027e6e, 0xe88a),
     (0x027e70, 0xe88b), (0x027e72, 0xe88c), (0x027e76, 0xe88d)]"

lemma table721_p1_ok: "entries_ok (word_of_int 0x02715d) (as_strings table721_p1) (word_of_int 0x027e76)"
  unfolding table721_p1_def as_strings_rune_words by (rule entries_ok_words; code_simp)

definition aribTable721BMPKanjiPUA :: "runeEntry list" where
  "aribTable721BMPKanjiPUA = table721_p0 @ table721_p1"

lemma aribTable721BMPKanjiPUA_ok: "entries_ok (word_of_int 0) (as_strings aribTable721BMPKanjiPUA) (word_of_int 0x027e76)"
  unfolding aribTable721BMPKanjiPUA_def as_strings_append by (rule entries_ok_append table721_p0_ok table721_p1_ok)+

definition lookupARIBTable721BMPKanjiPUA :: "u8 \<Rightarrow> u8 \<Rightarrow> u8 \<Rightarrow> runes option" where
  "lookupARIBTable721BMPKanjiPUA plane first second =
     (let key = aribPlaneRowCellKey plane first second;
          i = sort_Search (length aribTable721BMPKanjiPUA) (\<lambda>i. fst (aribTable721BMPKanjiPUA ! i) \<ge> key)
      in if i \<ge> length aribTable721BMPKanjiPUA \<or> fst (aribTable721BMPKanjiPUA ! i) \<noteq> key then None
         else Some (string_rune (snd (aribTable721BMPKanjiPUA ! i))))"

section \<open>JIS X 0213\<close>

definition lookupJISX0213Delta :: "u32 \<Rightarrow> runes option" where
  "lookupJISX0213Delta key =
     (let i = sort_Search (length jisX0213DeltaDecode) (\<lambda>i. fst (jisX0213DeltaDecode ! i) \<ge> key)
      in if i \<ge> length jisX0213DeltaDecode \<or> fst (jisX0213DeltaDecode ! i) \<noteq> key then None
         else Some (snd (jisX0213DeltaDecode ! i)))"

definition jisX0213Plane1Undefined :: "u16 list" where
  "jisX0213Plane1Undefined = [
     0x247c, 0x247d, 0x247e, 0x285f, 0x2860, 0x2861, 0x2862, 0x2863, 0x2864, 0x2865, 0x2866, 0x287d, 0x287e, 0x2c74,
     0x2c75, 0x2c76, 0x2c77, 0x2c78, 0x2c79, 0x2c7a, 0x2c7b, 0x2c7c, 0x2d58, 0x2d59, 0x2d5a, 0x2d5b, 0x2d5c, 0x2d5d,
     0x2d5e, 0x2d70, 0x2d71, 0x2d72, 0x2d74, 0x2d75, 0x2d76, 0x2d77, 0x2d7a, 0x2d7b, 0x2d7c]"

definition jisX0213Plane1CellUndefined :: "u16 \<Rightarrow> bool" where
  "jisX0213Plane1CellUndefined key =
     (let i = sort_Search (length jisX0213Plane1Undefined) (\<lambda>i. jisX0213Plane1Undefined ! i \<ge> key)
      in i < length jisX0213Plane1Undefined \<and> jisX0213Plane1Undefined ! i = key)"

text \<open>An error of the decoder and a text with an undecodable character are both \<open>None\<close>.\<close>

definition decodeJISX0208Pair :: "jis_decoder \<Rightarrow> u8 \<Rightarrow> u8 \<Rightarrow> runes option" where
  "decodeJISX0208Pair iso2022jp first second =
     (case iso2022jp [0x1b, 0x24, 0x42, first, second, 0x1b, 0x28, 0x42] of
        None \<Rightarrow> None
      | Some s \<Rightarrow> if RuneError \<in> set s then None else Some s)"

definition lookupJISX0213 :: "jis_decoder \<Rightarrow> u8 \<Rightarrow> u8 \<Rightarrow> u8 \<Rightarrow> runes option" where
  "lookupJISX0213 iso2022jp plane first second =
     (if \<not> aribValidRowCell first second then None
      else case lookupJISX0213Delta (aribPlaneRowCellKey plane first second) of
             Some s \<Rightarrow> Some s
           | None \<Rightarrow>
               if plane = 1
               then if jisX0213Plane1CellUndefined (aribRowCellKey first second) then None
                    else case decodeJISX0208Pair iso2022jp first second of
                           None \<Rightarrow> None
                         | Some s \<Rightarrow> if s = [RuneError] then None else Some s
               else None)"

section \<open>The searches find what the tables hold\<close>

lemma entries_ok_sorted: "entries_ok lo es hi \<Longrightarrow> sorted_wrt (<) (map fst es) \<and> (\<forall>e \<in> set es. lo < fst e \<and> list_all printable (snd e))"
proof (induction es arbitrary: lo)
  case (Cons e es)
  then show ?case using Cons.IH [of "fst e"] by (auto intro: less_trans)
qed simp

lemma table721_sorted: "sorted_wrt (<) (map fst aribTable721BMPKanjiPUA)"
  using entries_ok_sorted [OF aribTable721BMPKanjiPUA_ok] by simp

lemma x0213_sorted: "sorted_wrt (<) (map fst jisX0213DeltaDecode)"
  using entries_ok_sorted [OF jisX0213DeltaDecode_ok] by simp

lemma undefined_sorted: "sorted_wrt (<) jisX0213Plane1Undefined"
  by (simp add: jisX0213Plane1Undefined_def)

lemma lookup721_map_of:
  "lookupARIBTable721BMPKanjiPUA plane first second
     = map_option string_rune (map_of aribTable721BMPKanjiPUA (aribPlaneRowCellKey plane first second))"
  unfolding lookupARIBTable721BMPKanjiPUA_def Let_def sort_Search_lookup [OF table721_sorted, symmetric] by simp

lemma lookup_delta_map_of: "lookupJISX0213Delta key = map_of jisX0213DeltaDecode key"
  unfolding lookupJISX0213Delta_def Let_def using sort_Search_lookup [OF x0213_sorted] .

lemma undefined_mem: "jisX0213Plane1CellUndefined key \<longleftrightarrow> key \<in> set jisX0213Plane1Undefined"
  unfolding jisX0213Plane1CellUndefined_def Let_def using sort_Search_sorted [OF undefined_sorted] .

text \<open>
  C24. The three binary searches of the character tables find exactly what the tables hold: a key is found if and only
  if it is in the table, with the text of its entry. The tables are sorted, which the searches rely on.
\<close>

theorem table_searches_correct:
  "lookupJISX0213Delta key = map_of jisX0213DeltaDecode key
   \<and> lookupARIBTable721BMPKanjiPUA plane first second
       = map_option string_rune (map_of aribTable721BMPKanjiPUA (aribPlaneRowCellKey plane first second))
   \<and> (jisX0213Plane1CellUndefined cell \<longleftrightarrow> cell \<in> set jisX0213Plane1Undefined)"
  by (simp add: lookup_delta_map_of lookup721_map_of undefined_mem)

section \<open>What the tables hold is printable\<close>

lemma printable_RuneError [simp]: "printable RuneError"
  by (simp add: printable_def RuneError_def)

lemma lookup_delta_printable: "lookupJISX0213Delta key = Some s \<Longrightarrow> list_all printable s"
  using entries_ok_sorted [OF jisX0213DeltaDecode_ok] by (auto simp: lookup_delta_map_of dest!: map_of_SomeD)

lemma lookup721_printable: "lookupARIBTable721BMPKanjiPUA plane first second = Some s \<Longrightarrow> list_all printable s"
proof -
  assume "lookupARIBTable721BMPKanjiPUA plane first second = Some s"
  then obtain k r where r: "(k, r) \<in> set aribTable721BMPKanjiPUA" "s = string_rune r"
    by (auto simp: lookup721_map_of dest!: map_of_SomeD)
  then have "(k, [r]) \<in> set (as_strings aribTable721BMPKanjiPUA)" unfolding as_strings_def by force
  then have "printable r" using entries_ok_sorted [OF aribTable721BMPKanjiPUA_ok] by fastforce
  then show ?thesis by (simp add: r(2) string_rune_def)
qed

end
