(* ===== verification/ARIB_String.thy ===== *)
theory ARIB_String
  imports ARIB_Tables
begin

text \<open>
  The decoder of ARIB strings: \<open>ts/aribstr/decode.go\<close>. A text is the list of its runes, the
  \<open>strings.Builder\<close> is such a list. \<open>iso2022jp\<close> stands for the decoder of the Go text library (see \<open>ARIB_Tables\<close>).
\<close>

section \<open>State\<close>

datatype aribGraphicSet =
    aribSetKanji | aribSetAlphanumeric | aribSetHiragana | aribSetKatakana | aribSetJISX0201Katakana
  | aribSetProportionalAlphanumeric | aribSetProportionalHiragana | aribSetProportionalKatakana
  | aribSetJISCompatibleKanjiPlane1 | aribSetJISCompatibleKanjiPlane2 | aribSetAdditionalSymbols
  | aribSetDRCS0 | aribSetDRCS1Byte | aribSetMacro

text \<open>\<open>g\<close> is an array of four sets; \<open>gl\<close> and \<open>gr\<close> are indices of it.\<close>

record aribStringDecoder =
  ad_g :: "aribGraphicSet list"
  ad_gl :: int
  ad_gr :: int
  ad_narrowAlnum :: bool

definition initial_decoder :: aribStringDecoder where
  "initial_decoder = \<lparr> ad_g = [aribSetKanji, aribSetAlphanumeric, aribSetHiragana, aribSetKatakana], ad_gl = 0, ad_gr = 2,
     ad_narrowAlnum = False \<rparr>"

section \<open>Characters\<close>

definition normalizeGraphicByte :: "u8 \<Rightarrow> bool \<Rightarrow> u8" where
  "normalizeGraphicByte b gr = (if gr then b AND 0x7f else b)"

definition decodeARIBAlnum :: "aribStringDecoder \<Rightarrow> u8 \<Rightarrow> rune" where
  "decodeARIBAlnum d b =
     (if b = 0x20 then 0x3000
      else if ad_narrowAlnum d \<and> b \<ge> 0x21 \<and> b \<le> 0x7e then ucast b
      else if b = 0x22 then 0x201d
      else if b \<ge> 0x30 \<and> b \<le> 0x39 then (if ad_narrowAlnum d then 0x30 + ucast (b - 0x30) else 0xff10 + ucast (b - 0x30))
      else if b \<ge> 0x41 \<and> b \<le> 0x5a then 0xff21 + ucast (b - 0x41)
      else if b \<ge> 0x61 \<and> b \<le> 0x7a then 0xff41 + ucast (b - 0x61)
      else if b \<ge> 0x21 \<and> b \<le> 0x7e then 0xff01 + ucast (b - 0x21)
      else RuneError)"

definition decodeJISX0201Katakana :: "u8 \<Rightarrow> rune" where
  "decodeJISX0201Katakana b = (if b \<ge> 0x21 \<and> b \<le> 0x5f then 0xff61 + ucast (b - 0x21) else RuneError)"

definition aribHiraganaOverrides :: "(u8, runes) gomap" where
  "aribHiraganaOverrides = [(0x77, [0x309d]), (0x78, [0x309e]), (0x79, [0x30fc]), (0x7a, [0x3002]), (0x7b, [0x300c]), (0x7c, [0x300d]),
     (0x7d, [0x3001]), (0x7e, [0x30fb])]"

definition aribKatakanaOverrides :: "(u8, runes) gomap" where
  "aribKatakanaOverrides = [(0x77, [0x30fd]), (0x78, [0x30fe]), (0x79, [0x30fc]), (0x7a, [0x3002]), (0x7b, [0x300c]), (0x7c, [0x300d]),
     (0x7d, [0x3001]), (0x7e, [0x30fb])]"

definition aribJISX0208Overrides :: "(u16, runes) gomap" where
  "aribJISX0208Overrides = [(0x213d, [0x2014]), (0x2141, [0x301c]), (0x215d, [0x2212])]"

text \<open>The symbol of a cell, if its row may hold one: the first lookup of \<open>decodeJISX0208Graphic\<close>.\<close>

definition symbol_first :: "u8 \<Rightarrow> u8 \<Rightarrow> runes option go" where
  "symbol_first first second =
     (if first = 0x75 \<or> first = 0x76 \<or> first \<ge> 0x7a then lookupARIBTable719AdditionalSymbol first second else Some None)"

definition decodeJISX0208Graphic :: "jis_decoder \<Rightarrow> u8 \<Rightarrow> u8 \<Rightarrow> runes go" where
  "decodeJISX0208Graphic iso2022jp first second =
     (if \<not> aribValidRowCell first second then Some [RuneError]
      else do {
        symbol \<leftarrow> symbol_first first second;
        case symbol of
          Some s \<Rightarrow> Some s
        | None \<Rightarrow>
            (case map_of aribJISX0208Overrides (aribRowCellKey first second) of
               Some s \<Rightarrow> Some s
             | None \<Rightarrow>
                 (case decodeJISX0208Pair iso2022jp first second of
                    None \<Rightarrow> Some [RuneError]
                  | Some s \<Rightarrow> Some (if s = [] then [RuneError] else s)))
      })"

definition decodeARIBHiragana :: "jis_decoder \<Rightarrow> u8 \<Rightarrow> runes go" where
  "decodeARIBHiragana iso2022jp b =
     (case map_of aribHiraganaOverrides b of Some s \<Rightarrow> Some s | None \<Rightarrow> decodeJISX0208Graphic iso2022jp 0x24 b)"

definition decodeARIBKatakana :: "jis_decoder \<Rightarrow> u8 \<Rightarrow> runes go" where
  "decodeARIBKatakana iso2022jp b =
     (case map_of aribKatakanaOverrides b of Some s \<Rightarrow> Some s | None \<Rightarrow> decodeJISX0208Graphic iso2022jp 0x25 b)"

definition decodeARIBNarrowJISRoman :: "u8 \<Rightarrow> runes" where
  "decodeARIBNarrowJISRoman b = (if b \<ge> 0x21 \<and> b \<le> 0x7e then string_rune (ucast b) else [RuneError])"

definition decodeARIBAdditionalSymbol :: "jis_decoder \<Rightarrow> u8 \<Rightarrow> u8 \<Rightarrow> runes go" where
  "decodeARIBAdditionalSymbol iso2022jp first second = do {
     symbol \<leftarrow> lookupARIBTable719AdditionalSymbol first second;
     case symbol of
       Some s \<Rightarrow> Some s
     | None \<Rightarrow> do {
         s \<leftarrow> decodeJISX0208Graphic iso2022jp first second;
         Some (if s \<noteq> [RuneError] then s else [RuneError])
       }
   }"

definition decodeARIBDRCS0 :: "u8 \<Rightarrow> u8 \<Rightarrow> runes go" where
  "decodeARIBDRCS0 first second = do {
     symbol \<leftarrow> lookupARIBTable719AdditionalSymbol first second;
     Some (case symbol of Some s \<Rightarrow> s | None \<Rightarrow> [RuneError])
   }"

definition decodeARIBJISCompatibleKanji :: "jis_decoder \<Rightarrow> u8 \<Rightarrow> u8 \<Rightarrow> u8 \<Rightarrow> runes" where
  "decodeARIBJISCompatibleKanji iso2022jp plane first second =
     (case lookupARIBTable721BMPKanjiPUA plane first second of
        Some s \<Rightarrow> s
      | None \<Rightarrow> (case lookupJISX0213 iso2022jp plane first second of Some s \<Rightarrow> s | None \<Rightarrow> [RuneError]))"

section \<open>Graphic characters\<close>

text \<open>A character of a set of two bytes per character.\<close>

definition decode_double :: "jis_decoder \<Rightarrow> aribStringDecoder \<Rightarrow> bytes \<Rightarrow> int \<Rightarrow> aribGraphicSet \<Rightarrow> u8 \<Rightarrow> (runes \<times> int) go" where
  "decode_double iso2022jp d b i gset first =
     (let symbols = (gset = aribSetAdditionalSymbols \<or> gset = aribSetDRCS0)
      in if i + 1 \<ge> blen b then Some (if symbols then [] else [RuneError], blen b)
         else do {
           c \<leftarrow> idx b (i + 1);
           let second = normalizeGraphicByte c (c \<ge> 0xa1);
           if symbols \<and> (second < 0x21 \<or> second > 0x7e) then Some ([], i + 2)
           else if gset = aribSetKanji \<and> ad_narrowAlnum d \<and> first = 0x21 \<and> second = 0x21 then Some ([0x20], i + 2)
           else if gset = aribSetKanji \<and> ad_narrowAlnum d \<and> first = 0x23 then Some (decodeARIBNarrowJISRoman second, i + 2)
           else do {
             s \<leftarrow> (case gset of
                    aribSetAdditionalSymbols \<Rightarrow> decodeARIBAdditionalSymbol iso2022jp first second
                  | aribSetDRCS0 \<Rightarrow> decodeARIBDRCS0 first second
                  | aribSetJISCompatibleKanjiPlane1 \<Rightarrow> Some (decodeARIBJISCompatibleKanji iso2022jp 1 first second)
                  | aribSetJISCompatibleKanjiPlane2 \<Rightarrow> Some (decodeARIBJISCompatibleKanji iso2022jp 2 first second)
                  | _ \<Rightarrow> decodeJISX0208Graphic iso2022jp first second);
             Some (s, i + 2)
           }
         })"

definition decodeGraphic :: "jis_decoder \<Rightarrow> aribStringDecoder \<Rightarrow> bytes \<Rightarrow> int \<Rightarrow> aribGraphicSet \<Rightarrow> bool \<Rightarrow> (runes \<times> int) go" where
  "decodeGraphic iso2022jp d b i gset gr = do {
     c \<leftarrow> idx b i;
     let first = normalizeGraphicByte c gr;
     if gset \<in> {aribSetKanji, aribSetJISCompatibleKanjiPlane1, aribSetJISCompatibleKanjiPlane2, aribSetAdditionalSymbols, aribSetDRCS0}
     then decode_double iso2022jp d b i gset first
     else if gset \<in> {aribSetAlphanumeric, aribSetProportionalAlphanumeric} then Some (string_rune (decodeARIBAlnum d first), i + 1)
     else if gset \<in> {aribSetHiragana, aribSetProportionalHiragana} then do { s \<leftarrow> decodeARIBHiragana iso2022jp first; Some (s, i + 1) }
     else if gset \<in> {aribSetKatakana, aribSetProportionalKatakana} then do { s \<leftarrow> decodeARIBKatakana iso2022jp first; Some (s, i + 1) }
     else if gset = aribSetJISX0201Katakana then Some (string_rune (decodeJISX0201Katakana first), i + 1)
     else if gset = aribSetDRCS1Byte then Some ([RuneError], i + 1)
     else if gset = aribSetMacro then Some ([], i + 1)
     else Some ([RuneError], i + 1)
   }"

section \<open>Controls\<close>

definition designateGSet :: "u8 \<Rightarrow> bool \<Rightarrow> aribGraphicSet" where
  "designateGSet final multiByte =
     (if final = 0x42 then aribSetKanji
      else if final = 0x4a then aribSetAlphanumeric
      else if final = 0x30 then aribSetHiragana
      else if final = 0x31 then aribSetKatakana
      else if final = 0x36 then aribSetProportionalAlphanumeric
      else if final = 0x37 then aribSetProportionalHiragana
      else if final = 0x38 then aribSetProportionalKatakana
      else if final = 0x39 then aribSetJISCompatibleKanjiPlane1
      else if final = 0x3a then aribSetJISCompatibleKanjiPlane2
      else if final = 0x49 then aribSetJISX0201Katakana
      else if final = 0x3b then aribSetAdditionalSymbols
      else if final = 0x40 then aribSetDRCS0
      else if final = 0x70 then aribSetMacro
      else if multiByte then aribSetKanji
      else aribSetAlphanumeric)"

definition designateDRCS1Byte :: "u8 \<Rightarrow> aribGraphicSet" where
  "designateDRCS1Byte final = (if final \<ge> 0x41 \<and> final \<le> 0x4f then aribSetDRCS1Byte else aribSetDRCS1Byte)"

text \<open>The assignment \<open>d.g[g] = set\<close>; it panics outside of the array.\<close>

definition set_g :: "aribStringDecoder \<Rightarrow> int \<Rightarrow> aribGraphicSet \<Rightarrow> aribStringDecoder go" where
  "set_g d g gset = do { _ \<leftarrow> idx (ad_g d) g; Some (d\<lparr> ad_g := (ad_g d)[nat g := gset] \<rparr>) }"

definition decodeEscape :: "aribStringDecoder \<Rightarrow> bytes \<Rightarrow> int \<Rightarrow> (aribStringDecoder \<times> int) go" where
  "decodeEscape d b i =
     (if i + 1 \<ge> blen b then Some (d, blen b)
      else do {
        c \<leftarrow> idx b (i + 1);
        if c = 0x6e then Some (d\<lparr> ad_gl := 2 \<rparr>, i + 2)
        else if c = 0x6f then Some (d\<lparr> ad_gl := 3 \<rparr>, i + 2)
        else if c = 0x7e then Some (d\<lparr> ad_gr := 1 \<rparr>, i + 2)
        else if c = 0x7d then Some (d\<lparr> ad_gr := 2 \<rparr>, i + 2)
        else if c = 0x7c then Some (d\<lparr> ad_gr := 3 \<rparr>, i + 2)
        else if c = 0x28 \<or> c = 0x29 \<or> c = 0x2a \<or> c = 0x2b
        then let g = uint (c - 0x28)
             in if i + 2 \<ge> blen b then Some (d, blen b)
                else do {
                  f \<leftarrow> idx b (i + 2);
                  if f = 0x20
                  then if i + 3 \<ge> blen b then Some (d, blen b)
                       else do { f3 \<leftarrow> idx b (i + 3); d \<leftarrow> set_g d g (designateDRCS1Byte f3); Some (d, i + 4) }
                  else do { d \<leftarrow> set_g d g (designateGSet f False); Some (d, i + 3) }
                }
        else if c = 0x24
        then if i + 2 \<ge> blen b then Some (d, blen b)
             else do {
               f \<leftarrow> idx b (i + 2);
               if f \<ge> 0x28 \<and> f \<le> 0x2b
               then let g = uint (f - 0x28)
                    in if i + 3 \<ge> blen b then Some (d, blen b)
                       else do { f3 \<leftarrow> idx b (i + 3); d \<leftarrow> set_g d g (designateGSet f3 True); Some (d, i + 4) }
               else do { d \<leftarrow> set_g d 0 (designateGSet f True); Some (d, i + 3) }
             }
        else Some (d, i + 2)
      })"

text \<open>A single shift to \<open>d.g[g]\<close>: the controls 0x19 and 0x1d.\<close>

definition single_shift :: "jis_decoder \<Rightarrow> aribStringDecoder \<Rightarrow> bytes \<Rightarrow> int \<Rightarrow> int \<Rightarrow> (aribStringDecoder \<times> runes \<times> int) go" where
  "single_shift iso2022jp d b i g =
     (if i + 1 \<ge> blen b then Some (d, [RuneError], blen b)
      else do {
        gset \<leftarrow> idx (ad_g d) g;
        c \<leftarrow> idx b (i + 1);
        (s, next) \<leftarrow> decodeGraphic iso2022jp d b (i + 1) gset (c \<ge> 0xa1);
        Some (d, s, next)
      })"

text \<open>The second component of the result is what is written to \<open>out\<close>.\<close>

definition decodeC0 :: "jis_decoder \<Rightarrow> aribStringDecoder \<Rightarrow> bytes \<Rightarrow> int \<Rightarrow> (aribStringDecoder \<times> runes \<times> int) go" where
  "decodeC0 iso2022jp d b i = do {
     c \<leftarrow> idx b i;
     if c = 0x0d then Some (d, [0x0a], i + 1)
     else if c = 0x0e then Some (d\<lparr> ad_gl := 1 \<rparr>, [], i + 1)
     else if c = 0x0f then Some (d\<lparr> ad_gl := 0 \<rparr>, [], i + 1)
     else if c = 0x16 then Some (d, [], min (i + 2) (blen b))
     else if c = 0x19 then single_shift iso2022jp d b i 2
     else if c = 0x1b then do { (d, next) \<leftarrow> decodeEscape d b i; Some (d, [], next) }
     else if c = 0x1c then Some (d, [], min (i + 3) (blen b))
     else if c = 0x1d then single_shift iso2022jp d b i 3
     else Some (d, [], i + 1)
   }"

text \<open>The loop over the parameters of a CSI control, from index \<open>j\<close>.\<close>

fun csi_end :: "bytes \<Rightarrow> int \<Rightarrow> int" where
  "csi_end [] j = j"
| "csi_end (c # b) j = (if c \<ge> 0x40 \<and> c \<le> 0x7e then j + 1 else csi_end b (j + 1))"

definition skipC1Control :: "aribStringDecoder \<Rightarrow> bytes \<Rightarrow> int \<Rightarrow> (aribStringDecoder \<times> int) go" where
  "skipC1Control d b i = do {
     c \<leftarrow> idx b i;
     Some (if c = 0x89 then (d\<lparr> ad_narrowAlnum := True \<rparr>, i + 1)
           else if c = 0x8a then (d\<lparr> ad_narrowAlnum := False \<rparr>, i + 1)
           else if c = 0x90 \<or> c = 0x91 \<or> c = 0x92 \<or> c = 0x97 \<or> c = 0x98 then (d, min (i + 2) (blen b))
           else if c = 0x9b then (d, csi_end (drop (nat (i + 1)) b) (i + 1))
           else if c = 0x9d then (d, min (i + 3) (blen b))
           else (d, i + 1))
   }"

section \<open>Decoding\<close>

text \<open>The body of the loop: what it writes, and the next index.\<close>

definition decode_next :: "jis_decoder \<Rightarrow> aribStringDecoder \<Rightarrow> bytes \<Rightarrow> int \<Rightarrow> (aribStringDecoder \<times> runes \<times> int) go" where
  "decode_next iso2022jp d b i = do {
     c \<leftarrow> idx b i;
     if c = 0x20 \<or> c = 0xa0 then Some (d, [if ad_narrowAlnum d then 0x20 else 0x3000], i + 1)
     else if c \<le> 0x1f
     then do { (d, s, next) \<leftarrow> decodeC0 iso2022jp d b i; Some (d, s, if next \<le> i then i + 1 else next) }
     else if c \<ge> 0x80 \<and> c \<le> 0x9f then do { (d, next) \<leftarrow> skipC1Control d b i; Some (d, [], next) }
     else do {
       dot \<leftarrow> (if c = 0xfe then do { gset \<leftarrow> idx (ad_g d) (ad_gl d); Some (gset \<in> {aribSetAlphanumeric, aribSetProportionalAlphanumeric}) }
               else Some False);
       if dot then Some (d, [0x30fb], i + 1)
       else if c \<ge> 0x21 \<and> c \<le> 0x7e
       then do { gset \<leftarrow> idx (ad_g d) (ad_gl d); (s, next) \<leftarrow> decodeGraphic iso2022jp d b i gset False; Some (d, s, next) }
       else if c \<ge> 0xa1 \<and> c \<le> 0xfe
       then do { gset \<leftarrow> idx (ad_g d) (ad_gr d); (s, next) \<leftarrow> decodeGraphic iso2022jp d b i gset True; Some (d, s, next) }
       else Some (d, [RuneError], i + 1)
     }
   }"

lemma csi_end_ge: "j \<le> csi_end b j \<and> csi_end b j \<le> j + blen b"
proof (induction b arbitrary: j)
  case (Cons c b)
  show ?case using Cons.IH [of "j + 1"] by simp
qed simp

lemma decode_double_next:
  "decode_double iso2022jp d b i gset first = Some (s, next) \<Longrightarrow> i < blen b \<Longrightarrow> i < next \<and> next \<le> blen b"
  by (auto simp: decode_double_def Let_def bind_eq_Some_conv split: if_splits)

lemma decodeGraphic_next: "decodeGraphic iso2022jp d b i gset gr = Some (s, next) \<Longrightarrow> i < next \<and> next \<le> blen b"
  unfolding decodeGraphic_def Let_def
  by (auto simp: bind_eq_Some_conv dest!: idx_SomeD dest: decode_double_next split: if_splits)

lemma decode_next_progress: "decode_next iso2022jp d b i = Some (d', s, i') \<Longrightarrow> i < i'"
  unfolding decode_next_def
  by (auto simp: bind_eq_Some_conv skipC1Control_def dest!: idx_SomeD dest: decodeGraphic_next
      intro: less_le_trans [OF _ csi_end_ge [THEN conjunct1]] split: if_splits prod.splits)

function decode_loop :: "jis_decoder \<Rightarrow> aribStringDecoder \<Rightarrow> bytes \<Rightarrow> int \<Rightarrow> runes \<Rightarrow> (aribStringDecoder \<times> runes) go" where
  "decode_loop iso2022jp d b i out =
     (if i < blen b
      then do {
        (d, s, i) \<leftarrow> decode_next iso2022jp d b i;
        decode_loop iso2022jp d b i (out @ s)
      }
      else Some (d, out))"
  by pat_completeness auto
termination
  by (relation "measure (\<lambda>(iso2022jp, d, b, i, out). nat (blen b - i))") (auto dest: decode_next_progress)

declare decode_loop.simps [simp del]

text \<open>\<open>Decode\<close> returns no error.\<close>

definition Decode :: "jis_decoder \<Rightarrow> bytes \<Rightarrow> runes res" where
  "Decode iso2022jp b = do {
     (d, out) \<leftarrow> decode_loop iso2022jp initial_decoder b 0 [];
     res_ok out
   }"

section \<open>Every byte sequence is decoded to text\<close>

text \<open>
  What is used of \<open>ISO2022JP\<close>: a two-byte character of JIS X 0208 is decoded to printable characters, if at all.
\<close>

definition decodes_graphics :: "jis_decoder \<Rightarrow> bool" where
  "decodes_graphics iso2022jp \<longleftrightarrow>
     (\<forall>first second s. aribValidRowCell first second \<longrightarrow> iso2022jp [0x1b, 0x24, 0x42, first, second, 0x1b, 0x28, 0x42] = Some s
        \<longrightarrow> list_all printable s)"

definition text_rune :: "rune \<Rightarrow> bool" where
  "text_rune r \<longleftrightarrow> printable r \<or> r = 0x0a"

definition decoder_ok :: "aribStringDecoder \<Rightarrow> bool" where
  "decoder_ok d \<longleftrightarrow> length (ad_g d) = 4 \<and> 0 \<le> ad_gl d \<and> ad_gl d < 4 \<and> 0 \<le> ad_gr d \<and> ad_gr d < 4"

lemma row_printable: "list_all (\<lambda>r. r = 0 \<or> printable_int r) rs \<Longrightarrow> list_all (\<lambda>r. r = 0 \<or> printable r) (map word_of_int rs)"
  by (auto simp: list_all_iff intro: printable_word)

definition cells_ok :: "rune list \<Rightarrow> bool" where
  "cells_ok rs \<longleftrightarrow> length rs = 94 \<and> list_all (\<lambda>r. r = 0 \<or> printable r) rs"

lemma cells_ok_words: "length rs = 94 \<and> list_all (\<lambda>r. r = 0 \<or> printable_int r) rs \<Longrightarrow> cells_ok (map word_of_int rs)"
  using row_printable by (simp add: cells_ok_def)

lemma row75_ok: "cells_ok aribTable719Row75"
  unfolding aribTable719Row75_def by (rule cells_ok_words) code_simp

lemma row76_ok: "cells_ok aribTable719Row76"
  unfolding aribTable719Row76_def by (rule cells_ok_words) code_simp

lemma row7a_ok: "cells_ok aribTable719Row7a"
  unfolding aribTable719Row7a_def by (rule cells_ok_words) code_simp

lemma row7b_ok: "cells_ok aribTable719Row7b"
  unfolding aribTable719Row7b_def by (rule cells_ok_words) code_simp

lemma row7c_ok: "cells_ok aribTable719Row7c"
  unfolding aribTable719Row7c_def by (rule cells_ok_words) code_simp

lemma row7d_ok: "cells_ok aribTable719Row7d"
  unfolding aribTable719Row7d_def by (rule cells_ok_words) code_simp

lemma row7e_ok: "cells_ok aribTable719Row7e"
  unfolding aribTable719Row7e_def by (rule cells_ok_words) code_simp

lemma table719_rows_ok: "table719_row first = Some row \<Longrightarrow> cells_ok row"
  using row75_ok row76_ok row7a_ok row7b_ok row7c_ok row7d_ok row7e_ok by (auto simp: table719_row_def split: if_splits)

lemma string_rune_printable [simp]: "printable r \<Longrightarrow> string_rune r = [r]"
  by (auto simp: string_rune_def printable_def)

lemma lookup719_ok: "go_ok (lookupARIBTable719AdditionalSymbol first second) (\<lambda>r. \<forall>s. r = Some s \<longrightarrow> list_all printable s)"
proof (cases "table719_row first")
  case (Some row)
  show ?thesis
  proof (cases "second < 0x21 \<or> second > 0x7e")
    case False
    define n where "n = uint (second - 0x21)"
    have "uint (second - 0x21) = uint second - 33" using False by (simp add: uint_sub_if' word_less_def not_less)
    then have n: "0 \<le> n" "n < 94" using False by (simp_all add: n_def word_less_def not_less)
    have row: "length row = 94" "list_all (\<lambda>r. r = 0 \<or> printable r) row" using table719_rows_ok [OF Some] by (simp_all add: cells_ok_def)
    have "nat n < length row" using n row(1) by simp
    then have entry: "row ! nat n = 0 \<or> printable (row ! nat n)" using row(2) by (simp add: list_all_length)
    have "lookupARIBTable719AdditionalSymbol first second = Some (if row ! nat n = 0 then None else Some (string_rune (row ! nat n)))"
      unfolding lookupARIBTable719AdditionalSymbol_def Some if_not_P [OF False] n_def [symmetric] using n row(1) by simp
    then show ?thesis using entry by auto
  qed (simp add: lookupARIBTable719AdditionalSymbol_def)
qed (simp add: lookupARIBTable719AdditionalSymbol_def)

text \<open>Characters that are computed from their code.\<close>

lemma uint_offset:
  fixes b c :: u8 and k :: u32
  assumes "c \<le> b" "uint k < 0x1000000"
  shows "uint (k + ucast (b - c)) = uint k + (uint b - uint c)"
proof -
  have "uint b < 256" "0 \<le> uint c" "0 \<le> uint k" using uint_bounded [of b] by simp_all
  moreover have le: "uint c \<le> uint b" using assms(1) by (simp add: word_le_def)
  ultimately have "0 \<le> uint k + (uint b - uint c)" "uint k + (uint b - uint c) < 0x100000000" using assms(2) by linarith+
  moreover have "uint (ucast (b - c) :: u32) = uint b - uint c"
    using le by (simp add: uint_up_ucast is_up uint_sub_if')
  ultimately show ?thesis by (simp add: uint_word_ariths)
qed

lemma alnum_printable: "printable (decodeARIBAlnum d b)"
  unfolding decodeARIBAlnum_def printable_def
  by (auto simp: word_le_def uint_offset RuneError_def uint_up_ucast is_up)

lemma katakana_printable: "printable (decodeJISX0201Katakana b)"
  unfolding decodeJISX0201Katakana_def printable_def
  by (auto simp: word_le_def uint_offset RuneError_def)

lemma printable_space: "printable 0x20"
  by (simp add: printable_def)

lemma roman_printable: "list_all printable (decodeARIBNarrowJISRoman b)"
proof -
  have "printable (ucast b)" if "b \<ge> 0x21" "b \<le> 0x7e"
    using that by (simp add: printable_def word_le_def uint_up_ucast is_up)
  then show ?thesis by (simp add: decodeARIBNarrowJISRoman_def)
qed

lemma pair_printable:
  "decodes_graphics iso2022jp \<Longrightarrow> aribValidRowCell first second \<Longrightarrow> decodeJISX0208Pair iso2022jp first second = Some s \<Longrightarrow> list_all printable s"
  by (auto simp: decodeJISX0208Pair_def decodes_graphics_def split: option.splits if_splits)

lemma lookup_x0213_printable:
  "decodes_graphics iso2022jp \<Longrightarrow> lookupJISX0213 iso2022jp plane first second = Some s \<Longrightarrow> list_all printable s"
  by (auto simp: lookupJISX0213_def dest: lookup_delta_printable pair_printable split: if_splits option.splits)

lemma compatible_printable:
  "decodes_graphics iso2022jp \<Longrightarrow> list_all printable (decodeARIBJISCompatibleKanji iso2022jp plane first second)"
  by (auto simp: decodeARIBJISCompatibleKanji_def dest: lookup721_printable lookup_x0213_printable split: option.splits)

lemma overrides_printable:
  "map_of aribHiraganaOverrides b = Some s \<Longrightarrow> list_all printable s"
  "map_of aribKatakanaOverrides b = Some s \<Longrightarrow> list_all printable s"
  "map_of aribJISX0208Overrides k = Some s \<Longrightarrow> list_all printable s"
  by (auto simp: aribHiraganaOverrides_def aribKatakanaOverrides_def aribJISX0208Overrides_def printable_def split: if_splits)

lemma symbol_first_ok: "go_ok (symbol_first first second) (\<lambda>r. \<forall>s. r = Some s \<longrightarrow> list_all printable s)"
  using lookup719_ok by (simp add: symbol_first_def)

lemma graphic_ok: "decodes_graphics iso2022jp \<Longrightarrow> go_ok (decodeJISX0208Graphic iso2022jp first second) (list_all printable)"
  unfolding decodeJISX0208Graphic_def
  by (auto simp: go_ok_bind dest: overrides_printable pair_printable intro!: go_ok_mono [OF symbol_first_ok] split: option.splits)

lemma kana_ok:
  assumes "decodes_graphics iso2022jp"
  shows "go_ok (decodeARIBHiragana iso2022jp b) (list_all printable)" "go_ok (decodeARIBKatakana iso2022jp b) (list_all printable)"
  unfolding decodeARIBHiragana_def decodeARIBKatakana_def
  using graphic_ok [OF assms] by (auto dest: overrides_printable split: option.splits)

lemma additional_ok: "decodes_graphics iso2022jp \<Longrightarrow> go_ok (decodeARIBAdditionalSymbol iso2022jp first second) (list_all printable)"
  unfolding decodeARIBAdditionalSymbol_def
  by (auto simp: go_ok_bind intro!: go_ok_mono [OF lookup719_ok] go_ok_mono [OF graphic_ok] split: option.splits)

lemma drcs_ok: "go_ok (decodeARIBDRCS0 first second) (list_all printable)"
  unfolding decodeARIBDRCS0_def by (auto simp: go_ok_bind intro!: go_ok_mono [OF lookup719_ok] split: option.splits)

lemmas character_ok = graphic_ok kana_ok additional_ok drcs_ok

lemma decode_double_ok:
  assumes "decodes_graphics iso2022jp" "0 \<le> i" "i < blen b"
  shows "go_ok (decode_double iso2022jp d b i gset first) (\<lambda>(s, next). list_all printable s)"
  unfolding decode_double_def Let_def
  using assms
  by (auto simp: go_ok_bind go_ok_idx roman_printable compatible_printable printable_space
      intro!: go_ok_mono [OF character_ok(1)] go_ok_mono [OF additional_ok] go_ok_mono [OF drcs_ok] split: aribGraphicSet.splits)

lemma decodeGraphic_ok:
  assumes "decodes_graphics iso2022jp" "0 \<le> i" "i < blen b"
  shows "go_ok (decodeGraphic iso2022jp d b i gset gr) (\<lambda>(s, next). list_all printable s \<and> i < next)"
proof -
  have "go_ok (decodeGraphic iso2022jp d b i gset gr) (\<lambda>(s, next). list_all printable s)"
    unfolding decodeGraphic_def Let_def
    using assms
    by (auto simp: go_ok_bind go_ok_idx alnum_printable katakana_printable intro!: decode_double_ok go_ok_mono [OF kana_ok(1)] go_ok_mono [OF kana_ok(2)])
  then show ?thesis by (auto simp: go_ok_def dest: decodeGraphic_next)
qed

lemma printable_text [simp]: "printable r \<Longrightarrow> text_rune r"
  by (simp add: text_rune_def)

lemma list_printable_text: "list_all printable s \<Longrightarrow> list_all text_rune s"
  by (auto simp: list_all_iff)

lemma decoder_ok_g: "decoder_ok d \<Longrightarrow> 0 \<le> g \<Longrightarrow> g < 4 \<Longrightarrow> go_ok (idx (ad_g d) g) P \<longleftrightarrow> P (ad_g d ! nat g)"
  by (simp add: decoder_ok_def go_ok_idx)

text \<open>
  What a step leaves: a decoder whose indices are in range, and text. The rules below follow the code along one path.
\<close>

definition step_ok :: "aribStringDecoder \<times> runes \<times> int \<Rightarrow> bool" where
  "step_ok r \<longleftrightarrow> decoder_ok (fst r) \<and> list_all text_rune (fst (snd r))"

lemma go_ok_ifI: "(c \<Longrightarrow> go_ok m P) \<Longrightarrow> (\<not> c \<Longrightarrow> go_ok n P) \<Longrightarrow> go_ok (if c then m else n) P"
  by simp

lemma go_ok_idxI: "0 \<le> i \<Longrightarrow> i < blen xs \<Longrightarrow> go_ok (f (xs ! nat i)) P \<Longrightarrow> go_ok (idx xs i \<bind> f) P"
  by (simp add: go_ok_bind)

lemma go_ok_gI: "decoder_ok d \<Longrightarrow> 0 \<le> g \<Longrightarrow> g < 4 \<Longrightarrow> go_ok (f (ad_g d ! nat g)) P \<Longrightarrow> go_ok (idx (ad_g d) g \<bind> f) P"
  by (simp add: go_ok_bind decoder_ok_def)

lemma go_ok_bindI: "go_ok m Q \<Longrightarrow> (\<And>x. Q x \<Longrightarrow> go_ok (f x) P) \<Longrightarrow> go_ok (m \<bind> f) P"
  by (auto simp: go_ok_bind intro: go_ok_mono)

lemma set_g_ok: "decoder_ok d \<Longrightarrow> 0 \<le> g \<Longrightarrow> g < 4 \<Longrightarrow> go_ok (set_g d g s) decoder_ok"
  unfolding set_g_def by (rule go_ok_gI) (simp_all add: decoder_ok_def)

lemma set_gI:
  "decoder_ok d \<Longrightarrow> 0 \<le> g \<Longrightarrow> g < 4 \<Longrightarrow> (\<And>d. decoder_ok d \<Longrightarrow> go_ok (f d) P) \<Longrightarrow> go_ok (set_g d g s \<bind> f) P"
  by (rule go_ok_bindI [OF set_g_ok])

lemma designated_index:
  fixes c :: u8
  assumes "c \<ge> 0x28 \<and> c \<le> 0x2b"
  shows "uint (c - 0x28) < 4"
proof -
  have "uint (c - 0x28) = uint c - 0x28" using assms by (simp add: uint_sub_if' word_le_def)
  then show ?thesis using assms by (simp add: word_le_def)
qed

lemma decodeEscape_ok:
  assumes d: "decoder_ok d" and i: "0 \<le> i" "i < blen b"
  shows "go_ok (decodeEscape d b i) (\<lambda>x. decoder_ok (fst x))"
proof -
  have index: "uint (c - 0x28) < 4" if "c = 0x28 \<or> c = 0x29 \<or> c = 0x2a \<or> c = 0x2b" for c :: u8 using that by auto
  show ?thesis
    unfolding decodeEscape_def Let_def
    by (intro go_ok_ifI go_ok_idxI set_gI; (simp add: i index designated_index)?; use d i in \<open>simp add: decoder_ok_def\<close>)
qed

lemma single_shift_ok:
  assumes iso: "decodes_graphics iso2022jp" and d: "decoder_ok d" and i: "0 \<le> i" "i < blen b" and g: "0 \<le> g" "g < 4"
  shows "go_ok (single_shift iso2022jp d b i g) step_ok"
proof (cases "i + 1 < blen b")
  case True
  show ?thesis
    unfolding single_shift_def using True d i g
    by (simp add: go_ok_bind decoder_ok_g)
      (auto simp: step_ok_def intro!: go_ok_mono [OF decodeGraphic_ok [OF iso]] list_printable_text)
qed (simp add: single_shift_def step_ok_def d)

lemma decodeC0_ok:
  assumes iso: "decodes_graphics iso2022jp" and d: "decoder_ok d" and i: "0 \<le> i" "i < blen b"
  shows "go_ok (decodeC0 iso2022jp d b i) step_ok"
  unfolding decodeC0_def
  by (intro go_ok_ifI go_ok_idxI i go_ok_bindI [OF decodeEscape_ok [OF d i]] single_shift_ok [OF iso d i])
    (use d in \<open>auto simp: step_ok_def decoder_ok_def text_rune_def\<close>)

lemma skipC1Control_ok:
  assumes "decoder_ok d" "0 \<le> i" "i < blen b"
  shows "go_ok (skipC1Control d b i) (\<lambda>x. decoder_ok (fst x))"
  unfolding skipC1Control_def using assms by (auto simp: go_ok_bind decoder_ok_def)

lemma decode_next_ok:
  assumes iso: "decodes_graphics iso2022jp" and d: "decoder_ok d" and i: "0 \<le> i" "i < blen b"
  shows "go_ok (decode_next iso2022jp d b i) (\<lambda>r. step_ok r \<and> i < snd (snd r))"
proof -
  have gs: "0 \<le> ad_gl d" "ad_gl d < 4" "0 \<le> ad_gr d" "ad_gr d < 4" using d by (simp_all add: decoder_ok_def)
  have single: "step_ok (d, [r], j)" if "text_rune r" for r j using d that by (simp add: step_ok_def)
  have graphic: "go_ok (decodeGraphic iso2022jp d b i gset gr \<bind> (\<lambda>(s, next). Some (d, s, next))) step_ok" for gset gr
    by (rule go_ok_bindI [OF decodeGraphic_ok [OF iso i]]) (auto simp: d step_ok_def intro: list_printable_text)
  have dot: "go_ok (if c = 0xfe then idx (ad_g d) (ad_gl d) \<bind> (\<lambda>gset. Some (gset \<in> S)) else Some False) (\<lambda>_. True)" for c :: u8 and S
    using d gs by (simp add: go_ok_bind decoder_ok_g)
  have "go_ok (decode_next iso2022jp d b i) step_ok"
    unfolding decode_next_def
    by (intro go_ok_ifI go_ok_idxI i go_ok_bindI [OF decodeC0_ok [OF assms]] go_ok_bindI [OF skipC1Control_ok [OF d i]]
          go_ok_bindI [OF dot] go_ok_gI [OF d] gs graphic)
      (auto simp: step_ok_def d text_rune_def printable_def RuneError_def)
  then show ?thesis by (auto simp: go_ok_def dest: decode_next_progress)
qed

lemma decode_loop_ok:
  assumes "decodes_graphics iso2022jp" "decoder_ok d" "0 \<le> i" "list_all text_rune out"
  shows "go_ok (decode_loop iso2022jp d b i out) (\<lambda>(d, out). list_all text_rune out)"
  using assms
proof (induction iso2022jp d b i out rule: decode_loop.induct)
  case (1 iso2022jp d b i out)
  show ?case
  proof (cases "i < blen b")
    case True
    obtain d' s i' where step: "decode_next iso2022jp d b i = Some (d', s, i')" "decoder_ok d'" "list_all text_rune s" "i < i'"
      using decode_next_ok [OF 1(2-4) True] by (auto simp: go_ok_def step_ok_def)
    then have "go_ok (decode_loop iso2022jp d' b i' (out @ s)) (\<lambda>(d, out). list_all text_rune out)"
      using 1(1) [OF True step(1) refl refl 1(2)] 1(2-) by simp
    then show ?thesis using True step(1) by (subst decode_loop.simps) simp
  qed (subst decode_loop.simps, simp add: 1)
qed

text \<open>
  C23. Every byte sequence is decoded: the decoder does not panic, it terminates, it returns no error, and what it returns is
  text, that is valid code points without control characters other than the newline. Sequences that end in the middle
  of a character or a control, unknown controls, undesignated and downloadable sets are covered.
\<close>

theorem Decode_returns_text:
  assumes "decodes_graphics iso2022jp"
  shows "\<exists>s. Decode iso2022jp b = res_ok s \<and> list_all text_rune s"
proof -
  have "decoder_ok initial_decoder" by (simp add: decoder_ok_def initial_decoder_def)
  then have "go_ok (decode_loop iso2022jp initial_decoder b 0 []) (\<lambda>(d, out). list_all text_rune out)"
    using assms by (intro decode_loop_ok) simp_all
  then show ?thesis by (auto simp: go_ok_def Decode_def)
qed

text \<open>
  The rows of Hiragana and Katakana of JIS X 0208 as \<open>ISO2022JP\<close> decodes them. The string below has a truncated character at
  its end.
\<close>

definition kana_decoder :: jis_decoder where
  "kana_decoder bs =
     (case bs of [_, _, _, row, cell, _, _, _] \<Rightarrow>
        if row = 0x24 \<and> 0x21 \<le> cell \<and> cell \<le> 0x73 then Some [0x3041 + ucast (cell - 0x21)]
        else if row = 0x25 \<and> 0x21 \<le> cell \<and> cell \<le> 0x76 then Some [0x30a1 + ucast (cell - 0x21)]
        else None
      | _ \<Rightarrow> None)"

lemma kana_decoder_graphics: "decodes_graphics kana_decoder"
  unfolding decodes_graphics_def kana_decoder_def printable_def
  by (auto simp: word_le_def uint_offset split: if_splits)

theorem Decode_returns_text_witness:
  "decodes_graphics kana_decoder \<and> (\<exists>s. Decode kana_decoder [0x24, 0x22, 0x89, 0x0e, 0x41, 0x0d, 0x1b, 0x6f, 0x22, 0x0f, 0x24] = res_ok s \<and> list_all text_rune s)
   \<and> Decode kana_decoder [0x24, 0x22, 0x89, 0x0e, 0x41, 0x0d, 0x1b, 0x6f, 0x22, 0x0f, 0x24] = res_ok [0x3042, 0x41, 0x0a, 0x30a2, 0xfffd]"
proof -
  have "Decode kana_decoder [0x24, 0x22, 0x89, 0x0e, 0x41, 0x0d, 0x1b, 0x6f, 0x22, 0x0f, 0x24] = res_ok [0x3042, 0x41, 0x0a, 0x30a2, 0xfffd]"
    by code_simp
  then show ?thesis using kana_decoder_graphics Decode_returns_text [OF kana_decoder_graphics] by blast
qed

end
