(* ===== verification/ARIB_Encode.thy ===== *)
theory ARIB_Encode
  imports ARIB_String
begin

text \<open>
  An encoder of text into ARIB strings, and the proof that the decoder of \<open>ARIB_String\<close> takes its output back. It is the
  specification of what the designations and shifts of the code extension mean; the program has no encoder.
\<close>

section \<open>Reading a prefix\<close>

text \<open>
  \<open>reads iso2022jp e d s d'\<close>: at any place, the bytes \<open>e\<close> are decoded to \<open>s\<close> and take the decoder from \<open>d\<close> to \<open>d'\<close>.
\<close>

definition at_index :: "bytes \<Rightarrow> int \<Rightarrow> bytes \<Rightarrow> bool" where
  "at_index b i xs \<longleftrightarrow> 0 \<le> i \<and> i \<le> blen b \<and> drop (nat i) b = xs"

definition reads :: "jis_decoder \<Rightarrow> bytes \<Rightarrow> aribStringDecoder \<Rightarrow> runes \<Rightarrow> aribStringDecoder \<Rightarrow> bool" where
  "reads iso2022jp e d s d' \<longleftrightarrow>
     (\<forall>b i xs out. at_index b i (e @ xs) \<longrightarrow> decode_loop iso2022jp d b i out = decode_loop iso2022jp d' b (i + blen e) (out @ s))"

lemma at_index_ConsD: "at_index b i (x # xs) \<Longrightarrow> idx b i = Some x \<and> 0 \<le> i \<and> i < blen b \<and> at_index b (i + 1) xs"
proof -
  assume at: "at_index b i (x # xs)"
  then have i: "0 \<le> i" "nat i < length b" by (auto simp: at_index_def intro: ccontr)
  then have "i < blen b" by simp
  moreover have "b ! nat i = x \<and> drop (nat i + 1) b = xs"
    using at i by (simp add: at_index_def Cons_nth_drop_Suc [symmetric])
  ultimately show ?thesis using i by (simp add: at_index_def nat_add_distrib)
qed
lemma at_index_nth: "at_index b i xs \<Longrightarrow> k < length xs \<Longrightarrow> idx b (i + int k) = Some (xs ! k) \<and> i + int k < blen b"
proof (induction xs arbitrary: i k)
  case (Cons x xs)
  then show ?case using at_index_ConsD [of b i x xs] Cons.IH [of "i + 1" "k - 1"] by (cases k) (auto simp: algebra_simps)
qed simp

lemma at_index_read:
  assumes "at_index b i xs"
  shows "0 < length xs \<Longrightarrow> idx b i = Some (xs ! 0) \<and> i < blen b" "1 < length xs \<Longrightarrow> idx b (i + 1) = Some (xs ! 1) \<and> i + 1 < blen b"
    "2 < length xs \<Longrightarrow> idx b (i + 2) = Some (xs ! 2) \<and> i + 2 < blen b" "3 < length xs \<Longrightarrow> idx b (i + 3) = Some (xs ! 3) \<and> i + 3 < blen b"
  using at_index_nth [OF assms, of 0] at_index_nth [OF assms, of 1] at_index_nth [OF assms, of 2] at_index_nth [OF assms, of 3] by simp_all

lemma at_index_append: "at_index b i (xs @ ys) \<Longrightarrow> at_index b (i + blen xs) ys"
proof (induction xs arbitrary: i)
  case (Cons x xs)
  then show ?case using at_index_ConsD [of b i x "xs @ ys"] Cons.IH [of "i + 1"] by (simp add: algebra_simps)
qed simp

lemma reads_Nil [simp]: "reads iso2022jp [] d [] d"
  by (simp add: reads_def)

lemma reads_append: "reads iso2022jp e d s d1 \<Longrightarrow> reads iso2022jp e' d1 s' d2 \<Longrightarrow> reads iso2022jp (e @ e') d (s @ s') d2"
  unfolding reads_def by (metis (no_types, lifting) append.assoc at_index_append length_append of_nat_add add.assoc)

lemma reads_step:
  assumes "\<And>b i xs. at_index b i (e @ xs) \<Longrightarrow> decode_next iso2022jp d b i = Some (d', s, i + blen e)" "e \<noteq> []"
  shows "reads iso2022jp e d s d'"
  unfolding reads_def
proof (intro allI impI)
  fix b i xs out
  assume at: "at_index b i (e @ xs)"
  then have "i < blen b" using assms(2) at_index_ConsD by (cases e) auto
  then show "decode_loop iso2022jp d b i out = decode_loop iso2022jp d' b (i + blen e) (out @ s)"
    using assms(1) [OF at] by (subst decode_loop.simps) simp
qed

lemma at_index_NilD: "at_index b i [] \<Longrightarrow> i = blen b"
  by (auto simp: at_index_def)

lemma reads_Decode:
  assumes "reads iso2022jp e initial_decoder s d'"
  shows "Decode iso2022jp e = res_ok s"
proof -
  have "at_index e 0 (e @ [])" by (simp add: at_index_def)
  then have "decode_loop iso2022jp initial_decoder e 0 [] = decode_loop iso2022jp d' e (0 + blen e) ([] @ s)"
    using assms unfolding reads_def by blast
  then have "decode_loop iso2022jp initial_decoder e 0 [] = decode_loop iso2022jp d' e (blen e) s" by simp
  also have "\<dots> = Some (d', s)" by (subst decode_loop.simps) simp
  finally show ?thesis by (simp add: Decode_def)
qed

section \<open>Controls\<close>

lemma reads_newline: "reads iso2022jp [0x0d] d [0x0a] d"
  by (rule reads_step) (auto dest!: at_index_ConsD simp: decode_next_def decodeC0_def)

lemma reads_size: "reads iso2022jp [0x89] d [] (d\<lparr> ad_narrowAlnum := True \<rparr>)" "reads iso2022jp [0x8a] d [] (d\<lparr> ad_narrowAlnum := False \<rparr>)"
  by (rule reads_step; auto dest!: at_index_ConsD simp: decode_next_def skipC1Control_def)+

lemma reads_space: "reads iso2022jp [0x20] d [if ad_narrowAlnum d then 0x20 else 0x3000] d"
  by (rule reads_step) (auto dest!: at_index_ConsD simp: decode_next_def)

lemma reads_shift: "reads iso2022jp [0x0e] d [] (d\<lparr> ad_gl := 1 \<rparr>)"
  by (rule reads_step) (auto dest!: at_index_ConsD simp: decode_next_def decodeC0_def)

text \<open>The designation of a set of one byte, or of two bytes, as G1, and its invocation into the left area.\<close>

lemma set_g_1: "decoder_ok d \<Longrightarrow> set_g d 1 s = Some (d\<lparr> ad_g := (ad_g d)[1 := s] \<rparr>)"
  by (simp add: set_g_def decoder_ok_def)

lemma reads_designate:
  assumes "decoder_ok d" "f \<noteq> 0x20"
  shows "reads iso2022jp [0x1b, 0x29, f] d [] (d\<lparr> ad_g := (ad_g d)[1 := designateGSet f False] \<rparr>)"
    "reads iso2022jp [0x1b, 0x24, 0x29, f] d [] (d\<lparr> ad_g := (ad_g d)[1 := designateGSet f True] \<rparr>)"
proof -
  show "reads iso2022jp [0x1b, 0x29, f] d [] (d\<lparr> ad_g := (ad_g d)[1 := designateGSet f False] \<rparr>)"
  proof (rule reads_step)
    fix b i xs
    assume at: "at_index b i ([0x1b, 0x29, f] @ xs)"
    then have "\<not> blen b \<le> i + 1" "\<not> blen b \<le> i + 2" using at_index_read(3) [OF at] by auto
    then show "decode_next iso2022jp d b i = Some (d\<lparr> ad_g := (ad_g d)[1 := designateGSet f False] \<rparr>, [], i + blen [0x1b, 0x29, f])"
      using at_index_read(1-3) [OF at] assms
      by (simp add: decode_next_def decodeC0_def decodeEscape_def set_g_1 Let_def del: idx_in)
  qed simp
  show "reads iso2022jp [0x1b, 0x24, 0x29, f] d [] (d\<lparr> ad_g := (ad_g d)[1 := designateGSet f True] \<rparr>)"
  proof (rule reads_step)
    fix b i xs
    assume at: "at_index b i ([0x1b, 0x24, 0x29, f] @ xs)"
    then have "\<not> blen b \<le> i + 1" "\<not> blen b \<le> i + 2" "\<not> blen b \<le> i + 3" using at_index_read(4) [OF at] by auto
    then show "decode_next iso2022jp d b i = Some (d\<lparr> ad_g := (ad_g d)[1 := designateGSet f True] \<rparr>, [], i + blen [0x1b, 0x24, 0x29, f])"
      using at_index_read [OF at] assms
      by (simp add: decode_next_def decodeC0_def decodeEscape_def set_g_1 Let_def del: idx_in)
  qed simp
qed

abbreviation invoked :: "aribStringDecoder \<Rightarrow> aribGraphicSet \<Rightarrow> aribStringDecoder" where
  "invoked d s \<equiv> d\<lparr> ad_g := (ad_g d)[1 := s], ad_gl := 1 \<rparr>"

lemma reads_invoke:
  assumes "decoder_ok d" "f \<noteq> 0x20"
  shows "reads iso2022jp [0x1b, 0x29, f, 0x0e] d [] (invoked d (designateGSet f False))"
    "reads iso2022jp [0x1b, 0x24, 0x29, f, 0x0e] d [] (invoked d (designateGSet f True))"
  using reads_append [OF reads_designate(1) [OF assms] reads_shift, of iso2022jp] reads_append [OF reads_designate(2) [OF assms] reads_shift, of iso2022jp]
  by simp_all

text \<open>A character of the set in the left area.\<close>

lemma reads_graphic:
  assumes "decoder_ok d" "c \<ge> 0x21" "c \<le> 0x7e" "e = c # e'"
    and "\<And>b i xs. at_index b i (e @ xs) \<Longrightarrow> decodeGraphic iso2022jp d b i (ad_g d ! nat (ad_gl d)) False = Some (s, i + blen e)"
  shows "reads iso2022jp e d s d"
proof (rule reads_step)
  fix b i xs
  assume at: "at_index b i (e @ xs)"
  have "\<not> (c = 0x20 \<or> c = 0xa0)" "\<not> c \<le> 0x1f" "\<not> 0x80 \<le> c" "c \<noteq> 0xfe"
    using assms(2,3) by (auto simp: word_le_def)
  moreover have "idx b i = Some c" using at_index_read(1) [OF at] by (simp add: assms(4))
  ultimately show "decode_next iso2022jp d b i = Some (d, s, i + blen e)"
    using assms(1-3) assms(5) [OF at] by (simp add: decode_next_def decoder_ok_def del: idx_None_iff)
qed (simp add: assms(4))

text \<open>One byte of a set of one byte per character, two bytes of a set of two bytes per character.\<close>

lemma reads_single:
  assumes "decoder_ok d" "c \<ge> 0x21" "c \<le> 0x7e"
    and "\<And>b i. idx b i = Some c \<Longrightarrow> decodeGraphic iso2022jp d b i (ad_g d ! nat (ad_gl d)) False = Some (s, i + 1)"
  shows "reads iso2022jp [c] d s d"
proof (rule reads_graphic [OF assms(1-3) refl])
  fix b i xs
  assume "at_index b i ([c] @ xs)"
  then show "decodeGraphic iso2022jp d b i (ad_g d ! nat (ad_gl d)) False = Some (s, i + blen [c])"
    using assms(4) at_index_read(1) by fastforce
qed

lemma reads_kanji:
  assumes d: "decoder_ok d" and c: "c \<ge> 0x21" "c \<le> 0x7e" "c' \<le> 0x7e"
    and plane: "ad_g d ! nat (ad_gl d) = (if plane = 1 then aribSetJISCompatibleKanjiPlane1 else aribSetJISCompatibleKanjiPlane2)" "plane = 1 \<or> plane = 2"
  shows "reads iso2022jp [c, c'] d (decodeARIBJISCompatibleKanji iso2022jp plane c c') d"
proof (rule reads_graphic [OF d c(1,2) refl])
  fix b i xs
  assume at: "at_index b i ([c, c'] @ xs)"
  have "\<not> c' \<ge> 0xa1" using c(3) by (auto simp: word_le_def)
  moreover have "\<not> blen b \<le> i + 1" using at_index_read(2) [OF at] by simp
  ultimately show "decodeGraphic iso2022jp d b i (ad_g d ! nat (ad_gl d)) False = Some (decodeARIBJISCompatibleKanji iso2022jp plane c c', i + blen [c, c'])"
    using at_index_read(1,2) [OF at] plane
    by (auto simp: decodeGraphic_def decode_double_def normalizeGraphicByte_def Let_def simp del: idx_in)
qed

section \<open>The encoder\<close>

text \<open>
  Every character designates its set as G1 and invokes it, so that its code does not depend on what is before it. The
  Kanji are those of the table of JIS X 0213 that table 7-21 does not map otherwise.
\<close>

definition kanji_key :: "u32 \<Rightarrow> bool" where
  "kanji_key k \<longleftrightarrow>
     (let plane = ucast (drop_bit 16 k); row = ucast (drop_bit 8 k); cell = ucast k
      in (plane = 1 \<or> plane = 2) \<and> aribValidRowCell row cell \<and> aribPlaneRowCellKey plane row cell = k
         \<and> lookupARIBTable721BMPKanjiPUA plane row cell = None)"

definition code_of :: "rune \<Rightarrow> rune \<Rightarrow> u8" where
  "code_of base r = ucast (r - base) + 0x21"

definition encode_kanji :: "u32 \<Rightarrow> bytes" where
  "encode_kanji k = [0x1b, 0x24, 0x29, if (ucast (drop_bit 16 k) :: u8) = 1 then 0x39 else 0x3a, 0x0e, ucast (drop_bit 8 k), ucast k]"

definition encode_rune :: "rune \<Rightarrow> bytes option" where
  "encode_rune r =
     (if r = 0x0a then Some [0x0d]
      else if r = 0x20 then Some [0x89, 0x20]
      else if r = 0x3000 then Some [0x8a, 0x20]
      else if 0x21 \<le> r \<and> r \<le> 0x7e then Some [0x89, 0x1b, 0x29, 0x4a, 0x0e, code_of 0x21 r]
      else if 0xff01 \<le> r \<and> r \<le> 0xff5e \<and> r \<noteq> 0xff02 then Some [0x8a, 0x1b, 0x29, 0x4a, 0x0e, code_of 0xff01 r]
      else if 0xff61 \<le> r \<and> r \<le> 0xff9f then Some [0x1b, 0x29, 0x49, 0x0e, code_of 0xff61 r]
      else if 0x3041 \<le> r \<and> r \<le> 0x3093 then Some [0x1b, 0x29, 0x30, 0x0e, code_of 0x3041 r]
      else if 0x30a1 \<le> r \<and> r \<le> 0x30f6 then Some [0x1b, 0x29, 0x31, 0x0e, code_of 0x30a1 r]
      else case find (\<lambda>(k, s). s = [r] \<and> kanji_key k) jisX0213DeltaDecode of
             None \<Rightarrow> None
           | Some (k, _) \<Rightarrow> Some (encode_kanji k))"

text \<open>What \<open>ISO2022JP\<close> makes of the rows of Hiragana and Katakana.\<close>

definition decodes_kana :: "jis_decoder \<Rightarrow> bool" where
  "decodes_kana iso2022jp \<longleftrightarrow>
     (\<forall>c. 0x21 \<le> c \<and> c \<le> 0x73 \<longrightarrow> iso2022jp [0x1b, 0x24, 0x42, 0x24, c, 0x1b, 0x28, 0x42] = Some [0x3041 + ucast (c - 0x21)])
     \<and> (\<forall>c. 0x21 \<le> c \<and> c \<le> 0x76 \<longrightarrow> iso2022jp [0x1b, 0x24, 0x42, 0x25, c, 0x1b, 0x28, 0x42] = Some [0x30a1 + ucast (c - 0x21)])"

lemma code_of:
  assumes "base \<le> r" "uint r - uint base \<le> 0x5d"
  shows "uint (code_of base r) = uint r - uint base + 0x21" "base + ucast (code_of base r - 0x21) = r"
proof -
  have diff: "uint (r - base) = uint r - uint base" using assms(1) by (simp add: uint_sub_if' word_le_def)
  have nonneg: "0 \<le> uint r - uint base" using assms(1) by (simp add: word_le_def)
  have small: "uint (ucast (r - base) :: u8) = uint r - uint base"
    using diff assms(2) nonneg by (simp add: unsigned_ucast_eq take_bit_int_eq_self)
  then show "uint (code_of base r) = uint r - uint base + 0x21"
    using assms(2) nonneg by (simp add: code_of_def uint_word_ariths)
  have "ucast (ucast (r - base) :: u8) = r - base"
    using small diff by (simp add: word_uint_eq_iff uint_up_ucast is_up)
  then show "base + ucast (code_of base r - 0x21) = r" by (simp add: code_of_def)
qed

lemma code_range:
  assumes "base \<le> r" "uint r - uint base \<le> 0x5d"
  shows "code_of base r \<ge> 0x21" "code_of base r \<le> 0x7e"
  using code_of(1) [OF assms] assms by (simp_all add: word_le_def)

section \<open>The decoder takes the encoder back\<close>

lemma invoked_ok: "decoder_ok d \<Longrightarrow> decoder_ok (invoked d s)"
  by (simp add: decoder_ok_def)

lemma invoked_g: "decoder_ok d \<Longrightarrow> ad_g (invoked d s) ! nat (ad_gl (invoked d s)) = s"
  by (simp add: decoder_ok_def)

lemma narrow_alnum: "ad_narrowAlnum d \<Longrightarrow> c \<ge> 0x21 \<Longrightarrow> c \<le> 0x7e \<Longrightarrow> decodeARIBAlnum d c = ucast c"
  by (auto simp: decodeARIBAlnum_def)

lemma wide_alnum: "\<not> ad_narrowAlnum d \<Longrightarrow> c \<ge> 0x21 \<Longrightarrow> c \<le> 0x7e \<Longrightarrow> c \<noteq> 0x22 \<Longrightarrow> decodeARIBAlnum d c = 0xff01 + ucast (c - 0x21)"
  by (auto simp: decodeARIBAlnum_def word_uint_eq_iff uint_offset word_le_def)

text \<open>A character of a set \<open>f\<close> of one byte per character, invoked by itself.\<close>

lemma reads_char:
  assumes d: "decoder_ok d" and f: "f \<noteq> 0x20" and c: "c \<ge> 0x21" "c \<le> 0x7e"
    and decode: "\<And>d b i. ad_narrowAlnum d = n \<Longrightarrow> idx b i = Some c \<Longrightarrow> decodeGraphic iso2022jp d b i (designateGSet f False) False = Some (s, i + 1)"
    and n: "ad_narrowAlnum d = n"
  shows "reads iso2022jp [0x1b, 0x29, f, 0x0e, c] d s (invoked d (designateGSet f False))"
proof -
  have "reads iso2022jp [c] (invoked d (designateGSet f False)) s (invoked d (designateGSet f False))"
    by (rule reads_single [OF invoked_ok [OF d] c], unfold invoked_g [OF d], rule decode) (simp_all add: n)
  from reads_append [OF reads_invoke(1) [OF d f] this] show ?thesis by simp
qed

lemma kana_row:
  assumes "aribValidRowCell row c" "row = 0x24 \<or> row = 0x25" "iso2022jp [0x1b, 0x24, 0x42, row, c, 0x1b, 0x28, 0x42] = Some [r]" "r \<noteq> RuneError"
  shows "decodeJISX0208Graphic iso2022jp row c = Some [r]"
proof -
  have "aribRowCellKey row c = be16 row c" by (simp add: aribRowCellKey_def be16_def)
  moreover have "be16 row c \<noteq> 0x213d" "be16 row c \<noteq> 0x2141" "be16 row c \<noteq> 0x215d"
    using assms(2) be16_inject [of row c "0x21" "0x3d"] be16_inject [of row c "0x21" "0x41"] be16_inject [of row c "0x21" "0x5d"]
    by (auto simp: be16_def)
  ultimately have "map_of aribJISX0208Overrides (aribRowCellKey row c) = None" by (simp add: aribJISX0208Overrides_def)
  then show ?thesis
    using assms by (auto simp: decodeJISX0208Graphic_def symbol_first_def decodeJISX0208Pair_def)
qed

lemma hiragana_char:
  assumes "decodes_kana iso2022jp" "0x3041 \<le> r" "r \<le> 0x3093"
  shows "decodeARIBHiragana iso2022jp (code_of 0x3041 r) = Some [r]"
proof -
  have r: "uint r - uint (0x3041 :: rune) \<le> 0x5d" using assms(3) by (simp add: word_le_def)
  let ?c = "code_of 0x3041 r"
  have c: "?c \<ge> 0x21" "?c \<le> 0x73" using code_of(1) [OF assms(2) r] assms(2,3) by (simp_all add: word_le_def)
  moreover have "map_of aribHiraganaOverrides ?c = None" using c(2) by (auto simp: aribHiraganaOverrides_def)
  moreover have "decodeJISX0208Graphic iso2022jp 0x24 ?c = Some [r]"
    using assms c code_of(2) [OF assms(2) r]
    by (intro kana_row) (auto simp: aribValidRowCell_def decodes_kana_def RuneError_def word_le_def)
  ultimately show ?thesis by (simp add: decodeARIBHiragana_def)
qed

lemma katakana_char:
  assumes "decodes_kana iso2022jp" "0x30a1 \<le> r" "r \<le> 0x30f6"
  shows "decodeARIBKatakana iso2022jp (code_of 0x30a1 r) = Some [r]"
proof -
  have r: "uint r - uint (0x30a1 :: rune) \<le> 0x5d" using assms(3) by (simp add: word_le_def)
  let ?c = "code_of 0x30a1 r"
  have c: "?c \<ge> 0x21" "?c \<le> 0x76" using code_of(1) [OF assms(2) r] assms(2,3) by (simp_all add: word_le_def)
  moreover have "map_of aribKatakanaOverrides ?c = None" using c(2) by (auto simp: aribKatakanaOverrides_def)
  moreover have "decodeJISX0208Graphic iso2022jp 0x25 ?c = Some [r]"
    using assms c code_of(2) [OF assms(2) r]
    by (intro kana_row) (auto simp: aribValidRowCell_def decodes_kana_def RuneError_def word_le_def)
  ultimately show ?thesis by (simp add: decodeARIBKatakana_def)
qed

lemma kanji_char:
  assumes "find (\<lambda>(k, s). s = [r] \<and> kanji_key k) jisX0213DeltaDecode = Some (k, s)"
  shows "decodeARIBJISCompatibleKanji iso2022jp (ucast (drop_bit 16 k)) (ucast (drop_bit 8 k)) (ucast k) = [r]" "kanji_key k"
proof -
  have k: "(k, [r]) \<in> set jisX0213DeltaDecode" "kanji_key k" using find_prop [OF assms] by auto
  have "distinct (map fst jisX0213DeltaDecode)" using x0213_sorted by (simp add: strict_sorted_iff)
  then have "lookupJISX0213Delta k = Some [r]" using k(1) by (simp add: lookup_delta_map_of)
  then show "decodeARIBJISCompatibleKanji iso2022jp (ucast (drop_bit 16 k)) (ucast (drop_bit 8 k)) (ucast k) = [r]"
    using k(2) by (simp add: decodeARIBJISCompatibleKanji_def lookupJISX0213_def kanji_key_def Let_def)
  show "kanji_key k" by (rule k(2))
qed

lemma reads_encode_kanji:
  assumes d: "decoder_ok d" and k: "find (\<lambda>(k, s). s = [r] \<and> kanji_key k) jisX0213DeltaDecode = Some (k, s)"
  shows "\<exists>d'. decoder_ok d' \<and> reads iso2022jp (encode_kanji k) d [r] d'"
proof -
  define plane :: u8 where "plane = ucast (drop_bit 16 k)"
  define row :: u8 where "row = ucast (drop_bit 8 k)"
  define cell :: u8 where "cell = ucast k"
  define f :: u8 where "f = (if plane = 1 then 0x39 else 0x3a)"
  have key: "plane = 1 \<or> plane = 2" "row \<ge> 0x21" "row \<le> 0x7e" "cell \<le> 0x7e"
    using kanji_char(2) [OF k] by (auto simp: kanji_key_def Let_def aribValidRowCell_def plane_def row_def cell_def)
  let ?d = "invoked d (designateGSet f True)"
  have f: "f \<noteq> 0x20" "designateGSet f True = (if plane = 1 then aribSetJISCompatibleKanjiPlane1 else aribSetJISCompatibleKanjiPlane2)"
    by (simp_all add: f_def designateGSet_def)
  have "reads iso2022jp [row, cell] ?d (decodeARIBJISCompatibleKanji iso2022jp plane row cell) ?d"
    by (rule reads_kanji [OF invoked_ok [OF d] key(2-4) _ key(1)], unfold invoked_g [OF d], rule f(2))
  moreover have "decodeARIBJISCompatibleKanji iso2022jp plane row cell = [r]"
    unfolding plane_def row_def cell_def by (rule kanji_char(1) [OF k])
  ultimately have "reads iso2022jp ([0x1b, 0x24, 0x29, f, 0x0e] @ [row, cell]) d ([] @ [r]) ?d"
    using reads_append [OF reads_invoke(2) [OF d f(1)]] by metis
  moreover have "encode_kanji k = [0x1b, 0x24, 0x29, f, 0x0e] @ [row, cell]"
    by (simp add: encode_kanji_def f_def plane_def row_def cell_def)
  ultimately show ?thesis using invoked_ok [OF d] by auto
qed

text \<open>What a byte of each set is decoded to.\<close>

lemma alphanumeric_char: "idx b i = Some c \<Longrightarrow> decodeGraphic iso2022jp d b i (designateGSet 0x4a False) False = Some (string_rune (decodeARIBAlnum d c), i + 1)"
  and jisx0201_char: "idx b i = Some c \<Longrightarrow> decodeGraphic iso2022jp d b i (designateGSet 0x49 False) False = Some (string_rune (decodeJISX0201Katakana c), i + 1)"
  and hiragana_set: "idx b i = Some c \<Longrightarrow> decodeARIBHiragana iso2022jp c = Some s \<Longrightarrow> decodeGraphic iso2022jp d b i (designateGSet 0x30 False) False = Some (s, i + 1)"
  and katakana_set: "idx b i = Some c \<Longrightarrow> decodeARIBKatakana iso2022jp c = Some s \<Longrightarrow> decodeGraphic iso2022jp d b i (designateGSet 0x31 False) False = Some (s, i + 1)"
  by (simp_all add: decodeGraphic_def normalizeGraphicByte_def designateGSet_def Let_def del: idx_in)

lemma reads_kana:
  assumes iso: "decodes_kana iso2022jp" and d: "decoder_ok d"
    and r: "(f = 0x30 \<and> base = 0x3041 \<and> r \<le> 0x3093) \<or> (f = 0x31 \<and> base = 0x30a1 \<and> r \<le> 0x30f6) \<or> (f = 0x49 \<and> base = 0xff61 \<and> r \<le> 0xff9f)" "base \<le> r"
  shows "\<exists>d'. decoder_ok d' \<and> reads iso2022jp [0x1b, 0x29, f, 0x0e, code_of base r] d [r] d'"
proof -
  have small: "uint r - uint base \<le> 0x5d" using r by (auto simp: word_le_def)
  note range = code_range [OF r(2) small]
  have "decodeGraphic iso2022jp d b i (designateGSet f False) False = Some ([r], i + 1)" if "idx b i = Some (code_of base r)" for d b i
    using r(1)
  proof (elim disjE conjE)
    assume f: "f = 0x49" "base = 0xff61" "r \<le> 0xff9f"
    have "code_of base r \<le> 0x5f" using code_of(1) [OF r(2) small] f by (simp add: word_le_def)
    then have "decodeJISX0201Katakana (code_of base r) = r"
      using range(1) code_of(2) [OF r(2) small] f by (simp add: decodeJISX0201Katakana_def)
    moreover have "printable r" using r(2) f by (auto simp: printable_def word_le_def)
    ultimately show ?thesis using jisx0201_char [OF that] f by simp
  qed (use hiragana_set [OF that] katakana_set [OF that] hiragana_char [OF iso, of r] katakana_char [OF iso, of r] r(2) in simp_all)
  moreover have "f \<noteq> 0x20" using r(1) by auto
  ultimately have "reads iso2022jp [0x1b, 0x29, f, 0x0e, code_of base r] d [r] (invoked d (designateGSet f False))"
    by (intro reads_char [OF d _ range]) simp_all
  then show ?thesis using invoked_ok [OF d] by blast
qed

lemma reads_alnum:
  assumes d: "decoder_ok d" and r: "(sz = 0x89 \<and> base = 0x21 \<and> r \<le> 0x7e) \<or> (sz = 0x8a \<and> base = 0xff01 \<and> r \<le> 0xff5e \<and> r \<noteq> 0xff02)" "base \<le> r"
  shows "\<exists>d'. decoder_ok d' \<and> reads iso2022jp [sz, 0x1b, 0x29, 0x4a, 0x0e, code_of base r] d [r] d'"
proof -
  have small: "uint r - uint base \<le> 0x5d" using r by (auto simp: word_le_def)
  note range = code_range [OF r(2) small] and code = code_of [OF r(2) small]
  define n where "n \<longleftrightarrow> sz = 0x89"
  let ?d = "d\<lparr> ad_narrowAlnum := n \<rparr>"
  have sz: "reads iso2022jp [sz] d [] ?d" using r(1) reads_size by (auto simp: n_def)
  have "decodeARIBAlnum d (code_of base r) = r" if "ad_narrowAlnum d = n" for d
  proof (cases n)
    case True
    then have "base = 0x21" "sz = 0x89" using r(1) by (auto simp: n_def)
    moreover from this have "(ucast (code_of base r) :: rune) = r"
      using code(1) by (simp add: word_uint_eq_iff uint_up_ucast is_up)
    ultimately show ?thesis using narrow_alnum [of d "code_of base r"] range True that by simp
  next
    case False
    then have b: "base = 0xff01" "r \<noteq> 0xff02" using r(1) by (auto simp: n_def)
    have "code_of base r \<noteq> 0x22"
    proof
      assume "code_of base r = 0x22"
      then have "uint r = uint (0xff02 :: rune)" using code(1) b(1) by simp
      then show False using b(2) by (simp only: word_uint_eq_iff [symmetric])
    qed
    then show ?thesis using wide_alnum [of d "code_of base r"] range False that code(2) b(1) by simp
  qed
  moreover have "printable r" using r by (auto simp: printable_def word_le_def)
  ultimately have "reads iso2022jp [0x1b, 0x29, 0x4a, 0x0e, code_of base r] ?d [r] (invoked ?d (designateGSet 0x4a False))"
    using d by (intro reads_char [OF _ _ range]) (simp_all add: alphanumeric_char decoder_ok_def del: idx_in)
  from reads_append [OF sz this]
  have "reads iso2022jp [sz, 0x1b, 0x29, 0x4a, 0x0e, code_of base r] d [r] (invoked ?d (designateGSet 0x4a False))" by simp
  moreover have "decoder_ok ?d" using d by (simp add: decoder_ok_def)
  ultimately show ?thesis using invoked_ok by blast
qed

lemma reads_encode_rune:
  assumes iso: "decodes_kana iso2022jp" and d: "decoder_ok d" and e: "encode_rune r = Some e"
  shows "\<exists>d'. decoder_ok d' \<and> reads iso2022jp e d [r] d'"
proof -
  have sized: "decoder_ok (d\<lparr> ad_narrowAlnum := n \<rparr>)" for n using d by (simp add: decoder_ok_def)
  have space: "reads iso2022jp [0x89, 0x20] d [0x20] (d\<lparr> ad_narrowAlnum := True \<rparr>)" "reads iso2022jp [0x8a, 0x20] d [0x3000] (d\<lparr> ad_narrowAlnum := False \<rparr>)"
    using reads_append [OF reads_size(1) reads_space, of iso2022jp d] reads_append [OF reads_size(2) reads_space, of iso2022jp d] by simp_all
  consider "e = [0x0d]" "r = 0x0a" | "e = [0x89, 0x20]" "r = 0x20" | "e = [0x8a, 0x20]" "r = 0x3000"
    | (alnum) sz base where "e = [sz, 0x1b, 0x29, 0x4a, 0x0e, code_of base r]" "base \<le> r"
        "(sz = 0x89 \<and> base = 0x21 \<and> r \<le> 0x7e) \<or> (sz = 0x8a \<and> base = 0xff01 \<and> r \<le> 0xff5e \<and> r \<noteq> 0xff02)"
    | (kana) f base where "e = [0x1b, 0x29, f, 0x0e, code_of base r]" "base \<le> r"
        "(f = 0x30 \<and> base = 0x3041 \<and> r \<le> 0x3093) \<or> (f = 0x31 \<and> base = 0x30a1 \<and> r \<le> 0x30f6) \<or> (f = 0x49 \<and> base = 0xff61 \<and> r \<le> 0xff9f)"
    | (kanji) k s where "e = encode_kanji k" "find (\<lambda>(k, s). s = [r] \<and> kanji_key k) jisX0213DeltaDecode = Some (k, s)"
    using e unfolding encode_rune_def by (auto split: if_splits option.splits)
  then show ?thesis
  proof cases
    case alnum
    then show ?thesis using reads_alnum [OF d alnum(3,2)] by simp
  next
    case kana
    then show ?thesis using reads_kana [OF iso d kana(3,2)] by simp
  next
    case kanji
    then show ?thesis using reads_encode_kanji [OF d kanji(2)] by simp
  qed (use d sized space reads_newline in blast)+
qed

fun encode_text :: "runes \<Rightarrow> bytes option" where
  "encode_text [] = Some []"
| "encode_text (r # rs) = do { e \<leftarrow> encode_rune r; es \<leftarrow> encode_text rs; Some (e @ es) }"

lemma reads_encode_text:
  "decodes_kana iso2022jp \<Longrightarrow> decoder_ok d \<Longrightarrow> encode_text text = Some e \<Longrightarrow> \<exists>d'. reads iso2022jp e d text d'"
proof (induction "text" arbitrary: d e)
  case (Cons r rs)
  obtain e1 e2 where e: "encode_rune r = Some e1" "encode_text rs = Some e2" "e = e1 @ e2"
    using Cons.prems(3) by (auto simp: bind_eq_Some_conv)
  obtain d1 where d1: "decoder_ok d1" "reads iso2022jp e1 d [r] d1" using reads_encode_rune [OF Cons.prems(1,2) e(1)] by blast
  obtain d2 where "reads iso2022jp e2 d1 rs d2" using Cons.IH [OF Cons.prems(1) d1(1) e(2)] by blast
  then show ?case using reads_append [OF d1(2)] unfolding e(3) by fastforce
qed (auto intro: reads_Nil)

text \<open>
  C22. Encoding and decoding: text of newlines, spaces, letters, digits and symbols of half and of full width, Hiragana,
  Katakana of full and of half width, and the Kanji and symbols of the table of JIS X 0213, encoded with a designation and a shift before
  each character, is decoded to the same text.
\<close>

theorem Decode_encode_text:
  assumes "decodes_kana iso2022jp" "encode_text text = Some e"
  shows "Decode iso2022jp e = res_ok text"
proof -
  have "decoder_ok initial_decoder" by (simp add: decoder_ok_def initial_decoder_def)
  then show ?thesis using reads_encode_text [OF assms(1) _ assms(2)] reads_Decode by blast
qed

lemma kana_decoder_kana: "decodes_kana kana_decoder"
  by (simp add: decodes_kana_def kana_decoder_def)

text \<open>A Hiragana, a narrow and a wide letter, a newline, a Katakana and the symbol of the cell 0x2142 of plane 1.\<close>

theorem Decode_encode_text_witness:
  "decodes_kana kana_decoder \<and>
   (\<exists>e. encode_text [0x3042, 0x41, 0xff21, 0x0a, 0x30a2, 0x2016] = Some e \<and> Decode kana_decoder e = res_ok [0x3042, 0x41, 0xff21, 0x0a, 0x30a2, 0x2016])"
proof -
  have "find (\<lambda>(k, s). s = [0x2016] \<and> kanji_key k) x0213_p00 = Some (0x012142, [0x2016])" by code_simp
  then have "find (\<lambda>(k, s). s = [0x2016] \<and> kanji_key k) jisX0213DeltaDecode = Some (0x012142, [0x2016])"
    unfolding jisX0213DeltaDecode_def find_append by simp
  then have "\<exists>e. encode_text [0x3042, 0x41, 0xff21, 0x0a, 0x30a2, 0x2016] = Some e"
    by (simp add: encode_rune_def)
  then show ?thesis using kana_decoder_kana Decode_encode_text by blast
qed

end
