(* ===== verification/Spec2Isabelle.thy ===== *)
theory Spec2Isabelle
  imports TS_Packet TS_Section TS_Descriptors TS_Time TS_Tables TS_SectionSet TS_Packetize TS_Demux
    Job_Properties Tuner_Manager DSMCC_Properties Logo_Carousel TS_Scanner Configuration Service_Scan Program_Events EPG_Peers EPG_Extended EPG_Ready Module_Cache ARIB_Encode
begin

text \<open>
  A model of the core of the television server in this repository, and its proofs.

  \<^bold>\<open>The program.\<close> Tuner devices deliver an MPEG transport stream (ISDB). The library under \<open>src/ts\<close> reads
  packets from it, assembles sections, parses the PSI/SI tables, demultiplexes the stream into one
  stream per service, and receives the modules of data carousels and logos. The server under
  \<open>src/internal\<close> shares the tuners among its clients (\<open>tuner\<close>), runs background jobs (\<open>job\<close>), collects
  services and programme information and offers them over an HTTP interface.

  \<^bold>\<open>How the parts interact.\<close> A \<open>PacketReader\<close> feeds packets to a \<open>Demuxer\<close>, which hands their payloads to
  section assemblers, one per PID. A section that an assembler emits is complete and has a valid CRC.
  The table parsers read sections; PAT, CAT and PMT change the program table of the \<open>Demuxer\<close>, which
  decides the packets of each service output and writes its PAT. Sections are collected to tables by
  \<open>tableSectionSet\<close>. DSM-CC sections announce (DII) and carry (DDB) the modules of a carousel; a
  logo module is a module whose information names a logo. Independently of the stream the job manager
  serialises background work, and the tuner manager decides which request gets which tuner.

  \<^bold>\<open>Conventions.\<close> \<open>Go_Prelude\<close> holds what all parts share. A Go function that may panic has the type \<open>'a go\<close>,
  an option whose \<open>None\<close> is the panic (an index or slice out of range, a nil dereference, a channel
  closed twice); one that also returns an error has the type \<open>'a res\<close>, a sum inside it with \<open>Inl\<close> the error. So
  "never panics" is a theorem that the value is not \<open>None\<close>. Fixed-width integers are words, lengths
  and offsets (Go's \<open>int\<close>) are \<open>int\<close>, since no length reaches \<open>2^63\<close>. Slices are lists, and copies that
  only detach a buffer are the value itself. A Go map is an association list with distinct keys; a
  range over a map visits it in list order, and where the order matters the theorems say so. Pointers
  to values without sharing are the values or options; where objects are shared and mutated (jobs,
  devices) the state keeps a store of them and the code's references are keys of the store.
  \<open>Step_Systems\<close> has the reachable states of a machine given by its initial states, its enabled
  operations and their execution, and the locale \<open>op_system\<close> that derives from "every operation
  preserves the invariant and returns" that this holds in every reachable state.

  \<^bold>\<open>Theories and the code they model.\<close>
  \<^item> \<open>TS_Packet\<close>: \<open>ts/packet.go\<close>. The accessors of a packet and the \<open>PacketReader\<close>, which finds packets of 188, 192
    or 204 bytes in a byte stream that arrives in arbitrary pieces. The reader is a list of the
    results of its reads. The properties: every call returns, a packet or an error, and never panics; and an
    aligned stream is read packet by packet whatever the pieces are.
  \<^item> \<open>TS_Section\<close>: \<open>ts/section.go\<close>. The table-driven CRC equals the bitwise division of MPEG-2; it is zero on exactly the
    multiples of the generator; the assembler emits only complete sections with the right length and CRC.
  \<^item> \<open>TS_Descriptors\<close>, \<open>TS_Time\<close>, \<open>TS_Tables\<close>: \<open>ts/descriptors.go\<close>, \<open>ts/pat.go\<close>, \<open>ts/pmt.go\<close>, \<open>ts/nit.go\<close>, \<open>ts/sdt.go\<close>, \<open>ts/bit.go\<close>,
    \<open>ts/tot.go\<close>, \<open>ts/eit.go\<close>, \<open>ts/psi.go\<close>. Parsers as functions of the section. The locale \<open>table_parser\<close> states what
    they share (total, accepting only valid CRC and table identifier), is interpreted by each of
    them, and gives the rejection of burst errors. Dates are compared with a
    calendar, the PAT and PMT with an encoder.
  \<^item> \<open>TS_SectionSet\<close>: \<open>tableSectionSet\<close> of \<open>ts/scanner.go\<close>: what it returns is a complete table, and it becomes ready whenever all sections arrive.
  \<^item> \<open>TS_Packetize\<close>, \<open>TS_Demux\<close>: \<open>ts/demux.go\<close>. Writing a section into packets is inverse to the assembler; the \<open>Demuxer\<close> never
    panics on any packets; its program table follows the PAT; a service output consists of the packets of the service and a rewritten PAT.
  \<^item> \<open>TS_DSMCC\<close>, \<open>DSMCC_Carousel\<close>, \<open>DSMCC_Properties\<close>: the DSM-CC parsers of \<open>ts/logo_common.go\<close>, \<open>ts/dsmcc_module_info.go\<close>, \<open>ts/dsmcc_stream.go\<close>, and the
    carousel receiver of \<open>ts/dsmcc_carousel.go\<close>. The counters of the receiver are exact and within the budgets; what it
    delivers is what was broadcast; a module in flight is delivered when its blocks come and nothing displaces it.
  \<^item> \<open>TS_Logo\<close>, \<open>Logo_Carousel\<close>: \<open>ts/logo.go\<close> and the rest of \<open>ts/logo_common.go\<close>. Logo modules are read back, and each is emitted once.
  \<^item> \<open>Job_Manager\<close>, \<open>Job_Invariant\<close>, \<open>Job_Properties\<close>: \<open>internal/job\<close>. The state of \<open>JobManager\<close> with a store of jobs. An operation is a call, the end of a
    handler or the firing of a retry timer; the mutex of the code makes each of them one step, and
    their interleavings are the sequences of steps. The invariant covers the concurrency limit, the exclusive keys, the
    active keys and the history; dependencies, work conservation and the shutdown follow from it.
  \<^item> \<open>Tuner_Manager\<close>: \<open>internal/tuner/manager.go\<close>, \<open>status.go\<close>, \<open>tuner.go\<close>. Reservations of tuners by devices. \<open>AcquireDevice\<close>, which loops while
    it stops a victim, is one step per turn under the mutex.

  \<^bold>\<open>Bounds and fuel.\<close> No fuel is used: loops over indices terminate by the distance to the end, the loops of the
  \<open>PacketReader\<close> by the rest of the input, evictions by the number of modules. Where a theorem assumes
  a bound (a module size below \<open>2^32 - 65536\<close>, at most 65536 blocks, a 13-bit PID) it excludes a wrap-around of the code's
  arithmetic that is reported among the findings, or a value that the wire format cannot hold.

  \<^bold>\<open>Parameters.\<close> The ARIB string decoder is a function argument, of which nothing is assumed. Handlers of jobs, the
  clock, generated identifiers and the processes of tuner devices enter as arguments of the operations.

  \<^bold>\<open>Not modelled.\<close> The web interface and the code generated for it, the database access and its generated queries, the HTTP client for remote servers, configuration files and logging are
  input and output or generated. The stream sessions are goroutines around the modelled demultiplexer. The ARIB character tables are data.
  The service list of the scanner, the EPG conversion and merge, the data broadcast cache and the event hub are left for later.
\<close>

end
